(* ===== verification/IREE_Base.thy ===== *)
theory IREE_Base
  imports "HOL-Library.Word" "HOL-Library.Monad_Syntax" "HOL-Library.Multiset"
begin

text \<open>
  Prelude of the development: the fixed-width integer types of the C sources, the status codes of
  \<^verbatim>\<open>iree/base/api.h\<close>, little-endian byte sequences, and the generic facts on lists, words and
  multisets that the component theories share.

  Conventions used by every theory:
  \<^item> a C function that may touch memory it does not own (a freed object, an index past an
    allocation, a division by zero) returns an \<open>option\<close>; \<open>None\<close> stands for the undefined
    behaviour of C and is never a value the code computes with;
  \<^item> an \<open>iree_status_t\<close> is a value of \<open>iree_status\<close> and is returned beside the new state, because
    the code may have changed state before it returns an error.
\<close>

unbundle bit_operations_syntax

named_theorems le_simps \<open>reading and writing little-endian byte sequences\<close>
named_theorems unat_simps \<open>moving word inequalities and sums to natural numbers\<close>

type_synonym u8 = "8 word"
type_synonym u16 = "16 word"
type_synonym u32 = "32 word"
type_synonym u64 = "64 word"

section \<open>Status codes\<close>

text \<open>\<^verbatim>\<open>iree_status_code_t\<close>; the optional payload of a status carries only diagnostics.\<close>

datatype iree_status =
    IREE_STATUS_OK
  | IREE_STATUS_CANCELLED
  | IREE_STATUS_UNKNOWN
  | IREE_STATUS_INVALID_ARGUMENT
  | IREE_STATUS_DEADLINE_EXCEEDED
  | IREE_STATUS_NOT_FOUND
  | IREE_STATUS_ALREADY_EXISTS
  | IREE_STATUS_PERMISSION_DENIED
  | IREE_STATUS_RESOURCE_EXHAUSTED
  | IREE_STATUS_FAILED_PRECONDITION
  | IREE_STATUS_ABORTED
  | IREE_STATUS_OUT_OF_RANGE
  | IREE_STATUS_UNIMPLEMENTED
  | IREE_STATUS_INTERNAL
  | IREE_STATUS_UNAVAILABLE
  | IREE_STATUS_DATA_LOSS
  | IREE_STATUS_UNAUTHENTICATED

section \<open>Words as natural numbers\<close>

lemma unat_and_eq [unat_simps]: "unat (x AND y) = unat x AND unat (y :: 'a::len word)"
  by (rule bit_eqI) (simp add: bit_simps)

lemma unat_or_eq [unat_simps]: "unat (x OR y) = unat x OR unat (y :: 'a::len word)"
  by (rule bit_eqI) (simp add: bit_simps)

lemma unat_take_bit [unat_simps]: "unat (take_bit k x) = unat (x :: 'a::len word) mod 2 ^ k"
  by (simp add: flip: take_bit_eq_mod) (rule bit_eqI, auto simp: bit_simps)

lemma unat_drop_bit [unat_simps]: "unat (drop_bit k x) = unat (x :: 'a::len word) div 2 ^ k"
  by (simp add: unat_drop_bit_eq flip: drop_bit_eq_div)

lemma unat_push_bit [unat_simps]: "unat (push_bit k x) = unat (x :: 'a::len word) * 2 ^ k mod 2 ^ LENGTH('a)"
  by (simp add: flip: take_bit_eq_mod push_bit_eq_mult) (rule bit_eqI, auto simp: bit_simps)

lemma unat_ucast [unat_simps]: "unat (ucast x :: 'b::len word) = unat (x :: 'a::len word) mod 2 ^ LENGTH('b)"
  by (simp add: unsigned_ucast_eq take_bit_eq_mod)

lemma unat_power_of_two: "k < LENGTH('a) \<Longrightarrow> unat (2 ^ k :: 'a::len word) = 2 ^ k"
  using unat_push_bit [of k "1 :: 'a word"] by (simp add: push_bit_eq_mult)

lemma unat_mask_less: "k \<le> LENGTH('a) \<Longrightarrow> unat (mask k :: 'a::len word) = 2 ^ k - 1"
proof -
  assume "k \<le> LENGTH('a)"
  then have "unat (mask k :: 'a word) = mask k"
    by (intro bit_eqI) (auto simp: bit_simps)
  then show ?thesis by (simp add: mask_eq_exp_minus_1)
qed

lemma and_not_mask_eq: "(x :: 'a::len word) AND NOT (mask k) = push_bit k (drop_bit k x)"
  by (rule bit_word_eqI) (auto simp: bit_simps)

lemma unat_and_not_mask: "unat ((x :: 'a::len word) AND NOT (mask k)) = unat x div 2 ^ k * 2 ^ k"
proof -
  have "unat x div 2 ^ k * 2 ^ k \<le> unat x" by simp
  also have "unat x < 2 ^ LENGTH('a)" by simp
  finally show ?thesis
    by (simp add: and_not_mask_eq unat_push_bit unat_drop_bit)
qed

lemma unat_or_disjoint:
  fixes x y :: "'a::len word"
  assumes "unat y < 2 ^ k" "2 ^ k dvd unat x"
  shows "unat (x OR y) = unat x + unat y"
proof -
  have "bit (unat x) i \<Longrightarrow> \<not> bit (unat y) i" for i
    using assms
    by (metis bit_take_bit_iff bit_push_bit_iff dvd_div_mult_self leD push_bit_eq_mult take_bit_nat_eq_self)
  then have "unat x AND unat y = 0"
    by (intro bit_eqI) (auto simp: bit_simps)
  then have "unat x OR unat y = unat x + unat y"
    by (simp add: disjunctive_add_eq_or)
  then show ?thesis
    by (simp add: unat_or_eq)
qed

section \<open>Little-endian byte sequences\<close>

text \<open>
  The bytes of a \<open>n\<close>-byte integer in the order a little-endian machine stores them, and the
  reading of such a sequence as the shift-and-or of its bytes.
\<close>

fun to_le :: "nat \<Rightarrow> 'a::len word \<Rightarrow> u8 list" where
  "to_le 0 w = []"
| "to_le (Suc n) w = ucast w # to_le n (drop_bit 8 w)"

fun from_le :: "u8 list \<Rightarrow> 'a::len word" where
  "from_le [] = 0"
| "from_le (b # bs) = ucast b OR push_bit 8 (from_le bs)"

lemma length_to_le [simp, le_simps]: "length (to_le n w) = n"
  by (induction n arbitrary: w) auto

lemma bit_from_le_to_le:
  fixes w :: "'a::len word"
  shows "bit (from_le (to_le n w) :: 'a word) i \<longleftrightarrow> bit w i \<and> i < 8 * n"
proof (induction n arbitrary: w i)
  case 0
  then show ?case by simp
next
  case (Suc n)
  have tail: "bit (from_le (to_le n (drop_bit 8 w)) :: 'a word) j \<longleftrightarrow> bit w (8 + j) \<and> j < 8 * n" for j
    using Suc.IH [of "drop_bit 8 w" j] by (simp add: bit_drop_bit_eq)
  show ?case
  proof (cases "i < 8")
    case True
    then show ?thesis
      by (auto simp: bit_simps bit_imp_le_length)
  next
    case False
    then have "8 + (i - 8) = i" by simp
    with False show ?thesis
      by (auto simp: bit_simps tail bit_imp_le_length dest: bit_imp_le_length)
  qed
qed

text \<open>Reading back what was written, when the sequence is wide enough for the word.\<close>

lemma from_le_to_le [simp, le_simps]:
  fixes w :: "'a::len word"
  assumes "LENGTH('a) \<le> 8 * n"
  shows "from_le (to_le n w) = w"
proof (rule bit_word_eqI)
  fix i
  assume "i < LENGTH('a)"
  with assms show "bit (from_le (to_le n w) :: 'a word) i \<longleftrightarrow> bit w i"
    by (simp add: bit_from_le_to_le)
qed

lemma bit_from_le_bound: "bit (from_le bs :: 'a::len word) i \<Longrightarrow> i < 8 * length bs"
proof (induction bs arbitrary: i)
  case Nil
  then show ?case by simp
next
  case (Cons b bs)
  show ?case
  proof (cases "i < 8")
    case False
    then have "bit (from_le bs :: 'a word) (i - 8)"
      using Cons.prems by (auto simp: bit_simps dest: bit_imp_le_length)
    then have "i - 8 < 8 * length bs" by (rule Cons.IH)
    with False show ?thesis by simp
  qed simp
qed

lemma drop_bit_from_le_Cons:
  assumes "8 * Suc (length bs) \<le> LENGTH('a::len)"
  shows "drop_bit 8 (from_le (b # bs) :: 'a word) = from_le bs"
proof (rule bit_word_eqI)
  fix i
  have "\<not> bit b (8 + i)"
    using bit_imp_le_length [of b "8 + i"] by auto
  moreover have "bit (from_le bs :: 'a word) i \<Longrightarrow> 8 + i < LENGTH('a)"
    using bit_from_le_bound [of bs i] assms by fastforce
  ultimately show "bit (drop_bit 8 (from_le (b # bs) :: 'a word)) i \<longleftrightarrow> bit (from_le bs :: 'a word) i"
    by (auto simp: bit_simps)
qed

lemma to_le_from_le [simp, le_simps]:
  "8 * length bs \<le> LENGTH('a::len) \<Longrightarrow> to_le (length bs) (from_le bs :: 'a word) = bs"
proof (induction bs)
  case Nil
  then show ?case by simp
next
  case (Cons b bs)
  have "ucast (from_le (b # bs) :: 'a word) = b"
    using Cons.prems by (intro bit_word_eqI) (auto simp: bit_simps)
  moreover have "drop_bit 8 (from_le (b # bs) :: 'a word) = from_le bs"
    using Cons.prems by (intro drop_bit_from_le_Cons) simp
  ultimately show ?case
    using Cons by simp
qed

end
