(* ===== verification/IREE_Math.thy ===== *)
theory IREE_Math
  imports IREE_Base
begin

text \<open>
  The integer routines of \<^verbatim>\<open>iree/base/alignment.h\<close> and \<^verbatim>\<open>iree/base/internal/math.h\<close>: alignment,
  rotation, rounding to a power of two and half-precision conversion.
  An \<open>iree_host_size_t\<close> is 64 bits wide.
\<close>

section \<open>Definitions\<close>

definition iree_host_align :: "u64 \<Rightarrow> u64 \<Rightarrow> u64" where
  "iree_host_align val alignment = (val + (alignment - 1)) AND NOT (alignment - 1)"

definition iree_device_align :: "u64 \<Rightarrow> u64 \<Rightarrow> u64" where
  "iree_device_align val alignment = (val + (alignment - 1)) AND NOT (alignment - 1)"

definition iree_math_rotl_u64 :: "u64 \<Rightarrow> u32 \<Rightarrow> u64" where
  "iree_math_rotl_u64 n c =
    (let c = c AND 63 in
     if c = 0 then n else push_bit (unat c) n OR drop_bit (unat (64 - c)) n)"

definition iree_math_rotr_u64 :: "u64 \<Rightarrow> u32 \<Rightarrow> u64" where
  "iree_math_rotr_u64 n c =
    (let c = c AND 63 in
     if c = 0 then n else drop_bit (unat c) n OR push_bit (unat ((- c) AND 63)) n)"

definition iree_math_round_up_to_pow2_u32 :: "u32 \<Rightarrow> u32" where
  "iree_math_round_up_to_pow2_u32 n =
    (let n = n - 1;
         n = n OR drop_bit 1 n;
         n = n OR drop_bit 2 n;
         n = n OR drop_bit 4 n;
         n = n OR drop_bit 8 n;
         n = n OR drop_bit 16 n
     in n + 1)"

definition iree_math_round_up_to_pow2_u64 :: "u64 \<Rightarrow> u64" where
  "iree_math_round_up_to_pow2_u64 n =
    (let n = n - 1;
         n = n OR drop_bit 1 n;
         n = n OR drop_bit 2 n;
         n = n OR drop_bit 4 n;
         n = n OR drop_bit 8 n;
         n = n OR drop_bit 16 n;
         n = n OR drop_bit 32 n
     in n + 1)"

definition iree_math_count_ones_u32 :: "u32 \<Rightarrow> int" where
  "iree_math_count_ones_u32 n =
    (let n = n - (drop_bit 1 n AND 0x55555555);
         n = (drop_bit 2 n AND 0x33333333) + (n AND 0x33333333)
     in uint (drop_bit 24 (((n + drop_bit 4 n) AND 0x0F0F0F0F) * 0x01010101)))"

definition iree_math_count_ones_u64 :: "u64 \<Rightarrow> int" where
  "iree_math_count_ones_u64 n =
    iree_math_count_ones_u32 (ucast (drop_bit 32 n)) + iree_math_count_ones_u32 (ucast (n AND 0xFFFFFFFF))"

text \<open>A C \<open>float\<close> is its bit pattern: the two conversions only move bits.\<close>

definition iree_math_f16_to_f32 :: "u16 \<Rightarrow> u32" where
  "iree_math_f16_to_f32 f16_value =
    (let sign = push_bit 31 (ucast (drop_bit 15 (f16_value AND 0x8000)) :: u32);
         exp = (ucast (drop_bit 10 (f16_value AND 0x7C00)) :: u32)
     in if exp > 0
        then sign OR push_bit 23 (exp + 127 - 15) OR push_bit 13 (ucast (f16_value AND 0x3FF))
        else sign OR exp)"

definition iree_math_f32_to_f16 :: "u32 \<Rightarrow> u16" where
  "iree_math_f32_to_f16 u32_value =
    (let sign = push_bit 15 (drop_bit 31 (u32_value AND 0x80000000));
         mantissa = drop_bit 13 (u32_value AND 0x007FFFFF);
         exp = drop_bit 23 (u32_value AND 0x7F800000) - 127 + 15;
         exp = (if exp > 31 then 31 else if exp < 0 then 0 else push_bit 10 exp)
     in ucast (sign OR exp OR mantissa))"

section \<open>Alignment\<close>

lemma unat_iree_host_align:
  assumes "k < 64" "unat v + 2 ^ k \<le> 2 ^ 64"
  shows "unat (iree_host_align v (2 ^ k)) = (unat v + (2 ^ k - 1)) div 2 ^ k * 2 ^ k"
proof -
  have mask: "2 ^ k - 1 = (mask k :: u64)"
    by (simp add: mask_eq_exp_minus_1)
  have "(1 :: nat) \<le> 2 ^ k" by simp
  with assms have "unat (v + mask k) = unat v + (2 ^ k - 1)"
    by (simp add: unat_plus_if' unat_mask_less)
  then show ?thesis
    by (simp add: iree_host_align_def mask unat_and_not_mask)
qed

section \<open>Powers of two\<close>

text \<open>
  The smearing steps: after shifts by 1, 2, 4, ..., a bit is set exactly when one of the
  corresponding window of higher bits was set.
\<close>

definition smeared :: "nat \<Rightarrow> 'a::len word \<Rightarrow> 'a word \<Rightarrow> bool" where
  "smeared w x y \<longleftrightarrow> (\<forall>i. bit y i \<longleftrightarrow> (\<exists>j. i \<le> j \<and> j < i + w \<and> bit x j))"

lemma smeared_refl: "smeared 1 x x"
  by (auto simp: smeared_def Suc_le_eq less_Suc_eq_le intro: le_antisym)

lemma smeared_step:
  assumes "smeared w x y"
  shows "smeared (2 * w) x (y OR drop_bit w y)"
proof -
  have split: "i \<le> j \<and> j < i + 2 * w \<and> bit x j
      \<longleftrightarrow> (i \<le> j \<and> j < i + w \<and> bit x j) \<or> (w + i \<le> j \<and> j < w + i + w \<and> bit x j)" for i j
    by auto
  from assms show ?thesis
    by (simp add: smeared_def bit_simps split ex_disj_distrib)
qed

lemma smeared_full:
  fixes x y :: "'a::len word"
  assumes "smeared w x y" "LENGTH('a) \<le> w"
  shows "bit y i \<longleftrightarrow> (\<exists>j\<ge>i. bit x j)"
  using assms by (auto simp: smeared_def) (meson bit_imp_le_length order_less_le_trans trans_le_add2)

text \<open>The number of significant bits of a word, and the smeared word as a mask of that width.\<close>

definition bit_width :: "'a::len word \<Rightarrow> nat" where
  "bit_width x = (if x = 0 then 0 else Suc (Max {i. bit x i}))"

lemma finite_bits [simp]: "finite {i. bit (x :: 'a::len word) i}"
  by (rule finite_subset [of _ "{..<LENGTH('a)}"]) (auto dest: bit_imp_le_length)

lemma less_bit_width: "i < bit_width (x :: 'a::len word) \<longleftrightarrow> (\<exists>j\<ge>i. bit x j)"
proof (cases "x = 0")
  case False
  then have "{j. bit x j} \<noteq> {}"
    by (auto intro!: bit_word_eqI)
  then show ?thesis
    using False by (simp add: bit_width_def less_Suc_eq_le Max_ge_iff) blast
qed (simp add: bit_width_def)

lemma smeared_mask:
  fixes x y :: "'a::len word"
  assumes "smeared w x y" "LENGTH('a) \<le> w"
  shows "y = mask (bit_width x)"
proof (rule bit_word_eqI)
  fix i
  assume "i < LENGTH('a)"
  then show "bit y i \<longleftrightarrow> bit (mask (bit_width x) :: 'a word) i"
    using smeared_full [OF assms] by (simp add: bit_simps less_bit_width)
qed

lemma round_up_u32_eq: "iree_math_round_up_to_pow2_u32 n = 2 ^ bit_width (n - 1)"
proof -
  define x where "x = n - 1"
  define x1 where "x1 = x OR drop_bit 1 x"
  define x2 where "x2 = x1 OR drop_bit 2 x1"
  define x4 where "x4 = x2 OR drop_bit 4 x2"
  define x8 where "x8 = x4 OR drop_bit 8 x4"
  define x16 where "x16 = x8 OR drop_bit 16 x8"
  have "smeared 2 x x1" using smeared_step [OF smeared_refl] by (simp add: x1_def)
  from smeared_step [OF this] have "smeared 4 x x2" by (simp add: x2_def)
  from smeared_step [OF this] have "smeared 8 x x4" by (simp add: x4_def)
  from smeared_step [OF this] have "smeared 16 x x8" by (simp add: x8_def)
  from smeared_step [OF this] have "smeared 32 x x16" by (simp add: x16_def)
  then have "x16 = mask (bit_width x)" by (rule smeared_mask) simp
  moreover have "iree_math_round_up_to_pow2_u32 n = x16 + 1"
    by (simp add: iree_math_round_up_to_pow2_u32_def Let_def x_def x1_def x2_def x4_def x8_def x16_def)
  ultimately show ?thesis
    by (simp add: mask_eq_exp_minus_1 x_def)
qed

lemma round_up_u64_eq: "iree_math_round_up_to_pow2_u64 n = 2 ^ bit_width (n - 1)"
proof -
  define x where "x = n - 1"
  define x1 where "x1 = x OR drop_bit 1 x"
  define x2 where "x2 = x1 OR drop_bit 2 x1"
  define x4 where "x4 = x2 OR drop_bit 4 x2"
  define x8 where "x8 = x4 OR drop_bit 8 x4"
  define x16 where "x16 = x8 OR drop_bit 16 x8"
  define x32 where "x32 = x16 OR drop_bit 32 x16"
  have "smeared 2 x x1" using smeared_step [OF smeared_refl] by (simp add: x1_def)
  from smeared_step [OF this] have "smeared 4 x x2" by (simp add: x2_def)
  from smeared_step [OF this] have "smeared 8 x x4" by (simp add: x4_def)
  from smeared_step [OF this] have "smeared 16 x x8" by (simp add: x8_def)
  from smeared_step [OF this] have "smeared 32 x x16" by (simp add: x16_def)
  from smeared_step [OF this] have "smeared 64 x x32" by (simp add: x32_def)
  then have "x32 = mask (bit_width x)" by (rule smeared_mask) simp
  moreover have "iree_math_round_up_to_pow2_u64 n = x32 + 1"
    by (simp add: iree_math_round_up_to_pow2_u64_def Let_def x_def x1_def x2_def x4_def x8_def x16_def x32_def)
  ultimately show ?thesis
    by (simp add: mask_eq_exp_minus_1 x_def)
qed

lemma unat_less_bit_width: "unat (x :: 'a::len word) < 2 ^ bit_width x"
proof -
  have "bit x i \<Longrightarrow> i < bit_width x" for i
    using less_bit_width [of i x] by blast
  then have "take_bit (bit_width x) (unat x) = unat x"
    by (intro bit_eqI) (auto simp: bit_simps)
  then show ?thesis
    by (simp add: take_bit_nat_eq_self_iff)
qed

lemma bit_width_le_iff: "bit_width (x :: 'a::len word) \<le> k \<longleftrightarrow> unat x < 2 ^ k"
proof
  assume "bit_width x \<le> k"
  then show "unat x < 2 ^ k"
    using unat_less_bit_width [of x] by (meson order_less_le_trans one_le_numeral power_increasing)
next
  assume "unat x < 2 ^ k"
  then have "take_bit k (unat x) = unat x" by (simp add: take_bit_nat_eq_self_iff)
  then have unat: "bit (unat x) j \<Longrightarrow> j < k" for j
    by (metis bit_take_bit_iff)
  have "\<not> bit x j" if "k \<le> j" for j
  proof
    assume "bit x j"
    then have "bit (unat x) j" by (simp add: bit_simps bit_imp_le_length)
    with unat that show False by fastforce
  qed
  then show "bit_width x \<le> k"
    using less_bit_width [of k x] by (meson linorder_not_le)
qed

section \<open>Half precision\<close>

lemma top_bit_and: "k = LENGTH('a) - 1 \<Longrightarrow> drop_bit k (x AND 2 ^ k) = drop_bit k (x :: 'a::len word)"
proof (rule bit_word_eqI)
  fix n
  assume "k = LENGTH('a) - 1"
  then show "bit (drop_bit k (x AND 2 ^ k)) n = bit (drop_bit k x) n"
    by (cases n) (auto simp: bit_simps bit_exp_iff dest: bit_imp_le_length)
qed

lemma f16_fields:
  fixes h :: u16
  shows "drop_bit 15 (h AND 0x8000) = drop_bit 15 h"
    "drop_bit 10 (h AND 0x7C00) = take_bit 5 (drop_bit 10 h)"
    "h AND 0x3FF = take_bit 10 h"
  using top_bit_and [of 15 h] by (simp_all add: take_bit_eq_mask mask_numeral)

lemma f32_fields:
  fixes u :: u32
  shows "drop_bit 31 (u AND 0x80000000) = drop_bit 31 u"
    "drop_bit 23 (u AND 0x7F800000) = take_bit 8 (drop_bit 23 u)"
    "drop_bit 13 (u AND 0x007FFFFF) = take_bit 10 (drop_bit 13 u)"
  using top_bit_and [of 31 u] by (simp_all add: take_bit_eq_mask mask_numeral)

lemma unat_f16_to_f32:
  assumes "unat h div 2 ^ 10 mod 32 \<noteq> 0"
  shows "unat (iree_math_f16_to_f32 h)
    = unat h div 2 ^ 15 * 2 ^ 31 + (unat h div 2 ^ 10 mod 32 + 112) * 2 ^ 23 + unat h mod 1024 * 2 ^ 13"
proof -
  define e where "e = (ucast (take_bit 5 (drop_bit 10 h)) :: u32)"
  have e: "unat e = unat h div 2 ^ 10 mod 32"
    by (simp add: e_def unat_ucast unat_simps)
  have "unat h < 2 ^ 16" using unsigned_less [of h, where ?'a = nat] by simp
  then have s: "unat h div 2 ^ 15 < 2" by simp
  have "unat (e + 112) = unat e + 112"
    using e by (simp add: unat_plus_if')
  moreover have "e > 0"
    using assms e by (metis unat_0 word_greater_zero_iff)
  ultimately have Y: "unat (push_bit 23 (e + 112)) = (unat e + 112) * 2 ^ 23" and "e > 0"
    using e by (simp_all add: unat_push_bit)
  have X: "unat (push_bit 31 (ucast (drop_bit 15 h) :: u32)) = unat h div 2 ^ 15 * 2 ^ 31"
    using s by (simp add: unat_simps)
  have Z: "unat (push_bit 13 (ucast (take_bit 10 h)) :: u32) = unat h mod 1024 * 2 ^ 13"
    by (simp add: unat_simps)
  have "unat h mod 1024 < 1024" "unat e < 32" using e by simp_all
  then have YZ: "unat (push_bit 23 (e + 112) OR push_bit 13 (ucast (take_bit 10 h)) :: u32)
      = (unat e + 112) * 2 ^ 23 + unat h mod 1024 * 2 ^ 13"
    by (subst unat_or_disjoint [where k = 23]) (simp_all add: Y Z)
  then have "unat (push_bit 31 (ucast (drop_bit 15 h) :: u32)
        OR push_bit 23 (e + 112) OR push_bit 13 (ucast (take_bit 10 h)))
      = unat h div 2 ^ 15 * 2 ^ 31 + (unat e + 112) * 2 ^ 23 + unat h mod 1024 * 2 ^ 13"
    using \<open>unat e < 32\<close> by (subst unat_or_disjoint [where k = 31]) (simp_all add: X)
  with \<open>e > 0\<close> e show ?thesis
    unfolding iree_math_f16_to_f32_def f16_fields Let_def e_def [symmetric] by (simp add: add.commute)
qed

lemma unat_f32_to_f16:
  assumes "112 \<le> unat u div 2 ^ 23 mod 256" "unat u div 2 ^ 23 mod 256 < 144"
  shows "unat (iree_math_f32_to_f16 u)
    = unat u div 2 ^ 31 * 2 ^ 15 + (unat u div 2 ^ 23 mod 256 - 112) * 2 ^ 10 + unat u div 2 ^ 13 mod 1024"
proof -
  define e where "e = take_bit 8 (drop_bit 23 u) - 127 + 15"
  have t: "unat (take_bit 8 (drop_bit 23 u)) = unat u div 2 ^ 23 mod 256"
    by (simp add: unat_simps)
  have "e = take_bit 8 (drop_bit 23 u) - 112" by (simp add: e_def)
  moreover have "112 \<le> take_bit 8 (drop_bit 23 u)" using t assms by (simp add: word_le_nat_alt)
  ultimately have e: "unat e = unat u div 2 ^ 23 mod 256 - 112"
    using t by (simp add: unat_sub)
  with assms have less: "unat e < 32" by linarith
  then have "\<not> e > 31" by (simp add: word_less_nat_alt)
  have "unat u < 2 ^ 32" using unsigned_less [of u, where ?'a = nat] by simp
  then have s: "unat u div 2 ^ 31 < 2" by simp
  have X: "unat (push_bit 15 (drop_bit 31 u)) = unat u div 2 ^ 31 * 2 ^ 15"
    using s by (simp add: unat_simps)
  have Y: "unat (push_bit 10 e) = unat e * 2 ^ 10"
    using less by (simp add: unat_simps)
  have Z: "unat (take_bit 10 (drop_bit 13 u)) = unat u div 2 ^ 13 mod 1024"
    by (simp add: unat_simps)
  have YZ: "unat (push_bit 10 e OR take_bit 10 (drop_bit 13 u)) = unat e * 2 ^ 10 + unat u div 2 ^ 13 mod 1024"
    by (subst unat_or_disjoint [where k = 10]) (simp_all add: Y Z)
  moreover have "unat u div 2 ^ 13 mod 1024 < 1024" by simp
  ultimately have "unat (push_bit 15 (drop_bit 31 u) OR push_bit 10 e OR take_bit 10 (drop_bit 13 u))
      = unat u div 2 ^ 31 * 2 ^ 15 + unat e * 2 ^ 10 + unat u div 2 ^ 13 mod 1024"
    using less by (subst unat_or_disjoint [where k = 15]) (simp_all add: X)
  moreover have "unat u div 2 ^ 31 * 2 ^ 15 + unat e * 2 ^ 10 + unat u div 2 ^ 13 mod 1024 < 65536"
    using less s \<open>unat u div 2 ^ 13 mod 1024 < 1024\<close> by simp
  ultimately show ?thesis
    using \<open>\<not> e > 31\<close> less s
    unfolding iree_math_f32_to_f16_def f32_fields Let_def e_def [symmetric] by (simp add: e unat_ucast)
qed

text \<open>Every half-precision value with a nonzero exponent field survives the trip through \<open>float\<close>.\<close>

lemma f16_f32_f16:
  assumes "unat h div 2 ^ 10 mod 32 \<noteq> 0"
  shows "iree_math_f32_to_f16 (iree_math_f16_to_f32 h) = h"
proof -
  define s e m where "s = unat h div 2 ^ 15" and "e = unat h div 2 ^ 10 mod 32" and "m = unat h mod 1024"
  have u: "unat (iree_math_f16_to_f32 h) = s * 2 ^ 31 + (e + 112) * 2 ^ 23 + m * 2 ^ 13"
    using assms by (simp add: unat_f16_to_f32 s_def e_def m_def)
  have "unat h < 2 ^ 16" using unsigned_less [of h, where ?'a = nat] by simp
  then have bounds: "s < 2" "e < 32" "m < 1024"
    unfolding s_def e_def m_def by simp_all
  have h: "unat h = s * 2 ^ 15 + e * 2 ^ 10 + m"
  proof -
    have "unat h = unat h div 1024 * 1024 + m"
      unfolding m_def by (rule div_mult_mod_eq [symmetric])
    moreover have "unat h div 1024 = s * 32 + e"
      using div_mult_mod_eq [of "unat h div 1024" 32] by (simp add: s_def e_def flip: div_mult2_eq)
    ultimately show ?thesis by simp
  qed
  have "unat (iree_math_f16_to_f32 h) = s * 2 ^ 31 + ((e + 112) * 2 ^ 23 + m * 2 ^ 13)"
    using u by simp
  then have s': "unat (iree_math_f16_to_f32 h) div 2 ^ 31 = s"
    using bounds by simp
  have "unat (iree_math_f16_to_f32 h) = (s * 256 + (e + 112)) * 2 ^ 23 + m * 2 ^ 13"
    using u by simp
  then have "unat (iree_math_f16_to_f32 h) div 2 ^ 23 = s * 256 + (e + 112)"
    using bounds by (simp del: distrib_right_numeral)
  then have e': "unat (iree_math_f16_to_f32 h) div 2 ^ 23 mod 256 = e + 112"
    using bounds by simp
  have "unat (iree_math_f16_to_f32 h) = ((s * 256 + (e + 112)) * 1024 + m) * 2 ^ 13"
    using u by simp
  then have "unat (iree_math_f16_to_f32 h) div 2 ^ 13 = (s * 256 + (e + 112)) * 1024 + m"
    by (simp del: distrib_right_numeral)
  then have m': "unat (iree_math_f16_to_f32 h) div 2 ^ 13 mod 1024 = m"
    using bounds by (simp del: distrib_right_numeral)
  then have "unat (iree_math_f32_to_f16 (iree_math_f16_to_f32 h)) = unat h"
    using bounds h unat_f32_to_f16 [of "iree_math_f16_to_f32 h"] unfolding s' e' m' by simp
  then show ?thesis by (simp add: word_unat_eq_iff)
qed

section \<open>Properties\<close>

text \<open>
  Aligning up (\<^verbatim>\<open>iree_host_align\<close>) yields the smallest multiple of the alignment that is not
  below the value, as long as the sum does not wrap.
\<close>

theorem iree_host_align_least:
  assumes "k < 64" "unat v + 2 ^ k \<le> 2 ^ 64"
  shows "2 ^ k dvd unat (iree_host_align v (2 ^ k)) \<and> unat v \<le> unat (iree_host_align v (2 ^ k)) \<and>
    (\<forall>m. 2 ^ k dvd m \<and> unat v \<le> m \<longrightarrow> unat (iree_host_align v (2 ^ k)) \<le> m)"
proof -
  let ?d = "2 ^ k :: nat"
  have d: "?d > 0" by simp
  have eq: "unat (iree_host_align v (2 ^ k)) = (unat v + (?d - 1)) div ?d * ?d"
    using assms by (rule unat_iree_host_align)
  have "unat v \<le> (unat v + (?d - 1)) div ?d * ?d"
    using div_mult_mod_eq [of "unat v + (?d - 1)" ?d] mod_less_divisor [OF d, of "unat v + (?d - 1)"] by linarith
  moreover have "(unat v + (?d - 1)) div ?d * ?d \<le> m" if "?d dvd m" "unat v \<le> m" for m
  proof -
    from that(1) obtain q where q: "m = q * ?d" by (metis dvd_def mult.commute)
    have "unat v + (?d - 1) < q * ?d + ?d" using that(2) d unfolding q by linarith
    then have "(unat v + (?d - 1)) div ?d < Suc q" by (intro less_mult_imp_div_less) simp
    then show ?thesis by (simp add: q)
  qed
  ultimately show ?thesis by (simp add: eq)
qed

theorem iree_host_align_least_witness:
  "2 ^ 4 dvd unat (iree_host_align 20 (2 ^ 4)) \<and> 20 \<le> unat (iree_host_align 20 (2 ^ 4)) \<and> unat (iree_host_align 20 (2 ^ 4)) \<le> 32"
  using iree_host_align_least [of 4 20] by simp

text \<open>
  \<^verbatim>\<open>iree_math_round_up_to_pow2_u32\<close>, a smearing of the bits below the highest one, is the
  smallest power of two that is not below its argument; above 2^31 the result wraps to zero.
\<close>

theorem round_up_to_pow2_u32_least:
  assumes "0 < n"
  shows "if unat n \<le> 2 ^ 31
    then \<exists>j \<le> 31. unat (iree_math_round_up_to_pow2_u32 n) = 2 ^ j \<and> unat n \<le> 2 ^ j \<and> (\<forall>i < j. 2 ^ i < unat n)
    else iree_math_round_up_to_pow2_u32 n = 0"
proof -
  have n: "unat (n - 1) = unat n - 1" "0 < unat n"
    using assms by (simp_all add: unat_minus_one word_gt_0 unat_gt_0)
  have w: "bit_width (n - 1) \<le> k \<longleftrightarrow> unat n \<le> 2 ^ k" for k
    using n by (auto simp: bit_width_le_iff)
  show ?thesis
  proof (cases "unat n \<le> 2 ^ 31")
    case True
    then have j: "bit_width (n - 1) \<le> 31" by (simp only: w)
    then have "unat (2 ^ bit_width (n - 1) :: u32) = 2 ^ bit_width (n - 1)" by (intro unat_power_of_two) simp
    moreover have "2 ^ i < unat n" if "i < bit_width (n - 1)" for i
      using w [of i] that by simp
    ultimately show ?thesis
      using True j w [of "bit_width (n - 1)"] by (auto simp: round_up_u32_eq intro!: exI [of _ "bit_width (n - 1)"])
  next
    case False
    then have "31 < bit_width (n - 1)" using w [of 31] by linarith
    moreover have "(2 :: u32) ^ m = 0" if "31 < m" for m
      using that by (simp add: exp_eq_zero_iff)
    ultimately have "(2 :: u32) ^ bit_width (n - 1) = 0" by blast
    with False show ?thesis by (simp add: round_up_u32_eq)
  qed
qed

theorem round_up_to_pow2_u32_least_witness:
  "\<exists>j \<le> 31. unat (iree_math_round_up_to_pow2_u32 5) = 2 ^ j \<and> (5 :: nat) \<le> 2 ^ j \<and> (\<forall>i < j. 2 ^ i < (5 :: nat))"
  using round_up_to_pow2_u32_least [of 5] by simp

text \<open>
  C34: converting a half-precision number with a non-zero exponent to single precision and back
  (\<^verbatim>\<open>iree_math_f16_to_f32\<close>, \<^verbatim>\<open>iree_math_f32_to_f16\<close>) gives the same bits.
\<close>

theorem f16_f32_roundtrip:
  assumes "drop_bit 10 (h AND 0x7C00) \<noteq> (0 :: u16)"
  shows "iree_math_f32_to_f16 (iree_math_f16_to_f32 h) = h"
proof (rule f16_f32_f16)
  have "unat (drop_bit 10 (h AND 0x7C00)) \<noteq> 0" using assms by (simp only: unat_eq_zero not_False_eq_True)
  then show "unat h div 2 ^ 10 mod 32 \<noteq> 0"
    unfolding f16_fields unat_take_bit unat_drop_bit by simp
qed

theorem f16_f32_roundtrip_witness: "iree_math_f32_to_f16 (iree_math_f16_to_f32 0x3C01) = 0x3C01"
  using f16_f32_roundtrip [of "0x3C01"] by simp

end
