(* ===== verification/IREE_Bits.thy ===== *)
theory IREE_Bits
  imports IREE_Math
begin

text \<open>
  The bit counting routines of \<^verbatim>\<open>iree/base/internal/math.h\<close>: the scan for the lowest set bit, in the form
  the header has for compilers without a builtin, and why the population count of the header counts the set
  bits of a word.
\<close>

definition iree_shr_u64 :: "u64 \<Rightarrow> int \<Rightarrow> u64" where
  "iree_shr_u64 n shamt = (if shamt < 64 then drop_bit (nat shamt) n else 0)"

definition iree_math_count_trailing_zeros_u32 :: "u32 \<Rightarrow> int" where
  "iree_math_count_trailing_zeros_u32 n =
    (let n = n AND (NOT n + 1);
         c = 31;
         c = (if n AND 0x0000FFFF \<noteq> 0 then c - 16 else c);
         c = (if n AND 0x00FF00FF \<noteq> 0 then c - 8 else c);
         c = (if n AND 0x0F0F0F0F \<noteq> 0 then c - 4 else c);
         c = (if n AND 0x33333333 \<noteq> 0 then c - 2 else c)
     in if n AND 0x55555555 \<noteq> 0 then c - 1 else c)"

definition iree_math_count_trailing_zeros_u64 :: "u64 \<Rightarrow> int" where
  "iree_math_count_trailing_zeros_u64 n =
    (let n = n AND (NOT n + 1);
         c = 63;
         c = (if n AND 0x00000000FFFFFFFF \<noteq> 0 then c - 32 else c);
         c = (if n AND 0x0000FFFF0000FFFF \<noteq> 0 then c - 16 else c);
         c = (if n AND 0x00FF00FF00FF00FF \<noteq> 0 then c - 8 else c);
         c = (if n AND 0x0F0F0F0F0F0F0F0F \<noteq> 0 then c - 4 else c);
         c = (if n AND 0x3333333333333333 \<noteq> 0 then c - 2 else c)
     in if n AND 0x5555555555555555 \<noteq> 0 then c - 1 else c)"

section \<open>Trailing zeros\<close>

lemma isolate_lowest_bit:
  fixes n :: "'a::len word"
  assumes "bit n k" "\<forall>i < k. \<not> bit n i"
  shows "n AND (NOT n + 1) = push_bit k 1"
proof -
  define p where "p = push_bit 1 (drop_bit (Suc k) n)"
  have k: "k < LENGTH('a)" using assms(1) by (simp add: bit_imp_le_length)
  have bp: "bit p i \<longleftrightarrow> 0 < i \<and> i < LENGTH('a) \<and> bit n (k + i)" for i
    unfolding p_def bit_push_bit_iff bit_drop_bit_eq by (cases i) (auto simp: ac_simps)
  have n: "n = push_bit k (p OR 1)"
  proof (rule bit_word_eqI)
    fix i assume "i < LENGTH('a)"
    show "bit n i \<longleftrightarrow> bit (push_bit k (p OR 1)) i"
      using assms k \<open>i < _\<close> by (cases "i < k"; cases "i = k") (auto simp: bit_simps bp)
  qed
  have odd: "p OR 1 = p + 1" by (rule disjunctive_add_eq_or [symmetric]) (rule bit_word_eqI, auto simp: bit_simps bp)
  have "NOT n + 1 = - n" by (simp add: minus_eq_not_plus_1)
  also have "\<dots> = push_bit k (- (p + 1))" by (subst n, subst odd) (simp add: push_bit_eq_mult algebra_simps)
  also have "- (p + 1) = NOT p" by (simp add: not_eq_complement)
  finally have "n AND (NOT n + 1) = push_bit k (p OR 1) AND push_bit k (NOT p)" by (subst (1) n) simp
  also have "\<dots> = push_bit k ((p OR 1) AND NOT p)" by simp
  also have "(p OR 1) AND NOT p = 1" by (rule bit_word_eqI) (auto simp: bit_simps bp)
  finally show ?thesis .
qed

lemma lowest_bit_exists:
  fixes n :: "'a::len word"
  assumes "n \<noteq> 0"
  obtains k where "bit n k" "\<forall>i < k. \<not> bit n i" "k < LENGTH('a)"
proof -
  obtain j where "bit n j" using assms by (metis bit_eqI bit_0_eq bot_apply bot_bool_def)
  then have "bit n (LEAST j. bit n j)" by (rule LeastI)
  moreover have "\<forall>i < (LEAST j. bit n j). \<not> bit n i" using not_less_Least by blast
  ultimately show ?thesis using that bit_imp_le_length by blast
qed

lemma trailing_zeros_powers: "list_all (\<lambda>k. iree_math_count_trailing_zeros_u64 (push_bit k 1) = int k) [0..<64]"
  by (simp add: upt_rec [of _ "numeral _"] iree_math_count_trailing_zeros_u64_def)

section \<open>Population count\<close>

text \<open>The routine works on the bytes of a word; for one byte it is checked on all of them.\<close>

definition byte :: "int \<Rightarrow> bool" where "byte x \<longleftrightarrow> take_bit 8 x = x"

lemma byte_iff: "byte x \<longleftrightarrow> 0 \<le> x \<and> x < 256"
proof
  assume "byte x"
  then have "x = take_bit 8 x" by (simp add: byte_def)
  then show "0 \<le> x \<and> x < 256" using take_bit_nonnegative [of 8 x] take_bit_int_less_exp [of 8 x] by simp
qed (simp add: byte_def take_bit_int_eq_self)

lemma byte_bit: "byte x \<Longrightarrow> bit x i \<Longrightarrow> i < 8"
  unfolding byte_def by (metis bit_take_bit_iff)

lemma byte_and_byte: "byte m \<Longrightarrow> byte (x AND m)"
  unfolding byte_def by (rule bit_eqI) (auto simp: bit_simps dest: byte_bit [unfolded byte_def])

lemma byte_cat:
  assumes "byte x"
  shows "x + 256 * y = x OR push_bit 8 y"
proof -
  have "x AND push_bit 8 y = 0" by (rule bit_eqI) (auto simp: bit_simps dest!: byte_bit [OF assms])
  then have "x + push_bit 8 y = x OR push_bit 8 y" by (rule disjunctive_add_eq_or)
  then show ?thesis by (simp add: push_bit_eq_mult mult.commute)
qed

text \<open>Shifting first moves bits of the next byte into this one, where the mask has none.\<close>

lemma byte_shift_and:
  fixes b r m M :: int
  assumes "byte b" "take_bit (8 - s) m = m" "s < 8"
  shows "((b + 256 * r) div 2 ^ s) AND (m + 256 * M) = (b div 2 ^ s AND m) + 256 * (r div 2 ^ s AND M)"
proof -
  have mb: "i < 8 - s" if "bit m i" for i
    using that assms(2) by (metis bit_take_bit_iff)
  have m: "byte m" unfolding byte_def by (rule bit_eqI) (auto simp: bit_simps dest: mb)
  have "(b + 256 * r) div 2 ^ s = drop_bit s (b OR push_bit 8 r)" by (simp add: byte_cat [OF assms(1)] drop_bit_eq_div)
  moreover have "drop_bit s (b OR push_bit 8 r) AND (m OR push_bit 8 M) = (drop_bit s b AND m) OR push_bit 8 (drop_bit s r AND M)"
  proof (rule bit_eqI)
    fix i
    show "bit (drop_bit s (b OR push_bit 8 r) AND (m OR push_bit 8 M)) i \<longleftrightarrow> bit ((drop_bit s b AND m) OR push_bit 8 (drop_bit s r AND M)) i"
    proof (cases "i < 8")
      case True
      then show ?thesis using mb [of i] by (auto simp: bit_simps)
    next
      case False
      then have "s + i - 8 = s + (i - 8)" by simp
      then show ?thesis using False mb [of i] byte_bit [OF assms(1), of "s + i"] by (auto simp: bit_simps)
    qed
  qed
  ultimately show ?thesis using byte_cat [OF m] byte_cat [OF byte_and_byte [OF m], of "drop_bit s b"] by (simp add: drop_bit_eq_div)
qed

definition cat4 :: "int \<Rightarrow> int \<Rightarrow> int \<Rightarrow> int \<Rightarrow> int" where
  "cat4 a b c d = a + 256 * (b + 256 * (c + 256 * d))"

lemma cat4_bytes: "n = cat4 (n mod 256) (n div 256 mod 256) (n div 65536 mod 256) (n div 16777216)"
proof -
  have "n = n mod 256 + 256 * (n div 256)" "n div 256 = n div 256 mod 256 + 256 * (n div 65536)"
    "n div 65536 = n div 65536 mod 256 + 256 * (n div 16777216)"
    using mod_mult_div_eq [of n 256] mod_mult_div_eq [of "n div 256" 256] mod_mult_div_eq [of "n div 65536" 256] by (simp_all flip: zdiv_zmult2_eq)
  then show ?thesis unfolding cat4_def by simp
qed

lemma cat4_shift_and:
  assumes "byte a" "byte b" "byte c" "take_bit (8 - s) m = m" "s < 8"
  shows "cat4 a b c d div 2 ^ s AND cat4 m m m m = cat4 (a div 2 ^ s AND m) (b div 2 ^ s AND m) (c div 2 ^ s AND m) (d div 2 ^ s AND m)"
  unfolding cat4_def byte_shift_and [OF assms(1,4,5)] byte_shift_and [OF assms(2,4,5)] byte_shift_and [OF assms(3,4,5)] ..

lemma cat4_shift:
  "cat4 a c1 c2 d div 16 = cat4 (a div 16 + 16 * (c1 mod 16)) (c1 div 16 + 16 * (c2 mod 16)) (c2 div 16 + 16 * (d mod 16)) (d div 16)"
proof -
  have e: "x + 256 * r = x + (16 * r) * 16" for x r :: int by simp
  have step: "(x + 256 * r) div 16 = x div 16 + 16 * (r mod 16) + 256 * (r div 16)" for x r :: int
  proof -
    have "(x + 256 * r) div 16 = x div 16 + 16 * r" unfolding e by (subst div_mult_self1) simp_all
    moreover have "16 * r = 16 * (r mod 16) + 256 * (r div 16)" using mod_mult_div_eq [of r 16] by linarith
    ultimately show ?thesis by linarith
  qed
  have m: "(x + 256 * r) mod 16 = x mod 16" for x r :: int unfolding e by (rule mod_mult_self1)
  show ?thesis unfolding cat4_def step m by simp
qed

definition ones_pairs :: "int \<Rightarrow> int" where "ones_pairs b = b - (b div 2 AND 0x55)"
definition ones_nibbles :: "int \<Rightarrow> int" where "ones_nibbles c = (c div 4 AND 0x33) + (c AND 0x33)"
definition ones_byte :: "int \<Rightarrow> int" where "ones_byte b = (\<Sum>i\<leftarrow>[0..<8]. of_bool (bit b i))"

lemma ones_bytes_check:
  "list_all (\<lambda>b. byte (ones_pairs b) \<and> ones_nibbles (ones_pairs b) mod 16 \<le> 4 \<and> 0 \<le> ones_nibbles (ones_pairs b) \<and> ones_nibbles (ones_pairs b) div 16 \<le> 4
    \<and> ones_nibbles (ones_pairs b) mod 16 + ones_nibbles (ones_pairs b) div 16 = ones_byte b) [0..255]"
  by code_simp

definition ones :: "nat \<Rightarrow> int \<Rightarrow> int" where "ones n x = (\<Sum>i<n. of_bool (bit x i))"

lemma ones_byte_eq: "ones_byte b = ones 8 b"
  by (simp add: ones_byte_def ones_def interv_sum_list_conv_sum_set_nat atLeast0LessThan)

lemma ones_cat:
  assumes "byte a"
  shows "ones (8 + n) (a + 256 * r) = ones 8 a + ones n r"
proof -
  have b: "bit (a + 256 * r) i = (if i < 8 then bit a i else bit r (i - 8))" for i
    using byte_bit [OF assms, of i] by (auto simp: byte_cat [OF assms] bit_simps)
  have "x \<in> {..<8} \<union> (+) 8 ` {..<n}" if "x < 8 + n" for x
    using that image_eqI [of x "(+) 8" "x - 8" "{..<n}"] by (cases "x < 8") auto
  then have u: "{..<8 + n} = {..<8} \<union> (+) 8 ` {..<n}" by auto
  let ?f = "\<lambda>i. of_bool (bit (a + 256 * r) i) :: int"
  have "sum ?f {..<8 + n} = sum ?f {..<8} + sum ?f ((+) 8 ` {..<n})" unfolding u by (rule sum.union_disjoint) auto
  also have "sum ?f {..<8} = ones 8 a" unfolding ones_def by (rule sum.cong) (simp_all only: b lessThan_iff if_True)
  also have "sum ?f ((+) 8 ` {..<n}) = sum (?f \<circ> (+) 8) {..<n}" by (rule sum.reindex) simp
  also have "\<dots> = ones n r" unfolding ones_def by (rule sum.cong) (simp_all add: b)
  finally show ?thesis by (simp only: ones_def)
qed

lemma ones_byte_facts:
  assumes "byte b"
  shows "byte (ones_pairs b)" "0 \<le> ones_nibbles (ones_pairs b)" "ones_nibbles (ones_pairs b) mod 16 \<le> 4" "ones_nibbles (ones_pairs b) div 16 \<le> 4"
    "ones_nibbles (ones_pairs b) mod 16 + ones_nibbles (ones_pairs b) div 16 = ones 8 b"
proof -
  have "b \<in> set [0..255]" using assms by (simp add: byte_iff)
  from ones_bytes_check [unfolded list_all_iff, rule_format, OF this] ones_byte_eq
  show "byte (ones_pairs b)" "0 \<le> ones_nibbles (ones_pairs b)" "ones_nibbles (ones_pairs b) mod 16 \<le> 4" "ones_nibbles (ones_pairs b) div 16 \<le> 4"
    "ones_nibbles (ones_pairs b) mod 16 + ones_nibbles (ones_pairs b) div 16 = ones 8 b" by auto
qed

lemma small_nibbles: "0 \<le> c \<Longrightarrow> c mod 16 \<le> 4 \<Longrightarrow> c div 16 \<le> 4 \<Longrightarrow> byte (c :: int) \<and> c \<le> 68"
proof -
  assume a: "0 \<le> c" "c mod 16 \<le> 4" "c div 16 \<le> 4"
  note e = mult_div_mod_eq [of 16 c]
  have "c \<le> 68" using e a by linarith
  then show ?thesis using a by (simp add: byte_iff)
qed

text \<open>The third step adds the two halves of each byte, the multiplication adds the bytes.\<close>

lemma nibbles_step:
  assumes "\<And>i. 0 \<le> c i" "\<And>i. c i mod 16 \<le> 4" "\<And>i :: nat. c i div 16 \<le> (4 :: int)"
  shows "(cat4 (c 0) (c 1) (c 2) (c 3) + cat4 (c 0) (c 1) (c 2) (c 3) div 16) AND cat4 15 15 15 15
    = cat4 (c 0 mod 16 + c 0 div 16) (c 1 mod 16 + c 1 div 16) (c 2 mod 16 + c 2 div 16) (c 3 mod 16 + c 3 div 16)"
proof -
  define e where "e i x = c i + c i div 16 + 16 * x" for i x
  have c: "0 \<le> c i" "c i \<le> 68" "c i div 16 \<le> 4" "0 \<le> c i div 16" for i
    using small_nibbles [OF assms, of i] assms(3) [of i] assms(1) [of i] by auto
  have e: "byte (e i x)" "e i x AND 15 = c i mod 16 + c i div 16" if "0 \<le> x" "x \<le> 4" for i x
  proof -
    show "byte (e i x)" using c [of i] that by (auto simp: byte_iff e_def)
    have "(15 :: int) = mask 4" by (simp add: mask_eq_exp_minus_1)
    then have "e i x AND 15 = take_bit 4 (e i x)" unfolding take_bit_eq_mask by (rule arg_cong)
    then have "e i x AND 15 = e i x mod 16" by (simp add: take_bit_eq_mod)
    also have "\<dots> = (c i mod 16 + c i div 16) mod 16" unfolding e_def by (simp add: mod_add_left_eq)
    also have "\<dots> = c i mod 16 + c i div 16" using assms(2,3) [of i] c [of i] by (intro mod_pos_pos_trivial) auto
    finally show "e i x AND 15 = c i mod 16 + c i div 16" .
  qed
  have m: "0 \<le> c i mod 16" for i by simp
  have "cat4 (c 0) (c 1) (c 2) (c 3) + cat4 (c 0) (c 1) (c 2) (c 3) div 16 = cat4 (e 0 (c 1 mod 16)) (e 1 (c 2 mod 16)) (e 2 (c 3 mod 16)) (e 3 0)"
    unfolding cat4_shift by (simp add: cat4_def e_def)
  then show ?thesis
    using cat4_shift_and [of "e 0 (c 1 mod 16)" "e 1 (c 2 mod 16)" "e 2 (c 3 mod 16)" 0 15 "e 3 0"] e m assms(2) by (simp add: take_bit_int_eq_self)
qed

lemma bytes_sum:
  assumes "\<And>i :: nat. 0 \<le> p i" "\<And>i. p i \<le> (8 :: int)"
  shows "(cat4 (p 0) (p 1) (p 2) (p 3) * 0x01010101) mod 2 ^ 32 div 2 ^ 24 = p 0 + p 1 + p 2 + p 3"
proof -
  define low where "low = p 0 + 256 * (p 0 + p 1) + 65536 * (p 0 + p 1 + p 2)"
  define s where "s = p 0 + p 1 + p 2 + p 3"
  define high where "high = (p 1 + p 2 + p 3) + 256 * (p 2 + p 3) + 65536 * p 3"
  have "cat4 (p 0) (p 1) (p 2) (p 3) * 0x01010101 = (low + s * 16777216) + high * 4294967296"
    by (simp add: cat4_def low_def s_def high_def)
  moreover have "0 \<le> low" "low < 16777216" "0 \<le> s" "s \<le> 32"
    using assms [of 0] assms [of 1] assms [of 2] assms [of 3] by (simp_all add: low_def s_def)
  ultimately show ?thesis by (simp add: s_def)
qed

lemma uint_of_int32: "0 \<le> z \<Longrightarrow> z < 2 ^ 32 \<Longrightarrow> uint (of_int z :: u32) = z"
  by (simp add: unsigned_of_int take_bit_int_eq_self)

lemma uint_of_cat4:
  assumes "byte a" "byte b" "byte c" "byte d"
  shows "uint (of_int (cat4 a b c d) :: u32) = cat4 a b c d"
proof -
  have "0 \<le> cat4 a b c d" "cat4 a b c d < 2 ^ 32" using assms by (auto simp: cat4_def byte_iff)
  then show ?thesis by (rule uint_of_int32)
qed

lemma uint_drop: "uint (drop_bit k n) = uint (n :: u32) div 2 ^ k"
  unfolding drop_bit_eq_div [of k "uint n", symmetric] by (rule bit_eqI) (auto simp: bit_simps)

lemma uint_drop_and: "uint (drop_bit k n AND m) = uint n div 2 ^ k AND uint (m :: u32)"
  unfolding unsigned_and_eq uint_drop ..

lemma count_ones_u32_bits: "iree_math_count_ones_u32 n = ones 32 (uint n)"
proof -
  define b where "b i = uint n div 256 ^ i mod 256" for i :: nat
  have bb: "byte (b i)" for i by (simp add: b_def byte_iff)
  have "uint n < 2 ^ 32" using uint_lt2p [of n] by simp
  then have "uint n div 16777216 < 256" "0 \<le> uint n div 16777216" by (simp_all add: pos_imp_zdiv_nonneg_iff)
  then have "uint n div 16777216 mod 256 = uint n div 16777216" by (intro mod_pos_pos_trivial)
  then have "uint n div 16777216 = b 3" by (simp add: b_def)
  then have n: "uint n = cat4 (b 0) (b 1) (b 2) (b 3)" using cat4_bytes [of "uint n"] by (simp add: b_def)
  note f = ones_byte_facts [OF bb]
  define n1 where "n1 = n - (drop_bit 1 n AND 0x55555555)"
  have x: "uint (drop_bit 1 n AND 0x55555555) = cat4 (b 0 div 2 AND 0x55) (b 1 div 2 AND 0x55) (b 2 div 2 AND 0x55) (b 3 div 2 AND 0x55)"
    using cat4_shift_and [OF bb bb bb, of 1 "0x55" 0 1 2 "b 3"] by (simp add: uint_drop_and n cat4_def [of "0x55"] take_bit_int_eq_self)
  have "n1 = of_int (uint n - uint (drop_bit 1 n AND 0x55555555))" unfolding n1_def by simp
  also have "uint n - uint (drop_bit 1 n AND 0x55555555) = cat4 (ones_pairs (b 0)) (ones_pairs (b 1)) (ones_pairs (b 2)) (ones_pairs (b 3))"
    unfolding x unfolding n by (simp add: cat4_def ones_pairs_def)
  finally have u1: "uint n1 = cat4 (ones_pairs (b 0)) (ones_pairs (b 1)) (ones_pairs (b 2)) (ones_pairs (b 3))"
    using uint_of_cat4 [OF f(1) f(1) f(1) f(1)] by simp
  define c where "c i = ones_nibbles (ones_pairs (b i))" for i
  have c: "byte (c i)" for i unfolding c_def using small_nibbles [OF f(2) f(3) f(4)] by blast
  define n2 where "n2 = (drop_bit 2 n1 AND 0x33333333) + (n1 AND 0x33333333)"
  have y: "uint (drop_bit 2 n1 AND 0x33333333) = cat4 (ones_pairs (b 0) div 4 AND 0x33) (ones_pairs (b 1) div 4 AND 0x33) (ones_pairs (b 2) div 4 AND 0x33) (ones_pairs (b 3) div 4 AND 0x33)"
    using cat4_shift_and [OF f(1) f(1) f(1), of 2 "0x33" 0 1 2 "ones_pairs (b 3)"] by (simp add: uint_drop_and u1 cat4_def [of "0x33"] take_bit_int_eq_self)
  have z: "uint (n1 AND 0x33333333) = cat4 (ones_pairs (b 0) AND 0x33) (ones_pairs (b 1) AND 0x33) (ones_pairs (b 2) AND 0x33) (ones_pairs (b 3) AND 0x33)"
    using cat4_shift_and [OF f(1) f(1) f(1), of 0 "0x33" 0 1 2 "ones_pairs (b 3)"] by (simp add: unsigned_and_eq u1 cat4_def [of "0x33"] take_bit_int_eq_self)
  have "n2 = of_int (uint (drop_bit 2 n1 AND 0x33333333) + uint (n1 AND 0x33333333))" unfolding n2_def by simp
  also have "uint (drop_bit 2 n1 AND 0x33333333) + uint (n1 AND 0x33333333) = cat4 (c 0) (c 1) (c 2) (c 3)"
    unfolding y z by (simp add: cat4_def c_def ones_nibbles_def)
  finally have u2: "uint n2 = cat4 (c 0) (c 1) (c 2) (c 3)" using uint_of_cat4 [OF c c c c] by simp
  define n3 where "n3 = (n2 + drop_bit 4 n2) AND 0x0F0F0F0F"
  have c68: "0 \<le> c i" "c i \<le> 68" for i unfolding c_def using small_nibbles [OF f(2) f(3) f(4)] f(2) by blast+
  have "uint (n2 + drop_bit 4 n2) = uint n2 + uint n2 div 16"
  proof -
    have "uint (drop_bit 4 n2) = uint n2 div 16" using uint_drop [of 4 n2] by simp
    moreover have "n2 + drop_bit 4 n2 = of_int (uint n2 + uint (drop_bit 4 n2))" by simp
    ultimately have "n2 + drop_bit 4 n2 = of_int (uint n2 + uint n2 div 16)" by (simp only:)
    moreover have "0 \<le> uint n2 + uint n2 div 16" "uint n2 + uint n2 div 16 < 2 ^ 32"
      unfolding u2 using c68 [of 0] c68 [of 1] c68 [of 2] c68 [of 3] by (auto simp: cat4_def)
    ultimately show ?thesis by (simp only: uint_of_int32)
  qed
  then have u3: "uint n3 = cat4 (ones 8 (b 0)) (ones 8 (b 1)) (ones 8 (b 2)) (ones 8 (b 3))"
    using nibbles_step [of c] f(2-5) c_def by (simp add: n3_def unsigned_and_eq u2 cat4_def [of 15])
  have p: "ones 8 (b i) \<le> 8" for i using f(3-5) [of i] by (simp flip: f(5))
  have p0: "0 \<le> ones 8 (b i)" for i unfolding ones_def by (rule sum_nonneg) simp
  have "uint (drop_bit 24 (n3 * 0x01010101)) = (uint n3 * 0x01010101) mod 2 ^ 32 div 2 ^ 24"
    unfolding uint_drop by (simp add: uint_word_ariths)
  also have "\<dots> = ones 8 (b 0) + ones 8 (b 1) + ones 8 (b 2) + ones 8 (b 3)"
    unfolding u3 using bytes_sum [of "\<lambda>i. ones 8 (b i)"] p p0 by simp
  also have "\<dots> = ones 32 (uint n)"
  proof -
    have "ones 32 (b 0 + 256 * r) = ones 8 (b 0) + ones 24 r" "ones 24 (b 1 + 256 * r) = ones 8 (b 1) + ones 16 r"
        "ones 16 (b 2 + 256 * r) = ones 8 (b 2) + ones 8 r" for r
      using ones_cat [OF bb, of 24 0 r] ones_cat [OF bb, of 16 1 r] ones_cat [OF bb, of 8 2 r] by simp_all
    then show ?thesis unfolding n cat4_def by (simp only: add.assoc)
  qed
  finally show ?thesis by (simp add: iree_math_count_ones_u32_def Let_def n3_def n2_def n1_def)
qed


lemma ones_split: "ones (m + n) x = ones m x + ones n (x div 2 ^ m)"
proof -
  have u: "{..<m + n} = {..<m} \<union> (+) m ` {..<n}"
  proof -
    have "x \<in> {..<m} \<union> (+) m ` {..<n}" if "x < m + n" for x
      using that image_eqI [of x "(+) m" "x - m" "{..<n}"] by (cases "x < m") auto
    then show ?thesis by auto
  qed
  let ?f = "\<lambda>i. of_bool (bit x i) :: int"
  have "sum ?f {..<m + n} = sum ?f {..<m} + sum ?f ((+) m ` {..<n})" unfolding u by (rule sum.union_disjoint) auto
  also have "sum ?f ((+) m ` {..<n}) = sum (?f \<circ> (+) m) {..<n}" by (rule sum.reindex) simp
  also have "\<dots> = ones n (x div 2 ^ m)" unfolding ones_def by (rule sum.cong) (simp_all add: bit_drop_bit_eq flip: drop_bit_eq_div)
  finally show ?thesis by (simp only: ones_def)
qed

lemma ones_take: "ones n (take_bit n x) = ones n x"
  unfolding ones_def by (rule sum.cong) (simp_all add: bit_take_bit_iff)

lemma count_ones_u64_bits: "iree_math_count_ones_u64 n = ones 64 (uint n)"
proof -
  have hi: "uint (ucast (drop_bit 32 n) :: u32) = uint n div 2 ^ 32"
  proof -
    have "uint (ucast (drop_bit 32 n) :: u32) = drop_bit 32 (uint n)" by (rule bit_eqI) (auto simp: bit_simps dest: bit_imp_le_length)
    then show ?thesis by (simp add: drop_bit_eq_div)
  qed
  have m: "(0xFFFFFFFF :: u64) = mask 32" by (simp add: mask_eq_exp_minus_1)
  have lo: "uint (ucast (n AND 0xFFFFFFFF) :: u32) = take_bit 32 (uint n)"
    unfolding m by (rule bit_eqI) (auto simp: bit_simps)
  have "ones 64 (uint n) = ones 32 (uint n) + ones 32 (uint n div 2 ^ 32)" using ones_split [of 32 32 "uint n"] by simp
  then show ?thesis unfolding iree_math_count_ones_u64_def count_ones_u32_bits hi lo ones_take by simp
qed

lemma ones_card: "ones LENGTH('a) (uint n) = int (card {i. bit (n :: 'a::len word) i})"
proof -
  have "{..<LENGTH('a)} \<inter> {i. bit (uint n) i} = {i. bit n i}" by (auto simp: bit_simps dest: bit_imp_le_length)
  then show ?thesis by (simp add: ones_def)
qed

section \<open>Properties\<close>

lemma trailing_zeros_lowest:
  assumes "bit n k" "\<forall>i < k. \<not> bit n i"
  shows "iree_math_count_trailing_zeros_u64 n = int k"
proof -
  have k: "k < 64" using bit_imp_le_length [OF assms(1)] by simp
  have n: "n AND (NOT n + 1) = push_bit k 1" by (rule isolate_lowest_bit [OF assms])
  have "push_bit k 1 AND (NOT (push_bit k 1) + 1) = (push_bit k 1 :: u64)"
    using k by (intro isolate_lowest_bit) (auto simp: bit_simps)
  then have "iree_math_count_trailing_zeros_u64 n = iree_math_count_trailing_zeros_u64 (push_bit k 1)"
    unfolding iree_math_count_trailing_zeros_u64_def n by simp
  also have "\<dots> = int k" using trailing_zeros_powers k by (auto simp: list_all_iff)
  finally show ?thesis .
qed

text \<open>
  C17. \<open>iree_math_count_ones_u64\<close> adds in parallel, by pairs, nibbles and bytes; the result is the number of
  set bits, for every word.
\<close>

theorem count_ones_is_popcount: "iree_math_count_ones_u64 n = int (card {i. bit n i})"
  using ones_card [of n] by (simp add: count_ones_u64_bits)

end
