(* ===== verification/VM_Types.thy ===== *)
theory VM_Types
  imports IREE_Math
begin

text \<open>
  The data of the virtual machine runtime: values (\<^verbatim>\<open>iree/vm/value.h\<close>), type definitions and variants
  (\<^verbatim>\<open>iree/vm/type_def.h\<close>), references and type descriptors (\<^verbatim>\<open>iree/vm/ref.h\<close>), the list and buffer
  objects (\<^verbatim>\<open>iree/vm/list.c\<close>, \<^verbatim>\<open>iree/vm/buffer.h\<close>) and the store of reference-counted objects.

  An object address is an index into the store; a freed object leaves \<open>None\<close> behind and its address is
  not used again. Reference counters are mathematical integers: the 32-bit counter of the code only
  differs once an object has more than two billion references.
\<close>

section \<open>Values\<close>

datatype iree_vm_value_type =
    IREE_VM_VALUE_TYPE_NONE
  | IREE_VM_VALUE_TYPE_I8
  | IREE_VM_VALUE_TYPE_I16
  | IREE_VM_VALUE_TYPE_I32
  | IREE_VM_VALUE_TYPE_I64
  | IREE_VM_VALUE_TYPE_F32
  | IREE_VM_VALUE_TYPE_F64

text \<open>The value union is its eight bytes, read as a little-endian word.\<close>

record iree_vm_value =
  val_type :: iree_vm_value_type
  val_bits :: u64

text \<open>
  The constructors of \<^verbatim>\<open>value.h\<close> write one member of an uninitialised union; \<open>rest\<close> is what the
  other bytes hold.
\<close>

definition iree_vm_value_make_i32 :: "u64 \<Rightarrow> u32 \<Rightarrow> iree_vm_value" where
  "iree_vm_value_make_i32 rest v =
    \<lparr>val_type = IREE_VM_VALUE_TYPE_I32, val_bits = ucast v OR (rest AND NOT (mask 32))\<rparr>"

definition iree_vm_value_get_i32 :: "iree_vm_value \<Rightarrow> u32" where
  "iree_vm_value_get_i32 v = ucast (val_bits v)"

definition iree_vm_value_make_i64 :: "u64 \<Rightarrow> iree_vm_value" where
  "iree_vm_value_make_i64 v = \<lparr>val_type = IREE_VM_VALUE_TYPE_I64, val_bits = v\<rparr>"

definition iree_vm_value_get_i64 :: "iree_vm_value \<Rightarrow> u64" where
  "iree_vm_value_get_i64 v = val_bits v"

definition iree_vm_value_get_f32 :: "iree_vm_value \<Rightarrow> u32" where
  "iree_vm_value_get_f32 v = ucast (val_bits v)"

lemma iree_vm_value_get_make_i32 [simp]: "iree_vm_value_get_i32 (iree_vm_value_make_i32 rest v) = v"
  unfolding iree_vm_value_get_i32_def iree_vm_value_make_i32_def
  by (rule bit_word_eqI) (auto simp: bit_simps)

lemma iree_vm_value_get_make_i64 [simp]: "iree_vm_value_get_i64 (iree_vm_value_make_i64 v) = v"
  by (simp add: iree_vm_value_get_i64_def iree_vm_value_make_i64_def)

section \<open>References and type definitions\<close>

definition IREE_VM_REF_TYPE_NULL :: nat where "IREE_VM_REF_TYPE_NULL = 0"
definition IREE_VM_REF_TYPE_ANY :: nat where "IREE_VM_REF_TYPE_ANY = 0x00FFFFFF"

record iree_vm_ref =
  ref_ptr :: "nat option"
  ref_offsetof_counter :: nat
  ref_type :: nat

definition null_ref :: iree_vm_ref where
  "null_ref = \<lparr>ref_ptr = None, ref_offsetof_counter = 0, ref_type = 0\<rparr>"

text \<open>
  The destroy functions a descriptor can name: none, the two of the VM's own objects, or one of a
  native type whose objects hold no VM references.
\<close>

datatype iree_vm_ref_destroy = DestroyNull | DestroyList | DestroyBuffer | DestroyNative

record iree_vm_ref_type_descriptor =
  td_destroy :: iree_vm_ref_destroy
  td_offsetof_counter :: nat
  td_type :: nat
  td_type_name :: string

type_synonym type_table = "iree_vm_ref_type_descriptor option list"

record iree_vm_type_def =
  value_type :: iree_vm_value_type
  def_ref_type :: nat

definition iree_vm_type_def_make_variant_type :: iree_vm_type_def where
  "iree_vm_type_def_make_variant_type = \<lparr>value_type = IREE_VM_VALUE_TYPE_NONE, def_ref_type = 0\<rparr>"

definition iree_vm_type_def_make_value_type :: "iree_vm_value_type \<Rightarrow> iree_vm_type_def" where
  "iree_vm_type_def_make_value_type t = \<lparr>value_type = t, def_ref_type = 0\<rparr>"

definition iree_vm_type_def_make_ref_type :: "nat \<Rightarrow> iree_vm_type_def" where
  "iree_vm_type_def_make_ref_type t = \<lparr>value_type = IREE_VM_VALUE_TYPE_NONE, def_ref_type = t\<rparr>"

definition iree_vm_type_def_is_value :: "iree_vm_type_def \<Rightarrow> bool" where
  "iree_vm_type_def_is_value t \<longleftrightarrow> value_type t \<noteq> IREE_VM_VALUE_TYPE_NONE"

definition iree_vm_type_def_is_ref :: "iree_vm_type_def \<Rightarrow> bool" where
  "iree_vm_type_def_is_ref t \<longleftrightarrow> def_ref_type t \<noteq> IREE_VM_REF_TYPE_NULL"

definition iree_vm_type_def_is_variant :: "iree_vm_type_def \<Rightarrow> bool" where
  "iree_vm_type_def_is_variant t \<longleftrightarrow>
    value_type t = IREE_VM_VALUE_TYPE_NONE \<and> def_ref_type t = IREE_VM_REF_TYPE_NULL"

text \<open>The union of a variant holds either the eight value bytes or a reference.\<close>

datatype variant_payload = PVal u64 | PRef iree_vm_ref

record iree_vm_variant =
  var_type :: iree_vm_type_def
  payload :: variant_payload

definition iree_vm_variant_empty :: iree_vm_variant where
  "iree_vm_variant_empty = \<lparr>var_type = iree_vm_type_def_make_variant_type, payload = PVal 0\<rparr>"

text \<open>
  Reading the reference member over value bytes: its type field lies past the value bytes and is
  zero, so what is read is a null reference for every operation of \<^verbatim>\<open>ref.c\<close> that follows.
\<close>

fun variant_ref :: "iree_vm_variant \<Rightarrow> iree_vm_ref" where
  "variant_ref v = (case payload v of PRef r \<Rightarrow> r | PVal _ \<Rightarrow> null_ref)"

section \<open>Objects\<close>

text \<open>The storage mode of a list is the constructor of its storage.\<close>

datatype vm_storage =
    StValue "u64 list"
  | StRef "iree_vm_ref list"
  | StVariant "iree_vm_variant list"

record iree_vm_list =
  capacity :: u64
  list_count :: u64
  element_type :: iree_vm_type_def
  element_size :: u64
  storage :: vm_storage

record iree_vm_buffer =
  access :: u32
  data :: "u8 list"

datatype vm_body = BList iree_vm_list | BBuffer iree_vm_buffer | BNative

record vm_obj =
  counter :: int
  obj_offset :: nat
  body :: vm_body

type_synonym vm_heap = "vm_obj option list"

definition obj_at :: "vm_heap \<Rightarrow> nat \<Rightarrow> vm_obj option" where
  "obj_at h p = (if p < length h then h ! p else None)"

definition put_obj :: "vm_heap \<Rightarrow> nat \<Rightarrow> vm_obj \<Rightarrow> vm_heap" where
  "put_obj h p ob = h[p := Some ob]"

definition free_obj :: "vm_heap \<Rightarrow> nat \<Rightarrow> vm_heap option" where
  "free_obj h p = (case obj_at h p of None \<Rightarrow> None | Some _ \<Rightarrow> Some (h[p := None]))"

text \<open>A new object takes the next unused address.\<close>

definition alloc_obj :: "vm_heap \<Rightarrow> vm_obj \<Rightarrow> vm_heap \<times> nat" where
  "alloc_obj h ob = (h @ [Some ob], length h)"

definition list_at :: "vm_heap \<Rightarrow> nat \<Rightarrow> iree_vm_list option" where
  "list_at h p = (case obj_at h p of Some ob \<Rightarrow> (case body ob of BList l \<Rightarrow> Some l | _ \<Rightarrow> None) | None \<Rightarrow> None)"

definition put_list :: "vm_heap \<Rightarrow> nat \<Rightarrow> iree_vm_list \<Rightarrow> vm_heap option" where
  "put_list h p l = (case obj_at h p of
      Some ob \<Rightarrow> (case body ob of BList _ \<Rightarrow> Some (put_obj h p (ob\<lparr>body := BList l\<rparr>)) | _ \<Rightarrow> None)
    | None \<Rightarrow> None)"

lemma obj_at_put_obj [simp]: "p < length h \<Longrightarrow> obj_at (put_obj h p ob) q = (if q = p then Some ob else obj_at h q)"
  by (simp add: obj_at_def put_obj_def)

lemma length_put_obj [simp]: "length (put_obj h p ob) = length h"
  by (simp add: put_obj_def)

lemma obj_at_length: "obj_at h p = Some ob \<Longrightarrow> p < length h"
  by (simp add: obj_at_def split: if_splits)

lemma obj_at_alloc [simp]: "obj_at (h @ [Some ob]) q = (if q = length h then Some ob else obj_at h q)"
  by (simp add: obj_at_def nth_append)

lemma free_obj_Some: "obj_at h p = Some ob \<Longrightarrow> free_obj h p = Some (h[p := None])"
  by (simp add: free_obj_def)

lemma obj_at_free [simp]: "p < length h \<Longrightarrow> obj_at (h[p := None]) q = (if q = p then None else obj_at h q)"
  by (simp add: obj_at_def)

lemma list_at_Some: "list_at h p = Some l \<longleftrightarrow> (\<exists>ob. obj_at h p = Some ob \<and> body ob = BList l)"
  by (auto simp: list_at_def split: option.splits vm_body.splits)

end
