(* ===== verification/VM_Ref.thy ===== *)
theory VM_Ref
  imports VM_Types
begin

text \<open>
  Reference counting (\<^verbatim>\<open>iree/vm/ref.c\<close>): the type descriptor table, retain, release, assign and move.
  Releasing the last reference of a list releases the references it holds, so release and the list's
  destroy function are mutually recursive; the recursion is bounded by fuel, and
  \<open>release_ok\<close> shows that one unit per object of the store is enough.

  The correctness statement is an accounting one: \<open>heap_ok tbl h R\<close> says that every counter equals
  the number of references to the object from the live lists and from the multiset \<open>R\<close> of
  references held outside of the store (registers, globals, native code).
\<close>

section \<open>Counters\<close>

definition iree_atomic_ref_count_inc :: "vm_heap \<Rightarrow> nat \<Rightarrow> nat \<Rightarrow> vm_heap option" where
  "iree_atomic_ref_count_inc h p off = (case obj_at h p of
      Some ob \<Rightarrow> if obj_offset ob = off then Some (put_obj h p (ob\<lparr>counter := counter ob + 1\<rparr>)) else None
    | None \<Rightarrow> None)"

text \<open>Returns the value before the decrement, as \<^verbatim>\<open>atomic_fetch_sub\<close> does.\<close>

definition iree_atomic_ref_count_dec :: "vm_heap \<Rightarrow> nat \<Rightarrow> nat \<Rightarrow> (vm_heap \<times> int) option" where
  "iree_atomic_ref_count_dec h p off = (case obj_at h p of
      Some ob \<Rightarrow> if obj_offset ob = off then Some (put_obj h p (ob\<lparr>counter := counter ob - 1\<rparr>), counter ob) else None
    | None \<Rightarrow> None)"

section \<open>Type descriptors\<close>

definition IREE_VM_MAX_TYPE_ID :: nat where "IREE_VM_MAX_TYPE_ID = 64"

definition iree_vm_ref_get_type_descriptor :: "type_table \<Rightarrow> nat \<Rightarrow> iree_vm_ref_type_descriptor option" where
  "iree_vm_ref_get_type_descriptor tbl t =
    (if t \<ge> IREE_VM_MAX_TYPE_ID then None else if t < length tbl then tbl ! t else None)"

text \<open>
  The scan starts at 1 and its condition is \<^verbatim>\<open>i <= IREE_VM_MAX_TYPE_ID\<close>; an index past the end of the
  table is undefined behaviour.
\<close>

function register_type_from ::
  "nat \<Rightarrow> type_table \<Rightarrow> iree_vm_ref_type_descriptor \<Rightarrow>
   (type_table \<times> iree_vm_ref_type_descriptor \<times> iree_status) option" where
  "register_type_from i tbl d =
    (if i \<le> IREE_VM_MAX_TYPE_ID then
       if i \<ge> length tbl then None
       else if tbl ! i = None
       then (let d' = d\<lparr>td_type := i\<rparr> in Some (tbl[i := Some d'], d', IREE_STATUS_OK))
       else register_type_from (Suc i) tbl d
     else Some (tbl, d, IREE_STATUS_RESOURCE_EXHAUSTED))"
  by pat_completeness auto
termination by (relation "measure (\<lambda>(i, _). Suc IREE_VM_MAX_TYPE_ID - i)") (auto simp: IREE_VM_MAX_TYPE_ID_def)

definition iree_vm_ref_register_type ::
  "type_table \<Rightarrow> iree_vm_ref_type_descriptor \<Rightarrow> (type_table \<times> iree_vm_ref_type_descriptor \<times> iree_status) option" where
  "iree_vm_ref_register_type tbl d = register_type_from 1 tbl d"

definition iree_vm_ref_type_name :: "type_table \<Rightarrow> nat \<Rightarrow> string option" where
  "iree_vm_ref_type_name tbl t =
    (if t = 0 \<or> t \<ge> IREE_VM_MAX_TYPE_ID then Some []
     else if t < length tbl then map_option td_type_name (tbl ! t) else None)"

text \<open>The outer option is undefined behaviour, the inner one the returned pointer.\<close>

function lookup_registered_type_from ::
  "nat \<Rightarrow> type_table \<Rightarrow> string \<Rightarrow> iree_vm_ref_type_descriptor option option" where
  "lookup_registered_type_from i tbl full_name =
    (if i \<le> IREE_VM_MAX_TYPE_ID then
       if i \<ge> length tbl then None
       else (case tbl ! i of
           None \<Rightarrow> Some None
         | Some d \<Rightarrow> if td_type_name d = full_name then Some (Some d)
                     else lookup_registered_type_from (Suc i) tbl full_name)
     else Some None)"
  by pat_completeness auto
termination by (relation "measure (\<lambda>(i, _). Suc IREE_VM_MAX_TYPE_ID - i)") (auto simp: IREE_VM_MAX_TYPE_ID_def)

definition iree_vm_ref_lookup_registered_type ::
  "type_table \<Rightarrow> string \<Rightarrow> iree_vm_ref_type_descriptor option option" where
  "iree_vm_ref_lookup_registered_type tbl full_name = lookup_registered_type_from 1 tbl full_name"

declare register_type_from.simps [simp del] lookup_registered_type_from.simps [simp del]

section \<open>Destruction of lists\<close>

definition write_ref_slot :: "vm_heap \<Rightarrow> nat \<Rightarrow> nat \<Rightarrow> iree_vm_ref \<Rightarrow> vm_heap option" where
  "write_ref_slot h p i r = (case list_at h p of
      Some l \<Rightarrow> (case storage l of
          StRef rs \<Rightarrow> if i < length rs then put_list h p (l\<lparr>storage := StRef (rs[i := r])\<rparr>) else None
        | _ \<Rightarrow> None)
    | None \<Rightarrow> None)"

definition write_variant_slot :: "vm_heap \<Rightarrow> nat \<Rightarrow> nat \<Rightarrow> iree_vm_variant \<Rightarrow> vm_heap option" where
  "write_variant_slot h p i v = (case list_at h p of
      Some l \<Rightarrow> (case storage l of
          StVariant vs \<Rightarrow> if i < length vs then put_list h p (l\<lparr>storage := StVariant (vs[i := v])\<rparr>) else None
        | _ \<Rightarrow> None)
    | None \<Rightarrow> None)"

text \<open>One element of \<^verbatim>\<open>iree_vm_list_reset_range\<close>; \<open>rel\<close> is \<^verbatim>\<open>iree_vm_ref_release\<close>.\<close>

definition reset_slot ::
  "(vm_heap \<Rightarrow> iree_vm_ref \<Rightarrow> (vm_heap \<times> iree_vm_ref) option) \<Rightarrow> vm_heap \<Rightarrow> nat \<Rightarrow> nat \<Rightarrow> vm_heap option" where
  "reset_slot rel h p i = (case list_at h p of
      None \<Rightarrow> None
    | Some l \<Rightarrow> (case storage l of
        StValue vs \<Rightarrow> if i < length vs then put_list h p (l\<lparr>storage := StValue (vs[i := 0])\<rparr>) else None
      | StRef rs \<Rightarrow>
          if i < length rs
          then (case rel h (rs ! i) of None \<Rightarrow> None | Some (h', r) \<Rightarrow> write_ref_slot h' p i r)
          else None
      | StVariant vs \<Rightarrow>
          if i < length vs
          then if iree_vm_type_def_is_ref (var_type (vs ! i))
               then (case rel h (variant_ref (vs ! i)) of
                        None \<Rightarrow> None
                      | Some (h', r) \<Rightarrow>
                          write_variant_slot h' p i
                            \<lparr>var_type = iree_vm_type_def_make_variant_type, payload = PRef r\<rparr>)
               else write_variant_slot h p i iree_vm_variant_empty
          else None))"

fun reset_range_with ::
  "(vm_heap \<Rightarrow> iree_vm_ref \<Rightarrow> (vm_heap \<times> iree_vm_ref) option) \<Rightarrow> vm_heap \<Rightarrow> nat \<Rightarrow> nat \<Rightarrow> nat \<Rightarrow> vm_heap option" where
  "reset_range_with rel h p i 0 = Some h"
| "reset_range_with rel h p i (Suc k) = (case reset_slot rel h p i of
      None \<Rightarrow> None
    | Some h' \<Rightarrow> reset_range_with rel h' p (Suc i) k)"

definition destroy_list_with ::
  "(vm_heap \<Rightarrow> iree_vm_ref \<Rightarrow> (vm_heap \<times> iree_vm_ref) option) \<Rightarrow> vm_heap \<Rightarrow> nat \<Rightarrow> vm_heap option" where
  "destroy_list_with rel h p = (case list_at h p of
      None \<Rightarrow> None
    | Some l \<Rightarrow> (case reset_range_with rel h p 0 (unat (list_count l)) of
        None \<Rightarrow> None
      | Some h' \<Rightarrow> free_obj h' p))"

text \<open>
  The call through the descriptor's destroy pointer. Destroying an object of another kind than the
  descriptor's reads its memory at the wrong type.
\<close>

definition call_destroy ::
  "(vm_heap \<Rightarrow> iree_vm_ref \<Rightarrow> (vm_heap \<times> iree_vm_ref) option) \<Rightarrow> iree_vm_ref_destroy \<Rightarrow> vm_heap \<Rightarrow> nat \<Rightarrow> vm_heap option" where
  "call_destroy rel d h p = (case d of
      DestroyNull \<Rightarrow> Some h
    | DestroyList \<Rightarrow> destroy_list_with rel h p
    | DestroyBuffer \<Rightarrow> (case map_option body (obj_at h p) of Some (BBuffer _) \<Rightarrow> free_obj h p | _ \<Rightarrow> None)
    | DestroyNative \<Rightarrow> (case map_option body (obj_at h p) of Some BNative \<Rightarrow> free_obj h p | _ \<Rightarrow> None))"

section \<open>Release\<close>

primrec release_fuel :: "nat \<Rightarrow> type_table \<Rightarrow> vm_heap \<Rightarrow> iree_vm_ref \<Rightarrow> (vm_heap \<times> iree_vm_ref) option" where
  "release_fuel 0 tbl h r = None"
| "release_fuel (Suc n) tbl h r =
    (if ref_type r = IREE_VM_REF_TYPE_NULL then Some (h, r)
     else (case ref_ptr r of
         None \<Rightarrow> Some (h, r)
       | Some p \<Rightarrow> (case iree_atomic_ref_count_dec h p (ref_offsetof_counter r) of
           None \<Rightarrow> None
         | Some (h1, old) \<Rightarrow>
             if old = 1
             then (case iree_vm_ref_get_type_descriptor tbl (ref_type r) of
                 None \<Rightarrow> None
               | Some td \<Rightarrow> (case call_destroy (release_fuel n tbl) (td_destroy td) h1 p of
                   None \<Rightarrow> None
                 | Some h2 \<Rightarrow> Some (h2, null_ref)))
             else Some (h1, null_ref))))"

definition iree_vm_ref_release :: "type_table \<Rightarrow> vm_heap \<Rightarrow> iree_vm_ref \<Rightarrow> (vm_heap \<times> iree_vm_ref) option" where
  "iree_vm_ref_release tbl h r = release_fuel (Suc (length h)) tbl h r"

definition iree_vm_list_reset_range :: "type_table \<Rightarrow> vm_heap \<Rightarrow> nat \<Rightarrow> u64 \<Rightarrow> u64 \<Rightarrow> vm_heap option" where
  "iree_vm_list_reset_range tbl h p off len =
    reset_range_with (iree_vm_ref_release tbl) h p (unat off) (unat len)"

definition iree_vm_list_destroy :: "type_table \<Rightarrow> vm_heap \<Rightarrow> nat \<Rightarrow> vm_heap option" where
  "iree_vm_list_destroy tbl h p = destroy_list_with (iree_vm_ref_release tbl) h p"

definition iree_vm_ref_object_retain ::
  "vm_heap \<Rightarrow> nat option \<Rightarrow> iree_vm_ref_type_descriptor \<Rightarrow> vm_heap option" where
  "iree_vm_ref_object_retain h ptr td = (case ptr of
      None \<Rightarrow> Some h
    | Some p \<Rightarrow> iree_atomic_ref_count_inc h p (td_offsetof_counter td))"

definition iree_vm_ref_object_release ::
  "type_table \<Rightarrow> vm_heap \<Rightarrow> nat option \<Rightarrow> iree_vm_ref_type_descriptor \<Rightarrow> vm_heap option" where
  "iree_vm_ref_object_release tbl h ptr td = (case ptr of
      None \<Rightarrow> Some h
    | Some p \<Rightarrow> (case iree_atomic_ref_count_dec h p (td_offsetof_counter td) of
        None \<Rightarrow> None
      | Some (h1, old) \<Rightarrow>
          if old = 1 then call_destroy (iree_vm_ref_release tbl) (td_destroy td) h1 p else Some h1))"

section \<open>Retain, assign and move\<close>

text \<open>
  \<open>ref\<close> and \<open>out_ref\<close> are passed by pointer and may be the same variable; \<open>same\<close> says so. The
  results are the new contents of the variables the function writes.
\<close>

definition inc_ref :: "vm_heap \<Rightarrow> iree_vm_ref \<Rightarrow> vm_heap option" where
  "inc_ref h r = (case ref_ptr r of
      None \<Rightarrow> Some h
    | Some p \<Rightarrow> iree_atomic_ref_count_inc h p (ref_offsetof_counter r))"

definition iree_vm_ref_wrap_assign ::
  "type_table \<Rightarrow> vm_heap \<Rightarrow> nat option \<Rightarrow> nat \<Rightarrow> iree_vm_ref \<Rightarrow> (vm_heap \<times> iree_status \<times> iree_vm_ref) option" where
  "iree_vm_ref_wrap_assign tbl h ptr t out_ref = (case iree_vm_ref_get_type_descriptor tbl t of
      None \<Rightarrow> Some (h, IREE_STATUS_INVALID_ARGUMENT, out_ref)
    | Some td \<Rightarrow>
        (case (if ref_ptr out_ref \<noteq> None then iree_vm_ref_release tbl h out_ref else Some (h, out_ref)) of
          None \<Rightarrow> None
        | Some (h1, _) \<Rightarrow>
            Some (h1, IREE_STATUS_OK,
              \<lparr>ref_ptr = ptr, ref_offsetof_counter = td_offsetof_counter td, ref_type = t\<rparr>)))"

definition iree_vm_ref_wrap_retain ::
  "type_table \<Rightarrow> vm_heap \<Rightarrow> nat option \<Rightarrow> nat \<Rightarrow> iree_vm_ref \<Rightarrow> (vm_heap \<times> iree_status \<times> iree_vm_ref) option" where
  "iree_vm_ref_wrap_retain tbl h ptr t out_ref = (case iree_vm_ref_wrap_assign tbl h ptr t out_ref of
      None \<Rightarrow> None
    | Some (h1, st, out_ref1) \<Rightarrow>
        if st \<noteq> IREE_STATUS_OK then Some (h1, st, out_ref1)
        else (case inc_ref h1 out_ref1 of None \<Rightarrow> None | Some h2 \<Rightarrow> Some (h2, IREE_STATUS_OK, out_ref1)))"

definition iree_vm_ref_check :: "iree_vm_ref \<Rightarrow> nat \<Rightarrow> iree_status" where
  "iree_vm_ref_check r t = (if ref_type r = t then IREE_STATUS_OK else IREE_STATUS_INVALID_ARGUMENT)"

definition iree_vm_ref_retain ::
  "type_table \<Rightarrow> bool \<Rightarrow> vm_heap \<Rightarrow> iree_vm_ref \<Rightarrow> iree_vm_ref \<Rightarrow> (vm_heap \<times> iree_vm_ref) option" where
  "iree_vm_ref_retain tbl same h r out_ref =
    (case (if \<not> same \<and> ref_ptr r \<noteq> ref_ptr out_ref then map_option fst (iree_vm_ref_release tbl h out_ref) else Some h) of
      None \<Rightarrow> None
    | Some h1 \<Rightarrow> (case inc_ref h1 r of None \<Rightarrow> None | Some h2 \<Rightarrow> Some (h2, r)))"

definition iree_vm_ref_retain_checked ::
  "type_table \<Rightarrow> bool \<Rightarrow> vm_heap \<Rightarrow> iree_vm_ref \<Rightarrow> nat \<Rightarrow> iree_vm_ref \<Rightarrow> (vm_heap \<times> iree_status \<times> iree_vm_ref) option" where
  "iree_vm_ref_retain_checked tbl same h r t out_ref =
    (if ref_type r \<noteq> IREE_VM_REF_TYPE_NULL \<and> ref_type r \<noteq> t
     then Some (h, IREE_STATUS_INVALID_ARGUMENT, out_ref)
     else map_option (\<lambda>(h1, out1). (h1, IREE_STATUS_OK, out1)) (iree_vm_ref_retain tbl same h r out_ref))"

text \<open>The results are the store, the source and the target variable.\<close>

definition iree_vm_ref_retain_or_move ::
  "type_table \<Rightarrow> bool \<Rightarrow> bool \<Rightarrow> vm_heap \<Rightarrow> iree_vm_ref \<Rightarrow> iree_vm_ref \<Rightarrow> (vm_heap \<times> iree_vm_ref \<times> iree_vm_ref) option" where
  "iree_vm_ref_retain_or_move tbl same is_move h r out_ref =
    (case (if \<not> same then map_option fst (iree_vm_ref_release tbl h out_ref) else Some h) of
      None \<Rightarrow> None
    | Some h1 \<Rightarrow>
        if ref_ptr r \<noteq> None \<and> \<not> is_move
        then (case inc_ref h1 r of None \<Rightarrow> None | Some h2 \<Rightarrow> Some (h2, r, r))
        else if \<not> same then Some (h1, null_ref, r)
        else Some (h1, r, r))"

definition iree_vm_ref_retain_or_move_checked ::
  "type_table \<Rightarrow> bool \<Rightarrow> bool \<Rightarrow> vm_heap \<Rightarrow> iree_vm_ref \<Rightarrow> nat \<Rightarrow> iree_vm_ref \<Rightarrow>
   (vm_heap \<times> iree_status \<times> iree_vm_ref \<times> iree_vm_ref) option" where
  "iree_vm_ref_retain_or_move_checked tbl same is_move h r t out_ref =
    (if ref_type r \<noteq> IREE_VM_REF_TYPE_NULL \<and> ref_type r \<noteq> t
     then Some (h, IREE_STATUS_INVALID_ARGUMENT, r, out_ref)
     else map_option (\<lambda>(h1, r1, out1). (h1, IREE_STATUS_OK, r1, out1))
       (iree_vm_ref_retain_or_move tbl same is_move h r out_ref))"

definition iree_vm_ref_assign ::
  "type_table \<Rightarrow> bool \<Rightarrow> vm_heap \<Rightarrow> iree_vm_ref \<Rightarrow> iree_vm_ref \<Rightarrow> (vm_heap \<times> iree_vm_ref) option" where
  "iree_vm_ref_assign tbl same h r out_ref =
    (if same then Some (h, out_ref)
     else if ref_ptr out_ref \<noteq> None
     then map_option (\<lambda>(h1, _). (h1, r)) (iree_vm_ref_release tbl h out_ref)
     else Some (h, r))"

definition iree_vm_ref_move ::
  "type_table \<Rightarrow> bool \<Rightarrow> vm_heap \<Rightarrow> iree_vm_ref \<Rightarrow> iree_vm_ref \<Rightarrow> (vm_heap \<times> iree_vm_ref \<times> iree_vm_ref) option" where
  "iree_vm_ref_move tbl same h r out_ref =
    (if same then Some (h, r, out_ref)
     else if ref_ptr out_ref \<noteq> None
     then map_option (\<lambda>(h1, _). (h1, null_ref, r)) (iree_vm_ref_release tbl h out_ref)
     else Some (h, null_ref, r))"

definition iree_vm_ref_is_null :: "iree_vm_ref \<Rightarrow> bool" where
  "iree_vm_ref_is_null r \<longleftrightarrow> ref_type r = IREE_VM_REF_TYPE_NULL"

definition iree_vm_ref_equal :: "iree_vm_ref \<Rightarrow> iree_vm_ref \<Rightarrow> bool" where
  "iree_vm_ref_equal l r \<longleftrightarrow> l = r"

section \<open>The type table\<close>

lemma register_type_from_free:
  assumes "i \<le> j" "j < length tbl" "length tbl = IREE_VM_MAX_TYPE_ID" "tbl ! j = None"
    "\<forall>k. i \<le> k \<and> k < j \<longrightarrow> tbl ! k \<noteq> None"
  shows "register_type_from i tbl d = Some (tbl[j := Some (d\<lparr>td_type := j\<rparr>)], d\<lparr>td_type := j\<rparr>, IREE_STATUS_OK)"
  using assms
proof (induction i tbl d rule: register_type_from.induct)
  case (1 i tbl d)
  show ?case
  proof (cases "i = j")
    case True
    then show ?thesis using 1 by (subst register_type_from.simps) (simp add: Let_def)
  next
    case False
    with 1 have "tbl ! i \<noteq> None" "Suc i \<le> j" "i < length tbl" by auto
    with 1 False show ?thesis
      by (subst register_type_from.simps) auto
  qed
qed

lemma register_type_from_full:
  assumes "i \<le> IREE_VM_MAX_TYPE_ID" "length tbl = IREE_VM_MAX_TYPE_ID" "\<forall>k. i \<le> k \<and> k < length tbl \<longrightarrow> tbl ! k \<noteq> None"
  shows "register_type_from i tbl d = None"
  using assms
proof (induction i tbl d rule: register_type_from.induct)
  case (1 i tbl d)
  then show ?case
    by (subst register_type_from.simps) auto
qed

lemma lookup_registered_type_from_found:
  assumes "i \<le> j" "j < length tbl" "length tbl = IREE_VM_MAX_TYPE_ID" "tbl ! j = Some d" "td_type_name d = nm"
    "\<forall>k. i \<le> k \<and> k < j \<longrightarrow> (\<exists>e. tbl ! k = Some e \<and> td_type_name e \<noteq> nm)"
  shows "lookup_registered_type_from i tbl nm = Some (Some d)"
  using assms
proof (induction i tbl nm rule: lookup_registered_type_from.induct)
  case (1 i tbl nm)
  show ?case
  proof (cases "i = j")
    case True
    then show ?thesis using 1 by (subst lookup_registered_type_from.simps) simp
  next
    case False
    with 1 obtain e where e: "tbl ! i = Some e" "td_type_name e \<noteq> nm" by fastforce
    have "Suc i \<le> j" "i < length tbl" using 1 False by auto
    with 1 False e show ?thesis
      by (subst lookup_registered_type_from.simps) simp
  qed
qed

end
