(* ===== verification/VM_RefCount.thy ===== *)
theory VM_RefCount
  imports VM_Ref
begin

text \<open>
  The accounting invariant of reference counting and its preservation by release and retain.
\<close>

section \<open>Lists of references held by objects\<close>

definition ref_addrs :: "iree_vm_ref \<Rightarrow> nat multiset" where
  "ref_addrs r = (if ref_type r = 0 then {#} else case ref_ptr r of None \<Rightarrow> {#} | Some p \<Rightarrow> {#p#})"

definition list_refs :: "iree_vm_list \<Rightarrow> iree_vm_ref list" where
  "list_refs l = (case storage l of StValue vs \<Rightarrow> map (\<lambda>_. null_ref) vs | StRef rs \<Rightarrow> rs | StVariant vs \<Rightarrow> map variant_ref vs)"

definition kValueTypeSizes :: "iree_vm_value_type \<Rightarrow> nat" where
  "kValueTypeSizes t = (case t of
      IREE_VM_VALUE_TYPE_NONE \<Rightarrow> 0
    | IREE_VM_VALUE_TYPE_I8 \<Rightarrow> 1
    | IREE_VM_VALUE_TYPE_I16 \<Rightarrow> 2
    | IREE_VM_VALUE_TYPE_I32 \<Rightarrow> 4
    | IREE_VM_VALUE_TYPE_I64 \<Rightarrow> 8
    | IREE_VM_VALUE_TYPE_F32 \<Rightarrow> 4
    | IREE_VM_VALUE_TYPE_F64 \<Rightarrow> 8)"

definition sizeof_ref :: nat where "sizeof_ref = 16"
definition sizeof_variant :: nat where "sizeof_variant = 24"

text \<open>A variant whose type is not a reference type holds no reference.\<close>

definition variant_wf :: "iree_vm_variant \<Rightarrow> bool" where
  "variant_wf v \<longleftrightarrow>
    (if iree_vm_type_def_is_ref (var_type v)
     then value_type (var_type v) = IREE_VM_VALUE_TYPE_NONE
     else ref_addrs (variant_ref v) = {#} \<and> ref_ptr (variant_ref v) = None \<and>
       (value_type (var_type v) \<noteq> IREE_VM_VALUE_TYPE_NONE \<longrightarrow> (\<exists>x. payload v = PVal x)))"

text \<open>
  Well-formed lists: the storage has \<open>capacity\<close> elements and its byte size does not wrap, the mode
  and the element size follow from the element type, and the elements past the count hold nothing.
\<close>

definition storage_wf :: "iree_vm_type_def \<Rightarrow> vm_storage \<Rightarrow> bool" where
  "storage_wf t st = (case st of
      StValue vs \<Rightarrow> iree_vm_type_def_is_value t \<and> (\<forall>v \<in> set vs. unat v < 2 ^ (8 * kValueTypeSizes (value_type t)))
    | StRef rs \<Rightarrow> \<not> iree_vm_type_def_is_value t \<and> iree_vm_type_def_is_ref t
        \<and> (\<forall>r \<in> set rs. ref_type r = 0 \<or> ref_type r = def_ref_type t)
    | StVariant vs \<Rightarrow> iree_vm_type_def_is_variant t \<and> (\<forall>v \<in> set vs. variant_wf v))"

definition storage_element_size :: "iree_vm_type_def \<Rightarrow> vm_storage \<Rightarrow> nat" where
  "storage_element_size t st = (case st of
      StValue _ \<Rightarrow> kValueTypeSizes (value_type t) | StRef _ \<Rightarrow> sizeof_ref | StVariant _ \<Rightarrow> sizeof_variant)"

definition list_wf :: "iree_vm_list \<Rightarrow> bool" where
  "list_wf l \<longleftrightarrow>
    length (list_refs l) = unat (capacity l) \<and>
    list_count l \<le> capacity l \<and>
    unat (element_size l) = storage_element_size (element_type l) (storage l) \<and>
    unat (capacity l) * unat (element_size l) < 2 ^ 64 \<and>
    unat (capacity l) \<le> 2 ^ 58 \<and>
    storage_wf (element_type l) (storage l) \<and>
    (\<forall>i. unat (list_count l) \<le> i \<and> i < length (list_refs l) \<longrightarrow> ref_addrs (list_refs l ! i) = {#})"

section \<open>Counting references\<close>

definition addrs_of :: "iree_vm_ref list \<Rightarrow> nat multiset" where
  "addrs_of rs = sum_list (map ref_addrs rs)"

lemma addrs_of_simps [simp]:
  "addrs_of [] = {#}" "addrs_of (r # rs) = ref_addrs r + addrs_of rs" "addrs_of (rs @ ss) = addrs_of rs + addrs_of ss"
  by (simp_all add: addrs_of_def)

definition held_obj :: "vm_obj option \<Rightarrow> nat multiset" where
  "held_obj x = (case x of
      None \<Rightarrow> {#}
    | Some ob \<Rightarrow> if counter ob \<ge> 1 then (case body ob of BList l \<Rightarrow> addrs_of (list_refs l) | _ \<Rightarrow> {#}) else {#})"

definition held :: "vm_heap \<Rightarrow> nat multiset" where
  "held h = sum_list (map held_obj h)"

definition cnt :: "vm_heap \<Rightarrow> nat \<Rightarrow> int" where
  "cnt h p = (case obj_at h p of None \<Rightarrow> 0 | Some ob \<Rightarrow> counter ob)"

definition balanced :: "vm_heap \<Rightarrow> nat multiset \<Rightarrow> bool" where
  "balanced h F \<longleftrightarrow> (\<forall>p. cnt h p = int (count (held h + F) p))"

lemma held_update: "p < length h \<Longrightarrow> held (h[p := x]) + held_obj (h ! p) = held h + held_obj x"
proof (induction h arbitrary: p)
  case (Cons y h)
  then show ?case
    by (cases p) (auto simp: held_def add_ac)
qed simp

lemma held_obj_at: "p < length h \<Longrightarrow> held_obj (h ! p) = held_obj (obj_at h p)"
  by (simp add: obj_at_def)

lemma held_append [simp]: "held (h @ [x]) = held h + held_obj x"
  by (simp add: held_def)

text \<open>
  Ghost typing: \<open>\<Gamma> p\<close> is the destroy function and the counter offset of the type of the object at
  \<open>p\<close>. It never changes for an address, so a reference stays well typed for ever.
\<close>

type_synonym heap_typing = "nat \<Rightarrow> iree_vm_ref_destroy \<times> nat"

definition kind_ok :: "iree_vm_ref_destroy \<Rightarrow> vm_body \<Rightarrow> bool" where
  "kind_ok d b = (case d of
      DestroyNull \<Rightarrow> b = BNative
    | DestroyList \<Rightarrow> (\<exists>l. b = BList l)
    | DestroyBuffer \<Rightarrow> (\<exists>bf. b = BBuffer bf)
    | DestroyNative \<Rightarrow> b = BNative)"

definition ref_wf :: "type_table \<Rightarrow> heap_typing \<Rightarrow> iree_vm_ref \<Rightarrow> bool" where
  "ref_wf tbl \<Gamma> r \<longleftrightarrow>
    (ref_type r = 0 \<longrightarrow> ref_ptr r = None) \<and>
    (\<forall>p. ref_ptr r = Some p \<longrightarrow>
      (\<exists>td. iree_vm_ref_get_type_descriptor tbl (ref_type r) = Some td \<and>
            td_offsetof_counter td = ref_offsetof_counter r \<and>
            \<Gamma> p = (td_destroy td, ref_offsetof_counter r)))"

definition obj_wf :: "type_table \<Rightarrow> heap_typing \<Rightarrow> nat \<Rightarrow> vm_obj \<Rightarrow> bool" where
  "obj_wf tbl \<Gamma> p ob \<longleftrightarrow>
    kind_ok (fst (\<Gamma> p)) (body ob) \<and> obj_offset ob = snd (\<Gamma> p) \<and>
    (counter ob \<ge> 1 \<longrightarrow> (\<forall>l. body ob = BList l \<longrightarrow> list_wf l \<and> (\<forall>r \<in> set (list_refs l). ref_wf tbl \<Gamma> r)))"

definition heap_inv :: "type_table \<Rightarrow> heap_typing \<Rightarrow> vm_heap \<Rightarrow> nat multiset \<Rightarrow> bool" where
  "heap_inv tbl \<Gamma> h F \<longleftrightarrow> (\<forall>p ob. obj_at h p = Some ob \<longrightarrow> obj_wf tbl \<Gamma> p ob) \<and> balanced h F"

text \<open>The invariant the rest of the development uses: \<open>R\<close> are the references held outside of the store.\<close>

definition heap_ok :: "type_table \<Rightarrow> vm_heap \<Rightarrow> iree_vm_ref multiset \<Rightarrow> bool" where
  "heap_ok tbl h R \<longleftrightarrow>
    (\<exists>\<Gamma>. (\<forall>r \<in># R. ref_wf tbl \<Gamma> r) \<and> heap_inv tbl \<Gamma> h (\<Sum>r \<in># R. ref_addrs r))"

section \<open>What a release leaves alone\<close>

definition live_set :: "vm_heap \<Rightarrow> nat set" where
  "live_set h = {p. \<exists>ob. obj_at h p = Some ob \<and> counter ob \<ge> 1}"

text \<open>
  Objects already at count zero keep their contents, except those in \<open>Z\<close>; whatever is live
  afterwards was live before and has the same contents.
\<close>

definition shrinks :: "nat set \<Rightarrow> vm_heap \<Rightarrow> vm_heap \<Rightarrow> bool" where
  "shrinks Z h h' \<longleftrightarrow>
    length h' = length h \<and>
    (\<forall>p ob. p \<notin> Z \<longrightarrow> obj_at h p = Some ob \<longrightarrow> counter ob = 0 \<longrightarrow> obj_at h' p = Some ob) \<and>
    (\<forall>p ob'. obj_at h' p = Some ob' \<longrightarrow> counter ob' \<ge> 1 \<longrightarrow>
      (\<exists>ob. obj_at h p = Some ob \<and> counter ob \<ge> 1 \<and> body ob = body ob')) \<and>
    (\<forall>p ob'. p \<notin> Z \<longrightarrow> obj_at h' p = Some ob' \<longrightarrow> counter ob' = 0 \<longrightarrow> body ob' \<noteq> BNative \<longrightarrow> obj_at h p = Some ob')"

lemma shrinks_refl [simp]: "shrinks Z h h"
  by (auto simp: shrinks_def)

lemma shrinksI:
  assumes "length h' = length h"
    and "\<And>p ob. p \<notin> Z \<Longrightarrow> obj_at h p = Some ob \<Longrightarrow> counter ob = 0 \<Longrightarrow> obj_at h' p = Some ob"
    and "\<And>p ob'. obj_at h' p = Some ob' \<Longrightarrow> counter ob' \<ge> 1 \<Longrightarrow>
      \<exists>ob. obj_at h p = Some ob \<and> counter ob \<ge> 1 \<and> body ob = body ob'"
    and "\<And>p ob'. p \<notin> Z \<Longrightarrow> obj_at h' p = Some ob' \<Longrightarrow> counter ob' = 0 \<Longrightarrow> body ob' \<noteq> BNative \<Longrightarrow> obj_at h p = Some ob'"
  shows "shrinks Z h h'"
  unfolding shrinks_def by (intro conjI allI impI; rule assms)

lemma shrinksD:
  assumes "shrinks Z h h'"
  shows "length h' = length h"
    and "p \<notin> Z \<Longrightarrow> obj_at h p = Some ob \<Longrightarrow> counter ob = 0 \<Longrightarrow> obj_at h' p = Some ob"
    and "obj_at h' p = Some ob' \<Longrightarrow> counter ob' \<ge> 1 \<Longrightarrow> \<exists>ob. obj_at h p = Some ob \<and> counter ob \<ge> 1 \<and> body ob = body ob'"
    and "p \<notin> Z \<Longrightarrow> obj_at h' p = Some ob' \<Longrightarrow> counter ob' = 0 \<Longrightarrow> body ob' \<noteq> BNative \<Longrightarrow> obj_at h p = Some ob'"
  using assms unfolding shrinks_def by blast+

lemma shrinks_trans:
  assumes a: "shrinks Z h1 h2" and b: "shrinks Z h2 h3"
  shows "shrinks Z h1 h3"
proof (rule shrinksI)
  show "length h3 = length h1" using shrinksD(1) [OF a] shrinksD(1) [OF b] by simp
next
  fix p ob assume p: "p \<notin> Z" and ob: "obj_at h1 p = Some ob" "counter ob = 0"
  from shrinksD(2) [OF b p shrinksD(2) [OF a p ob] ob(2)] show "obj_at h3 p = Some ob" .
next
  fix p ob' assume "obj_at h3 p = Some ob'" "counter ob' \<ge> 1"
  from shrinksD(3) [OF b this] obtain ob where "obj_at h2 p = Some ob" "counter ob \<ge> 1" "body ob = body ob'" by blast
  with shrinksD(3) [OF a this(1,2)] show "\<exists>ob. obj_at h1 p = Some ob \<and> counter ob \<ge> 1 \<and> body ob = body ob'" by simp
next
  fix p ob' assume p: "p \<notin> Z" and ob: "obj_at h3 p = Some ob'" "counter ob' = 0" "body ob' \<noteq> BNative"
  from shrinksD(4) [OF a p shrinksD(4) [OF b p ob] ob(2,3)] show "obj_at h1 p = Some ob'" .
qed

lemma shrinks_mono: "shrinks Z h h' \<Longrightarrow> Z \<subseteq> Z' \<Longrightarrow> shrinks Z' h h'"
  by (rule shrinksI) (simp add: shrinksD(1), erule shrinksD(2), blast+, erule shrinksD(3), assumption+, erule shrinksD(4), blast+)

lemma shrinks_live: "shrinks Z h h' \<Longrightarrow> live_set h' \<subseteq> live_set h"
  unfolding live_set_def by (rule subsetI) (use shrinksD(3) in blast)

lemma live_set_bound: "live_set h \<subseteq> {..<length h}"
  by (auto simp: live_set_def dest: obj_at_length)

lemma finite_live_set [simp]: "finite (live_set h)"
  using live_set_bound finite_subset by blast

lemma card_live_set: "card (live_set h) \<le> length h"
  using card_mono [OF _ live_set_bound] by fastforce

section \<open>Release\<close>

text \<open>What the variable holds after a release.\<close>

definition released :: "iree_vm_ref \<Rightarrow> iree_vm_ref" where
  "released r = (if ref_type r = 0 \<or> ref_ptr r = None then r else null_ref)"

lemma ref_addrs_null [simp]: "ref_addrs null_ref = {#}"
  by (simp add: ref_addrs_def null_ref_def)

lemma ref_addrs_released [simp]: "ref_addrs (released r) = {#}"
  by (auto simp: released_def ref_addrs_def null_ref_def split: option.splits)

lemma balancedD: "balanced h F \<Longrightarrow> obj_at h p = Some ob \<Longrightarrow> counter ob = int (count (held h + F) p)"
  unfolding balanced_def cnt_def by (metis option.simps(5))

lemma balanced_live: "balanced h F \<Longrightarrow> p \<in># F \<Longrightarrow> \<exists>ob. obj_at h p = Some ob \<and> counter ob \<ge> 1"
proof -
  assume b: "balanced h F" and p: "p \<in># F"
  from b have "cnt h p = int (count (held h) p + count F p)" unfolding balanced_def by simp
  moreover have "count F p > 0" using p by simp
  ultimately have "cnt h p \<ge> 1" by linarith
  then show ?thesis by (auto simp: cnt_def split: option.splits)
qed

text \<open>Replacing the object at an address.\<close>

lemma held_put_obj:
  "obj_at h p = Some ob \<Longrightarrow> held (put_obj h p ob') + held_obj (Some ob) = held h + held_obj (Some ob')"
  using held_update [of p h "Some ob'"] by (auto simp: put_obj_def obj_at_def split: if_splits)

lemma cnt_put_obj [simp]: "p < length h \<Longrightarrow> cnt (put_obj h p ob') q = (if q = p then counter ob' else cnt h q)"
  by (simp add: cnt_def)

text \<open>Contents of an object at count zero are not counted.\<close>

lemma heap_inv_put_zombie:
  assumes "heap_inv tbl \<Gamma> h F" "obj_at h p = Some ob" "counter ob = 0"
    "obj_wf tbl \<Gamma> p ob'" "counter ob' = 0"
  shows "heap_inv tbl \<Gamma> (put_obj h p ob') F"
proof -
  have "p < length h" using assms(2) by (rule obj_at_length)
  moreover have "held (put_obj h p ob') = held h"
    using held_put_obj [OF assms(2), of ob'] assms(3,5) by (simp add: held_obj_def)
  moreover have "counter ob = int (count (held h + F) p)"
    using assms by (intro balancedD) (auto simp: heap_inv_def)
  ultimately show ?thesis
    using assms by (auto simp: heap_inv_def balanced_def cnt_def split: if_splits)
qed

lemma heap_inv_dec:
  assumes inv: "heap_inv tbl \<Gamma> h (add_mset p F)" and ob: "obj_at h p = Some ob" and c: "counter ob \<noteq> 1"
  shows "heap_inv tbl \<Gamma> (put_obj h p (ob\<lparr>counter := counter ob - 1\<rparr>)) F"
proof -
  have p: "p < length h" using ob by (rule obj_at_length)
  have b: "balanced h (add_mset p F)" using inv by (simp add: heap_inv_def)
  from balancedD [OF b ob] c have "counter ob \<ge> 2" by auto
  then have "held (put_obj h p (ob\<lparr>counter := counter ob - 1\<rparr>)) = held h"
    using held_put_obj [OF ob, of "ob\<lparr>counter := counter ob - 1\<rparr>"] by (simp add: held_obj_def)
  moreover have "obj_wf tbl \<Gamma> p (ob\<lparr>counter := counter ob - 1\<rparr>)"
    using inv ob \<open>counter ob \<ge> 2\<close> by (auto simp: heap_inv_def obj_wf_def)
  ultimately show ?thesis
    using inv b p balancedD [OF b ob] by (auto simp: heap_inv_def balanced_def cnt_def split: if_splits)
qed

lemma heap_inv_drop_last:
  assumes inv: "heap_inv tbl \<Gamma> h (add_mset p F)" and ob: "obj_at h p = Some ob" and c: "counter ob = 1"
  shows "heap_inv tbl \<Gamma> (put_obj h p (ob\<lparr>counter := 0\<rparr>)) (F + held_obj (Some ob))"
proof -
  have p: "p < length h" using ob by (rule obj_at_length)
  have b: "balanced h (add_mset p F)" using inv by (simp add: heap_inv_def)
  have h: "held (put_obj h p (ob\<lparr>counter := 0\<rparr>)) + held_obj (Some ob) = held h"
    using held_put_obj [OF ob, of "ob\<lparr>counter := 0\<rparr>"] by (simp add: held_obj_def)
  then have "count (held h) q = count (held (put_obj h p (ob\<lparr>counter := 0\<rparr>))) q + count (held_obj (Some ob)) q" for q
    by (metis count_union)
  moreover have "obj_wf tbl \<Gamma> p (ob\<lparr>counter := 0\<rparr>)"
    using inv ob by (auto simp: heap_inv_def obj_wf_def)
  ultimately show ?thesis
    using inv b p balancedD [OF b ob] c by (auto simp: heap_inv_def balanced_def cnt_def ob split: if_splits)
qed

lemma heap_inv_free:
  assumes "heap_inv tbl \<Gamma> h F" "obj_at h p = Some ob" "counter ob = 0"
  shows "heap_inv tbl \<Gamma> (h[p := None]) F"
proof -
  have p: "p < length h" using assms(2) by (rule obj_at_length)
  then have "held (h[p := None]) = held h"
    using held_update [OF p, of None] assms(2,3) by (simp add: held_obj_def obj_at_def)
  moreover have "counter ob = int (count (held h + F) p)"
    using assms by (intro balancedD) (auto simp: heap_inv_def)
  ultimately show ?thesis
    using assms p by (auto simp: heap_inv_def balanced_def cnt_def split: if_splits)
qed

lemma shrinks_put:
  assumes "obj_at h p = Some ob" "p \<in> Z \<or> counter ob \<noteq> 0" "counter ob' \<ge> 1 \<Longrightarrow> counter ob \<ge> 1 \<and> body ob = body ob'"
    "p \<in> Z \<or> counter ob' \<noteq> 0 \<or> body ob' = BNative"
  shows "shrinks Z h (put_obj h p ob')"
  using assms obj_at_length [OF assms(1)] by (intro shrinksI) (auto split: if_splits)

lemma shrinks_free:
  assumes "obj_at h p = Some ob" "p \<in> Z \<or> counter ob \<noteq> 0"
  shows "shrinks Z h (h[p := None])"
  using assms obj_at_length [OF assms(1)] by (intro shrinksI) (auto split: if_splits)

text \<open>The contract of release, for any function that may take its place inside the destruction of a list.\<close>

definition release_contract ::
  "type_table \<Rightarrow> heap_typing \<Rightarrow> nat \<Rightarrow> (vm_heap \<Rightarrow> iree_vm_ref \<Rightarrow> (vm_heap \<times> iree_vm_ref) option) \<Rightarrow> bool" where
  "release_contract tbl \<Gamma> n rel \<longleftrightarrow>
    (\<forall>h r F. heap_inv tbl \<Gamma> h (ref_addrs r + F) \<longrightarrow> ref_wf tbl \<Gamma> r \<longrightarrow> card (live_set h) < n \<longrightarrow>
      (\<exists>h'. rel h r = Some (h', released r) \<and> heap_inv tbl \<Gamma> h' F \<and> shrinks {} h h'))"

lemma release_contractE:
  assumes "release_contract tbl \<Gamma> n rel" "heap_inv tbl \<Gamma> h (ref_addrs r + F)" "ref_wf tbl \<Gamma> r" "card (live_set h) < n"
  obtains h' where "rel h r = Some (h', released r)" "heap_inv tbl \<Gamma> h' F" "shrinks {} h h'"
  using assms unfolding release_contract_def by blast

definition reset_value :: "vm_storage \<Rightarrow> nat \<Rightarrow> vm_storage" where
  "reset_value st i = (case st of
      StValue vs \<Rightarrow> StValue (vs[i := 0])
    | StRef rs \<Rightarrow> StRef (rs[i := released (rs ! i)])
    | StVariant vs \<Rightarrow> StVariant (vs[i :=
        (if iree_vm_type_def_is_ref (var_type (vs ! i))
         then \<lparr>var_type = iree_vm_type_def_make_variant_type, payload = PRef (released (variant_ref (vs ! i)))\<rparr>
         else iree_vm_variant_empty)]))"

lemma put_list_Some: "obj_at h p = Some ob \<Longrightarrow> body ob = BList l \<Longrightarrow> put_list h p l' = Some (put_obj h p (ob\<lparr>body := BList l'\<rparr>))"
  by (simp add: put_list_def)

lemma reset_slot_ok:
  assumes rel: "release_contract tbl \<Gamma> n rel"
    and ob: "obj_at h p = Some ob" "counter ob = 0" "body ob = BList l"
    and i: "i < length (list_refs l)"
    and inv: "heap_inv tbl \<Gamma> h (ref_addrs (list_refs l ! i) + F)"
    and wf: "ref_wf tbl \<Gamma> (list_refs l ! i)"
    and var: "\<forall>v \<in> set (case storage l of StVariant vs \<Rightarrow> vs | _ \<Rightarrow> []). variant_wf v"
    and live: "card (live_set h) < n"
  shows "\<exists>h1. reset_slot rel h p i = Some (put_obj h1 p (ob\<lparr>body := BList (l\<lparr>storage := reset_value (storage l) i\<rparr>)\<rparr>))
    \<and> obj_at h1 p = Some ob \<and> heap_inv tbl \<Gamma> h1 F \<and> shrinks {} h h1"
proof -
  have la: "list_at h p = Some l" using ob by (simp add: list_at_Some)
  have frame: "list_at h' p = Some l \<and> obj_at h' p = Some ob" if "shrinks {} h h'" for h'
    using shrinksD(2) [OF that _ ob(1,2)] ob(3) by (simp add: list_at_Some)
  show ?thesis
  proof (cases "storage l")
    case (StValue vs)
    then have "ref_addrs (list_refs l ! i) = {#}" using i by (simp add: list_refs_def)
    with StValue i inv la ob show ?thesis
      by (auto simp: reset_slot_def list_refs_def reset_value_def put_list_def)
  next
    case (StRef rs)
    from release_contractE [OF rel inv wf live] obtain h' where
      h': "rel h (rs ! i) = Some (h', released (rs ! i))" "heap_inv tbl \<Gamma> h' F" "shrinks {} h h'"
      using StRef by (auto simp: list_refs_def)
    with StRef i la ob frame [OF h'(3)] show ?thesis
      by (auto simp: reset_slot_def write_ref_slot_def list_refs_def reset_value_def put_list_Some)
  next
    case (StVariant vs)
    show ?thesis
    proof (cases "iree_vm_type_def_is_ref (var_type (vs ! i))")
      case True
      from release_contractE [OF rel inv wf live] obtain h' where
        h': "rel h (variant_ref (vs ! i)) = Some (h', released (variant_ref (vs ! i)))" "heap_inv tbl \<Gamma> h' F" "shrinks {} h h'"
        using StVariant i by (auto simp: list_refs_def simp del: variant_ref.simps)
      with StVariant i la ob True frame [OF h'(3)] show ?thesis
        by (auto simp: reset_slot_def write_variant_slot_def list_refs_def reset_value_def put_list_Some simp del: variant_ref.simps)
    next
      case False
      have "vs ! i \<in> set vs" using StVariant i by (simp add: list_refs_def)
      then have "ref_addrs (list_refs l ! i) = {#}"
        using False var StVariant i by (auto simp: list_refs_def variant_wf_def simp del: variant_ref.simps)
      with StVariant i inv la ob False show ?thesis
        by (auto simp: reset_slot_def write_variant_slot_def list_refs_def reset_value_def put_list_Some simp del: variant_ref.simps)
    qed
  qed
qed

lemma ref_wf_null [simp]: "ref_wf tbl \<Gamma> null_ref"
  by (simp add: ref_wf_def null_ref_def)

lemma ref_wf_released [simp]: "ref_wf tbl \<Gamma> r \<Longrightarrow> ref_wf tbl \<Gamma> (released r)"
  by (simp add: released_def)

lemma ref_ptr_released: "ref_wf tbl \<Gamma> r \<Longrightarrow> ref_ptr (released r) = None"
  by (auto simp: released_def ref_wf_def null_ref_def)

abbreviation storage_variants :: "vm_storage \<Rightarrow> iree_vm_variant set" where
  "storage_variants st \<equiv> set (case st of StVariant vs \<Rightarrow> vs | _ \<Rightarrow> [])"

lemma list_refs_reset_value:
  assumes "i < length (list_refs l)" "ref_wf tbl \<Gamma> (list_refs l ! i)"
  shows "\<exists>x. list_refs (l\<lparr>storage := reset_value (storage l) i\<rparr>) = (list_refs l)[i := x] \<and> ref_wf tbl \<Gamma> x"
proof (cases "storage l")
  case (StValue vs)
  then have "list_refs (l\<lparr>storage := reset_value (storage l) i\<rparr>) = (list_refs l)[i := null_ref]"
    using assms(1) by (simp add: list_refs_def reset_value_def map_update)
  then show ?thesis by auto
next
  case (StRef rs)
  then show ?thesis
    using assms by (auto simp: list_refs_def reset_value_def intro!: exI [of _ "released (rs ! i)"])
next
  case (StVariant vs)
  then show ?thesis
    using assms
    by (auto simp: list_refs_def reset_value_def map_update iree_vm_variant_empty_def
        intro!: exI [of _ "if iree_vm_type_def_is_ref (var_type (vs ! i)) then released (variant_ref (vs ! i)) else null_ref"])
qed

lemma variants_reset_value:
  assumes "i < length (list_refs l)" "ref_wf tbl \<Gamma> (list_refs l ! i)" "\<forall>v \<in> storage_variants (storage l). variant_wf v"
  shows "\<forall>v \<in> storage_variants (reset_value (storage l) i). variant_wf v"
proof (cases "storage l")
  case (StVariant vs)
  then have "ref_ptr (released (variant_ref (vs ! i))) = None"
    using assms by (intro ref_ptr_released) (simp add: list_refs_def)
  then have wf: "variant_wf \<lparr>var_type = iree_vm_type_def_make_variant_type, payload = PRef (released (variant_ref (vs ! i)))\<rparr>"
    by (simp add: variant_wf_def iree_vm_type_def_is_ref_def iree_vm_type_def_make_variant_type_def IREE_VM_REF_TYPE_NULL_def)
  have "variant_wf iree_vm_variant_empty"
    by (simp add: variant_wf_def iree_vm_variant_empty_def null_ref_def iree_vm_type_def_is_ref_def
        iree_vm_type_def_make_variant_type_def IREE_VM_REF_TYPE_NULL_def ref_addrs_def)
  with wf show ?thesis
    using StVariant assms(3) by (auto simp: reset_value_def dest!: set_update_subset_insert [THEN subsetD] simp del: variant_ref.simps)
qed (simp_all add: reset_value_def)

lemma live_set_put_zombie: "obj_at h p = Some ob \<Longrightarrow> counter ob = 0 \<Longrightarrow> counter ob' = 0 \<Longrightarrow> live_set (put_obj h p ob') = live_set h"
  using obj_at_length [of h p ob] by (auto simp: live_set_def split: if_splits)

lemma reset_range_ok:
  assumes rel: "release_contract tbl \<Gamma> n rel"
    and ob: "obj_at h p = Some ob" "counter ob = 0" "body ob = BList l"
    and k: "i + k \<le> length (list_refs l)"
    and inv: "heap_inv tbl \<Gamma> h (addrs_of (take k (drop i (list_refs l))) + F)"
    and wf: "\<forall>r \<in> set (list_refs l). ref_wf tbl \<Gamma> r"
    and var: "\<forall>v \<in> storage_variants (storage l). variant_wf v"
    and live: "card (live_set h) < n"
  shows "\<exists>h' ob'. reset_range_with rel h p i k = Some h' \<and> obj_at h' p = Some ob' \<and> counter ob' = 0
    \<and> heap_inv tbl \<Gamma> h' F \<and> shrinks {p} h h'"
  using ob k inv wf var live
proof (induction k arbitrary: h i ob l)
  case 0
  then show ?case by auto
next
  case (Suc k)
  let ?r = "list_refs l ! i" and ?l' = "l\<lparr>storage := reset_value (storage l) i\<rparr>"
  let ?ob' = "ob\<lparr>body := BList ?l'\<rparr>"
  have i: "i < length (list_refs l)" using Suc.prems(4) by simp
  then have r: "ref_wf tbl \<Gamma> ?r" using Suc.prems(6) by simp
  have split: "take (Suc k) (drop i (list_refs l)) = ?r # take k (drop (Suc i) (list_refs l))"
    using i by (metis Cons_nth_drop_Suc take_Suc_Cons)
  have inv': "heap_inv tbl \<Gamma> h (ref_addrs ?r + (addrs_of (take k (drop (Suc i) (list_refs l))) + F))"
    using Suc.prems(5) unfolding split by (simp add: add_ac)
  from reset_slot_ok [OF rel Suc.prems(1,2,3) i inv' r Suc.prems(7,8)]
  obtain h1 where h1: "reset_slot rel h p i = Some (put_obj h1 p ?ob')" "obj_at h1 p = Some ob"
    "heap_inv tbl \<Gamma> h1 (addrs_of (take k (drop (Suc i) (list_refs l))) + F)" "shrinks {} h h1"
    by blast
  obtain x where x: "list_refs ?l' = (list_refs l)[i := x]" "ref_wf tbl \<Gamma> x"
    using list_refs_reset_value [OF i r] by blast
  have "obj_wf tbl \<Gamma> p ob" using h1(2,3) by (simp add: heap_inv_def)
  then have "obj_wf tbl \<Gamma> p ?ob'"
    using Suc.prems(2,3) by (auto simp: obj_wf_def kind_ok_def split: iree_vm_ref_destroy.splits)
  then have inv2: "heap_inv tbl \<Gamma> (put_obj h1 p ?ob') (addrs_of (take k (drop (Suc i) (list_refs ?l'))) + F)"
    using heap_inv_put_zombie [OF h1(3,2)] Suc.prems(2) x(1) by simp
  have p: "p < length h1" using h1(2) by (rule obj_at_length)
  have "live_set (put_obj h1 p ?ob') = live_set h1"
    using h1(2) Suc.prems(2) by (intro live_set_put_zombie) auto
  then have live2: "card (live_set (put_obj h1 p ?ob')) < n"
    using shrinks_live [OF h1(4)] Suc.prems(8) by (metis card_mono finite_live_set le_less_trans)
  have wf2: "\<forall>r \<in> set (list_refs ?l'). ref_wf tbl \<Gamma> r"
    using x Suc.prems(6) by (auto dest!: set_update_subset_insert [THEN subsetD])
  have var2: "\<forall>v \<in> storage_variants (storage ?l'). variant_wf v"
    using variants_reset_value [OF i r Suc.prems(7)] by simp
  obtain h' ob' where h': "reset_range_with rel (put_obj h1 p ?ob') p (Suc i) k = Some h'" "obj_at h' p = Some ob'" "counter ob' = 0"
    "heap_inv tbl \<Gamma> h' F" "shrinks {p} (put_obj h1 p ?ob') h'"
    using Suc.prems(2,4) x(1) p by (atomize_elim, intro Suc.IH [where ob = ?ob', OF _ _ _ _ inv2 wf2 var2 live2]) auto
  have "shrinks {p} h (put_obj h1 p ?ob')"
    using shrinks_trans [OF shrinks_mono [OF h1(4)] shrinks_put [OF h1(2), of "{p}" ?ob']] Suc.prems(2) by simp
  from shrinks_trans [OF this h'(5)] h1(1) h' show ?case by simp
qed

lemma addrs_of_empty: "(\<forall>i < length rs. ref_addrs (rs ! i) = {#}) \<Longrightarrow> addrs_of rs = {#}"
proof -
  have "(\<forall>r \<in> set rs. ref_addrs r = {#}) \<Longrightarrow> addrs_of rs = {#}"
    by (induction rs) auto
  then show "\<forall>i < length rs. ref_addrs (rs ! i) = {#} \<Longrightarrow> ?thesis"
    by (simp add: all_set_conv_all_nth)
qed

lemma shrinks_zombie:
  assumes "shrinks {p} h h'" "obj_at h p = Some ob" "counter ob \<noteq> 0" "obj_at h' p = None"
  shows "shrinks {} h h'"
proof (rule shrinksI)
  show "length h' = length h" by (rule shrinksD(1) [OF assms(1)])
next
  fix q obq assume ob: "obj_at h q = Some obq" "counter obq = 0"
  with assms(2,3) have "q \<notin> {p}" by auto
  from shrinksD(2) [OF assms(1) this ob] show "obj_at h' q = Some obq" .
next
  fix q ob' assume "obj_at h' q = Some ob'" "counter ob' \<ge> 1"
  then show "\<exists>ob. obj_at h q = Some ob \<and> counter ob \<ge> 1 \<and> body ob = body ob'" by (rule shrinksD(3) [OF assms(1)])
next
  fix q ob' assume ob: "obj_at h' q = Some ob'" "counter ob' = 0" "body ob' \<noteq> BNative"
  with assms(4) have "q \<notin> {p}" by auto
  from shrinksD(4) [OF assms(1) this ob] show "obj_at h q = Some ob'" .
qed

lemma list_wf_addrs:
  assumes "list_wf l"
  shows "addrs_of (take (unat (list_count l)) (list_refs l)) = addrs_of (list_refs l)"
proof -
  have "addrs_of (drop (unat (list_count l)) (list_refs l)) = {#}"
    using assms by (intro addrs_of_empty) (auto simp: list_wf_def)
  then show ?thesis
    using addrs_of_simps(3) [of "take (unat (list_count l)) (list_refs l)" "drop (unat (list_count l)) (list_refs l)"] by simp
qed

lemma list_wf_variants: "list_wf l \<Longrightarrow> \<forall>v \<in> storage_variants (storage l). variant_wf v"
  by (auto simp: list_wf_def storage_wf_def split: vm_storage.splits)

lemma list_wf_count: "list_wf l \<Longrightarrow> unat (list_count l) \<le> length (list_refs l)"
  by (simp add: list_wf_def word_le_nat_alt)

lemma destroy_list_ok:
  assumes rel: "release_contract tbl \<Gamma> n rel"
    and ob: "obj_at h p = Some ob" "counter ob = 0" "body ob = BList l"
    and inv: "heap_inv tbl \<Gamma> h (addrs_of (list_refs l) + F)"
    and wf: "list_wf l" "\<forall>r \<in> set (list_refs l). ref_wf tbl \<Gamma> r"
    and live: "card (live_set h) < n"
  shows "\<exists>h'. destroy_list_with rel h p = Some h' \<and> heap_inv tbl \<Gamma> h' F \<and> shrinks {p} h h' \<and> obj_at h' p = None"
proof -
  have "heap_inv tbl \<Gamma> h (addrs_of (take (unat (list_count l)) (drop 0 (list_refs l))) + F)"
    using inv by (simp add: list_wf_addrs [OF wf(1)])
  from reset_range_ok [OF rel ob _ this wf(2) list_wf_variants [OF wf(1)] live]
  obtain h' ob' where h': "reset_range_with rel h p 0 (unat (list_count l)) = Some h'"
    "obj_at h' p = Some ob'" "counter ob' = 0" "heap_inv tbl \<Gamma> h' F" "shrinks {p} h h'"
    using list_wf_count [OF wf(1)] by auto
  moreover have "shrinks {p} h' (h'[p := None])"
    using h'(2) by (rule shrinks_free) simp
  moreover have "obj_at (h'[p := None]) p = None"
    using obj_at_length [OF h'(2)] by simp
  moreover have "destroy_list_with rel h p = Some (h'[p := None])"
    using h'(1,2) ob by (simp add: destroy_list_with_def list_at_def free_obj_def)
  ultimately show ?thesis
    using shrinks_trans [OF h'(5)] heap_inv_free [OF h'(4,2,3)] by (intro exI [of _ "h'[p := None]"]) simp
qed

lemma call_destroy_ok:
  assumes rel: "release_contract tbl \<Gamma> n rel"
    and ob: "obj_at h p = Some ob" "counter ob = 1" and d: "fst (\<Gamma> p) = d"
    and inv: "heap_inv tbl \<Gamma> h (add_mset p F)"
    and live: "card (live_set h) < Suc n"
  shows "\<exists>h'. call_destroy rel d (put_obj h p (ob\<lparr>counter := 0\<rparr>)) p = Some h' \<and> heap_inv tbl \<Gamma> h' F \<and> shrinks {} h h'"
proof -
  let ?h1 = "put_obj h p (ob\<lparr>counter := 0\<rparr>)"
  have p: "p < length h" using ob(1) by (rule obj_at_length)
  have inv1: "heap_inv tbl \<Gamma> ?h1 (held_obj (Some ob) + F)"
    using heap_inv_drop_last [OF inv ob] by (simp add: add.commute)
  have s1: "shrinks {p} h ?h1" using ob by (intro shrinks_put) auto
  have wf: "obj_wf tbl \<Gamma> p ob" using inv ob by (simp add: heap_inv_def)
  have free: "shrinks {} h h'" if "shrinks {p} ?h1 h'" "obj_at h' p = None" for h'
    using shrinks_zombie [OF shrinks_trans [OF s1 that(1)] ob(1) _ that(2)] ob(2) by simp
  have leaf: "\<exists>h'. free_obj ?h1 p = Some h' \<and> heap_inv tbl \<Gamma> h' F \<and> shrinks {} h h'" if "held_obj (Some ob) = {#}"
  proof -
    have "shrinks {p} ?h1 (?h1[p := None])" using p by (intro shrinks_free) auto
    with that inv1 heap_inv_free [of tbl \<Gamma> ?h1 F p] free show ?thesis
      using p by (auto simp: free_obj_def)
  qed
  have notlist: "held_obj (Some ob) = {#}" if "\<nexists>l. body ob = BList l"
    using that by (auto simp: held_obj_def split: vm_body.splits)
  show ?thesis
  proof (cases d)
    case DestroyNull
    then have "body ob = BNative" using wf d by (simp add: obj_wf_def kind_ok_def)
    moreover from this have "shrinks {} h ?h1" using ob by (intro shrinks_put) auto
    ultimately show ?thesis using DestroyNull inv1 notlist by (simp add: call_destroy_def)
  next
    case DestroyBuffer
    then obtain bf where "body ob = BBuffer bf" using wf d by (auto simp: obj_wf_def kind_ok_def)
    with DestroyBuffer leaf notlist p show ?thesis by (simp add: call_destroy_def)
  next
    case DestroyNative
    then have "body ob = BNative" using wf d by (simp add: obj_wf_def kind_ok_def)
    with DestroyNative leaf notlist p show ?thesis by (simp add: call_destroy_def)
  next
    case DestroyList
    then obtain l where l: "body ob = BList l" using wf d by (auto simp: obj_wf_def kind_ok_def)
    have "live_set ?h1 = live_set h - {p}" "p \<in> live_set h"
      using ob p by (auto simp: live_set_def split: if_splits)
    then have "card (live_set ?h1) < n"
      using live by (metis card_Diff1_less finite_live_set less_Suc_eq_le order_less_le_trans)
    moreover have "held_obj (Some ob) = addrs_of (list_refs l)" using ob l by (simp add: held_obj_def)
    ultimately have "\<exists>h'. destroy_list_with rel ?h1 p = Some h' \<and> heap_inv tbl \<Gamma> h' F \<and> shrinks {p} ?h1 h' \<and> obj_at h' p = None"
      using wf inv1 ob l p by (intro destroy_list_ok [OF rel, where ob = "ob\<lparr>counter := 0\<rparr>"]) (auto simp: obj_wf_def)
    with DestroyList free show ?thesis by (auto simp: call_destroy_def)
  qed
qed

lemma release_fuel_contract: "release_contract tbl \<Gamma> n (release_fuel n tbl)"
proof (induction n)
  case 0
  then show ?case by (simp add: release_contract_def)
next
  case (Suc n)
  show ?case
    unfolding release_contract_def
  proof (intro allI impI)
    fix h r F
    assume inv: "heap_inv tbl \<Gamma> h (ref_addrs r + F)" and wf: "ref_wf tbl \<Gamma> r" and live: "card (live_set h) < Suc n"
    show "\<exists>h'. release_fuel (Suc n) tbl h r = Some (h', released r) \<and> heap_inv tbl \<Gamma> h' F \<and> shrinks {} h h'"
    proof (cases "ref_type r = 0 \<or> ref_ptr r = None")
      case True
      then show ?thesis
        using inv by (auto simp: released_def ref_addrs_def IREE_VM_REF_TYPE_NULL_def split: option.splits)
    next
      case False
      then obtain p where p: "ref_ptr r = Some p" and t: "ref_type r \<noteq> 0" by auto
      then have F: "heap_inv tbl \<Gamma> h (add_mset p F)" using inv by (simp add: ref_addrs_def)
      from wf p obtain td where td: "iree_vm_ref_get_type_descriptor tbl (ref_type r) = Some td"
        "\<Gamma> p = (td_destroy td, ref_offsetof_counter r)" by (auto simp: ref_wf_def)
      from F obtain ob where ob: "obj_at h p = Some ob" "counter ob \<ge> 1"
        using balanced_live [of h "add_mset p F" p] by (auto simp: heap_inv_def)
      have off: "obj_offset ob = ref_offsetof_counter r"
        using F ob td by (auto simp: heap_inv_def obj_wf_def)
      show ?thesis
      proof (cases "counter ob = 1")
        case True
        from call_destroy_ok [OF Suc.IH ob(1) this _ F live, of "td_destroy td"] td True p t off ob show ?thesis
          by (auto simp: iree_atomic_ref_count_dec_def released_def IREE_VM_REF_TYPE_NULL_def)
      next
        case False
        from heap_inv_dec [OF F ob(1) this] False p t off ob show ?thesis
          by (auto simp: iree_atomic_ref_count_dec_def released_def IREE_VM_REF_TYPE_NULL_def intro!: shrinks_put)
      qed
    qed
  qed
qed

section \<open>The invariant of the store\<close>

abbreviation root_addrs :: "iree_vm_ref multiset \<Rightarrow> nat multiset" where
  "root_addrs R \<equiv> (\<Sum>r \<in># R. ref_addrs r)"

lemma release_ok:
  assumes "heap_ok tbl h (add_mset r R)"
  shows "\<exists>h'. iree_vm_ref_release tbl h r = Some (h', released r) \<and> heap_ok tbl h' R \<and> shrinks {} h h'"
proof -
  from assms obtain \<Gamma> where \<Gamma>: "\<forall>r \<in># R. ref_wf tbl \<Gamma> r" "ref_wf tbl \<Gamma> r"
    "heap_inv tbl \<Gamma> h (ref_addrs r + root_addrs R)"
    by (auto simp: heap_ok_def)
  moreover have "card (live_set h) < Suc (length h)"
    using card_live_set [of h] by simp
  ultimately obtain h' where "iree_vm_ref_release tbl h r = Some (h', released r)" "heap_inv tbl \<Gamma> h' (root_addrs R)" "shrinks {} h h'"
    unfolding iree_vm_ref_release_def by (metis release_contractE [OF release_fuel_contract])
  with \<Gamma>(1) show ?thesis by (auto simp: heap_ok_def)
qed

lemma heap_inv_inc:
  assumes inv: "heap_inv tbl \<Gamma> h F" and ob: "obj_at h p = Some ob" "counter ob \<ge> 1"
  shows "heap_inv tbl \<Gamma> (put_obj h p (ob\<lparr>counter := counter ob + 1\<rparr>)) (add_mset p F)"
proof -
  let ?ob' = "ob\<lparr>counter := counter ob + 1\<rparr>"
  have p: "p < length h" using ob(1) by (rule obj_at_length)
  have b: "balanced h F" using inv by (simp add: heap_inv_def)
  have "held (put_obj h p ?ob') = held h"
    using held_put_obj [OF ob(1), of ?ob'] ob(2) by (simp add: held_obj_def)
  moreover have "obj_wf tbl \<Gamma> p ?ob'" using inv ob by (auto simp: heap_inv_def obj_wf_def)
  ultimately show ?thesis
    using inv b p balancedD [OF b ob(1)] by (auto simp: heap_inv_def balanced_def cnt_def split: if_splits)
qed

lemma inc_ref_ok:
  assumes "heap_ok tbl h (add_mset r R)"
  shows "\<exists>h'. inc_ref h r = Some h' \<and> heap_ok tbl h' (add_mset r (add_mset r R)) \<and> shrinks {} h h'"
proof -
  from assms obtain \<Gamma> where \<Gamma>: "\<forall>r \<in># R. ref_wf tbl \<Gamma> r" "ref_wf tbl \<Gamma> r"
    "heap_inv tbl \<Gamma> h (ref_addrs r + root_addrs R)"
    by (auto simp: heap_ok_def)
  show ?thesis
  proof (cases "ref_ptr r")
    case None
    then have "ref_addrs r = {#}" by (simp add: ref_addrs_def)
    with None assms \<Gamma> show ?thesis by (auto simp: inc_ref_def heap_ok_def)
  next
    case (Some p)
    with \<Gamma>(2) have a: "ref_addrs r = {#p#}" by (auto simp: ref_wf_def ref_addrs_def)
    then have b: "balanced h (add_mset p (root_addrs R))" using \<Gamma>(3) by (simp add: heap_inv_def)
    then obtain ob where ob: "obj_at h p = Some ob" "counter ob \<ge> 1"
      using balanced_live by (metis union_single_eq_member)
    have p: "p < length h" using ob(1) by (rule obj_at_length)
    let ?ob' = "ob\<lparr>counter := counter ob + 1\<rparr>"
    have wf: "obj_wf tbl \<Gamma> p ob" using \<Gamma>(3) ob by (simp add: heap_inv_def)
    have "obj_offset ob = ref_offsetof_counter r"
      using wf \<Gamma>(2) Some by (auto simp: obj_wf_def ref_wf_def)
    then have inc: "inc_ref h r = Some (put_obj h p ?ob')"
      using Some ob by (simp add: inc_ref_def iree_atomic_ref_count_inc_def)
    have "heap_inv tbl \<Gamma> (put_obj h p ?ob') (add_mset p (add_mset p (root_addrs R)))"
      using heap_inv_inc [OF _ ob] \<Gamma>(3) a by simp
    then have "heap_ok tbl (put_obj h p ?ob') (add_mset r (add_mset r R))"
      using \<Gamma>(1,2) a by (auto simp: heap_ok_def)
    moreover have "shrinks {} h (put_obj h p ?ob')"
      using ob by (intro shrinks_put) auto
    ultimately show ?thesis using inc by blast
  qed
qed

text \<open>A root reference keeps its object alive.\<close>

lemma heap_ok_live:
  assumes "heap_ok tbl h R" "r \<in># R" "ref_ptr r = Some p"
  shows "\<exists>ob. obj_at h p = Some ob \<and> counter ob \<ge> 1 \<and> obj_offset ob = ref_offsetof_counter r"
proof -
  from assms obtain \<Gamma> where \<Gamma>: "ref_wf tbl \<Gamma> r" "heap_inv tbl \<Gamma> h (root_addrs R)"
    by (auto simp: heap_ok_def)
  with assms(3) have "p \<in># ref_addrs r" by (auto simp: ref_wf_def ref_addrs_def)
  then have "p \<in># root_addrs R" using assms(2) by auto
  then obtain ob where "obj_at h p = Some ob" "counter ob \<ge> 1"
    using balanced_live [of h "root_addrs R" p] \<Gamma>(2) by (auto simp: heap_inv_def)
  with \<Gamma> assms(3) show ?thesis by (auto simp: heap_inv_def obj_wf_def ref_wf_def)
qed

text \<open>The object behind a root reference is of the kind its type says.\<close>

lemma heap_ok_kind:
  assumes "heap_ok tbl h R" "r \<in># R" "ref_ptr r = Some p" "obj_at h p = Some ob"
    "iree_vm_ref_get_type_descriptor tbl (ref_type r) = Some td"
  shows "kind_ok (td_destroy td) (body ob)"
  using assms by (fastforce simp: heap_ok_def heap_inv_def obj_wf_def ref_wf_def)

lemma heap_ok_list_wf:
  assumes "heap_ok tbl h R" "obj_at h p = Some ob" "counter ob \<ge> 1" "body ob = BList l"
  shows "list_wf l"
  using assms by (auto simp: heap_ok_def heap_inv_def obj_wf_def)

text \<open>References without a target do not count.\<close>

lemma heap_ok_null: "ref_ptr r = None \<Longrightarrow> heap_ok tbl h (add_mset r R) \<longleftrightarrow> heap_ok tbl h R"
  by (auto simp: heap_ok_def ref_wf_def ref_addrs_def)

lemma heap_ok_null_ref [simp]: "heap_ok tbl h (add_mset null_ref R) \<longleftrightarrow> heap_ok tbl h R"
  by (rule heap_ok_null) (simp add: null_ref_def)

lemma heap_ok_released [simp]: "heap_ok tbl h (add_mset r R) \<Longrightarrow> heap_ok tbl h' (add_mset (released r) R') \<longleftrightarrow> heap_ok tbl h' R'"
  by (rule heap_ok_null) (auto simp: heap_ok_def ref_ptr_released)

lemma multiset_swap: "b' + R' = b + R \<Longrightarrow> H' + b = H + b' \<Longrightarrow> H' + R' = H + (R :: 'a multiset)"
proof (rule multiset_eqI)
  fix x
  assume "b' + R' = b + R" "H' + b = H + b'"
  then have "count b' x + count R' x = count b x + count R x" "count H' x + count b x = count H x + count b' x"
    by (metis count_union)+
  then show "count (H' + R') x = count (H + R) x" by simp
qed

lemma cnt_put_body: "obj_at h p = Some ob \<Longrightarrow> cnt (put_obj h p (ob\<lparr>body := b\<rparr>)) q = cnt h q"
  using obj_at_length [of h p ob] by (simp add: cnt_def)

text \<open>Changing the contents of a live list while moving references between it and the roots.\<close>

lemma heap_ok_put_list:
  assumes ok: "heap_ok tbl h R" and ob: "obj_at h p = Some ob" "counter ob \<ge> 1" "body ob = BList l"
    and wf: "list_wf l'"
    and sub: "set_mset R' \<union> set (list_refs l') \<subseteq> {r. ref_ptr r = None} \<union> (set_mset R \<union> set (list_refs l))"
    and eq: "addrs_of (list_refs l') + root_addrs R' = addrs_of (list_refs l) + root_addrs R"
  shows "heap_ok tbl (put_obj h p (ob\<lparr>body := BList l'\<rparr>)) R'"
proof -
  let ?ob' = "ob\<lparr>body := BList l'\<rparr>"
  from ok obtain \<Gamma> where \<Gamma>: "\<forall>r \<in># R. ref_wf tbl \<Gamma> r" "heap_inv tbl \<Gamma> h (root_addrs R)"
    by (auto simp: heap_ok_def)
  have obwf: "obj_wf tbl \<Gamma> p ob" using \<Gamma>(2) ob by (simp add: heap_inv_def)
  have wfs: "\<forall>r \<in> set_mset R' \<union> set (list_refs l'). ref_wf tbl \<Gamma> r"
  proof
    fix r
    assume "r \<in> set_mset R' \<union> set (list_refs l')"
    then have "ref_ptr r = None \<or> r \<in># R \<or> r \<in> set (list_refs l)" using sub by auto
    then show "ref_wf tbl \<Gamma> r"
    proof (elim disjE)
      assume "ref_ptr r = None"
      then show ?thesis by (simp add: ref_wf_def)
    next
      assume "r \<in># R"
      then show ?thesis using \<Gamma>(1) by simp
    next
      assume "r \<in> set (list_refs l)"
      then show ?thesis using obwf ob by (simp add: obj_wf_def)
    qed
  qed
  then have "obj_wf tbl \<Gamma> p ?ob'"
    using obwf ob wf by (auto simp: obj_wf_def kind_ok_def split: iree_vm_ref_destroy.splits)
  moreover have "held (put_obj h p ?ob') + addrs_of (list_refs l) = held h + addrs_of (list_refs l')"
    using held_put_obj [OF ob(1), of ?ob'] ob by (simp add: held_obj_def)
  with eq have "held (put_obj h p ?ob') + root_addrs R' = held h + root_addrs R"
    by (rule multiset_swap)
  then have "balanced (put_obj h p ?ob') (root_addrs R')"
    using \<Gamma>(2) cnt_put_body [OF ob(1)] unfolding heap_inv_def balanced_def by simp
  ultimately show ?thesis
    using wfs \<Gamma>(2) obj_at_length [OF ob(1)] by (auto simp: heap_ok_def heap_inv_def split: if_splits intro!: exI [of _ \<Gamma>])
qed

text \<open>Changing the contents of a buffer.\<close>

lemma heap_ok_put_buffer:
  assumes ok: "heap_ok tbl h R" and ob: "obj_at h p = Some ob" "body ob = BBuffer b"
  shows "heap_ok tbl (put_obj h p (ob\<lparr>body := BBuffer b'\<rparr>)) R"
proof -
  let ?ob' = "ob\<lparr>body := BBuffer b'\<rparr>"
  from ok obtain \<Gamma> where \<Gamma>: "\<forall>r \<in># R. ref_wf tbl \<Gamma> r" "heap_inv tbl \<Gamma> h (root_addrs R)"
    by (auto simp: heap_ok_def)
  have "obj_wf tbl \<Gamma> p ob" using \<Gamma>(2) ob by (simp add: heap_inv_def)
  then have "obj_wf tbl \<Gamma> p ?ob'"
    using ob by (auto simp: obj_wf_def kind_ok_def split: iree_vm_ref_destroy.splits)
  moreover have "held (put_obj h p ?ob') = held h"
    using held_put_obj [OF ob(1), of ?ob'] ob by (simp add: held_obj_def split: if_splits)
  then have "balanced (put_obj h p ?ob') (root_addrs R)"
    using \<Gamma>(2) cnt_put_body [OF ob(1)] unfolding heap_inv_def balanced_def by simp
  ultimately show ?thesis
    using \<Gamma> obj_at_length [OF ob(1)] by (auto simp: heap_ok_def heap_inv_def split: if_splits intro!: exI [of _ \<Gamma>])
qed

text \<open>A new object with one reference to it.\<close>

lemma addrs_of_mem: "r \<in> set rs \<Longrightarrow> p \<in># ref_addrs r \<Longrightarrow> p \<in># addrs_of rs"
  by (induction rs) auto

lemma held_mem:
  assumes "obj_at h q = Some ob" "counter ob \<ge> 1" "body ob = BList l" "p \<in># addrs_of (list_refs l)"
  shows "p \<in># held h"
proof -
  have "held_obj (h ! q) = addrs_of (list_refs l)"
    using assms obj_at_length [OF assms(1)] by (auto simp: held_obj_def obj_at_def)
  moreover have "h ! q \<in> set h"
    using obj_at_length [OF assms(1)] by (rule nth_mem)
  ultimately show ?thesis
    using assms(4) unfolding held_def by (metis (mono_tags, lifting) image_eqI list.set_map mset_subset_eqD sum_list_map_remove1 mset_subset_eq_add_left)
qed

lemma heap_ok_alloc:
  assumes ok: "heap_ok tbl h R"
    and td: "iree_vm_ref_get_type_descriptor tbl t = Some td" "t \<noteq> 0"
    and ob: "counter ob = 1" "obj_offset ob = td_offsetof_counter td" "kind_ok (td_destroy td) (body ob)"
    and l: "\<forall>l. body ob = BList l \<longrightarrow> list_wf l \<and> (\<forall>r \<in> set (list_refs l). r = null_ref)"
  shows "heap_ok tbl (h @ [Some ob])
    (add_mset \<lparr>ref_ptr = Some (length h), ref_offsetof_counter = td_offsetof_counter td, ref_type = t\<rparr> R)"
proof -
  from ok obtain \<Gamma> where \<Gamma>: "\<forall>r \<in># R. ref_wf tbl \<Gamma> r" "heap_inv tbl \<Gamma> h (root_addrs R)"
    by (auto simp: heap_ok_def)
  define \<Gamma>' where "\<Gamma>' = \<Gamma>(length h := (td_destroy td, td_offsetof_counter td))"
  have "cnt h (length h) = 0" by (simp add: cnt_def obj_at_def)
  then have sum0: "count (held h) (length h) + count (root_addrs R) (length h) = 0"
    using \<Gamma>(2) unfolding heap_inv_def balanced_def by (metis count_union of_nat_eq_0_iff)
  from sum0 have none: "length h \<notin># held h" "length h \<notin># root_addrs R"
    unfolding not_in_iff by linarith+
  have keep: "ref_wf tbl \<Gamma>' r" if "ref_wf tbl \<Gamma> r" "length h \<notin># ref_addrs r" for r
    using that by (auto simp: ref_wf_def ref_addrs_def \<Gamma>'_def split: if_splits)
  have roots: "\<forall>r \<in># R. ref_wf tbl \<Gamma>' r"
    using \<Gamma>(1) none(2) keep by auto
  have old: "obj_wf tbl \<Gamma>' q ob'" if "obj_at h q = Some ob'" for q ob'
  proof -
    have q: "q \<noteq> length h" using obj_at_length [OF that] by simp
    have wf: "obj_wf tbl \<Gamma> q ob'" using \<Gamma>(2) that by (simp add: heap_inv_def)
    have "ref_wf tbl \<Gamma>' r" if "counter ob' \<ge> 1" "body ob' = BList l" "r \<in> set (list_refs l)" for l r
    proof (rule keep)
      show "ref_wf tbl \<Gamma> r" using wf that by (auto simp: obj_wf_def)
      show "length h \<notin># ref_addrs r"
        using held_mem [OF \<open>obj_at h q = Some ob'\<close> that(1,2)] addrs_of_mem [OF that(3)] none(1) by blast
    qed
    with wf q show ?thesis by (auto simp: obj_wf_def \<Gamma>'_def)
  qed
  have held0: "held_obj (Some ob) = {#}"
  proof (cases "body ob")
    case (BList l')
    then have "\<forall>i < length (list_refs l'). list_refs l' ! i = null_ref"
      using l by (simp add: all_set_conv_all_nth)
    then have "addrs_of (list_refs l') = {#}"
      by (intro addrs_of_empty) simp
    with BList ob(1) show ?thesis by (simp add: held_obj_def)
  qed (simp_all add: held_obj_def)
  have "obj_wf tbl \<Gamma>' (length h) ob"
    using ob l by (auto simp: obj_wf_def \<Gamma>'_def) (metis ref_wf_null)
  with old have "\<forall>p ob'. obj_at (h @ [Some ob]) p = Some ob' \<longrightarrow> obj_wf tbl \<Gamma>' p ob'"
    by (auto split: if_splits)
  moreover have "balanced (h @ [Some ob]) (add_mset (length h) (root_addrs R))"
    using \<Gamma>(2) sum0 ob(1) held0 by (auto simp: heap_inv_def balanced_def cnt_def)
  moreover have "ref_wf tbl \<Gamma>' \<lparr>ref_ptr = Some (length h), ref_offsetof_counter = td_offsetof_counter td, ref_type = t\<rparr>"
    "ref_addrs \<lparr>ref_ptr = Some (length h), ref_offsetof_counter = td_offsetof_counter td, ref_type = t\<rparr> = {#length h#}"
    using td by (auto simp: ref_wf_def ref_addrs_def \<Gamma>'_def)
  ultimately show ?thesis
    using roots unfolding heap_ok_def heap_inv_def by (intro exI [of _ \<Gamma>']) simp
qed

section \<open>The reference counting interface\<close>

text \<open>Releasing the variables of an array one after the other, as the cleanup loops of the VM do.\<close>

primrec release_all :: "('h \<Rightarrow> 'r \<Rightarrow> ('h \<times> 'r) option) \<Rightarrow> 'h \<Rightarrow> 'r list \<Rightarrow> 'h option" where
  "release_all rel h [] = Some h"
| "release_all rel h (r # rs) = (case rel h r of None \<Rightarrow> None | Some (h', _) \<Rightarrow> release_all rel h' rs)"

text \<open>
  What the operations above rely on: \<open>ok h R\<close> is the accounting invariant for the references
  \<open>R\<close> held by the client, \<open>shr\<close> relates the stores before and after.
\<close>

locale ref_counting =
  fixes ok :: "'h \<Rightarrow> 'r multiset \<Rightarrow> bool"
    and shr :: "'h \<Rightarrow> 'h \<Rightarrow> bool"
    and rel :: "'h \<Rightarrow> 'r \<Rightarrow> ('h \<times> 'r) option"
    and inc :: "'h \<Rightarrow> 'r \<Rightarrow> 'h option"
    and after :: "'r \<Rightarrow> 'r"
    and null :: "'r"
  assumes shr_refl: "shr h h"
    and shr_trans: "shr h1 h2 \<Longrightarrow> shr h2 h3 \<Longrightarrow> shr h1 h3"
    and rel_ok: "ok h (add_mset r R) \<Longrightarrow> \<exists>h'. rel h r = Some (h', after r) \<and> ok h' R \<and> shr h h'"
    and inc_ok: "ok h (add_mset r R) \<Longrightarrow> \<exists>h'. inc h r = Some h' \<and> ok h' (add_mset r (add_mset r R)) \<and> shr h h'"
    and null_ok: "ok h (add_mset null R) \<longleftrightarrow> ok h R"
begin

lemma release_all_ok:
  "ok h (mset rs + R) \<Longrightarrow> \<exists>h'. release_all rel h rs = Some h' \<and> ok h' R \<and> shr h h'"
proof (induction rs arbitrary: h)
  case Nil
  then show ?case by (simp add: shr_refl)
next
  case (Cons r rs)
  then have "ok h (add_mset r (mset rs + R))" by simp
  then obtain h1 where h1: "rel h r = Some (h1, after r)" "ok h1 (mset rs + R)" "shr h h1"
    using rel_ok by blast
  with Cons.IH shr_trans show ?case by fastforce
qed

lemma replace_ok:
  assumes "ok h (add_mset r (add_mset out_ref R))"
  shows "\<exists>h'. rel h out_ref = Some (h', after out_ref) \<and> ok h' (add_mset r R) \<and> shr h h'"
  using assms rel_ok [of h out_ref "add_mset r R"] by (simp add: add_mset_commute)

lemma replace_retain_ok:
  assumes "ok h (add_mset r (add_mset out_ref R))"
  shows "\<exists>h1 h2. rel h out_ref = Some (h1, after out_ref) \<and> inc h1 r = Some h2
    \<and> ok h2 (add_mset r (add_mset r R)) \<and> shr h h2"
proof -
  obtain h1 where h1: "rel h out_ref = Some (h1, after out_ref)" "ok h1 (add_mset r R)" "shr h h1"
    using replace_ok [OF assms] by blast
  with inc_ok [OF h1(2)] shr_trans show ?thesis by blast
qed

lemma null_all_ok: "ok h (mset (replicate n null) + R) \<longleftrightarrow> ok h R"
  by (induction n) (simp_all add: null_ok)

end

interpretation vm_refs: ref_counting "heap_ok tbl" "shrinks {}" "iree_vm_ref_release tbl" inc_ref released null_ref
  for tbl
  by unfold_locales (auto intro: shrinks_trans release_ok inc_ref_ok)

section \<open>The operations of ref.c keep the accounting\<close>

lemma retain_or_move_ok:
  assumes "heap_ok tbl h (add_mset r (add_mset out_ref R))"
  shows "\<exists>h'. iree_vm_ref_retain_or_move tbl False is_move h r out_ref
      = Some (h', if is_move \<or> ref_ptr r = None then null_ref else r, r)
    \<and> heap_ok tbl h' (add_mset (if is_move \<or> ref_ptr r = None then null_ref else r) (add_mset r R))
    \<and> shrinks {} h h'"
proof (cases "is_move \<or> ref_ptr r = None")
  case True
  with vm_refs.replace_ok [OF assms] show ?thesis
    by (auto simp: iree_vm_ref_retain_or_move_def)
next
  case False
  with vm_refs.replace_retain_ok [OF assms] show ?thesis
    by (auto simp: iree_vm_ref_retain_or_move_def)
qed

lemma retain_or_move_same_move: "iree_vm_ref_retain_or_move tbl True True h r r = Some (h, r, r)"
  by (simp add: iree_vm_ref_retain_or_move_def)

lemma retain_ok:
  assumes "heap_ok tbl h (add_mset r (add_mset out_ref R))" "ref_ptr r \<noteq> ref_ptr out_ref"
  shows "\<exists>h'. iree_vm_ref_retain tbl False h r out_ref = Some (h', r)
    \<and> heap_ok tbl h' (add_mset r (add_mset r R)) \<and> shrinks {} h h'"
  using vm_refs.replace_retain_ok [OF assms(1)] assms(2) by (auto simp: iree_vm_ref_retain_def)

lemma retain_same_ok:
  assumes "heap_ok tbl h (add_mset r R)"
  shows "\<exists>h'. iree_vm_ref_retain tbl True h r r = Some (h', r)
    \<and> heap_ok tbl h' (add_mset r (add_mset r R)) \<and> shrinks {} h h'"
  using inc_ref_ok [OF assms] by (auto simp: iree_vm_ref_retain_def)

lemma assign_ok:
  assumes "heap_ok tbl h (add_mset out_ref R)"
  shows "\<exists>h'. iree_vm_ref_assign tbl False h r out_ref = Some (h', r) \<and> heap_ok tbl h' R \<and> shrinks {} h h'"
  using release_ok [OF assms] assms by (auto simp: iree_vm_ref_assign_def heap_ok_null)

lemma move_ok:
  assumes "heap_ok tbl h (add_mset r (add_mset out_ref R))"
  shows "\<exists>h'. iree_vm_ref_move tbl False h r out_ref = Some (h', null_ref, r)
    \<and> heap_ok tbl h' (add_mset r R) \<and> shrinks {} h h'"
proof (cases "ref_ptr out_ref = None")
  case True
  with assms show ?thesis
    by (auto simp: iree_vm_ref_move_def heap_ok_null add_mset_commute [of r out_ref])
next
  case False
  with vm_refs.replace_ok [OF assms] show ?thesis by (auto simp: iree_vm_ref_move_def)
qed

lemma wrap_assign_ok:
  assumes "iree_vm_ref_get_type_descriptor tbl t = Some td"
    and "heap_ok tbl h (add_mset out_ref R)"
  shows "\<exists>h'. iree_vm_ref_wrap_assign tbl h ptr t out_ref = Some (h', IREE_STATUS_OK,
      \<lparr>ref_ptr = ptr, ref_offsetof_counter = td_offsetof_counter td, ref_type = t\<rparr>)
    \<and> heap_ok tbl h' R \<and> shrinks {} h h'"
  using release_ok [OF assms(2)] assms by (auto simp: iree_vm_ref_wrap_assign_def heap_ok_null)

end
