(* ===== verification/VM_RefLive.thy ===== *)
theory VM_RefLive
  imports VM_RefCount
begin

text \<open>
  Releases inside of live lists: the list operations release the old value of an element while the
  element still holds it. The lemmas here show that this is the same as clearing the element first,
  and give the accounting of storing into, and retaining from, an element of a list the client holds.
\<close>

section \<open>Contents of surviving objects\<close>

text \<open>
  A release neither reads nor writes the contents of an object that is live afterwards. The code
  relies on it: it releases the old value of a list element before it overwrites the element.
\<close>

definition rebody :: "nat \<Rightarrow> vm_body \<Rightarrow> vm_heap \<Rightarrow> vm_heap" where
  "rebody p b h = (case obj_at h p of Some ob \<Rightarrow> put_obj h p (ob\<lparr>body := b\<rparr>) | None \<Rightarrow> h)"

definition ignores_live :: "(vm_heap \<Rightarrow> iree_vm_ref \<Rightarrow> (vm_heap \<times> iree_vm_ref) option) \<Rightarrow> bool" where
  "ignores_live rel \<longleftrightarrow> (\<forall>h r h' r'. rel h r = Some (h', r') \<longrightarrow> live_set h' \<subseteq> live_set h \<and>
    (\<forall>p b. p \<in> live_set h' \<longrightarrow> rel (rebody p b h) r = Some (rebody p b h', r')))"

lemma length_rebody [simp]: "length (rebody p b h) = length h"
  by (simp add: rebody_def split: option.splits)

lemma obj_at_rebody: "obj_at (rebody p b h) q = (if q = p then map_option (\<lambda>ob. ob\<lparr>body := b\<rparr>) (obj_at h p) else obj_at h q)"
  by (auto simp: rebody_def split: option.splits dest: obj_at_length)

lemma rebody_rebody [simp]: "rebody p b (rebody p b' h) = rebody p b h"
  by (auto simp: rebody_def put_obj_def obj_at_def split: option.splits if_splits)

lemma live_set_rebody [simp]: "live_set (rebody p b h) = live_set h"
  by (auto simp: live_set_def obj_at_rebody split: if_splits)

lemma rebody_put_obj: "p \<noteq> q \<Longrightarrow> q < length h \<Longrightarrow> rebody p b (put_obj h q ob) = put_obj (rebody p b h) q ob"
  by (auto simp: rebody_def put_obj_def obj_at_def list_update_swap split: option.splits)

lemma list_at_rebody [simp]: "p \<noteq> q \<Longrightarrow> list_at (rebody p b h) q = list_at h q"
  by (simp add: list_at_def obj_at_rebody)

lemma put_list_rebody: "p \<noteq> q \<Longrightarrow> put_list (rebody p b h) q l = map_option (rebody p b) (put_list h q l)"
  by (auto simp: put_list_def obj_at_rebody rebody_put_obj obj_at_length split: option.splits vm_body.splits)

lemma put_list_live: "put_list h q l = Some h' \<Longrightarrow> live_set h' = live_set h"
  by (auto simp: put_list_def live_set_def obj_at_length split: option.splits vm_body.splits if_splits)

lemma write_slot_rebody:
  assumes "p \<noteq> q"
  shows "write_ref_slot (rebody p b h) q i r = map_option (rebody p b) (write_ref_slot h q i r)"
    "write_variant_slot (rebody p b h) q i v = map_option (rebody p b) (write_variant_slot h q i v)"
  using assms by (auto simp: write_ref_slot_def write_variant_slot_def put_list_rebody split: option.splits vm_storage.splits)

lemma write_slot_live:
  "write_ref_slot h q i r = Some h' \<Longrightarrow> live_set h' = live_set h"
  "write_variant_slot h q i v = Some h' \<Longrightarrow> live_set h' = live_set h"
  by (auto simp: write_ref_slot_def write_variant_slot_def put_list_live split: option.splits vm_storage.splits if_splits)

lemma ignores_liveD:
  assumes "ignores_live rel" "rel h r = Some (h', r')"
  shows "live_set h' \<subseteq> live_set h" "p \<in> live_set h' \<Longrightarrow> rel (rebody p b h) r = Some (rebody p b h', r')"
  using assms unfolding ignores_live_def by blast+

lemma reset_slot_rebody:
  assumes rel: "ignores_live rel" and eq: "reset_slot rel h q i = Some h'"
  shows "live_set h' \<subseteq> live_set h \<and> (p \<in> live_set h' \<longrightarrow> p \<noteq> q \<longrightarrow> reset_slot rel (rebody p b h) q i = Some (rebody p b h'))"
proof (cases "list_at h q")
  case None
  with eq show ?thesis by (simp add: reset_slot_def)
next
  case (Some l)
  show ?thesis
  proof (cases "storage l")
    case (StValue vs)
    with Some eq show ?thesis
      by (auto simp: reset_slot_def put_list_rebody put_list_live split: if_splits)
  next
    case (StRef rs)
    with Some eq obtain h1 r1 where *: "i < length rs" "rel h (rs ! i) = Some (h1, r1)" "write_ref_slot h1 q i r1 = Some h'"
      by (auto simp: reset_slot_def split: if_splits option.splits)
    then show ?thesis
      using ignores_liveD [OF rel *(2)] write_slot_live(1) [OF *(3)] write_slot_rebody(1) [of p q b h1 i r1] Some StRef
      by (auto simp: reset_slot_def)
  next
    case (StVariant vs)
    show ?thesis
    proof (cases "iree_vm_type_def_is_ref (var_type (vs ! i))")
      case True
      with Some StVariant eq obtain h1 r1 where *: "i < length vs" "rel h (variant_ref (vs ! i)) = Some (h1, r1)"
        "write_variant_slot h1 q i \<lparr>var_type = iree_vm_type_def_make_variant_type, payload = PRef r1\<rparr> = Some h'"
        by (auto simp: reset_slot_def simp del: variant_ref.simps split: if_splits option.splits)
      then show ?thesis
        using ignores_liveD [OF rel *(2)] write_slot_live(2) [OF *(3)] write_slot_rebody(2) [of p q b h1 i] Some StVariant True
        by (auto simp: reset_slot_def simp del: variant_ref.simps)
    next
      case False
      with Some StVariant eq show ?thesis
        by (auto simp: reset_slot_def write_slot_rebody dest!: write_slot_live(2) split: if_splits)
    qed
  qed
qed

lemma reset_range_rebody:
  assumes "ignores_live rel"
  shows "reset_range_with rel h q i k = Some h' \<Longrightarrow> live_set h' \<subseteq> live_set h
    \<and> (p \<in> live_set h' \<longrightarrow> p \<noteq> q \<longrightarrow> reset_range_with rel (rebody p b h) q i k = Some (rebody p b h'))"
proof (induction k arbitrary: h i)
  case (Suc k)
  then obtain h1 where h1: "reset_slot rel h q i = Some h1" "reset_range_with rel h1 q (Suc i) k = Some h'"
    by (auto split: option.splits)
  from reset_slot_rebody [OF assms h1(1), of p b] Suc.IH [OF h1(2)] show ?case by auto
qed simp

lemma free_obj_rebody:
  assumes "free_obj h q = Some h'"
  shows "live_set h' \<subseteq> live_set h \<and> (p \<noteq> q \<longrightarrow> free_obj (rebody p b h) q = Some (rebody p b h'))"
proof -
  obtain ob where ob: "obj_at h q = Some ob" "h' = h[q := None]"
    using assms by (auto simp: free_obj_def split: option.splits)
  have q: "q < length h" using ob(1) by (rule obj_at_length)
  have "p \<noteq> q \<longrightarrow> (rebody p b h)[q := None] = rebody p b h'"
    using ob q by (auto simp: rebody_def put_obj_def obj_at_def list_update_swap split: option.splits)
  with ob q show ?thesis
    by (auto simp: free_obj_def live_set_def obj_at_rebody split: if_splits)
qed

lemma call_destroy_rebody:
  assumes rel: "ignores_live rel" and eq: "call_destroy rel d h q = Some h'" and q: "q \<notin> live_set h"
  shows "live_set h' \<subseteq> live_set h \<and> (p \<in> live_set h' \<longrightarrow> call_destroy rel d (rebody p b h) q = Some (rebody p b h'))"
proof (cases d)
  case DestroyNull
  with eq show ?thesis by (simp add: call_destroy_def)
next
  case DestroyList
  with eq obtain l h1 where *: "list_at h q = Some l" "reset_range_with rel h q 0 (unat (list_count l)) = Some h1" "free_obj h1 q = Some h'"
    by (auto simp: call_destroy_def destroy_list_with_def split: option.splits)
  have sub: "live_set h' \<subseteq> live_set h"
    using reset_range_rebody [OF rel *(2)] free_obj_rebody [OF *(3)] by blast
  have "call_destroy rel d (rebody p b h) q = Some (rebody p b h')" if p: "p \<in> live_set h'"
  proof -
    have "p \<noteq> q" using p sub q by auto
    moreover have "p \<in> live_set h1" using p free_obj_rebody [OF *(3)] by blast
    ultimately show ?thesis
      using * DestroyList reset_range_rebody [OF rel *(2), of p b] free_obj_rebody [OF *(3), of p b]
      by (simp add: call_destroy_def destroy_list_with_def)
  qed
  with sub show ?thesis by blast
next
  case DestroyBuffer
  with eq have f: "free_obj h q = Some h'" and b: "\<exists>bf. map_option body (obj_at h q) = Some (BBuffer bf)"
    by (auto simp: call_destroy_def split: option.splits vm_body.splits)
  show ?thesis using free_obj_rebody [OF f, of p b] b q DestroyBuffer
    by (auto simp: call_destroy_def obj_at_rebody)
next
  case DestroyNative
  with eq have f: "free_obj h q = Some h'" and b: "map_option body (obj_at h q) = Some BNative"
    by (auto simp: call_destroy_def split: option.splits vm_body.splits)
  show ?thesis using free_obj_rebody [OF f, of p b] b q DestroyNative
    by (auto simp: call_destroy_def obj_at_rebody)
qed

lemma dec_rebody:
  assumes "iree_atomic_ref_count_dec h q off = Some (h1, old)"
  shows "iree_atomic_ref_count_dec (rebody p b h) q off = Some (rebody p b h1, old)"
proof -
  obtain ob where ob: "obj_at h q = Some ob" "obj_offset ob = off" "old = counter ob"
    "h1 = put_obj h q (ob\<lparr>counter := counter ob - 1\<rparr>)"
    using assms by (auto simp: iree_atomic_ref_count_dec_def split: option.splits if_splits)
  have q: "q < length h" using ob(1) by (rule obj_at_length)
  show ?thesis
  proof (cases "p = q")
    case True
    have "rebody q b h1 = put_obj h q (ob\<lparr>counter := counter ob - 1, body := b\<rparr>)"
      "rebody q b h = put_obj h q (ob\<lparr>body := b\<rparr>)"
      using ob q by (simp_all add: rebody_def) (simp add: put_obj_def)
    moreover have swap: "ob\<lparr>body := b, counter := counter ob - 1\<rparr> = ob\<lparr>counter := counter ob - 1, body := b\<rparr>"
      by (cases ob) simp
    ultimately show ?thesis
      using True ob q by (simp add: iree_atomic_ref_count_dec_def) (simp add: put_obj_def swap)
  next
    case False
    then show ?thesis
      using ob q by (simp add: iree_atomic_ref_count_dec_def obj_at_rebody rebody_put_obj)
  qed
qed

lemma dec_live:
  assumes "iree_atomic_ref_count_dec h q off = Some (h1, old)"
  shows "live_set h1 \<subseteq> live_set h" "old = 1 \<Longrightarrow> q \<notin> live_set h1"
proof -
  obtain ob where ob: "obj_at h q = Some ob" "old = counter ob" "h1 = put_obj h q (ob\<lparr>counter := counter ob - 1\<rparr>)"
    using assms by (auto simp: iree_atomic_ref_count_dec_def split: option.splits if_splits)
  have "q < length h" using ob(1) by (rule obj_at_length)
  with ob show "live_set h1 \<subseteq> live_set h" "old = 1 \<Longrightarrow> q \<notin> live_set h1"
    by (auto simp: live_set_def split: if_splits)
qed

lemma ignores_live_release_fuel: "ignores_live (release_fuel n tbl)"
proof (induction n)
  case 0
  then show ?case by (simp add: ignores_live_def)
next
  case (Suc n)
  show ?case
    unfolding ignores_live_def
  proof (intro allI impI)
    fix h r h' r'
    assume eq: "release_fuel (Suc n) tbl h r = Some (h', r')"
    show "live_set h' \<subseteq> live_set h \<and>
      (\<forall>p b. p \<in> live_set h' \<longrightarrow> release_fuel (Suc n) tbl (rebody p b h) r = Some (rebody p b h', r'))"
    proof (cases "ref_type r = 0 \<or> ref_ptr r = None")
      case True
      with eq show ?thesis by (auto simp: IREE_VM_REF_TYPE_NULL_def split: option.splits)
    next
      case False
      then obtain q where q: "ref_ptr r = Some q" "ref_type r \<noteq> 0" by auto
      with eq obtain h1 old where dec: "iree_atomic_ref_count_dec h q (ref_offsetof_counter r) = Some (h1, old)"
        by (auto simp: IREE_VM_REF_TYPE_NULL_def split: option.splits)
      show ?thesis
      proof (cases "old = 1")
        case True
        with eq q dec obtain td where td: "iree_vm_ref_get_type_descriptor tbl (ref_type r) = Some td"
          "call_destroy (release_fuel n tbl) (td_destroy td) h1 q = Some h'" "r' = null_ref"
          by (auto simp: IREE_VM_REF_TYPE_NULL_def split: option.splits)
        from call_destroy_rebody [OF Suc.IH td(2) dec_live(2) [OF dec True]] dec_live(1) [OF dec] td q dec dec_rebody [OF dec] True
        show ?thesis by (auto simp: IREE_VM_REF_TYPE_NULL_def)
      next
        case False
        with eq q dec dec_live(1) [OF dec] dec_rebody [OF dec] show ?thesis
          by (auto simp: IREE_VM_REF_TYPE_NULL_def)
      qed
    qed
  qed
qed

lemma ignores_live_release: "ignores_live (iree_vm_ref_release tbl)"
  using ignores_live_release_fuel unfolding ignores_live_def iree_vm_ref_release_def
  by (metis length_rebody)

section \<open>Elements of live lists\<close>

text \<open>A list the client holds a reference to.\<close>

definition list_root :: "type_table \<Rightarrow> vm_heap \<Rightarrow> iree_vm_ref \<Rightarrow> nat \<Rightarrow> iree_vm_list \<Rightarrow> iree_vm_ref multiset \<Rightarrow> bool" where
  "list_root tbl h lr p l R \<longleftrightarrow> heap_ok tbl h (add_mset lr R) \<and> ref_ptr lr = Some p \<and> list_at h p = Some l"

lemma list_root_obj:
  assumes "list_root tbl h lr p l R"
  obtains ob where "obj_at h p = Some ob" "counter ob \<ge> 1" "body ob = BList l"
  using assms heap_ok_live [of tbl h "add_mset lr R" lr p] by (auto simp: list_root_def list_at_Some)

lemma list_root_wf: "list_root tbl h lr p l R \<Longrightarrow> list_wf l"
  by (metis heap_ok_list_wf list_root_def list_root_obj)

lemma list_root_live: "list_root tbl h lr p l R \<Longrightarrow> p \<in> live_set h"
  by (auto simp: live_set_def elim: list_root_obj)

text \<open>A step that keeps the client's reference keeps the list and its contents.\<close>

lemma list_root_shrinks:
  assumes "list_root tbl h lr p l R" "shrinks {} h h'" "heap_ok tbl h' (add_mset lr R')"
  shows "list_root tbl h' lr p l R'"
proof -
  have p: "ref_ptr lr = Some p" and l: "list_at h p = Some l" using assms(1) by (auto simp: list_root_def)
  obtain ob' where ob': "obj_at h' p = Some ob'" "counter ob' \<ge> 1"
    using heap_ok_live [OF assms(3) _ p] by auto
  then obtain ob where "obj_at h p = Some ob" "body ob = body ob'"
    using assms(2) unfolding shrinks_def by blast
  with l ob' p assms(3) show ?thesis by (auto simp: list_root_def list_at_Some)
qed

lemma put_list_rebody_eq: "list_at h p = Some l \<Longrightarrow> put_list h p l' = Some (rebody p (BList l') h)"
  by (auto simp: put_list_def rebody_def list_at_Some)

lemma rebody_list_same: "list_at h p = Some l \<Longrightarrow> rebody p (BList l) h = h"
proof -
  assume "list_at h p = Some l"
  then obtain ob where ob: "obj_at h p = Some ob" "body ob = BList l" by (auto simp: list_at_Some)
  then have same: "ob\<lparr>body := BList l\<rparr> = ob" by (cases ob) simp
  have "h[p := Some ob] = h" using ob by (auto simp: obj_at_def list_update_same_conv split: if_splits)
  with ob(1) show ?thesis by (simp add: rebody_def put_obj_def same)
qed

lemma list_at_rebody_same: "list_at h p = Some l \<Longrightarrow> list_at (rebody p (BList l') h) p = Some l'"
  by (auto simp: list_at_Some obj_at_rebody)

lemma list_root_rebody:
  assumes root: "list_root tbl h lr p l R" and wf: "list_wf l'"
    and sub: "set_mset R' \<union> set (list_refs l') \<subseteq> {r. ref_ptr r = None} \<union> (set_mset R \<union> set (list_refs l))"
    and eq: "addrs_of (list_refs l') + root_addrs R' = addrs_of (list_refs l) + root_addrs R"
  shows "list_root tbl (rebody p (BList l') h) lr p l' R'"
proof -
  obtain ob where ob: "obj_at h p = Some ob" "counter ob \<ge> 1" "body ob = BList l"
    using root by (rule list_root_obj)
  have "heap_ok tbl (put_obj h p (ob\<lparr>body := BList l'\<rparr>)) (add_mset lr R')"
    using root sub eq by (intro heap_ok_put_list [OF _ ob wf]) (auto simp: list_root_def add_ac)
  moreover have "rebody p (BList l') h = put_obj h p (ob\<lparr>body := BList l'\<rparr>)"
    using ob by (simp add: rebody_def)
  ultimately show ?thesis
    using root list_at_rebody_same [of h p l l'] by (simp add: list_root_def)
qed

text \<open>
  Releasing the reference in element \<open>i\<close> while the element still holds it: the result is the
  one obtained by clearing the element first.
\<close>

lemma release_element_ok:
  assumes root: "list_root tbl h lr p l R" and i: "i < length (list_refs l)"
    and l0: "list_wf l0" "list_refs l0 = (list_refs l)[i := null_ref]"
  shows "\<exists>h1. iree_vm_ref_release tbl (rebody p (BList lc) h) (list_refs l ! i)
      = Some (rebody p (BList lc) h1, released (list_refs l ! i))
    \<and> list_root tbl h1 lr p l0 R \<and> live_set h1 \<subseteq> live_set h"
proof -
  let ?r = "list_refs l ! i"
  have addrs: "addrs_of (list_refs l) = addrs_of (list_refs l0) + ref_addrs ?r"
    using i id_take_nth_drop [OF i] upd_conv_take_nth_drop [OF i, of null_ref]
    by (metis (no_types, lifting) add.assoc add.commute addrs_of_simps(2,3) add.left_neutral l0(2) ref_addrs_null)
  have sub: "set (list_refs l0) \<subseteq> insert null_ref (set (list_refs l))"
    using l0(2) by (simp add: set_update_subset_insert)
  have root0: "list_root tbl (rebody p (BList l0) h) lr p l0 (add_mset ?r R)"
    using i sub addrs by (intro list_root_rebody [OF root l0(1)]) (auto simp: add_ac null_ref_def)
  then have "heap_ok tbl (rebody p (BList l0) h) (add_mset ?r (add_mset lr R))"
    by (simp add: list_root_def add_mset_commute)
  from release_ok [OF this] obtain h1 where
    h1: "iree_vm_ref_release tbl (rebody p (BList l0) h) ?r = Some (h1, released ?r)"
    "heap_ok tbl h1 (add_mset lr R)" "shrinks {} (rebody p (BList l0) h) h1" by blast
  have root1: "list_root tbl h1 lr p l0 R" using list_root_shrinks [OF root0 h1(3,2)] .
  have "iree_vm_ref_release tbl (rebody p (BList lc) h) ?r = Some (rebody p (BList lc) h1, released ?r)"
    using ignores_liveD(2) [OF ignores_live_release h1(1) list_root_live [OF root1], of "BList lc"] by simp
  moreover have "live_set h1 \<subseteq> live_set h"
    using shrinks_live [OF h1(3)] by simp
  ultimately show ?thesis using root1 by blast
qed

text \<open>Storing a reference into element \<open>i\<close>, by retaining or by moving it.\<close>

lemma inc_ref_rebody: "inc_ref (rebody p b h) r = map_option (rebody p b) (inc_ref h r)"
proof (cases "ref_ptr r")
  case (Some q)
  show ?thesis
  proof (cases "obj_at h q")
    case None
    then show ?thesis using Some by (auto simp: inc_ref_def iree_atomic_ref_count_inc_def obj_at_rebody)
  next
    case (Some ob)
    have q: "q < length h" using Some by (rule obj_at_length)
    have swap: "ob\<lparr>body := b, counter := counter ob + 1\<rparr> = ob\<lparr>counter := counter ob + 1, body := b\<rparr>"
      by (cases ob) simp
    show ?thesis
    proof (cases "p = q")
      case True
      then show ?thesis
        using \<open>ref_ptr r = Some q\<close> Some q by (simp add: inc_ref_def iree_atomic_ref_count_inc_def obj_at_rebody rebody_def)
          (simp add: put_obj_def swap)
    next
      case False
      then show ?thesis
        using \<open>ref_ptr r = Some q\<close> Some q by (simp add: inc_ref_def iree_atomic_ref_count_inc_def obj_at_rebody rebody_put_obj)
    qed
  qed
qed (simp add: inc_ref_def)

lemma heap_ok_rebody:
  assumes root: "list_root tbl h lr p l R" and wf: "list_wf l'"
    and sub: "set_mset R' \<union> set (list_refs l') \<subseteq> {r. ref_ptr r = None} \<union> (insert lr (set_mset R) \<union> set (list_refs l))"
    and eq: "addrs_of (list_refs l') + root_addrs R' = addrs_of (list_refs l) + root_addrs (add_mset lr R)"
  shows "heap_ok tbl (rebody p (BList l') h) R'"
proof -
  obtain ob where ob: "obj_at h p = Some ob" "counter ob \<ge> 1" "body ob = BList l"
    using root by (rule list_root_obj)
  have "heap_ok tbl h (add_mset lr R)" using root by (simp add: list_root_def)
  from heap_ok_put_list [OF this ob wf] sub eq ob(1) show ?thesis
    by (simp add: rebody_def)
qed

text \<open>
  The stored reference is any of the roots, possibly the reference that keeps the list itself alive;
  \<open>M\<close> are the other roots.
\<close>

lemma store_element_any:
  fixes is_move :: bool
  assumes root: "list_root tbl h lr p l R" and v: "add_mset lr R = add_mset v M" and i: "i < length (list_refs l)"
    and l0: "list_wf l0" "list_refs l0 = (list_refs l)[i := null_ref]"
    and l': "list_wf l'" "list_refs l' = (list_refs l)[i := v]"
  defines "v' \<equiv> (if is_move \<or> ref_ptr v = None then null_ref else v)"
  shows "\<exists>h2. iree_vm_ref_retain_or_move tbl False is_move (rebody p (BList lc) h) v (list_refs l ! i)
      = Some (rebody p (BList lc) h2, v', v)
    \<and> list_at h2 p \<noteq> None \<and> heap_ok tbl (rebody p (BList l') h2) (add_mset v' M)"
proof -
  from release_element_ok [OF root i l0, of lc] obtain h1 where
    h1: "iree_vm_ref_release tbl (rebody p (BList lc) h) (list_refs l ! i) = Some (rebody p (BList lc) h1, released (list_refs l ! i))"
    "list_root tbl h1 lr p l0 R" by blast
  have i0: "i < length (list_refs l0)" using i l0(2) by simp
  have refs': "list_refs l' = (list_refs l0)[i := v]" using l0(2) l'(2) by simp
  have addrs: "addrs_of (list_refs l') = addrs_of (list_refs l0) + ref_addrs v"
    using id_take_nth_drop [OF i0] upd_conv_take_nth_drop [OF i0, of v] i l0(2)
    unfolding refs' by (metis (no_types, lifting) add.assoc add.commute addrs_of_simps(2,3) add.left_neutral nth_list_update_eq ref_addrs_null)
  have sub: "set (list_refs l') \<subseteq> insert v (set (list_refs l0))"
    unfolding refs' by (rule set_update_subset_insert)
  have mem: "insert lr (set_mset R) = insert v (set_mset M)" using v by (metis set_mset_add_mset_insert)
  have sum: "ref_addrs lr + root_addrs R = ref_addrs v + root_addrs M"
    using arg_cong [OF v, of root_addrs] by simp
  show ?thesis
  proof (cases "is_move \<or> ref_ptr v = None")
    case True
    have "heap_ok tbl (rebody p (BList l') h1) (add_mset null_ref M)"
      using sub addrs mem sum
      by (intro heap_ok_rebody [OF h1(2) l'(1)]) (auto simp: null_ref_def ref_addrs_def add_ac)
    with True h1 show ?thesis
      by (auto simp: iree_vm_ref_retain_or_move_def list_root_def v'_def)
  next
    case False
    have "heap_ok tbl h1 (add_mset v M)" using h1(2) v by (simp add: list_root_def)
    from inc_ref_ok [OF this] obtain h2 where
      h2: "inc_ref h1 v = Some h2" "heap_ok tbl h2 (add_mset lr (add_mset v R))" "shrinks {} h1 h2"
      by (metis add_mset_commute v)
    have root2: "list_root tbl h2 lr p l0 (add_mset v R)" using list_root_shrinks [OF h1(2) h2(3,2)] .
    have "add_mset lr (add_mset v R) = add_mset v (add_mset v M)" using v by (simp add: add_mset_commute [of lr])
    then have "heap_ok tbl (rebody p (BList l') h2) (add_mset v M)"
      using sub addrs mem sum by (intro heap_ok_rebody [OF root2 l'(1)]) (auto simp: add_ac)
    with False h1(1) h2(1) root2 show ?thesis
      by (auto simp: iree_vm_ref_retain_or_move_def inc_ref_rebody list_root_def v'_def)
  qed
qed

text \<open>Retaining a reference found in a live list.\<close>

lemma inc_element_ok:
  assumes root: "list_root tbl h lr p l R" and r: "r \<in> set (list_refs l)"
  shows "\<exists>h'. inc_ref h r = Some h' \<and> list_root tbl h' lr p l (add_mset r R)"
proof -
  have ok: "heap_ok tbl h (add_mset lr R)" using root by (simp add: list_root_def)
  then obtain \<Gamma> where \<Gamma>: "\<forall>r \<in># add_mset lr R. ref_wf tbl \<Gamma> r" "heap_inv tbl \<Gamma> h (root_addrs (add_mset lr R))"
    by (auto simp: heap_ok_def)
  obtain ob where ob: "obj_at h p = Some ob" "counter ob \<ge> 1" "body ob = BList l"
    using root by (rule list_root_obj)
  have wfr: "ref_wf tbl \<Gamma> r" using \<Gamma>(2) ob r by (auto simp: heap_inv_def obj_wf_def)
  show ?thesis
  proof (cases "ref_ptr r")
    case None
    with root show ?thesis by (auto simp: inc_ref_def list_root_def heap_ok_null add_mset_commute [of lr])
  next
    case (Some q)
    then have q: "q \<in># ref_addrs r" using wfr by (auto simp: ref_wf_def ref_addrs_def)
    then have "q \<in># held h" using held_mem [OF ob] addrs_of_mem [OF r] by blast
    then have "cnt h q \<ge> 1"
      using \<Gamma>(2) count_greater_zero_iff [of "held h" q] unfolding heap_inv_def balanced_def by (simp del: count_greater_zero_iff)
    then obtain ob' where ob': "obj_at h q = Some ob'" "counter ob' \<ge> 1"
      by (auto simp: cnt_def split: option.splits)
    have "heap_inv tbl \<Gamma> (put_obj h q (ob'\<lparr>counter := counter ob' + 1\<rparr>)) (add_mset q (root_addrs (add_mset lr R)))"
      using heap_inv_inc [OF \<Gamma>(2) ob'] .
    moreover have "ref_addrs r = {#q#}" using q Some by (auto simp: ref_addrs_def split: if_splits)
    ultimately have "heap_ok tbl (put_obj h q (ob'\<lparr>counter := counter ob' + 1\<rparr>)) (add_mset lr (add_mset r R))"
      using \<Gamma>(1) wfr unfolding heap_ok_def by (intro exI [of _ \<Gamma>]) (auto simp: add_ac)
    moreover have "shrinks {} h (put_obj h q (ob'\<lparr>counter := counter ob' + 1\<rparr>))"
      using ob' by (intro shrinks_put) auto
    moreover have "obj_offset ob' = ref_offsetof_counter r"
      using \<Gamma>(2) ob' wfr Some by (auto simp: heap_inv_def obj_wf_def ref_wf_def)
    then have "inc_ref h r = Some (put_obj h q (ob'\<lparr>counter := counter ob' + 1\<rparr>))"
      using Some ob' by (simp add: inc_ref_def iree_atomic_ref_count_inc_def)
    ultimately show ?thesis
      using list_root_shrinks [OF root] by blast
  qed
qed

end
