(* ===== verification/VM_List.thy ===== *)
theory VM_List
  imports VM_RefLive
begin

text \<open>
  Lists of values, references and variants (\<^verbatim>\<open>iree/vm/list.c\<close>).

  An operation that may release a reference works on the store, with the list named by its address;
  the others work on the list itself. An allocator (\<^verbatim>\<open>iree/base/allocator.c\<close>) is the function from
  the requested byte length to the status it returns. Addresses and byte sizes wrap at 64 bits as in
  the code; an element access past the allocated bytes is undefined.
\<close>

section \<open>Allocation\<close>

type_synonym iree_allocator = "u64 \<Rightarrow> iree_status"

text \<open>The system allocator, given which requests \<^verbatim>\<open>malloc\<close> can serve.\<close>

definition iree_allocator_system_allocate :: "(u64 \<Rightarrow> bool) \<Rightarrow> iree_allocator" where
  "iree_allocator_system_allocate malloc_ok byte_length =
    (if byte_length = 0 then IREE_STATUS_INVALID_ARGUMENT
     else if malloc_ok byte_length then IREE_STATUS_OK
     else IREE_STATUS_RESOURCE_EXHAUSTED)"

definition sizeof_list :: nat where "sizeof_list = 80"

section \<open>Creation\<close>

definition element_size_of :: "iree_vm_type_def option \<Rightarrow> u64" where
  "element_size_of et = (case et of
      None \<Rightarrow> of_nat sizeof_variant
    | Some t \<Rightarrow>
        if iree_vm_type_def_is_value t then of_nat (kValueTypeSizes (value_type t))
        else if iree_vm_type_def_is_ref t then of_nat sizeof_ref
        else of_nat sizeof_variant)"

text \<open>Zeroed storage of \<open>n\<close> elements in the mode the element type selects.\<close>

definition zero_storage :: "iree_vm_type_def option \<Rightarrow> nat \<Rightarrow> vm_storage" where
  "zero_storage et n = (case et of
      None \<Rightarrow> StVariant (replicate n iree_vm_variant_empty)
    | Some t \<Rightarrow>
        if iree_vm_type_def_is_value t then StValue (replicate n 0)
        else if iree_vm_type_def_is_ref t then StRef (replicate n null_ref)
        else StVariant (replicate n iree_vm_variant_empty))"

definition iree_vm_list_storage_size :: "iree_vm_type_def option \<Rightarrow> u64 \<Rightarrow> u64" where
  "iree_vm_list_storage_size et cap =
    iree_host_align (of_nat sizeof_list) 8 + iree_host_align (cap * element_size_of et) 8"

text \<open>The list built in \<open>data_length\<close> bytes of the caller's memory.\<close>

definition iree_vm_list_initialize ::
  "u64 \<Rightarrow> iree_vm_type_def option \<Rightarrow> u64 \<Rightarrow> iree_status \<times> iree_vm_list option" where
  "iree_vm_list_initialize data_length et cap =
    (let es = element_size_of et;
         storage_offset = iree_host_align (of_nat sizeof_list) 8;
         required_storage_size = storage_offset + iree_host_align (cap * es) 8
     in if data_length < required_storage_size then (IREE_STATUS_OUT_OF_RANGE, None)
        else (IREE_STATUS_OK, Some
          \<lparr>capacity = cap, list_count = 0,
           element_type = (case et of Some t \<Rightarrow> t | None \<Rightarrow> iree_vm_type_def_make_variant_type),
           element_size = es, storage = zero_storage et (unat (cap * es) div unat es)\<rparr>))"

text \<open>
  Growing the storage: realloc keeps the old elements, the added bytes are cleared, and the new
  capacity is recorded. The byte counts wrap; clearing bytes past the new block is undefined.
\<close>

definition grow_storage :: "nat \<Rightarrow> vm_storage \<Rightarrow> vm_storage" where
  "grow_storage n st = (case st of
      StValue vs \<Rightarrow> StValue (take n (vs @ replicate (n - length vs) 0))
    | StRef rs \<Rightarrow> StRef (take n (rs @ replicate (n - length rs) null_ref))
    | StVariant vs \<Rightarrow> StVariant (take n (vs @ replicate (n - length vs) iree_vm_variant_empty)))"

definition iree_vm_list_reserve ::
  "iree_allocator \<Rightarrow> iree_vm_list \<Rightarrow> u64 \<Rightarrow> (iree_status \<times> iree_vm_list) option" where
  "iree_vm_list_reserve alloc l minimum_capacity =
    (if capacity l \<ge> minimum_capacity then Some (IREE_STATUS_OK, l)
     else let old_capacity = capacity l;
              new_capacity = iree_host_align minimum_capacity 64;
              bytes = new_capacity * element_size l;
              st = alloc bytes
          in if st \<noteq> IREE_STATUS_OK then Some (st, l)
             else if unat (old_capacity * element_size l) + unat ((new_capacity - old_capacity) * element_size l) \<le> unat bytes
             then Some (IREE_STATUS_OK,
               l\<lparr>storage := grow_storage (unat bytes div unat (element_size l)) (storage l), capacity := new_capacity\<rparr>)
             else None)"

text \<open>The counter is the first member of the structure, at offset 0.\<close>

definition iree_vm_list_create ::
  "iree_allocator \<Rightarrow> vm_heap \<Rightarrow> iree_vm_type_def option \<Rightarrow> u64 \<Rightarrow> (vm_heap \<times> iree_status \<times> nat option) option" where
  "iree_vm_list_create alloc h et initial_capacity =
    (let st = alloc (of_nat sizeof_list) in
     if st \<noteq> IREE_STATUS_OK then Some (h, st, None)
     else let l = \<lparr>capacity = 0, list_count = 0,
                   element_type = (case et of Some t \<Rightarrow> t | None \<Rightarrow> iree_vm_type_def_make_variant_type),
                   element_size = element_size_of et, storage = zero_storage et 0\<rparr>
          in (case iree_vm_list_reserve alloc l initial_capacity of
                None \<Rightarrow> None
              | Some (st, l1) \<Rightarrow>
                  if st \<noteq> IREE_STATUS_OK then Some (h, st, None)
                  else let (h1, p) = alloc_obj h \<lparr>counter = 1, obj_offset = 0, body = BList l1\<rparr>
                       in Some (h1, IREE_STATUS_OK, Some p)))"

text \<open>Aborts, and so does not return, while there are other references.\<close>

definition iree_vm_list_deinitialize :: "type_table \<Rightarrow> vm_heap \<Rightarrow> nat \<Rightarrow> vm_heap option" where
  "iree_vm_list_deinitialize tbl h p = (case obj_at h p of
      None \<Rightarrow> None
    | Some ob \<Rightarrow> (case body ob of
        BList l \<Rightarrow>
          if counter ob \<noteq> 1 then None
          else (case iree_vm_list_reset_range tbl h p 0 (list_count l) of
              None \<Rightarrow> None
            | Some h1 \<Rightarrow> (case list_at h1 p of
                None \<Rightarrow> None
              | Some l1 \<Rightarrow> put_list h1 p (l1\<lparr>list_count := 0\<rparr>)))
      | _ \<Rightarrow> None))"

definition iree_vm_list_element_type :: "iree_vm_list \<Rightarrow> iree_status \<times> iree_vm_type_def" where
  "iree_vm_list_element_type l = (IREE_STATUS_OK, element_type l)"

definition iree_vm_list_capacity :: "iree_vm_list \<Rightarrow> u64" where
  "iree_vm_list_capacity l = capacity l"

definition iree_vm_list_size :: "iree_vm_list \<Rightarrow> u64" where
  "iree_vm_list_size l = list_count l"

definition iree_vm_list_resize ::
  "type_table \<Rightarrow> iree_allocator \<Rightarrow> vm_heap \<Rightarrow> nat \<Rightarrow> u64 \<Rightarrow> (vm_heap \<times> iree_status) option" where
  "iree_vm_list_resize tbl alloc h p new_size = (case list_at h p of
      None \<Rightarrow> None
    | Some l \<Rightarrow>
        if new_size = list_count l then Some (h, IREE_STATUS_OK)
        else if new_size < list_count l
        then (case iree_vm_list_reset_range tbl h p new_size (list_count l - new_size) of
            None \<Rightarrow> None
          | Some h1 \<Rightarrow> (case list_at h1 p of
              None \<Rightarrow> None
            | Some l1 \<Rightarrow> map_option (\<lambda>h2. (h2, IREE_STATUS_OK)) (put_list h1 p (l1\<lparr>list_count := new_size\<rparr>))))
        else if new_size > capacity l
        then (case iree_vm_list_reserve alloc l (max (capacity l * 2) (iree_host_align new_size 64)) of
            None \<Rightarrow> None
          | Some (st, l1) \<Rightarrow>
              if st \<noteq> IREE_STATUS_OK then map_option (\<lambda>h1. (h1, st)) (put_list h p l1)
              else map_option (\<lambda>h1. (h1, IREE_STATUS_OK)) (put_list h p (l1\<lparr>list_count := new_size\<rparr>)))
        else map_option (\<lambda>h1. (h1, IREE_STATUS_OK)) (put_list h p (l\<lparr>list_count := new_size\<rparr>)))"

section \<open>Values\<close>

text \<open>Sign extension from the low \<open>a\<close> bytes and truncation to the low \<open>b\<close> bytes of the union.\<close>

definition i8_of :: "u64 \<Rightarrow> u8" where "i8_of x = ucast x"
definition i16_of :: "u64 \<Rightarrow> u16" where "i16_of x = ucast x"
definition i32_of :: "u64 \<Rightarrow> u32" where "i32_of x = ucast x"

definition iree_vm_list_convert_value_type :: "iree_vm_value \<Rightarrow> iree_vm_value_type \<Rightarrow> iree_vm_value" where
  "iree_vm_list_convert_value_type source_value t =
    (if t = val_type source_value then source_value
     else let x = val_bits source_value in
       \<lparr>val_type = t, val_bits =
         (case val_type source_value of
            IREE_VM_VALUE_TYPE_I8 \<Rightarrow> (case t of
                IREE_VM_VALUE_TYPE_I16 \<Rightarrow> ucast (scast (i8_of x) :: u16)
              | IREE_VM_VALUE_TYPE_I32 \<Rightarrow> ucast (scast (i8_of x) :: u32)
              | IREE_VM_VALUE_TYPE_I64 \<Rightarrow> scast (i8_of x)
              | _ \<Rightarrow> 0)
          | IREE_VM_VALUE_TYPE_I16 \<Rightarrow> (case t of
                IREE_VM_VALUE_TYPE_I8 \<Rightarrow> ucast (ucast (i16_of x) :: u8)
              | IREE_VM_VALUE_TYPE_I32 \<Rightarrow> ucast (scast (i16_of x) :: u32)
              | IREE_VM_VALUE_TYPE_I64 \<Rightarrow> scast (i16_of x)
              | _ \<Rightarrow> 0)
          | IREE_VM_VALUE_TYPE_I32 \<Rightarrow> (case t of
                IREE_VM_VALUE_TYPE_I8 \<Rightarrow> ucast (ucast (i32_of x) :: u8)
              | IREE_VM_VALUE_TYPE_I16 \<Rightarrow> ucast (ucast (i32_of x) :: u16)
              | IREE_VM_VALUE_TYPE_I64 \<Rightarrow> scast (i32_of x)
              | _ \<Rightarrow> 0)
          | IREE_VM_VALUE_TYPE_I64 \<Rightarrow> (case t of
                IREE_VM_VALUE_TYPE_I8 \<Rightarrow> ucast (ucast x :: u8)
              | IREE_VM_VALUE_TYPE_I16 \<Rightarrow> ucast (ucast x :: u16)
              | IREE_VM_VALUE_TYPE_I32 \<Rightarrow> ucast (ucast x :: u32)
              | _ \<Rightarrow> 0)
          | _ \<Rightarrow> 0)\<rparr>)"

text \<open>The element of \<open>es\<close> bytes widened to the zeroed union.\<close>

definition load_element :: "u64 \<Rightarrow> u64 \<Rightarrow> u64" where
  "load_element es x =
    (if es = 1 then ucast (i8_of x) else if es = 2 then ucast (i16_of x)
     else if es = 4 then ucast (i32_of x) else if es = 8 then x else 0)"

definition zero_value :: iree_vm_value where
  "zero_value = \<lparr>val_type = IREE_VM_VALUE_TYPE_NONE, val_bits = 0\<rparr>"

fun payload_bits :: "variant_payload \<Rightarrow> u64 option" where
  "payload_bits (PVal v) = Some v"
| "payload_bits (PRef r) = (if ref_ptr r = None then Some 0 else None)"

definition iree_vm_list_get_value ::
  "iree_vm_list \<Rightarrow> u64 \<Rightarrow> iree_vm_value \<Rightarrow> (iree_status \<times> iree_vm_value) option" where
  "iree_vm_list_get_value l i out_value =
    (if i \<ge> list_count l then Some (IREE_STATUS_OUT_OF_RANGE, out_value)
     else (case storage l of
        StValue vs \<Rightarrow>
          if unat i < length vs
          then Some (IREE_STATUS_OK,
            \<lparr>val_type = value_type (element_type l), val_bits = load_element (element_size l) (vs ! unat i)\<rparr>)
          else None
      | StVariant vs \<Rightarrow>
          if unat i < length vs
          then let v = vs ! unat i in
               if \<not> iree_vm_type_def_is_value (var_type v) then Some (IREE_STATUS_FAILED_PRECONDITION, zero_value)
               else map_option (\<lambda>b. (IREE_STATUS_OK, \<lparr>val_type = value_type (var_type v), val_bits = b\<rparr>))
                      (payload_bits (payload v))
          else None
      | StRef _ \<Rightarrow> Some (IREE_STATUS_FAILED_PRECONDITION, zero_value)))"

definition iree_vm_list_get_value_as ::
  "iree_vm_list \<Rightarrow> u64 \<Rightarrow> iree_vm_value_type \<Rightarrow> iree_vm_value \<Rightarrow> (iree_status \<times> iree_vm_value) option" where
  "iree_vm_list_get_value_as l i t out_value =
    (if i \<ge> list_count l then Some (IREE_STATUS_OUT_OF_RANGE, out_value)
     else (case storage l of
        StValue vs \<Rightarrow>
          if unat i < length vs
          then Some (IREE_STATUS_OK, iree_vm_list_convert_value_type
            \<lparr>val_type = value_type (element_type l), val_bits = load_element (element_size l) (vs ! unat i)\<rparr> t)
          else None
      | StVariant vs \<Rightarrow>
          if unat i < length vs
          then let v = vs ! unat i in
               if \<not> iree_vm_type_def_is_value (var_type v) then Some (IREE_STATUS_FAILED_PRECONDITION, out_value)
               else map_option (\<lambda>b. (IREE_STATUS_OK,
                        iree_vm_list_convert_value_type \<lparr>val_type = value_type (var_type v), val_bits = b\<rparr> t))
                      (payload_bits (payload v))
          else None
      | StRef _ \<Rightarrow> Some (IREE_STATUS_FAILED_PRECONDITION, out_value)))"

definition iree_vm_list_set_value ::
  "type_table \<Rightarrow> vm_heap \<Rightarrow> nat \<Rightarrow> u64 \<Rightarrow> iree_vm_value \<Rightarrow> (vm_heap \<times> iree_status) option" where
  "iree_vm_list_set_value tbl h p i v = (case list_at h p of
      None \<Rightarrow> None
    | Some l \<Rightarrow>
        if i \<ge> list_count l then Some (h, IREE_STATUS_OUT_OF_RANGE)
        else (case storage l of
          StValue vs \<Rightarrow>
            if unat i < length vs
            then let converted_value = iree_vm_list_convert_value_type v (value_type (element_type l));
                     es = element_size l
                 in map_option (\<lambda>h1. (h1, IREE_STATUS_OK))
                   (put_list h p (if es = 1 \<or> es = 2 \<or> es = 4 \<or> es = 8
                      then l\<lparr>storage := StValue (vs[unat i := load_element es (val_bits converted_value)])\<rparr>
                      else l))
            else None
        | StVariant vs \<Rightarrow>
            if unat i < length vs
            then let converted_value = iree_vm_list_convert_value_type v (val_type v);
                     w = vs ! unat i;
                     w' = \<lparr>var_type = \<lparr>value_type = val_type v, def_ref_type = 0\<rparr>, payload = PVal (val_bits converted_value)\<rparr>
                 in (case (if def_ref_type (var_type w) \<noteq> 0 then map_option fst (iree_vm_ref_release tbl h (variant_ref w)) else Some h) of
                       None \<Rightarrow> None
                     | Some h1 \<Rightarrow> map_option (\<lambda>h2. (h2, IREE_STATUS_OK)) (write_variant_slot h1 p (unat i) w'))
            else None
        | StRef _ \<Rightarrow> Some (h, IREE_STATUS_FAILED_PRECONDITION)))"

definition iree_vm_list_push_value ::
  "type_table \<Rightarrow> iree_allocator \<Rightarrow> vm_heap \<Rightarrow> nat \<Rightarrow> iree_vm_value \<Rightarrow> (vm_heap \<times> iree_status) option" where
  "iree_vm_list_push_value tbl alloc h p v = (case list_at h p of
      None \<Rightarrow> None
    | Some l \<Rightarrow> (let i = iree_vm_list_size l in
        (case iree_vm_list_resize tbl alloc h p (i + 1) of
            None \<Rightarrow> None
          | Some (h1, st) \<Rightarrow>
              if st \<noteq> IREE_STATUS_OK then Some (h1, st) else iree_vm_list_set_value tbl h1 p i v)))"

section \<open>References\<close>

definition iree_vm_list_get_ref_assign ::
  "type_table \<Rightarrow> vm_heap \<Rightarrow> nat \<Rightarrow> u64 \<Rightarrow> iree_vm_ref \<Rightarrow> (vm_heap \<times> iree_status \<times> iree_vm_ref) option" where
  "iree_vm_list_get_ref_assign tbl h p i out_value = (case list_at h p of
      None \<Rightarrow> None
    | Some l \<Rightarrow>
        if i \<ge> list_count l then Some (h, IREE_STATUS_OUT_OF_RANGE, out_value)
        else (case storage l of
          StRef rs \<Rightarrow>
            if unat i < length rs
            then map_option (\<lambda>(h1, out1). (h1, IREE_STATUS_OK, out1)) (iree_vm_ref_assign tbl False h (rs ! unat i) out_value)
            else None
        | StVariant vs \<Rightarrow>
            if unat i < length vs
            then if \<not> iree_vm_type_def_is_ref (var_type (vs ! unat i))
                 then Some (h, IREE_STATUS_FAILED_PRECONDITION, out_value)
                 else map_option (\<lambda>(h1, out1). (h1, IREE_STATUS_OK, out1))
                        (iree_vm_ref_assign tbl False h (variant_ref (vs ! unat i)) out_value)
            else None
        | StValue _ \<Rightarrow> Some (h, IREE_STATUS_FAILED_PRECONDITION, out_value)))"

text \<open>The returned pointer; the reference is not retained.\<close>

definition iree_vm_list_get_ref_deref ::
  "type_table \<Rightarrow> vm_heap \<Rightarrow> nat \<Rightarrow> u64 \<Rightarrow> iree_vm_ref_type_descriptor \<Rightarrow> nat option option" where
  "iree_vm_list_get_ref_deref tbl h p i td = (case iree_vm_list_get_ref_assign tbl h p i null_ref of
      None \<Rightarrow> None
    | Some (h1, st, v) \<Rightarrow>
        if st \<noteq> IREE_STATUS_OK then Some None
        else if iree_vm_ref_check v (td_type td) \<noteq> IREE_STATUS_OK then Some None
        else Some (ref_ptr v))"

definition iree_vm_list_get_ref_retain ::
  "type_table \<Rightarrow> vm_heap \<Rightarrow> nat \<Rightarrow> u64 \<Rightarrow> iree_vm_ref \<Rightarrow> (vm_heap \<times> iree_status \<times> iree_vm_ref) option" where
  "iree_vm_list_get_ref_retain tbl h p i out_value = (case iree_vm_list_get_ref_assign tbl h p i out_value of
      None \<Rightarrow> None
    | Some (h1, st, out1) \<Rightarrow>
        if st \<noteq> IREE_STATUS_OK then Some (h1, st, out1)
        else map_option (\<lambda>(h2, out2). (h2, IREE_STATUS_OK, out2)) (iree_vm_ref_retain tbl True h1 out1 out1))"

text \<open>The results are the store, the status and the caller's variable, which a move clears.\<close>

definition iree_vm_list_set_ref ::
  "type_table \<Rightarrow> vm_heap \<Rightarrow> nat \<Rightarrow> u64 \<Rightarrow> bool \<Rightarrow> iree_vm_ref \<Rightarrow> (vm_heap \<times> iree_status \<times> iree_vm_ref) option" where
  "iree_vm_list_set_ref tbl h p i is_move v = (case list_at h p of
      None \<Rightarrow> None
    | Some l \<Rightarrow>
        if i \<ge> list_count l then Some (h, IREE_STATUS_OUT_OF_RANGE, v)
        else (case storage l of
          StRef rs \<Rightarrow>
            if unat i < length rs
            then (case iree_vm_ref_retain_or_move_checked tbl False is_move h v (def_ref_type (element_type l)) (rs ! unat i) of
                None \<Rightarrow> None
              | Some (h1, st, v1, slot) \<Rightarrow>
                  if st \<noteq> IREE_STATUS_OK then Some (h1, st, v1)
                  else map_option (\<lambda>h2. (h2, IREE_STATUS_OK, v1)) (write_ref_slot h1 p (unat i) slot))
            else None
        | StVariant vs \<Rightarrow>
            if unat i < length vs
            then let w = vs ! unat i;
                     old = (if value_type (var_type w) \<noteq> IREE_VM_VALUE_TYPE_NONE then null_ref else variant_ref w);
                     t = \<lparr>value_type = IREE_VM_VALUE_TYPE_NONE, def_ref_type = ref_type v\<rparr>
                 in (case write_variant_slot h p (unat i) \<lparr>var_type = t, payload = PRef old\<rparr> of
                       None \<Rightarrow> None
                     | Some h1 \<Rightarrow> (case iree_vm_ref_retain_or_move tbl False is_move h1 v old of
                         None \<Rightarrow> None
                       | Some (h2, v1, slot) \<Rightarrow>
                           map_option (\<lambda>h3. (h3, IREE_STATUS_OK, v1))
                             (write_variant_slot h2 p (unat i) \<lparr>var_type = t, payload = PRef slot\<rparr>)))
            else None
        | StValue _ \<Rightarrow> Some (h, IREE_STATUS_FAILED_PRECONDITION, v)))"

definition iree_vm_list_set_ref_retain ::
  "type_table \<Rightarrow> vm_heap \<Rightarrow> nat \<Rightarrow> u64 \<Rightarrow> iree_vm_ref \<Rightarrow> (vm_heap \<times> iree_status \<times> iree_vm_ref) option" where
  "iree_vm_list_set_ref_retain tbl h p i v = iree_vm_list_set_ref tbl h p i False v"

definition iree_vm_list_set_ref_move ::
  "type_table \<Rightarrow> vm_heap \<Rightarrow> nat \<Rightarrow> u64 \<Rightarrow> iree_vm_ref \<Rightarrow> (vm_heap \<times> iree_status \<times> iree_vm_ref) option" where
  "iree_vm_list_set_ref_move tbl h p i v = iree_vm_list_set_ref tbl h p i True v"

definition iree_vm_list_push_ref_retain ::
  "type_table \<Rightarrow> iree_allocator \<Rightarrow> vm_heap \<Rightarrow> nat \<Rightarrow> iree_vm_ref \<Rightarrow> (vm_heap \<times> iree_status \<times> iree_vm_ref) option" where
  "iree_vm_list_push_ref_retain tbl alloc h p v = (case list_at h p of
      None \<Rightarrow> None
    | Some l \<Rightarrow> (let i = iree_vm_list_size l in
        (case iree_vm_list_resize tbl alloc h p (i + 1) of
            None \<Rightarrow> None
          | Some (h1, st) \<Rightarrow>
              if st \<noteq> IREE_STATUS_OK then Some (h1, st, v) else iree_vm_list_set_ref_retain tbl h1 p i v)))"

definition iree_vm_list_push_ref_move ::
  "type_table \<Rightarrow> iree_allocator \<Rightarrow> vm_heap \<Rightarrow> nat \<Rightarrow> iree_vm_ref \<Rightarrow> (vm_heap \<times> iree_status \<times> iree_vm_ref) option" where
  "iree_vm_list_push_ref_move tbl alloc h p v = (case list_at h p of
      None \<Rightarrow> None
    | Some l \<Rightarrow> (let i = iree_vm_list_size l in
        (case iree_vm_list_resize tbl alloc h p (i + 1) of
            None \<Rightarrow> None
          | Some (h1, st) \<Rightarrow>
              if st \<noteq> IREE_STATUS_OK then Some (h1, st, v) else iree_vm_list_set_ref_move tbl h1 p i v)))"

text \<open>Moving every element one place to the front; the last element keeps its bytes.\<close>

definition shift_front :: "nat \<Rightarrow> 'a list \<Rightarrow> 'a list" where
  "shift_front n xs = take (n - 1) (tl xs) @ drop (n - 1) xs"

definition shift_storage :: "nat \<Rightarrow> vm_storage \<Rightarrow> vm_storage" where
  "shift_storage n st = (case st of
      StValue vs \<Rightarrow> StValue (shift_front n vs)
    | StRef rs \<Rightarrow> StRef (shift_front n rs)
    | StVariant vs \<Rightarrow> StVariant (shift_front n vs))"

definition iree_vm_list_pop_front_ref_move ::
  "type_table \<Rightarrow> vm_heap \<Rightarrow> nat \<Rightarrow> iree_vm_ref \<Rightarrow> (vm_heap \<times> iree_status \<times> iree_vm_ref) option" where
  "iree_vm_list_pop_front_ref_move tbl h p out_value = (case list_at h p of
      None \<Rightarrow> None
    | Some l \<Rightarrow>
        let list_size = iree_vm_list_size l in
        if list_size = 0 then Some (h, IREE_STATUS_OUT_OF_RANGE, out_value)
        else (case iree_vm_list_get_ref_assign tbl h p 0 out_value of
            None \<Rightarrow> None
          | Some (h1, st, out1) \<Rightarrow>
              if st \<noteq> IREE_STATUS_OK then Some (h1, st, out1)
              else (case list_at h1 p of
                  None \<Rightarrow> None
                | Some l1 \<Rightarrow>
                    map_option (\<lambda>h2. (h2, IREE_STATUS_OK, out1))
                      (put_list h1 p (l1\<lparr>storage := shift_storage (unat list_size) (storage l1),
                                         list_count := list_count l1 - 1\<rparr>)))))"

section \<open>Variants\<close>

definition iree_vm_list_get_variant ::
  "type_table \<Rightarrow> vm_heap \<Rightarrow> nat \<Rightarrow> u64 \<Rightarrow> iree_vm_variant \<Rightarrow> (vm_heap \<times> iree_status \<times> iree_vm_variant) option" where
  "iree_vm_list_get_variant tbl h p i out_value = (case list_at h p of
      None \<Rightarrow> None
    | Some l \<Rightarrow>
        if i \<ge> list_count l then Some (h, IREE_STATUS_OUT_OF_RANGE, out_value)
        else (case storage l of
          StValue vs \<Rightarrow>
            if unat i < length vs
            then map_option (\<lambda>b. (h, IREE_STATUS_OK,
                \<lparr>var_type = element_type l,
                 payload = PVal ((vs ! unat i) OR (b AND NOT (mask (8 * unat (element_size l)))))\<rparr>))
              (payload_bits (payload out_value))
            else None
        | StRef rs \<Rightarrow>
            if unat i < length rs
            then map_option (\<lambda>(h1, out1). (h1, IREE_STATUS_OK,
                \<lparr>var_type = \<lparr>value_type = IREE_VM_VALUE_TYPE_NONE, def_ref_type = ref_type (rs ! unat i)\<rparr>,
                 payload = PRef out1\<rparr>))
              (iree_vm_ref_retain tbl False h (rs ! unat i) (variant_ref out_value))
            else None
        | StVariant vs \<Rightarrow>
            if unat i < length vs
            then let v = vs ! unat i in
                 if iree_vm_type_def_is_ref (var_type v)
                 then map_option (\<lambda>(h1, out1). (h1, IREE_STATUS_OK, \<lparr>var_type = var_type v, payload = PRef out1\<rparr>))
                        (iree_vm_ref_assign tbl False h (variant_ref v) (variant_ref out_value))
                 else map_option (\<lambda>b. (h, IREE_STATUS_OK, \<lparr>var_type = var_type v, payload = PVal b\<rparr>))
                        (payload_bits (payload v))
            else None))"

definition iree_vm_list_set_variant :: "vm_heap \<Rightarrow> nat \<Rightarrow> u64 \<Rightarrow> iree_vm_variant \<Rightarrow> (vm_heap \<times> iree_status) option" where
  "iree_vm_list_set_variant h p i v = Some (h, IREE_STATUS_UNIMPLEMENTED)"

definition iree_vm_list_push_variant ::
  "type_table \<Rightarrow> iree_allocator \<Rightarrow> vm_heap \<Rightarrow> nat \<Rightarrow> iree_vm_variant \<Rightarrow> (vm_heap \<times> iree_status) option" where
  "iree_vm_list_push_variant tbl alloc h p v = (case list_at h p of
      None \<Rightarrow> None
    | Some l \<Rightarrow> (let i = iree_vm_list_size l in
        (case iree_vm_list_resize tbl alloc h p (i + 1) of
            None \<Rightarrow> None
          | Some (h1, st) \<Rightarrow>
              if st \<noteq> IREE_STATUS_OK then Some (h1, st) else iree_vm_list_set_variant h1 p i v)))"

section \<open>Well-formedness of updated lists\<close>

lemma list_wf_StRef:
  assumes "list_wf l" "storage l = StRef rs" "i < unat (list_count l)" "ref_type r = 0 \<or> ref_type r = def_ref_type (element_type l)"
  shows "list_wf (l\<lparr>storage := StRef (rs[i := r])\<rparr>)"
  using assms
  by (auto simp: list_wf_def list_refs_def storage_wf_def storage_element_size_def nth_list_update
      dest!: set_update_subset_insert [THEN subsetD])

lemma list_wf_StVariant:
  assumes "list_wf l" "storage l = StVariant vs" "i < unat (list_count l)" "variant_wf v"
  shows "list_wf (l\<lparr>storage := StVariant (vs[i := v])\<rparr>)"
  using assms
  by (auto simp: list_wf_def list_refs_def storage_wf_def storage_element_size_def nth_list_update simp del: variant_ref.simps
      dest!: set_update_subset_insert [THEN subsetD])

lemma list_wf_StValue:
  assumes "list_wf l" "storage l = StValue vs" "unat x < 2 ^ (8 * kValueTypeSizes (value_type (element_type l)))"
  shows "list_wf (l\<lparr>storage := StValue (vs[i := x])\<rparr>)"
  using assms
  by (auto simp: list_wf_def list_refs_def storage_wf_def storage_element_size_def
      dest!: set_update_subset_insert [THEN subsetD])

lemma list_wf_length: "list_wf l \<Longrightarrow> i < list_count l \<Longrightarrow> unat i < length (list_refs l)"
  by (auto simp: list_wf_def word_less_nat_alt word_le_nat_alt)

lemma variant_wf_PRef: "variant_wf \<lparr>var_type = \<lparr>value_type = IREE_VM_VALUE_TYPE_NONE, def_ref_type = ref_type r\<rparr>, payload = PRef r\<rparr>"
  if "ref_type r = 0 \<longrightarrow> ref_ptr r = None"
  using that by (auto simp: variant_wf_def iree_vm_type_def_is_ref_def IREE_VM_REF_TYPE_NULL_def ref_addrs_def)

lemma heap_ok_ref_type: "heap_ok tbl h R \<Longrightarrow> r \<in># R \<Longrightarrow> ref_type r = 0 \<longrightarrow> ref_ptr r = None"
  by (auto simp: heap_ok_def ref_wf_def)

section \<open>Storing references\<close>

lemma set_ref_StRef_any:
  assumes root: "list_root tbl h lr p l R" and v: "add_mset lr R = add_mset v M" and rs: "storage l = StRef rs" and i: "i < list_count l"
    and t: "ref_type v = 0 \<or> ref_type v = def_ref_type (element_type l)"
  shows "\<exists>h'. iree_vm_list_set_ref tbl h p i is_move v
      = Some (h', IREE_STATUS_OK, if is_move \<or> ref_ptr v = None then null_ref else v)
    \<and> heap_ok tbl h' (add_mset (if is_move \<or> ref_ptr v = None then null_ref else v) M)
    \<and> list_at h' p = Some (l\<lparr>storage := StRef (rs[unat i := v])\<rparr>)"
proof -
  have wf: "list_wf l" and la: "list_at h p = Some l" using root by (auto simp: list_root_wf list_root_def)
  have refs: "list_refs l = rs" using rs by (simp add: list_refs_def)
  have il: "unat i < length (list_refs l)" using list_wf_length [OF wf i] .
  have ic: "unat i < unat (list_count l)" using i by (simp add: word_less_nat_alt)
  let ?l' = "\<lambda>r. l\<lparr>storage := StRef (rs[unat i := r])\<rparr>"
  have wf0: "list_wf (?l' null_ref)" "list_refs (?l' null_ref) = (list_refs l)[unat i := null_ref]"
    using list_wf_StRef [OF wf rs ic] refs by (simp_all add: list_refs_def null_ref_def)
  have wf': "list_wf (?l' v)" "list_refs (?l' v) = (list_refs l)[unat i := v]"
    using list_wf_StRef [OF wf rs ic t] refs by (simp_all add: list_refs_def)
  from store_element_any [OF root v il wf0 wf', of is_move l] obtain h2 where
    h2: "iree_vm_ref_retain_or_move tbl False is_move h v (rs ! unat i)
        = Some (rebody p (BList l) h2, if is_move \<or> ref_ptr v = None then null_ref else v, v)"
      "list_at h2 p \<noteq> None"
      "heap_ok tbl (rebody p (BList (?l' v)) h2) (add_mset (if is_move \<or> ref_ptr v = None then null_ref else v) M)"
    using rebody_list_same [OF la] refs by auto
  then have at: "list_at (rebody p (BList l) h2) p = Some l" "list_at (rebody p (BList (?l' v)) h2) p = Some (?l' v)"
    using list_at_rebody_same by blast+
  then have "write_ref_slot (rebody p (BList l) h2) p (unat i) v = Some (rebody p (BList (?l' v)) h2)"
    using rs il refs by (simp add: write_ref_slot_def put_list_rebody_eq)
  with h2 at la i rs il refs t show ?thesis
    by (auto simp: iree_vm_list_set_ref_def iree_vm_ref_retain_or_move_checked_def IREE_VM_REF_TYPE_NULL_def)
qed

lemma set_ref_StVariant_any:
  assumes root: "list_root tbl h lr p l R" and v: "add_mset lr R = add_mset v M" and vs: "storage l = StVariant vs" and i: "i < list_count l"
  shows "\<exists>h'. iree_vm_list_set_ref tbl h p i is_move v
      = Some (h', IREE_STATUS_OK, if is_move \<or> ref_ptr v = None then null_ref else v)
    \<and> heap_ok tbl h' (add_mset (if is_move \<or> ref_ptr v = None then null_ref else v) M)
    \<and> list_at h' p = Some (l\<lparr>storage := StVariant (vs[unat i :=
          \<lparr>var_type = \<lparr>value_type = IREE_VM_VALUE_TYPE_NONE, def_ref_type = ref_type v\<rparr>, payload = PRef v\<rparr>])\<rparr>)"
proof -
  have wf: "list_wf l" and la: "list_at h p = Some l" using root by (auto simp: list_root_wf list_root_def)
  have refs: "list_refs l = map variant_ref vs" using vs by (simp add: list_refs_def)
  have il: "unat i < length (list_refs l)" using list_wf_length [OF wf i] .
  have ic: "unat i < unat (list_count l)" using i by (simp add: word_less_nat_alt)
  let ?v = "\<lambda>r. \<lparr>var_type = \<lparr>value_type = IREE_VM_VALUE_TYPE_NONE, def_ref_type = ref_type r\<rparr>, payload = PRef r\<rparr>"
  let ?l' = "\<lambda>r. l\<lparr>storage := StVariant (vs[unat i := ?v r])\<rparr>"
  let ?w = "vs ! unat i"
  have "?w \<in> set vs" using il refs by simp
  then have "variant_wf ?w" using list_wf_variants [OF wf] vs by simp
  then have old: "(if value_type (var_type ?w) \<noteq> IREE_VM_VALUE_TYPE_NONE then null_ref else variant_ref ?w) = list_refs l ! unat i"
    using il refs by (auto simp: variant_wf_def split: if_splits)
  have vt: "ref_type v = 0 \<longrightarrow> ref_ptr v = None"
    using root v heap_ok_ref_type [of tbl h _ v] by (auto simp: list_root_def)
  have wf0: "list_wf (?l' null_ref)" "list_refs (?l' null_ref) = (list_refs l)[unat i := null_ref]"
    using list_wf_StVariant [OF wf vs ic variant_wf_PRef, of null_ref] refs by (simp_all add: list_refs_def map_update)
      (simp add: null_ref_def)
  have wf': "list_wf (?l' v)" "list_refs (?l' v) = (list_refs l)[unat i := v]"
    using list_wf_StVariant [OF wf vs ic variant_wf_PRef [OF vt]] refs by (simp_all add: list_refs_def map_update)
  let ?lc = "l\<lparr>storage := StVariant (vs[unat i := (?v v)\<lparr>payload := PRef (list_refs l ! unat i)\<rparr>])\<rparr>"
  from store_element_any [OF root v il wf0 wf', of is_move ?lc] obtain h2 where
    h2: "iree_vm_ref_retain_or_move tbl False is_move (rebody p (BList ?lc) h) v (list_refs l ! unat i)
        = Some (rebody p (BList ?lc) h2, if is_move \<or> ref_ptr v = None then null_ref else v, v)"
      "list_at h2 p \<noteq> None"
      "heap_ok tbl (rebody p (BList (?l' v)) h2) (add_mset (if is_move \<or> ref_ptr v = None then null_ref else v) M)"
    by blast
  have w1: "write_variant_slot h p (unat i) ((?v v)\<lparr>payload := PRef (list_refs l ! unat i)\<rparr>) = Some (rebody p (BList ?lc) h)"
    using vs il refs la by (simp add: write_variant_slot_def put_list_rebody_eq)
  have at': "list_at (rebody p (BList (?l' v)) h2) p = Some (?l' v)" using h2(2) list_at_rebody_same by blast
  have "list_at (rebody p (BList ?lc) h2) p = Some ?lc" using h2(2) list_at_rebody_same by blast
  then have w2: "write_variant_slot (rebody p (BList ?lc) h2) p (unat i) (?v v) = Some (rebody p (BList (?l' v)) h2)"
    using vs il refs by (simp add: write_variant_slot_def put_list_rebody_eq)
  show ?thesis
    using h2 w1 w2 at' la i vs il refs old unfolding iree_vm_list_set_ref_def by (simp add: Let_def)
qed

lemma set_ref_StRef:
  assumes root: "list_root tbl h lr p l (add_mset v R)" and rs: "storage l = StRef rs" and i: "i < list_count l"
    and t: "ref_type v = 0 \<or> ref_type v = def_ref_type (element_type l)"
  shows "\<exists>h'. iree_vm_list_set_ref tbl h p i is_move v
      = Some (h', IREE_STATUS_OK, if is_move \<or> ref_ptr v = None then null_ref else v)
    \<and> list_root tbl h' lr p (l\<lparr>storage := StRef (rs[unat i := v])\<rparr>) (add_mset (if is_move \<or> ref_ptr v = None then null_ref else v) R)"
  using set_ref_StRef_any [OF root add_mset_commute rs i t, of is_move] root
  by (auto simp: list_root_def add_mset_commute)

text \<open>Every other case is refused and changes nothing.\<close>

lemma set_ref_refused:
  assumes "list_at h p = Some l" "list_wf l"
    "i \<ge> list_count l \<or> (\<exists>vs. storage l = StValue vs)
     \<or> (\<exists>rs. storage l = StRef rs) \<and> ref_type v \<noteq> 0 \<and> ref_type v \<noteq> def_ref_type (element_type l)"
  shows "\<exists>st. iree_vm_list_set_ref tbl h p i is_move v = Some (h, st, v) \<and> st \<noteq> IREE_STATUS_OK"
proof (cases "i \<ge> list_count l")
  case False
  then have "unat i < length (list_refs l)" using list_wf_length [OF assms(2), of i] by simp
  with False assms show ?thesis
    by (auto simp: iree_vm_list_set_ref_def iree_vm_ref_retain_or_move_checked_def IREE_VM_REF_TYPE_NULL_def list_refs_def)
qed (use assms in \<open>auto simp: iree_vm_list_set_ref_def\<close>)

section \<open>Loading references\<close>

lemma get_ref_retain_ok:
  assumes root: "list_root tbl h lr p l (add_mset out_ref R)" and i: "i < list_count l"
    and k: "\<exists>rs. storage l = StRef rs \<or> (\<exists>vs. storage l = StVariant vs \<and> iree_vm_type_def_is_ref (var_type (vs ! unat i)))"
  shows "\<exists>h'. iree_vm_list_get_ref_retain tbl h p i out_ref = Some (h', IREE_STATUS_OK, list_refs l ! unat i)
    \<and> list_root tbl h' lr p l (add_mset (list_refs l ! unat i) R)"
proof -
  have wf: "list_wf l" and la: "list_at h p = Some l" using root by (auto simp: list_root_wf list_root_def)
  have il: "unat i < length (list_refs l)" using list_wf_length [OF wf i] .
  let ?r = "list_refs l ! unat i"
  have "heap_ok tbl h (add_mset out_ref (add_mset lr R))" using root by (simp add: list_root_def add_mset_commute)
  from assign_ok [OF this, of ?r] obtain h1 where
    h1: "iree_vm_ref_assign tbl False h ?r out_ref = Some (h1, ?r)" "heap_ok tbl h1 (add_mset lr R)" "shrinks {} h h1" by blast
  have root1: "list_root tbl h1 lr p l R" using list_root_shrinks [OF root h1(3,2)] .
  from inc_element_ok [OF root1, of ?r] il obtain h2 where
    h2: "inc_ref h1 ?r = Some h2" "list_root tbl h2 lr p l (add_mset ?r R)" by auto
  have "iree_vm_list_get_ref_assign tbl h p i out_ref = Some (h1, IREE_STATUS_OK, ?r)"
    using k la i il h1(1) by (auto simp: iree_vm_list_get_ref_assign_def list_refs_def simp del: variant_ref.simps)
  with h2 show ?thesis
    by (auto simp: iree_vm_list_get_ref_retain_def iree_vm_ref_retain_def)
qed

section \<open>Growing and shrinking\<close>

lemma element_size_bounds:
  assumes "list_wf l"
  shows "0 < unat (element_size l)" "unat (element_size l) \<le> 24"
proof -
  have "kValueTypeSizes t \<le> 24" "t \<noteq> IREE_VM_VALUE_TYPE_NONE \<Longrightarrow> 0 < kValueTypeSizes t" for t
    by (cases t; simp add: kValueTypeSizes_def)+
  then have "0 < unat (element_size l) \<and> unat (element_size l) \<le> 24"
    using assms by (auto simp: list_wf_def storage_wf_def storage_element_size_def iree_vm_type_def_is_value_def
        sizeof_ref_def sizeof_variant_def intro: order_trans split: vm_storage.splits)
  then show "0 < unat (element_size l)" "unat (element_size l) \<le> 24" by auto
qed

lemma list_refs_grow:
  "length (list_refs l) \<le> n \<Longrightarrow>
    list_refs (l\<lparr>storage := grow_storage n (storage l), capacity := c\<rparr>) = list_refs l @ replicate (n - length (list_refs l)) null_ref"
  by (auto simp: list_refs_def grow_storage_def iree_vm_variant_empty_def map_replicate_const split: vm_storage.splits simp flip: replicate_add)

lemma list_wf_grow:
  assumes "list_wf l" "capacity l \<le> c" "unat c * unat (element_size l) < 2 ^ 64" "unat c \<le> 2 ^ 58"
  shows "list_wf (l\<lparr>storage := grow_storage (unat c) (storage l), capacity := c\<rparr>)"
proof -
  let ?l' = "l\<lparr>storage := grow_storage (unat c) (storage l), capacity := c\<rparr>"
  have len: "length (list_refs l) \<le> unat c" using assms(1,2) by (simp add: list_wf_def word_le_nat_alt)
  have refs: "list_refs ?l' = list_refs l @ replicate (unat c - length (list_refs l)) null_ref"
    using list_refs_grow [OF len] .
  have "storage_wf (element_type l) (grow_storage (unat c) (storage l))"
    using assms(1) by (auto simp: list_wf_def storage_wf_def grow_storage_def null_ref_def variant_wf_def iree_vm_variant_empty_def
        iree_vm_type_def_is_ref_def iree_vm_type_def_make_variant_type_def IREE_VM_REF_TYPE_NULL_def ref_addrs_def
        split: vm_storage.splits dest!: in_set_takeD)
  moreover have "storage_element_size (element_type l) (grow_storage (unat c) (storage l)) = storage_element_size (element_type l) (storage l)"
    by (simp add: storage_element_size_def grow_storage_def split: vm_storage.splits)
  ultimately show ?thesis
    using assms len by (auto simp: list_wf_def refs nth_append)
qed

text \<open>
  Reserving: within the sizes an address space can hold the request either fails and changes
  nothing, or leaves room for the requested number of elements and keeps all elements.
\<close>

lemma unat_align_64:
  assumes "unat n \<le> 2 ^ 59"
  shows "unat (iree_host_align n 64) = (unat n + 63) div 64 * 64"
  using unat_iree_host_align [of 6 n] assms by simp

lemma reserve_ok:
  assumes wf: "list_wf l" and small: "unat m \<le> 2 ^ 58"
  shows "iree_vm_list_reserve alloc l m =
    (if capacity l \<ge> m then Some (IREE_STATUS_OK, l)
     else let c = iree_host_align m 64; st = alloc (c * element_size l)
          in Some (st, if st = IREE_STATUS_OK then l\<lparr>storage := grow_storage (unat c) (storage l), capacity := c\<rparr> else l))
    \<and> (capacity l < m \<longrightarrow> m \<le> iree_host_align m 64 \<and> iree_host_align m 64 * element_size l \<noteq> 0
        \<and> list_wf (l\<lparr>storage := grow_storage (unat (iree_host_align m 64)) (storage l), capacity := iree_host_align m 64\<rparr>))"
proof (cases "capacity l \<ge> m")
  case True
  then show ?thesis by (auto simp: iree_vm_list_reserve_def)
next
  case False
  define c where "c = iree_host_align m 64"
  have uc: "unat c = (unat m + 63) div 64 * 64" using unat_align_64 [of m] small by (simp add: c_def)
  then have mc: "unat m \<le> unat c" "unat c \<le> unat m + 63" by auto
  have "(unat m + 63) div 64 \<le> (2 ^ 58 + 63) div 64" using small by (intro div_le_mono) simp
  then have c58: "unat c \<le> 2 ^ 58" using uc by simp
  note es = element_size_bounds [OF wf]
  have "unat c * unat (element_size l) \<le> (2 ^ 58 + 63) * 24"
    using mc small es by (intro mult_le_mono) auto
  then have fits: "unat c * unat (element_size l) < 2 ^ 64" by simp
  have "capacity l < c" using False mc by (simp add: word_le_nat_alt word_less_nat_alt not_le)
  then have sub: "unat (c - capacity l) = unat c - unat (capacity l)" and le: "unat (capacity l) \<le> unat c"
    using unat_sub [OF less_imp_le, of "capacity l" c] by (simp_all add: word_less_nat_alt)
  have "unat (capacity l) * unat (element_size l) < 2 ^ 64" using wf unfolding list_wf_def by blast
  then have b1: "unat (capacity l * element_size l) = unat (capacity l) * unat (element_size l)"
    by (simp add: unat_word_ariths)
  have "(unat c - unat (capacity l)) * unat (element_size l) < 2 ^ 64"
    using fits by (metis diff_le_self le_less_trans mult_le_mono1)
  then have b2: "unat ((c - capacity l) * element_size l) = (unat c - unat (capacity l)) * unat (element_size l)"
    using sub by (simp add: unat_word_ariths)
  have b3: "unat (c * element_size l) = unat c * unat (element_size l)"
    using fits by (simp add: unat_word_ariths)
  have ok: "unat (capacity l * element_size l) + unat ((c - capacity l) * element_size l) \<le> unat (c * element_size l)"
    unfolding b1 b2 b3 using le by (simp add: diff_mult_distrib)
  have "unat (c * element_size l) div unat (element_size l) = unat c"
    unfolding b3 using es by simp
  moreover have "list_wf (l\<lparr>storage := grow_storage (unat c) (storage l), capacity := c\<rparr>)"
    using list_wf_grow [OF wf _ fits c58] \<open>capacity l < c\<close> by simp
  moreover have "m \<le> c" using mc by (simp add: word_le_nat_alt)
  moreover have "unat (c * element_size l) > 0"
    unfolding b3 using es(1) le \<open>capacity l < c\<close> by (simp add: word_less_nat_alt)
  then have "c * element_size l \<noteq> 0" by force
  ultimately show ?thesis
    using False ok by (simp add: iree_vm_list_reserve_def Let_def flip: c_def)
qed

text \<open>Clearing elements of a live list.\<close>

lemma addrs_of_update:
  assumes "i < length xs"
  shows "addrs_of (xs[i := y]) + ref_addrs (xs ! i) = addrs_of xs + ref_addrs y"
proof -
  have "addrs_of xs = addrs_of (take i xs @ xs ! i # drop (Suc i) xs)"
    using id_take_nth_drop [OF assms] by simp
  then show ?thesis
    unfolding upd_conv_take_nth_drop [OF assms] by (simp add: add_ac)
qed

lemma reset_value_refs:
  "i < length (list_refs l) \<Longrightarrow> list_refs (l\<lparr>storage := reset_value (storage l) i\<rparr>) = (list_refs l)[i :=
    (case storage l of
        StValue _ \<Rightarrow> null_ref
      | StRef rs \<Rightarrow> released (rs ! i)
      | StVariant vs \<Rightarrow> if iree_vm_type_def_is_ref (var_type (vs ! i)) then released (variant_ref (vs ! i)) else null_ref)]"
  by (auto simp: list_refs_def reset_value_def map_update iree_vm_variant_empty_def simp del: variant_ref.simps split: vm_storage.splits)
    (simp_all add: )

lemma reset_value_addrs:
  "i < length (list_refs l) \<Longrightarrow> j < length (list_refs l) \<Longrightarrow>
    ref_addrs (list_refs (l\<lparr>storage := reset_value (storage l) i\<rparr>) ! j) = (if j = i then {#} else ref_addrs (list_refs l ! j))"
  by (simp add: reset_value_refs nth_list_update split: vm_storage.splits)

lemma list_wf_reset_value:
  assumes wf: "list_wf l" and i: "i < unat (list_count l)" and r: "ref_wf tbl \<Gamma> (list_refs l ! i)"
  shows "list_wf (l\<lparr>storage := reset_value (storage l) i\<rparr>)"
proof -
  have il: "i < length (list_refs l)" using i list_wf_count [OF wf] by simp
  show ?thesis
  proof (cases "storage l")
    case (StValue vs)
    then show ?thesis using list_wf_StValue [OF wf StValue, of 0] by (simp add: reset_value_def)
  next
    case (StRef rs)
    then have "rs ! i \<in> set rs" using il by (simp add: list_refs_def)
    then have "ref_type (released (rs ! i)) = 0 \<or> ref_type (released (rs ! i)) = def_ref_type (element_type l)"
      using wf StRef by (auto simp: list_wf_def storage_wf_def released_def null_ref_def)
    then show ?thesis using list_wf_StRef [OF wf StRef i] StRef by (simp add: reset_value_def)
  next
    case (StVariant vs)
    then have vs: "\<forall>v \<in> storage_variants (reset_value (storage l) i). variant_wf v"
      using variants_reset_value [OF il r list_wf_variants [OF wf]] by simp
    obtain v where v: "reset_value (storage l) i = StVariant (vs[i := v])"
      using StVariant by (simp add: reset_value_def)
    moreover have "v \<in> set (vs[i := v])" using il StVariant by (simp add: list_refs_def set_update_memI)
    ultimately have "variant_wf v" using vs by simp
    then show ?thesis using list_wf_StVariant [OF wf StVariant i] v by simp
  qed
qed

lemma reset_slot_live:
  assumes root: "list_root tbl h lr p l R" and i: "i < unat (list_count l)"
  shows "\<exists>h'. reset_slot (iree_vm_ref_release tbl) h p i = Some h'
    \<and> list_root tbl h' lr p (l\<lparr>storage := reset_value (storage l) i\<rparr>) R"
proof -
  let ?l' = "l\<lparr>storage := reset_value (storage l) i\<rparr>" and ?r = "list_refs l ! i"
  have wf: "list_wf l" and la: "list_at h p = Some l" using root by (auto simp: list_root_wf list_root_def)
  have il: "i < length (list_refs l)" using i list_wf_count [OF wf] by simp
  obtain ob where ob: "obj_at h p = Some ob" "counter ob \<ge> 1" "body ob = BList l"
    using root by (rule list_root_obj)
  then obtain \<Gamma> where r: "ref_wf tbl \<Gamma> ?r"
    using root il by (fastforce simp: list_root_def heap_ok_def heap_inv_def obj_wf_def)
  then have wf': "list_wf ?l'" using list_wf_reset_value [OF wf i] by blast
  obtain x where x: "list_refs ?l' = (list_refs l)[i := x]" "x = null_ref \<or> x = released ?r"
    using reset_value_refs [OF il] il by (auto simp: list_refs_def split: vm_storage.splits if_splits)
  have xn: "ref_ptr x = None" "ref_addrs x = {#}" using x(2) ref_ptr_released [OF r] by (auto simp: null_ref_def ref_addrs_def)
  have xs: "set (list_refs ?l') \<subseteq> {r. ref_ptr r = None} \<union> set (list_refs l)"
    using xn set_update_subset_insert [of "list_refs l" i x] unfolding x(1) by auto
  have noref: ?thesis if eq: "reset_slot (iree_vm_ref_release tbl) h p i = Some (rebody p (BList ?l') h)" and z: "ref_addrs ?r = {#}"
  proof -
    have "addrs_of (list_refs ?l') = addrs_of (list_refs l)"
      using addrs_of_update [OF il, of x] z xn unfolding x(1) by simp
    then have "list_root tbl (rebody p (BList ?l') h) lr p ?l' R"
      using xs by (intro list_root_rebody [OF root wf']) auto
    with eq show ?thesis by blast
  qed
  have ref: ?thesis
    if l0: "list_wf l0" "list_refs l0 = (list_refs l)[i := null_ref]"
      and eq: "\<And>h1. list_at h1 p \<noteq> None \<Longrightarrow> iree_vm_ref_release tbl h ?r = Some (rebody p (BList l) h1, released ?r) \<Longrightarrow>
        reset_slot (iree_vm_ref_release tbl) h p i = Some (rebody p (BList ?l') h1)" for l0
  proof -
    from release_element_ok [OF root il l0, of l] obtain h1 where
      h1: "iree_vm_ref_release tbl h ?r = Some (rebody p (BList l) h1, released ?r)" "list_root tbl h1 lr p l0 R"
      using rebody_list_same [OF la] by auto
    have il0: "i < length (list_refs l0)" using il l0 by simp
    have x0: "list_refs ?l' = (list_refs l0)[i := x]" using x l0 by simp
    have "addrs_of (list_refs ?l') = addrs_of (list_refs l0)"
      using addrs_of_update [OF il0, of x] xn il l0(2) unfolding x0 by simp
    moreover have "set (list_refs ?l') \<subseteq> {r. ref_ptr r = None} \<union> set (list_refs l0)"
      using xn set_update_subset_insert [of "list_refs l0" i x] unfolding x0 by auto
    ultimately have "list_root tbl (rebody p (BList ?l') h1) lr p ?l' R"
      by (intro list_root_rebody [OF h1(2) wf']) auto
    with eq [OF _ h1(1)] h1(2) show ?thesis by (auto simp: list_root_def)
  qed
  show ?thesis
  proof (cases "storage l")
    case (StValue vs)
    then have "reset_slot (iree_vm_ref_release tbl) h p i = Some (rebody p (BList ?l') h)" "ref_addrs ?r = {#}"
      using la il by (simp_all add: reset_slot_def list_refs_def put_list_rebody_eq reset_value_def)
    then show ?thesis by (rule noref)
  next
    case (StRef rs)
    show ?thesis
    proof (rule ref)
      show "list_wf (l\<lparr>storage := StRef (rs[i := null_ref])\<rparr>)"
        using list_wf_StRef [OF wf StRef i] by (simp add: null_ref_def)
      show "list_refs (l\<lparr>storage := StRef (rs[i := null_ref])\<rparr>) = (list_refs l)[i := null_ref]"
        using StRef by (simp add: list_refs_def)
    next
      fix h1
      assume "list_at h1 p \<noteq> None" "iree_vm_ref_release tbl h ?r = Some (rebody p (BList l) h1, released ?r)"
      moreover from this(1) have "list_at (rebody p (BList l) h1) p = Some l" using list_at_rebody_same by blast
      ultimately show "reset_slot (iree_vm_ref_release tbl) h p i = Some (rebody p (BList ?l') h1)"
        using StRef la il by (auto simp: reset_slot_def write_ref_slot_def list_refs_def put_list_rebody_eq reset_value_def)
    qed
  next
    case (StVariant vs)
    show ?thesis
    proof (cases "iree_vm_type_def_is_ref (var_type (vs ! i))")
      case True
      show ?thesis
      proof (rule ref)
        have "variant_wf iree_vm_variant_empty"
          by (simp add: variant_wf_def iree_vm_variant_empty_def null_ref_def iree_vm_type_def_is_ref_def
              iree_vm_type_def_make_variant_type_def IREE_VM_REF_TYPE_NULL_def ref_addrs_def)
        then show "list_wf (l\<lparr>storage := StVariant (vs[i := iree_vm_variant_empty])\<rparr>)"
          using list_wf_StVariant [OF wf StVariant i] by simp
        show "list_refs (l\<lparr>storage := StVariant (vs[i := iree_vm_variant_empty])\<rparr>) = (list_refs l)[i := null_ref]"
          using StVariant by (simp add: list_refs_def map_update iree_vm_variant_empty_def)
      next
        fix h1
        assume "list_at h1 p \<noteq> None" "iree_vm_ref_release tbl h ?r = Some (rebody p (BList l) h1, released ?r)"
        moreover from this(1) have "list_at (rebody p (BList l) h1) p = Some l" using list_at_rebody_same by blast
        ultimately show "reset_slot (iree_vm_ref_release tbl) h p i = Some (rebody p (BList ?l') h1)"
          using StVariant True la il
          by (auto simp: reset_slot_def write_variant_slot_def list_refs_def put_list_rebody_eq reset_value_def simp del: variant_ref.simps)
      qed
    next
      case False
      have "vs ! i \<in> set vs" using StVariant il by (simp add: list_refs_def)
      then have "variant_wf (vs ! i)" using list_wf_variants [OF wf] StVariant by simp
      then have "ref_addrs ?r = {#}"
        using False StVariant il by (simp add: variant_wf_def list_refs_def del: variant_ref.simps)
      moreover have "reset_slot (iree_vm_ref_release tbl) h p i = Some (rebody p (BList ?l') h)"
        using StVariant False la il
        by (auto simp: reset_slot_def write_variant_slot_def list_refs_def put_list_rebody_eq reset_value_def simp del: variant_ref.simps)
      ultimately show ?thesis by (intro noref)
    qed
  qed
qed

definition reset_values :: "nat \<Rightarrow> nat \<Rightarrow> vm_storage \<Rightarrow> vm_storage" where
  "reset_values i k st = fold (\<lambda>j st. reset_value st j) [i..<i + k] st"

lemma reset_range_live:
  "list_root tbl h lr p l R \<Longrightarrow> i + k \<le> unat (list_count l) \<Longrightarrow>
    \<exists>h'. reset_range_with (iree_vm_ref_release tbl) h p i k = Some h'
      \<and> list_root tbl h' lr p (l\<lparr>storage := reset_values i k (storage l)\<rparr>) R"
proof (induction k arbitrary: h l i)
  case 0
  then show ?case by (simp add: reset_values_def)
next
  case (Suc k)
  let ?l1 = "l\<lparr>storage := reset_value (storage l) i\<rparr>"
  obtain h1 where h1: "reset_slot (iree_vm_ref_release tbl) h p i = Some h1" "list_root tbl h1 lr p ?l1 R"
    using reset_slot_live [OF Suc.prems(1), of i] Suc.prems(2) by auto
  from Suc.IH [OF h1(2), of "Suc i"] Suc.prems(2) obtain h2 where
    "reset_range_with (iree_vm_ref_release tbl) h1 p (Suc i) k = Some h2"
    "list_root tbl h2 lr p (l\<lparr>storage := reset_values (Suc i) k (reset_value (storage l) i)\<rparr>) R" by auto
  moreover have "[i..<i + Suc k] = i # [Suc i..<Suc i + k]" by (simp add: upt_conv_Cons)
  then have "reset_values i (Suc k) (storage l) = reset_values (Suc i) k (reset_value (storage l) i)"
    by (simp add: reset_values_def)
  ultimately show ?case using h1(1) by simp
qed

lemma addrs_of_replicate_null [simp]: "addrs_of (replicate n null_ref) = {#}"
  by (induction n) auto

lemma ref_ptr_null_ref [simp]: "ref_ptr null_ref = None"
  by (simp add: null_ref_def)

text \<open>The elements after clearing a range.\<close>

lemma reset_values_addrs:
  "i + k \<le> length (list_refs l) \<Longrightarrow> j < length (list_refs l) \<Longrightarrow>
    length (list_refs (l\<lparr>storage := reset_values i k (storage l)\<rparr>)) = length (list_refs l) \<and>
    ref_addrs (list_refs (l\<lparr>storage := reset_values i k (storage l)\<rparr>) ! j)
      = (if i \<le> j \<and> j < i + k then {#} else ref_addrs (list_refs l ! j))"
proof (induction k)
  case 0
  then show ?case by (auto simp: reset_values_def)
next
  case (Suc k)
  let ?l1 = "l\<lparr>storage := reset_values i k (storage l)\<rparr>"
  have IH: "length (list_refs ?l1) = length (list_refs l)"
    "ref_addrs (list_refs ?l1 ! j) = (if i \<le> j \<and> j < i + k then {#} else ref_addrs (list_refs l ! j))"
    using Suc by auto
  have eq: "reset_values i (Suc k) (storage l) = reset_value (storage ?l1) (i + k)"
    by (simp add: reset_values_def)
  have ik: "i + k < length (list_refs ?l1)" using IH(1) Suc.prems by simp
  show ?case
    using reset_value_addrs [OF ik, of j] reset_value_refs [OF ik] IH Suc.prems unfolding eq by auto
qed

lemma list_wf_count_down:
  assumes "list_wf l" "n \<le> list_count l" "\<forall>j. unat n \<le> j \<and> j < unat (list_count l) \<longrightarrow> ref_addrs (list_refs l ! j) = {#}"
  shows "list_wf (l\<lparr>list_count := n\<rparr>)"
proof -
  have "ref_addrs (list_refs l ! j) = {#}" if "unat n \<le> j" "j < length (list_refs l)" for j
    using that assms by (cases "j < unat (list_count l)") (auto simp: list_wf_def)
  with assms(1,2) show ?thesis
    by (auto simp: list_wf_def list_refs_def intro: order_trans)
qed

lemma list_wf_count_up:
  assumes "list_wf l" "list_count l \<le> n" "n \<le> capacity l"
  shows "list_wf (l\<lparr>list_count := n\<rparr>)"
proof -
  have "unat (list_count l) \<le> unat n" using assms(2) by (simp add: word_le_nat_alt)
  with assms show ?thesis
    by (auto simp: list_wf_def list_refs_def intro: order_trans)
qed

lemma list_root_put:
  assumes root: "list_root tbl h lr p l R" and wf: "list_wf l'"
    and refs: "set (list_refs l') \<subseteq> {r. ref_ptr r = None} \<union> set (list_refs l)" "addrs_of (list_refs l') = addrs_of (list_refs l)"
  shows "\<exists>h'. put_list h p l' = Some h' \<and> list_root tbl h' lr p l' R"
proof -
  have "put_list h p l' = Some (rebody p (BList l') h)"
    using root by (intro put_list_rebody_eq) (simp add: list_root_def)
  moreover have "list_root tbl (rebody p (BList l') h) lr p l' R"
    using refs by (intro list_root_rebody [OF root wf]) auto
  ultimately show ?thesis by blast
qed

text \<open>The list after a resize to \<open>n\<close> elements.\<close>

definition resized :: "iree_vm_list \<Rightarrow> u64 \<Rightarrow> iree_vm_list" where
  "resized l n =
    (if n < list_count l
     then l\<lparr>storage := reset_values (unat n) (unat (list_count l - n)) (storage l), list_count := n\<rparr>
     else if n > capacity l
     then let c = iree_host_align (max (capacity l * 2) (iree_host_align n 64)) 64
          in l\<lparr>storage := grow_storage (unat c) (storage l), capacity := c, list_count := n\<rparr>
     else l\<lparr>list_count := n\<rparr>)"

lemma resize_ok:
  assumes root: "list_root tbl h lr p l R" and small: "unat n \<le> 2 ^ 57"
  shows "\<exists>h' st. iree_vm_list_resize tbl alloc h p n = Some (h', st)
    \<and> list_root tbl h' lr p (if st = IREE_STATUS_OK then resized l n else l) R
    \<and> (n \<le> capacity l \<longrightarrow> st = IREE_STATUS_OK) \<and> (st = IREE_STATUS_OK \<or> (\<exists>sz. sz \<noteq> 0 \<and> st = alloc sz))"
proof -
  have wf: "list_wf l" and la: "list_at h p = Some l" using root by (auto simp: list_root_wf list_root_def)
  have cc: "list_count l \<le> capacity l" using wf by (simp add: list_wf_def)
  consider (same) "n = list_count l" | (less) "n < list_count l" | (up) "list_count l < n" "n \<le> capacity l" | (grow) "capacity l < n"
    by (meson linorder_less_linear not_le)
  then show ?thesis
  proof cases
    case same
    then have "resized l n = l" using cc by (simp add: resized_def)
    with same la root cc show ?thesis by (auto simp: iree_vm_list_resize_def)
  next
    case less
    let ?k = "unat (list_count l - n)"
    have k: "unat n + ?k = unat (list_count l)"
      using less by (simp add: unat_sub word_less_nat_alt less_imp_le)
    let ?l1 = "l\<lparr>storage := reset_values (unat n) ?k (storage l)\<rparr>"
    obtain h1 where h1: "reset_range_with (iree_vm_ref_release tbl) h p (unat n) ?k = Some h1" "list_root tbl h1 lr p ?l1 R"
      using reset_range_live [OF root] k by (metis order_refl)
    have "list_wf (?l1\<lparr>list_count := n\<rparr>)"
    proof (rule list_wf_count_down)
      show "list_wf ?l1" using h1(2) by (rule list_root_wf)
      show "n \<le> list_count ?l1" using less by simp
      show "\<forall>j. unat n \<le> j \<and> j < unat (list_count ?l1) \<longrightarrow> ref_addrs (list_refs ?l1 ! j) = {#}"
        using reset_values_addrs [of "unat n" ?k l] k list_wf_count [OF wf] by auto
    qed
    then obtain h2 where "put_list h1 p (?l1\<lparr>list_count := n\<rparr>) = Some h2" "list_root tbl h2 lr p (?l1\<lparr>list_count := n\<rparr>) R"
      using list_root_put [OF h1(2)] by (force simp: list_refs_def)
    moreover have "resized l n = ?l1\<lparr>list_count := n\<rparr>" using less by (simp add: resized_def)
    moreover have "list_at h1 p = Some ?l1" using h1(2) by (simp add: list_root_def)
    ultimately show ?thesis
      using less la h1(1) by (auto simp: iree_vm_list_resize_def iree_vm_list_reset_range_def)
  next
    case up
    have "list_wf (l\<lparr>list_count := n\<rparr>)" using up by (intro list_wf_count_up [OF wf]) auto
    then obtain h2 where "put_list h p (l\<lparr>list_count := n\<rparr>) = Some h2" "list_root tbl h2 lr p (l\<lparr>list_count := n\<rparr>) R"
      using list_root_put [OF root] by (force simp: list_refs_def)
    with up la show ?thesis by (auto simp: iree_vm_list_resize_def resized_def)
  next
    case grow
    define m where m_def: "m = max (capacity l * 2) (iree_host_align n 64)"
    have un: "unat (iree_host_align n 64) = (unat n + 63) div 64 * 64"
      using small by (intro unat_align_64) simp
    have "(unat n + 63) div 64 \<le> (2 ^ 57 + 63) div 64" using small by (intro div_le_mono) simp
    then have "unat (iree_host_align n 64) \<le> 2 ^ 57" using un by simp
    moreover have cap: "unat (capacity l) < 2 ^ 57" using grow small by (simp add: word_less_nat_alt)
    then have "unat (capacity l * 2) = unat (capacity l) * 2" by (simp add: unat_word_ariths)
    ultimately have m: "unat m \<le> 2 ^ 58" "n \<le> m" "capacity l < m"
      using grow un cap by (auto simp: m_def max_def word_le_nat_alt word_less_nat_alt)
    let ?c = "iree_host_align m 64"
    let ?l1 = "l\<lparr>storage := grow_storage (unat ?c) (storage l), capacity := ?c\<rparr>"
    have rv: "iree_vm_list_reserve alloc l m = Some (alloc (?c * element_size l), if alloc (?c * element_size l) = IREE_STATUS_OK then ?l1 else l)"
      and wf1: "m \<le> ?c" "list_wf ?l1" and nz: "?c * element_size l \<noteq> 0"
      using reserve_ok [OF wf m(1), of alloc] m(3) m(3) [unfolded not_le [symmetric]] by (simp_all add: Let_def)
    show ?thesis
    proof (cases "alloc (?c * element_size l) = IREE_STATUS_OK")
      case True
      have wf2: "list_wf (?l1\<lparr>list_count := n\<rparr>)"
        using grow cc m wf1 by (intro list_wf_count_up) auto
      have "unat (capacity l) \<le> unat ?c" using wf1(1) m(3) by (simp add: word_le_nat_alt word_less_nat_alt)
      then have len: "length (list_refs l) \<le> unat ?c" using wf by (simp add: list_wf_def)
      have "list_refs (?l1\<lparr>list_count := n\<rparr>) = list_refs ?l1" by (simp add: list_refs_def)
      then have "set (list_refs (?l1\<lparr>list_count := n\<rparr>)) \<subseteq> {r. ref_ptr r = None} \<union> set (list_refs l)"
        "addrs_of (list_refs (?l1\<lparr>list_count := n\<rparr>)) = addrs_of (list_refs l)"
        using list_refs_grow [OF len, of ?c] by auto
      from list_root_put [OF root wf2 this] True rv la grow cc show ?thesis
        by (auto simp: iree_vm_list_resize_def resized_def Let_def not_less simp flip: m_def)
    next
      case False
      have "put_list h p l = Some h" using put_list_rebody_eq [OF la] rebody_list_same [OF la] by simp
      with False rv la grow cc root nz show ?thesis
        by (auto simp: iree_vm_list_resize_def not_less simp flip: m_def)
    qed
  qed
qed

section \<open>Storing and loading values\<close>

text \<open>The signed integer a value of an integer type stands for.\<close>

definition int_type :: "iree_vm_value_type \<Rightarrow> bool" where
  "int_type t \<longleftrightarrow> t \<in> {IREE_VM_VALUE_TYPE_I8, IREE_VM_VALUE_TYPE_I16, IREE_VM_VALUE_TYPE_I32, IREE_VM_VALUE_TYPE_I64}"

definition value_int :: "iree_vm_value \<Rightarrow> int" where
  "value_int v = signed_take_bit (8 * kValueTypeSizes (val_type v) - 1) (uint (val_bits v))"

lemma uint_ucast_scast:
  fixes x :: u64
  assumes "LENGTH('a::len) \<le> 64" "LENGTH('b::len) \<le> 64"
  shows "uint (ucast (scast (ucast x :: 'a word) :: 'b word) :: u64) = take_bit LENGTH('b) (signed_take_bit (LENGTH('a) - 1) (uint x))"
proof -
  have "sint (ucast x :: 'a word) = signed_take_bit (LENGTH('a) - 1) (uint x)"
    using assms by (intro bit_eqI) (auto simp: bit_simps min_def)
  moreover have "uint (ucast y :: u64) = uint y" for y :: "'b word"
    using assms by (intro bit_eqI) (auto simp: bit_simps dest: bit_imp_le_length)
  moreover have "uint (scast z :: 'b word) = take_bit LENGTH('b) (sint z)" for z :: "'a word"
    by (intro bit_eqI) (auto simp: bit_simps)
  ultimately show ?thesis by simp
qed

lemma uint_ucast_ucast:
  fixes x :: u64
  assumes "LENGTH('b::len) \<le> LENGTH('a::len)" "LENGTH('a) \<le> 64"
  shows "uint (ucast (ucast (ucast x :: 'a word) :: 'b word) :: u64) = take_bit LENGTH('b) (uint x)"
  using assms by (intro bit_eqI) (auto simp: bit_simps)

lemma signed_take_bit_narrow:
  "m \<le> n \<Longrightarrow> signed_take_bit m (signed_take_bit n (x :: int)) = signed_take_bit m x"
  "m < n \<Longrightarrow> signed_take_bit m (take_bit n x) = signed_take_bit m x"
  by (intro bit_eqI; auto simp: bit_simps min_def)+

lemma value_int_convert:
  assumes "int_type (val_type v)" "int_type t"
  shows "value_int (iree_vm_list_convert_value_type v t) = signed_take_bit (8 * kValueTypeSizes t - 1) (value_int v)"
proof (cases "t = val_type v")
  case True
  then show ?thesis by (simp add: iree_vm_list_convert_value_type_def value_int_def signed_take_bit_narrow)
next
  case False
  have s: "uint (ucast (scast (ucast x :: u8) :: u16) :: u64) = take_bit 16 (signed_take_bit 7 (uint x))"
    "uint (ucast (scast (ucast x :: u8) :: u32) :: u64) = take_bit 32 (signed_take_bit 7 (uint x))"
    "uint (scast (ucast x :: u8) :: u64) = take_bit 64 (signed_take_bit 7 (uint x))"
    "uint (ucast (scast (ucast x :: u16) :: u32) :: u64) = take_bit 32 (signed_take_bit 15 (uint x))"
    "uint (scast (ucast x :: u16) :: u64) = take_bit 64 (signed_take_bit 15 (uint x))"
    "uint (scast (ucast x :: u32) :: u64) = take_bit 64 (signed_take_bit 31 (uint x))" for x :: u64
    using uint_ucast_scast [of x, where ?'a = 8 and ?'b = 16] uint_ucast_scast [of x, where ?'a = 8 and ?'b = 32]
      uint_ucast_scast [of x, where ?'a = 8 and ?'b = 64] uint_ucast_scast [of x, where ?'a = 16 and ?'b = 32]
      uint_ucast_scast [of x, where ?'a = 16 and ?'b = 64] uint_ucast_scast [of x, where ?'a = 32 and ?'b = 64] by simp_all
  have u: "uint (ucast (ucast (ucast x :: u16) :: u8) :: u64) = take_bit 8 (uint x)"
    "uint (ucast (ucast (ucast x :: u32) :: u8) :: u64) = take_bit 8 (uint x)"
    "uint (ucast (ucast (ucast x :: u32) :: u16) :: u64) = take_bit 16 (uint x)"
    "uint (ucast (ucast x :: u8) :: u64) = take_bit 8 (uint x)"
    "uint (ucast (ucast x :: u16) :: u64) = take_bit 16 (uint x)"
    "uint (ucast (ucast x :: u32) :: u64) = take_bit 32 (uint x)" for x :: u64
    using uint_ucast_ucast [of x, where ?'a = 16 and ?'b = 8] uint_ucast_ucast [of x, where ?'a = 32 and ?'b = 8]
      uint_ucast_ucast [of x, where ?'a = 32 and ?'b = 16] uint_ucast_ucast [of x, where ?'a = 64 and ?'b = 8]
      uint_ucast_ucast [of x, where ?'a = 64 and ?'b = 16] uint_ucast_ucast [of x, where ?'a = 64 and ?'b = 32] by simp_all
  show ?thesis
    using assms False unfolding int_type_def value_int_def iree_vm_list_convert_value_type_def Let_def i8_of_def i16_of_def i32_of_def
    by (elim insertE emptyE) (simp_all add: s u kValueTypeSizes_def signed_take_bit_narrow)
qed

lemma load_element_take_bit:
  assumes "t \<noteq> IREE_VM_VALUE_TYPE_NONE"
  shows "load_element (of_nat (kValueTypeSizes t)) x = take_bit (8 * kValueTypeSizes t) x"
proof -
  have "ucast (ucast x :: 8 word) = take_bit 8 x" "ucast (ucast x :: 16 word) = take_bit 16 x" "ucast (ucast x :: 32 word) = take_bit 32 x"
    for x :: u64
    by (rule bit_word_eqI; auto simp: bit_simps)+
  moreover have "take_bit 64 x = x" by (rule bit_word_eqI) (auto simp: bit_simps)
  ultimately show ?thesis
    using assms by (cases t) (simp_all add: load_element_def kValueTypeSizes_def i8_of_def i16_of_def i32_of_def)
qed

lemma list_wf_element_size:
  assumes "list_wf l" "storage l = StValue vs"
  shows "element_size l = of_nat (kValueTypeSizes (value_type (element_type l)))"
    "value_type (element_type l) \<noteq> IREE_VM_VALUE_TYPE_NONE"
    "x \<in> set vs \<Longrightarrow> unat x < 2 ^ (8 * kValueTypeSizes (value_type (element_type l)))"
proof -
  have "unat (element_size l) = kValueTypeSizes (value_type (element_type l))"
    using assms by (simp add: list_wf_def storage_element_size_def)
  moreover have "of_nat (unat (element_size l)) = element_size l" by simp
  ultimately show "element_size l = of_nat (kValueTypeSizes (value_type (element_type l)))" by simp
qed (use assms in \<open>auto simp: list_wf_def storage_wf_def iree_vm_type_def_is_value_def\<close>)

lemma small_take_bit: "unat (x :: 'a::len word) < 2 ^ n \<Longrightarrow> take_bit n x = x"
  by (simp add: word_unat_eq_iff unat_take_bit)

lemma get_value_StValue:
  assumes wf: "list_wf l" and vs: "storage l = StValue vs" and i: "i < list_count l"
  shows "iree_vm_list_get_value l i out_value
    = Some (IREE_STATUS_OK, \<lparr>val_type = value_type (element_type l), val_bits = vs ! unat i\<rparr>)"
proof -
  have il: "unat i < length vs" using list_wf_length [OF wf i] vs by (simp add: list_refs_def)
  note es = list_wf_element_size [OF wf vs]
  have "load_element (element_size l) (vs ! unat i) = vs ! unat i"
    using load_element_take_bit [OF es(2)] small_take_bit [OF es(3) [OF nth_mem [OF il]]] by (simp add: es(1))
  with il i vs show ?thesis by (simp add: iree_vm_list_get_value_def)
qed

lemma set_value_StValue:
  assumes root: "list_root tbl h lr p l R" and vs: "storage l = StValue vs" and i: "i < list_count l"
  defines "t \<equiv> value_type (element_type l)"
  shows "\<exists>h'. iree_vm_list_set_value tbl h p i v = Some (h', IREE_STATUS_OK)
    \<and> list_root tbl h' lr p (l\<lparr>storage := StValue (vs[unat i :=
        take_bit (8 * kValueTypeSizes t) (val_bits (iree_vm_list_convert_value_type v t))])\<rparr>) R"
proof -
  have wf: "list_wf l" and la: "list_at h p = Some l" using root by (auto simp: list_root_wf list_root_def)
  have il: "unat i < length vs" using list_wf_length [OF wf i] vs by (simp add: list_refs_def)
  note es = list_wf_element_size [OF wf vs]
  let ?x = "take_bit (8 * kValueTypeSizes t) (val_bits (iree_vm_list_convert_value_type v t))"
  let ?l' = "l\<lparr>storage := StValue (vs[unat i := ?x])\<rparr>"
  have "unat ?x < 2 ^ (8 * kValueTypeSizes t)" by (simp add: unat_take_bit)
  then have "list_wf ?l'" using list_wf_StValue [OF wf vs] by (simp add: t_def)
  then obtain h' where h': "put_list h p ?l' = Some h'" "list_root tbl h' lr p ?l' R"
    using list_root_put [OF root] vs by (force simp: list_refs_def map_replicate_const)
  have "element_size l = 1 \<or> element_size l = 2 \<or> element_size l = 4 \<or> element_size l = 8"
    using es(1,2) by (cases "value_type (element_type l)") (simp_all add: kValueTypeSizes_def)
  with h' la il i vs es load_element_take_bit [OF es(2)] show ?thesis
    by (auto simp: iree_vm_list_set_value_def Let_def t_def)
qed

lemma set_value_StVariant:
  assumes root: "list_root tbl h lr p l R" and vs: "storage l = StVariant vs" and i: "i < list_count l"
  shows "\<exists>h'. iree_vm_list_set_value tbl h p i v = Some (h', IREE_STATUS_OK)
    \<and> list_root tbl h' lr p (l\<lparr>storage := StVariant (vs[unat i :=
        \<lparr>var_type = \<lparr>value_type = val_type v, def_ref_type = 0\<rparr>, payload = PVal (val_bits v)\<rparr>])\<rparr>) R"
proof -
  have wf: "list_wf l" and la: "list_at h p = Some l" using root by (auto simp: list_root_wf list_root_def)
  have refs: "list_refs l = map variant_ref vs" using vs by (simp add: list_refs_def)
  have il: "unat i < length (list_refs l)" using list_wf_length [OF wf i] .
  have ic: "unat i < unat (list_count l)" using i by (simp add: word_less_nat_alt)
  let ?w = "\<lparr>var_type = \<lparr>value_type = val_type v, def_ref_type = 0\<rparr>, payload = PVal (val_bits v)\<rparr>"
  let ?l' = "l\<lparr>storage := StVariant (vs[unat i := ?w])\<rparr>"
  have "variant_wf ?w" by (simp add: variant_wf_def iree_vm_type_def_is_ref_def IREE_VM_REF_TYPE_NULL_def)
  then have wf': "list_wf ?l'" using list_wf_StVariant [OF wf vs ic] by simp
  have refs': "list_refs ?l' = (list_refs l)[unat i := null_ref]" using refs by (simp add: list_refs_def map_update)
  have conv: "iree_vm_list_convert_value_type v (val_type v) = v" by (simp add: iree_vm_list_convert_value_type_def)
  show ?thesis
  proof (cases "def_ref_type (var_type (vs ! unat i)) = 0")
    case True
    have "vs ! unat i \<in> set vs" using il refs by simp
    then have "ref_addrs (list_refs l ! unat i) = {#}"
      using list_wf_variants [OF wf] vs True il refs
      by (auto simp: variant_wf_def iree_vm_type_def_is_ref_def IREE_VM_REF_TYPE_NULL_def simp del: variant_ref.simps)
    then have "addrs_of (list_refs ?l') = addrs_of (list_refs l)"
      using addrs_of_update [OF il, of null_ref] unfolding refs' by simp
    moreover have "set (list_refs ?l') \<subseteq> {r. ref_ptr r = None} \<union> set (list_refs l)"
      using set_update_subset_insert [of "list_refs l" "unat i" null_ref] unfolding refs' by auto
    ultimately obtain h' where "put_list h p ?l' = Some h'" "list_root tbl h' lr p ?l' R"
      using list_root_put [OF root wf'] by blast
    with True la il i vs refs conv show ?thesis
      by (auto simp: iree_vm_list_set_value_def Let_def write_variant_slot_def)
  next
    case False
    from release_element_ok [OF root il wf' refs', of l] obtain h1 where
      h1: "iree_vm_ref_release tbl h (list_refs l ! unat i) = Some (rebody p (BList l) h1, released (list_refs l ! unat i))"
      "list_root tbl h1 lr p ?l' R"
      using rebody_list_same [OF la] by auto
    have "list_at (rebody p (BList l) h1) p = Some l" using h1(2) list_at_rebody_same by (auto simp: list_root_def)
    then have "write_variant_slot (rebody p (BList l) h1) p (unat i) ?w = Some (rebody p (BList ?l') h1)"
      using vs il refs by (simp add: write_variant_slot_def put_list_rebody_eq)
    moreover have "rebody p (BList ?l') h1 = h1" using h1(2) by (intro rebody_list_same) (simp add: list_root_def)
    ultimately show ?thesis
      using False h1 la il i vs refs conv
      by (auto simp: iree_vm_list_set_value_def Let_def simp del: variant_ref.simps)
  qed
qed

section \<open>Pushing\<close>

lemma resized_Suc_count:
  assumes "list_wf l" "unat (capacity l) \<le> 2 ^ 58"
  shows "list_count (resized l (list_count l + 1)) = list_count l + 1" "list_count l < list_count l + 1"
proof -
  have "unat (list_count l) \<le> 2 ^ 58" using assms by (auto simp: list_wf_def word_le_nat_alt)
  then show "list_count l < list_count l + 1" by (simp add: word_less_nat_alt unat_word_ariths)
  then show "list_count (resized l (list_count l + 1)) = list_count l + 1"
    by (auto simp: resized_def Let_def)
qed

text \<open>How many more elements fit: beyond these sizes the byte size of the storage could wrap.\<close>

definition list_room :: "iree_vm_list \<Rightarrow> nat \<Rightarrow> bool" where
  "list_room l n \<longleftrightarrow> unat (capacity l) \<le> 2 ^ 57 + 64 \<and> unat (list_count l) + n \<le> 2 ^ 56"

lemma resized_Suc_room:
  assumes wf: "list_wf l" and room: "list_room l (Suc n)"
  shows "list_room (resized l (list_count l + 1)) n" "unat (list_count l + 1) = unat (list_count l) + 1"
proof -
  let ?n = "list_count l + 1"
  have c: "unat (list_count l) < 2 ^ 56" using room by (simp add: list_room_def)
  then show un: "unat ?n = unat (list_count l) + 1" by (simp add: unat_word_ariths)
  then have lt: "list_count l < ?n" by (simp add: word_less_nat_alt)
  show "list_room (resized l ?n) n"
  proof (cases "?n > capacity l")
    case False
    with lt un room show ?thesis by (auto simp: resized_def list_room_def)
  next
    case True
    then have cap: "unat (capacity l) \<le> 2 ^ 56" using un c by (simp add: word_less_nat_alt)
    have "unat (capacity l * 2) = unat (capacity l) * 2" using cap by (simp add: unat_word_ariths)
    moreover have "unat (iree_host_align ?n 64) = (unat ?n + 63) div 64 * 64" using un c by (intro unat_align_64) simp
    ultimately have m: "unat (max (capacity l * 2) (iree_host_align ?n 64)) \<le> 2 ^ 57"
      using cap un c by (auto simp: max_def)
    then have "unat (iree_host_align (max (capacity l * 2) (iree_host_align ?n 64)) 64) \<le> 2 ^ 57 + 64"
      by (subst unat_align_64) auto
    with True lt un room show ?thesis by (auto simp: resized_def list_room_def Let_def)
  qed
qed

lemma resized_Suc_storage:
  assumes wf: "list_wf l" and root: "list_wf (resized l (list_count l + 1))" and lt: "list_count l < list_count l + 1"
  shows "storage l = StValue vs \<Longrightarrow> \<exists>vs'. storage (resized l (list_count l + 1)) = StValue vs' \<and> take (unat (list_count l)) vs' = take (unat (list_count l)) vs"
    "storage l = StRef rs \<Longrightarrow> \<exists>rs'. storage (resized l (list_count l + 1)) = StRef rs' \<and> take (unat (list_count l)) rs' = take (unat (list_count l)) rs"
proof -
  let ?n = "list_count l + 1"
  have len: "unat (list_count l) \<le> length (list_refs l)" "unat ?n \<le> length (list_refs (resized l ?n))"
    using list_wf_count [OF wf] list_wf_count [OF root] lt by (auto simp: resized_def Let_def)
  have n: "unat (list_count l) < unat ?n" using lt by (simp add: word_less_nat_alt)
  show "storage l = StValue vs \<Longrightarrow> \<exists>vs'. storage (resized l ?n) = StValue vs' \<and> take (unat (list_count l)) vs' = take (unat (list_count l)) vs"
    using lt len n by (auto simp: resized_def Let_def grow_storage_def list_refs_def split: if_splits)
  show "storage l = StRef rs \<Longrightarrow> \<exists>rs'. storage (resized l ?n) = StRef rs' \<and> take (unat (list_count l)) rs' = take (unat (list_count l)) rs"
    using lt len n by (auto simp: resized_def Let_def grow_storage_def list_refs_def split: if_splits)
qed

lemma resized_element_type [simp]: "element_type (resized l n) = element_type l"
  by (simp add: resized_def Let_def)

text \<open>The resize at the start of a push, when the allocator serves the request.\<close>

lemma push_resize:
  assumes root: "list_root tbl h lr p l R" and room: "list_room l (Suc n)" and alloc: "\<forall>sz. sz \<noteq> 0 \<longrightarrow> alloc sz = IREE_STATUS_OK"
  shows "\<exists>h1. iree_vm_list_resize tbl alloc h p (list_count l + 1) = Some (h1, IREE_STATUS_OK)
    \<and> list_root tbl h1 lr p (resized l (list_count l + 1)) R
    \<and> list_count (resized l (list_count l + 1)) = list_count l + 1 \<and> list_count l < list_count l + 1"
proof -
  have wf: "list_wf l" using root by (rule list_root_wf)
  have "unat (list_count l + 1) \<le> 2 ^ 57" using resized_Suc_room [OF wf room] room by (simp add: list_room_def)
  from resize_ok [OF root this, of alloc] obtain h1 st where
    h1: "iree_vm_list_resize tbl alloc h p (list_count l + 1) = Some (h1, st)"
    "list_root tbl h1 lr p (if st = IREE_STATUS_OK then resized l (list_count l + 1) else l) R"
    "st = IREE_STATUS_OK \<or> (\<exists>sz. sz \<noteq> 0 \<and> st = alloc sz)" by blast
  then have "st = IREE_STATUS_OK" using alloc by auto
  moreover have "unat (capacity l) \<le> 2 ^ 58" using room by (simp add: list_room_def)
  ultimately show ?thesis using h1 resized_Suc_count [OF wf] by simp
qed

lemma take_Suc_update: "k < length xs \<Longrightarrow> take (Suc k) (xs[k := x]) = take k xs @ [x]"
  by (simp add: take_Suc_conv_app_nth)

lemma push_value_StValue:
  assumes root: "list_root tbl h lr p l R" and room: "list_room l (Suc n)" and alloc: "\<forall>sz. sz \<noteq> 0 \<longrightarrow> alloc sz = IREE_STATUS_OK"
    and vs: "storage l = StValue vs"
  defines "t \<equiv> value_type (element_type l)"
  shows "\<exists>h' l' vs'. iree_vm_list_push_value tbl alloc h p v = Some (h', IREE_STATUS_OK) \<and> list_root tbl h' lr p l' R
    \<and> list_room l' n \<and> storage l' = StValue vs' \<and> element_type l' = element_type l
    \<and> take (unat (list_count l')) vs' = take (unat (list_count l)) vs
        @ [take_bit (8 * kValueTypeSizes t) (val_bits (iree_vm_list_convert_value_type v t))]"
proof -
  have wf: "list_wf l" and la: "list_at h p = Some l" using root by (auto simp: list_root_wf list_root_def)
  let ?l1 = "resized l (list_count l + 1)"
  obtain h1 where h1: "iree_vm_list_resize tbl alloc h p (list_count l + 1) = Some (h1, IREE_STATUS_OK)"
    "list_root tbl h1 lr p ?l1 R" "list_count ?l1 = list_count l + 1" "list_count l < list_count l + 1"
    using push_resize [OF root room alloc] by blast
  obtain vs1 where vs1: "storage ?l1 = StValue vs1" "take (unat (list_count l)) vs1 = take (unat (list_count l)) vs"
    using resized_Suc_storage(1) [OF wf list_root_wf [OF h1(2)] h1(4) vs] by blast
  have i: "list_count l < list_count ?l1" using h1(3,4) by simp
  have il: "unat (list_count l) < length vs1" using list_wf_length [OF list_root_wf [OF h1(2)] i] vs1(1) by (simp add: list_refs_def)
  from set_value_StValue [OF h1(2) vs1(1) i, of v] obtain h2 where
    "iree_vm_list_set_value tbl h1 p (list_count l) v = Some (h2, IREE_STATUS_OK)"
    "list_root tbl h2 lr p (?l1\<lparr>storage := StValue (vs1[unat (list_count l) :=
        take_bit (8 * kValueTypeSizes t) (val_bits (iree_vm_list_convert_value_type v t))])\<rparr>) R"
    by (auto simp: t_def)
  moreover have "iree_vm_list_push_value tbl alloc h p v = iree_vm_list_set_value tbl h1 p (list_count l) v"
    using la h1(1) by (simp add: iree_vm_list_push_value_def iree_vm_list_size_def Let_def)
  moreover have "list_room (?l1\<lparr>storage := st\<rparr>) n" for st
    using resized_Suc_room(1) [OF wf room] by (simp add: list_room_def)
  ultimately show ?thesis
    using vs1(2) il h1(3) resized_Suc_room(2) [OF wf room] take_Suc_update [OF il]
    by (intro exI [of _ h2] exI [of _ "?l1\<lparr>storage := StValue (vs1[unat (list_count l) :=
        take_bit (8 * kValueTypeSizes t) (val_bits (iree_vm_list_convert_value_type v t))])\<rparr>"]) auto
qed

lemma push_ref_retain_StRef:
  assumes root: "list_root tbl h lr p l (add_mset v R)" and room: "list_room l (Suc n)" and alloc: "\<forall>sz. sz \<noteq> 0 \<longrightarrow> alloc sz = IREE_STATUS_OK"
    and rs: "storage l = StRef rs" and t: "ref_type v = def_ref_type (element_type l)" and ptr: "ref_ptr v \<noteq> None"
  shows "\<exists>h' l' rs'. iree_vm_list_push_ref_retain tbl alloc h p v = Some (h', IREE_STATUS_OK, v) \<and> list_root tbl h' lr p l' (add_mset v R)
    \<and> list_room l' n \<and> storage l' = StRef rs' \<and> element_type l' = element_type l
    \<and> take (unat (list_count l')) rs' = take (unat (list_count l)) rs @ [v]"
proof -
  have wf: "list_wf l" and la: "list_at h p = Some l" using root by (auto simp: list_root_wf list_root_def)
  let ?l1 = "resized l (list_count l + 1)"
  obtain h1 where h1: "iree_vm_list_resize tbl alloc h p (list_count l + 1) = Some (h1, IREE_STATUS_OK)"
    "list_root tbl h1 lr p ?l1 (add_mset v R)" "list_count ?l1 = list_count l + 1" "list_count l < list_count l + 1"
    using push_resize [OF root room alloc] by blast
  obtain rs1 where rs1: "storage ?l1 = StRef rs1" "take (unat (list_count l)) rs1 = take (unat (list_count l)) rs"
    using resized_Suc_storage(2) [OF wf list_root_wf [OF h1(2)] h1(4) rs] by blast
  have i: "list_count l < list_count ?l1" using h1(3,4) by simp
  have il: "unat (list_count l) < length rs1" using list_wf_length [OF list_root_wf [OF h1(2)] i] rs1(1) by (simp add: list_refs_def)
  from set_ref_StRef [OF h1(2) rs1(1) i, of False] t ptr obtain h2 where
    "iree_vm_list_set_ref tbl h1 p (list_count l) False v = Some (h2, IREE_STATUS_OK, v)"
    "list_root tbl h2 lr p (?l1\<lparr>storage := StRef (rs1[unat (list_count l) := v])\<rparr>) (add_mset v R)"
    by auto
  moreover have "iree_vm_list_push_ref_retain tbl alloc h p v = iree_vm_list_set_ref tbl h1 p (list_count l) False v"
    using la h1(1) by (simp add: iree_vm_list_push_ref_retain_def iree_vm_list_set_ref_retain_def iree_vm_list_size_def Let_def)
  moreover have "list_room (?l1\<lparr>storage := st\<rparr>) n" for st
    using resized_Suc_room(1) [OF wf room] by (simp add: list_room_def)
  ultimately show ?thesis
    using rs1(2) il h1(3) resized_Suc_room(2) [OF wf room] take_Suc_update [OF il]
    by (intro exI [of _ h2] exI [of _ "?l1\<lparr>storage := StRef (rs1[unat (list_count l) := v])\<rparr>"]) auto
qed

section \<open>Creation of lists\<close>

definition empty_list :: "iree_vm_type_def option \<Rightarrow> iree_vm_list" where
  "empty_list et = \<lparr>capacity = 0, list_count = 0,
     element_type = (case et of Some t \<Rightarrow> t | None \<Rightarrow> iree_vm_type_def_make_variant_type),
     element_size = element_size_of et, storage = zero_storage et 0\<rparr>"

lemma list_wf_empty: "list_wf (empty_list et)" "list_refs (empty_list et) = []"
proof -
  have "kValueTypeSizes t \<le> 8" for t by (cases t) (simp_all add: kValueTypeSizes_def)
  then have "kValueTypeSizes t < 2 ^ 64" for t using order_le_less_trans [of "kValueTypeSizes t" 8 "2 ^ 64"] by simp
  then have u: "unat (of_nat (kValueTypeSizes t) :: u64) = kValueTypeSizes t" for t
    by (simp add: unat_of_nat)
  show "list_refs (empty_list et) = []"
    by (simp add: list_refs_def empty_list_def zero_storage_def split: option.splits)
  then show "list_wf (empty_list et)"
    by (auto simp: list_wf_def empty_list_def zero_storage_def element_size_of_def storage_wf_def storage_element_size_def u
        sizeof_ref_def sizeof_variant_def iree_vm_type_def_is_variant_def iree_vm_type_def_is_value_def iree_vm_type_def_is_ref_def
        iree_vm_type_def_make_variant_type_def IREE_VM_REF_TYPE_NULL_def split: option.splits)
qed

text \<open>Creating a list allocates one new object, which is well-formed and holds no references, or nothing.\<close>

definition created_list :: "vm_heap \<Rightarrow> (vm_heap \<times> iree_status \<times> nat option) option \<Rightarrow> bool" where
  "created_list h res \<longleftrightarrow>
    (\<exists>st. st \<noteq> IREE_STATUS_OK \<and> res = Some (h, st, None)) \<or>
    (\<exists>l. res = Some (h @ [Some \<lparr>counter = 1, obj_offset = 0, body = BList l\<rparr>], IREE_STATUS_OK, Some (length h))
      \<and> list_wf l \<and> (\<forall>r \<in> set (list_refs l). r = null_ref))"

lemma list_create_ok:
  assumes "unat cap \<le> 2 ^ 58"
  shows "created_list h (iree_vm_list_create alloc h et cap)"
proof (cases "alloc (of_nat sizeof_list) = IREE_STATUS_OK")
  case False
  then show ?thesis by (auto simp: created_list_def iree_vm_list_create_def)
next
  case True
  note rv = reserve_ok [OF list_wf_empty(1) [of et] assms, of alloc]
  have cap0: "capacity (empty_list et) = 0" by (simp add: empty_list_def)
  have "\<exists>st l. iree_vm_list_reserve alloc (empty_list et) cap = Some (st, l) \<and> (st = IREE_STATUS_OK \<longrightarrow> list_wf l \<and> (\<forall>r \<in> set (list_refs l). r = null_ref))"
  proof (cases "cap = 0")
    case True
    then show ?thesis using rv list_wf_empty [of et] cap0 by simp
  next
    case False
    then have "capacity (empty_list et) < cap" using cap0 by (simp add: word_gt_0)
    then show ?thesis
      using rv list_refs_grow [of "empty_list et"] by (auto simp: Let_def list_wf_empty cap0)
  qed
  then obtain st l where l: "iree_vm_list_reserve alloc (empty_list et) cap = Some (st, l)"
      "st = IREE_STATUS_OK \<longrightarrow> list_wf l \<and> (\<forall>r \<in> set (list_refs l). r = null_ref)" by blast
  have "iree_vm_list_create alloc h et cap = (case iree_vm_list_reserve alloc (empty_list et) cap of
      None \<Rightarrow> None
    | Some (st, l1) \<Rightarrow>
        if st \<noteq> IREE_STATUS_OK then Some (h, st, None)
        else let (h1, p) = alloc_obj h \<lparr>counter = 1, obj_offset = 0, body = BList l1\<rparr>
             in Some (h1, IREE_STATUS_OK, Some p))"
    using True by (simp add: iree_vm_list_create_def empty_list_def Let_def)
  then show ?thesis
    using l by (auto simp: created_list_def alloc_obj_def)
qed

end
