(* ===== verification/VM_Buffer.thy ===== *)
theory VM_Buffer
  imports VM_RefLive VM_List
begin

text \<open>
  Byte buffers (\<^verbatim>\<open>iree/vm/buffer.c\<close>). A buffer is its access flags and its bytes; a mapping of a buffer
  is an offset and a length into these bytes. Offsets and lengths are 64-bit and wrap as in the code;
  touching bytes outside of the buffer, and \<^verbatim>\<open>memcpy\<close> between overlapping ranges, is undefined.
\<close>

section \<open>Mapping\<close>

definition IREE_VM_BUFFER_ACCESS_MUTABLE :: u32 where "IREE_VM_BUFFER_ACCESS_MUTABLE = 1"
definition IREE_VM_BUFFER_ACCESS_ORIGIN_MODULE :: u32 where "IREE_VM_BUFFER_ACCESS_ORIGIN_MODULE = 2"
definition IREE_VM_BUFFER_ACCESS_ORIGIN_GUEST :: u32 where "IREE_VM_BUFFER_ACCESS_ORIGIN_GUEST = 4"
definition IREE_VM_BUFFER_ACCESS_ORIGIN_HOST :: u32 where "IREE_VM_BUFFER_ACCESS_ORIGIN_HOST = 8"

definition iree_vm_buffer_length :: "iree_vm_buffer \<Rightarrow> u64" where
  "iree_vm_buffer_length b = of_nat (length (data b))"

definition iree_vm_buffer_map :: "iree_vm_buffer \<Rightarrow> u64 \<Rightarrow> u64 \<Rightarrow> u64 \<Rightarrow> iree_status \<times> u64 \<times> u64" where
  "iree_vm_buffer_map b off len alignment =
    (let off = off AND NOT (alignment - 1);
         len = len AND NOT (alignment - 1);
         map_end = off + len
     in if map_end > iree_vm_buffer_length b then (IREE_STATUS_OUT_OF_RANGE, 0, 0)
        else (IREE_STATUS_OK, off, len))"

definition iree_vm_buffer_map_ro :: "iree_vm_buffer \<Rightarrow> u64 \<Rightarrow> u64 \<Rightarrow> u64 \<Rightarrow> iree_status \<times> u64 \<times> u64" where
  "iree_vm_buffer_map_ro b off len alignment = iree_vm_buffer_map b off len alignment"

definition iree_vm_buffer_map_rw :: "iree_vm_buffer \<Rightarrow> u64 \<Rightarrow> u64 \<Rightarrow> u64 \<Rightarrow> iree_status \<times> u64 \<times> u64" where
  "iree_vm_buffer_map_rw b off len alignment =
    (if access b AND IREE_VM_BUFFER_ACCESS_MUTABLE \<noteq> IREE_VM_BUFFER_ACCESS_MUTABLE
     then (IREE_STATUS_PERMISSION_DENIED, 0, 0)
     else iree_vm_buffer_map b off len alignment)"

text \<open>Reading and writing the bytes of a mapping.\<close>

definition read_bytes :: "u8 list \<Rightarrow> u64 \<Rightarrow> nat \<Rightarrow> u8 list option" where
  "read_bytes d off n = (if unat off + n \<le> length d then Some (take n (drop (unat off) d)) else None)"

definition write_bytes :: "u8 list \<Rightarrow> u64 \<Rightarrow> u8 list \<Rightarrow> u8 list option" where
  "write_bytes d off xs =
    (if unat off + length xs \<le> length d
     then Some (take (unat off) d @ xs @ drop (unat off + length xs) d) else None)"

section \<open>Creation\<close>

definition sizeof_buffer :: nat where "sizeof_buffer = 48"

definition buffer_prefix_size :: u64 where
  "buffer_prefix_size = iree_host_align (of_nat sizeof_buffer) 16"

definition iree_vm_buffer_initialize :: "u32 \<Rightarrow> u8 list \<Rightarrow> vm_obj" where
  "iree_vm_buffer_initialize acc d = \<lparr>counter = 1, obj_offset = 0, body = BBuffer \<lparr>access = acc, data = d\<rparr>\<rparr>"

text \<open>Frees the bytes; aborts, and so does not return, while there are other references.\<close>

definition iree_vm_buffer_deinitialize :: "vm_heap \<Rightarrow> nat \<Rightarrow> vm_heap option" where
  "iree_vm_buffer_deinitialize h p = (case obj_at h p of
      Some ob \<Rightarrow> (case body ob of
          BBuffer b \<Rightarrow> if counter ob \<noteq> 1 then None else free_obj h p
        | _ \<Rightarrow> None)
    | None \<Rightarrow> None)"

definition iree_vm_buffer_create ::
  "iree_allocator \<Rightarrow> vm_heap \<Rightarrow> u32 \<Rightarrow> u64 \<Rightarrow> (vm_heap \<times> iree_status \<times> nat option) option" where
  "iree_vm_buffer_create alloc h acc len =
    (let total_size = buffer_prefix_size + len;
         st = alloc total_size
     in if st \<noteq> IREE_STATUS_OK then Some (h, st, None)
        else if unat total_size < unat buffer_prefix_size + unat len then None
        else let (h1, p) = alloc_obj h (iree_vm_buffer_initialize acc (replicate (unat len) 0))
             in Some (h1, IREE_STATUS_OK, Some p))"

definition iree_vm_buffer_clone ::
  "iree_allocator \<Rightarrow> vm_heap \<Rightarrow> u32 \<Rightarrow> iree_vm_buffer \<Rightarrow> u64 \<Rightarrow> u64 \<Rightarrow> (vm_heap \<times> iree_status \<times> nat option) option" where
  "iree_vm_buffer_clone alloc h acc source_buffer source_offset len =
    (let (st, off, span_length) = iree_vm_buffer_map_ro source_buffer source_offset len 1
     in if st \<noteq> IREE_STATUS_OK then Some (h, st, None)
        else let total_size = buffer_prefix_size + span_length;
                 st = alloc total_size
             in if st \<noteq> IREE_STATUS_OK then Some (h, st, None)
                else if unat total_size < unat buffer_prefix_size + unat len then None
                else (case read_bytes (data source_buffer) off (unat len) of
                    None \<Rightarrow> None
                  | Some d \<Rightarrow>
                      let (h1, p) = alloc_obj h (iree_vm_buffer_initialize acc d)
                      in Some (h1, IREE_STATUS_OK, Some p)))"

section \<open>Access\<close>

text \<open>\<open>same\<close> says that source and target are one buffer; then the ranges must not overlap.\<close>

definition iree_vm_buffer_copy_bytes ::
  "bool \<Rightarrow> iree_vm_buffer \<Rightarrow> u64 \<Rightarrow> iree_vm_buffer \<Rightarrow> u64 \<Rightarrow> u64 \<Rightarrow> (iree_status \<times> iree_vm_buffer) option" where
  "iree_vm_buffer_copy_bytes same source_buffer source_offset target_buffer target_offset len =
    (let (st, soff, _) = iree_vm_buffer_map_ro source_buffer source_offset len 1
     in if st \<noteq> IREE_STATUS_OK then Some (st, target_buffer)
        else let (st, toff, _) = iree_vm_buffer_map_rw target_buffer target_offset len 1
             in if st \<noteq> IREE_STATUS_OK then Some (st, target_buffer)
                else if same \<and> unat soff < unat toff + unat len \<and> unat toff < unat soff + unat len then None
                else (case read_bytes (data source_buffer) soff (unat len) of
                    None \<Rightarrow> None
                  | Some xs \<Rightarrow> map_option (\<lambda>d. (IREE_STATUS_OK, target_buffer\<lparr>data := d\<rparr>))
                      (write_bytes (data target_buffer) toff xs)))"

definition iree_vm_buffer_compare_bytes ::
  "iree_vm_buffer \<Rightarrow> u64 \<Rightarrow> iree_vm_buffer \<Rightarrow> u64 \<Rightarrow> u64 \<Rightarrow> bool \<Rightarrow> (iree_status \<times> bool) option" where
  "iree_vm_buffer_compare_bytes lhs_buffer lhs_offset rhs_buffer rhs_offset len out_result =
    (let (st, loff, _) = iree_vm_buffer_map_ro lhs_buffer lhs_offset len 1
     in if st \<noteq> IREE_STATUS_OK then Some (st, out_result)
        else let (st, roff, _) = iree_vm_buffer_map_ro rhs_buffer rhs_offset len 1
             in if st \<noteq> IREE_STATUS_OK then Some (st, out_result)
                else (case (read_bytes (data lhs_buffer) loff (unat len), read_bytes (data rhs_buffer) roff (unat len)) of
                    (Some xs, Some ys) \<Rightarrow> Some (IREE_STATUS_OK, xs = ys)
                  | _ \<Rightarrow> None))"

text \<open>\<open>val\<close> are the bytes the value pointer leads to, at least \<open>element_length\<close> of them.\<close>

definition iree_vm_buffer_fill_elements ::
  "iree_vm_buffer \<Rightarrow> u64 \<Rightarrow> u64 \<Rightarrow> u64 \<Rightarrow> u8 list \<Rightarrow> (iree_status \<times> iree_vm_buffer) option" where
  "iree_vm_buffer_fill_elements target_buffer target_offset element_count element_length val =
    (let (st, off, span_length) = iree_vm_buffer_map_rw target_buffer target_offset (element_count * element_length) element_length
     in if st \<noteq> IREE_STATUS_OK then Some (st, target_buffer)
        else if element_length = 1 then
          map_option (\<lambda>d. (IREE_STATUS_OK, target_buffer\<lparr>data := d\<rparr>))
            (write_bytes (data target_buffer) off (concat (replicate (unat span_length) (take 1 val))))
        else if element_length = 2 \<or> element_length = 4 \<or> element_length = 8 then
          map_option (\<lambda>d. (IREE_STATUS_OK, target_buffer\<lparr>data := d\<rparr>))
            (write_bytes (data target_buffer) off (concat (replicate (unat element_count) (take (unat element_length) val))))
        else Some (IREE_STATUS_INVALID_ARGUMENT, target_buffer))"

definition iree_vm_buffer_fill_bytes ::
  "iree_vm_buffer \<Rightarrow> u64 \<Rightarrow> u64 \<Rightarrow> u8 \<Rightarrow> (iree_status \<times> iree_vm_buffer) option" where
  "iree_vm_buffer_fill_bytes target_buffer target_offset len val =
    iree_vm_buffer_fill_elements target_buffer target_offset len 1 [val]"

text \<open>The result is what is written to the target pointer.\<close>

definition iree_vm_buffer_read_elements ::
  "iree_vm_buffer \<Rightarrow> u64 \<Rightarrow> u64 \<Rightarrow> u64 \<Rightarrow> (iree_status \<times> u8 list) option" where
  "iree_vm_buffer_read_elements source_buffer source_offset element_count element_length =
    (let (st, off, span_length) = iree_vm_buffer_map_ro source_buffer source_offset (element_count * element_length) element_length
     in if st \<noteq> IREE_STATUS_OK then Some (st, [])
        else map_option (\<lambda>xs. (IREE_STATUS_OK, xs)) (read_bytes (data source_buffer) off (unat span_length)))"

definition iree_vm_buffer_write_elements ::
  "u8 list \<Rightarrow> iree_vm_buffer \<Rightarrow> u64 \<Rightarrow> u64 \<Rightarrow> u64 \<Rightarrow> (iree_status \<times> iree_vm_buffer) option" where
  "iree_vm_buffer_write_elements source target_buffer target_offset element_count element_length =
    (let (st, off, span_length) = iree_vm_buffer_map_rw target_buffer target_offset (element_count * element_length) element_length
     in if st \<noteq> IREE_STATUS_OK then Some (st, target_buffer)
        else if length source < unat span_length then None
        else map_option (\<lambda>d. (IREE_STATUS_OK, target_buffer\<lparr>data := d\<rparr>))
               (write_bytes (data target_buffer) off (take (unat span_length) source)))"

section \<open>Reading and writing\<close>

lemma length_write_bytes: "write_bytes d off xs = Some d' \<Longrightarrow> length d' = length d"
  by (auto simp: write_bytes_def split: if_splits)

lemma nth_write_bytes:
  "write_bytes d off xs = Some d' \<Longrightarrow> i < length d \<Longrightarrow>
    d' ! i = (if unat off \<le> i \<and> i < unat off + length xs then xs ! (i - unat off) else d ! i)"
  by (auto simp: write_bytes_def nth_append min_def split: if_splits)

lemma read_write_bytes: "write_bytes d off xs = Some d' \<Longrightarrow> read_bytes d' off (length xs) = Some xs"
  by (auto simp: write_bytes_def read_bytes_def min_def split: if_splits)

lemma read_write_bytes_disjoint:
  assumes "write_bytes d off xs = Some d'" "unat off + length xs \<le> unat roff \<or> unat roff + n \<le> unat off"
  shows "read_bytes d' roff n = read_bytes d roff n"
proof -
  have "take n (drop (unat roff) d') = take n (drop (unat roff) d)"
    using assms length_write_bytes [OF assms(1)] nth_write_bytes [OF assms(1)]
    by (intro nth_equalityI) auto
  with length_write_bytes [OF assms(1)] show ?thesis by (simp add: read_bytes_def)
qed

text \<open>
  Integers in byte memory: what a client that stores and loads words relies on. The provider here are
  the raw bytes of a buffer; the globals of a module are the same kind of memory.
\<close>

locale byte_memory =
  fixes rd :: "'m \<Rightarrow> u64 \<Rightarrow> nat \<Rightarrow> u8 list option"
    and wr :: "'m \<Rightarrow> u64 \<Rightarrow> u8 list \<Rightarrow> 'm option"
  assumes rd_wr: "wr m off xs = Some m' \<Longrightarrow> rd m' off (length xs) = Some xs"
    and rd_wr_disjoint: "wr m off xs = Some m' \<Longrightarrow> unat off + length xs \<le> unat roff \<or> unat roff + n \<le> unat off \<Longrightarrow>
      rd m' roff n = rd m roff n"
begin

lemma load_store_word:
  assumes "wr m off (to_le n w) = Some m'" "LENGTH('a::len) \<le> 8 * n"
  shows "map_option from_le (rd m' off n) = Some (w :: 'a word)"
  using rd_wr [OF assms(1)] assms(2) by simp

lemma load_store_word_other:
  assumes "wr m off (to_le n w) = Some m'" "unat off + n \<le> unat roff \<or> unat roff + k \<le> unat off"
  shows "map_option from_le (rd m' roff k) = map_option from_le (rd m roff k)"
  using rd_wr_disjoint [OF assms(1), of roff k] assms(2) by simp

end

interpretation raw_bytes: byte_memory read_bytes write_bytes
  by unfold_locales (auto intro: read_write_bytes read_write_bytes_disjoint)

section \<open>Mapping in bounds\<close>

text \<open>Rounding down to a power-of-two alignment.\<close>

lemma align_down: "unat ((x :: u64) AND NOT (2 ^ k - 1)) = unat x div 2 ^ k * 2 ^ k"
  by (simp add: unat_and_not_mask flip: mask_eq_exp_minus_1)

lemma map_cases:
  assumes "unat off + unat len < 2 ^ 64" "length (data b) < 2 ^ 64"
  shows "iree_vm_buffer_map b off len (2 ^ k) =
    (if unat off div 2 ^ k * 2 ^ k + unat len div 2 ^ k * 2 ^ k \<le> length (data b)
     then (IREE_STATUS_OK, off AND NOT (2 ^ k - 1), len AND NOT (2 ^ k - 1))
     else (IREE_STATUS_OUT_OF_RANGE, 0, 0))"
proof -
  let ?o = "off AND NOT (2 ^ k - 1)" and ?l = "len AND NOT (2 ^ k - 1)"
  have le: "unat off div 2 ^ k * 2 ^ k \<le> unat off" "unat len div 2 ^ k * 2 ^ k \<le> unat len" by auto
  then have "unat ?o + unat ?l < 2 ^ 64" using assms(1) unfolding align_down by linarith
  then have "unat (?o + ?l) = unat ?o + unat ?l" by (simp add: unat_plus_if')
  then have "?o + ?l > iree_vm_buffer_length b \<longleftrightarrow> unat ?o + unat ?l > length (data b)"
    using assms(2) by (simp add: word_less_nat_alt iree_vm_buffer_length_def unat_of_nat)
  then show ?thesis
    unfolding iree_vm_buffer_map_def Let_def align_down by auto
qed

text \<open>A mapping that succeeds lies inside of the buffer, provided that offset plus length does not wrap.\<close>

lemma map_in_bounds:
  assumes "unat off + unat len < 2 ^ 64" "iree_vm_buffer_map b off len (2 ^ k) = (IREE_STATUS_OK, moff, mlen)"
  shows "unat moff + unat mlen \<le> length (data b) \<and> moff = off AND NOT (2 ^ k - 1) \<and> mlen = len AND NOT (2 ^ k - 1)"
proof -
  let ?o = "off AND NOT (2 ^ k - 1)" and ?l = "len AND NOT (2 ^ k - 1)"
  have le: "unat off div 2 ^ k * 2 ^ k \<le> unat off" "unat len div 2 ^ k * 2 ^ k \<le> unat len" by auto
  then have "unat ?o + unat ?l < 2 ^ 64" using assms(1) unfolding align_down by linarith
  then have sum: "unat (?o + ?l) = unat ?o + unat ?l" by (simp add: unat_plus_if')
  have eq: "\<not> ?o + ?l > iree_vm_buffer_length b" "moff = ?o" "mlen = ?l"
    using assms(2) by (auto simp: iree_vm_buffer_map_def Let_def split: if_splits)
  have "unat (iree_vm_buffer_length b) \<le> length (data b)" by (simp add: iree_vm_buffer_length_def unat_of_nat)
  with eq sum show ?thesis by (auto simp: word_less_nat_alt)
qed

lemma align_one [simp]: "x AND NOT (1 - 1) = (x :: u64)" "x AND NOT 0 = (x :: u64)"
  by simp_all

lemma map_one:
  assumes "unat off + unat len < 2 ^ 64" "length (data b) < 2 ^ 64"
  shows "iree_vm_buffer_map b off len 1 =
    (if unat off + unat len \<le> length (data b) then (IREE_STATUS_OK, off, len) else (IREE_STATUS_OUT_OF_RANGE, 0, 0))"
  using map_cases [OF assms, of 0] by simp

section \<open>The operations\<close>

abbreviation is_mutable :: "iree_vm_buffer \<Rightarrow> bool" where
  "is_mutable b \<equiv> access b AND IREE_VM_BUFFER_ACCESS_MUTABLE = IREE_VM_BUFFER_ACCESS_MUTABLE"

lemma write_bytes_Some: "unat off + length xs \<le> length d \<Longrightarrow> \<exists>d'. write_bytes d off xs = Some d'"
  by (simp add: write_bytes_def)

lemma copy_bytes_cases:
  assumes "unat soff + unat len < 2 ^ 64" "unat toff + unat len < 2 ^ 64"
    "length (data s) < 2 ^ 64" "length (data t) < 2 ^ 64"
    "\<not> same \<or> unat soff + unat len \<le> unat toff \<or> unat toff + unat len \<le> unat soff"
  shows "iree_vm_buffer_copy_bytes same s soff t toff len =
    (if unat soff + unat len > length (data s) then Some (IREE_STATUS_OUT_OF_RANGE, t)
     else if \<not> is_mutable t then Some (IREE_STATUS_PERMISSION_DENIED, t)
     else if unat toff + unat len > length (data t) then Some (IREE_STATUS_OUT_OF_RANGE, t)
     else Some (IREE_STATUS_OK, t\<lparr>data := take (unat toff) (data t) @ take (unat len) (drop (unat soff) (data s))
                                  @ drop (unat toff + unat len) (data t)\<rparr>))"
  using assms
  by (auto simp: iree_vm_buffer_copy_bytes_def iree_vm_buffer_map_ro_def iree_vm_buffer_map_rw_def map_one read_bytes_def write_bytes_def Let_def)

lemma read_only_unchanged:
  assumes "\<not> is_mutable t"
  shows "iree_vm_buffer_fill_elements t toff n el val = Some (IREE_STATUS_PERMISSION_DENIED, t)"
    "iree_vm_buffer_write_elements src t toff n el = Some (IREE_STATUS_PERMISSION_DENIED, t)"
  using assms by (auto simp: iree_vm_buffer_fill_elements_def iree_vm_buffer_write_elements_def iree_vm_buffer_map_rw_def)

lemma compare_bytes_cases:
  assumes "unat loff + unat len < 2 ^ 64" "unat roff + unat len < 2 ^ 64"
    "length (data l) < 2 ^ 64" "length (data r) < 2 ^ 64"
  shows "iree_vm_buffer_compare_bytes l loff r roff len res =
    (if unat loff + unat len \<le> length (data l) \<and> unat roff + unat len \<le> length (data r)
     then Some (IREE_STATUS_OK, \<forall>i < unat len. data l ! (unat loff + i) = data r ! (unat roff + i))
     else Some (IREE_STATUS_OUT_OF_RANGE, res))"
proof -
  have "take (unat len) (drop (unat loff) (data l)) = take (unat len) (drop (unat roff) (data r))
      \<longleftrightarrow> (\<forall>i < unat len. data l ! (unat loff + i) = data r ! (unat roff + i))"
    if "unat loff + unat len \<le> length (data l)" "unat roff + unat len \<le> length (data r)"
    using that by (auto simp: list_eq_iff_nth_eq)
  then show ?thesis
    using assms
    by (auto simp: iree_vm_buffer_compare_bytes_def iree_vm_buffer_map_ro_def map_one read_bytes_def Let_def)
qed

text \<open>Whole elements: the byte count is a multiple of the element size.\<close>

lemma element_bytes:
  assumes "unat n * 2 ^ k < 2 ^ 64" "k < 64"
  shows "unat (n * 2 ^ k :: u64) = unat n * 2 ^ k" "(n * 2 ^ k :: u64) AND NOT (2 ^ k - 1) = n * 2 ^ k"
proof -
  have p: "unat (2 ^ k :: u64) = 2 ^ k" using assms(2) by (simp add: unat_power_of_two)
  show u: "unat (n * 2 ^ k :: u64) = unat n * 2 ^ k"
    using assms(1) p by (simp add: unat_word_ariths)
  show "(n * 2 ^ k :: u64) AND NOT (2 ^ k - 1) = n * 2 ^ k"
    by (simp add: word_unat_eq_iff align_down u)
qed

lemma fill_elements_cases:
  fixes n toff :: u64
  assumes k: "k \<le> 3" and small: "unat n * 2 ^ k < 2 ^ 63" "unat toff < 2 ^ 63" "length (data t) < 2 ^ 64"
    and val: "2 ^ k \<le> length val" and mut: "is_mutable t"
  defines "o' \<equiv> unat toff div 2 ^ k * 2 ^ k"
  shows "iree_vm_buffer_fill_elements t toff n (2 ^ k) val =
    (if o' + unat n * 2 ^ k \<le> length (data t)
     then Some (IREE_STATUS_OK, t\<lparr>data := take o' (data t) @ concat (replicate (unat n) (take (2 ^ k) val)) @ drop (o' + unat n * 2 ^ k) (data t)\<rparr>)
     else Some (IREE_STATUS_OUT_OF_RANGE, t))"
proof -
  have nb: "unat (n * 2 ^ k :: u64) = unat n * 2 ^ k" "(n * 2 ^ k :: u64) AND NOT (2 ^ k - 1) = n * 2 ^ k"
    using small k by (auto intro!: element_bytes)
  have "unat toff + unat (n * 2 ^ k :: u64) < 2 ^ 64" using nb(1) small by simp
  from map_cases [OF this small(3), of k] nb
  have map: "iree_vm_buffer_map t toff (n * 2 ^ k) (2 ^ k) =
      (if o' + unat n * 2 ^ k \<le> length (data t) then (IREE_STATUS_OK, toff AND NOT (2 ^ k - 1), n * 2 ^ k) else (IREE_STATUS_OUT_OF_RANGE, 0, 0))"
    by (simp add: o'_def)
  have len: "length (concat (replicate m (take (2 ^ k) val))) = m * 2 ^ k" for m
    using val by (induction m) auto
  have uk: "unat (2 ^ k :: u64) = 2 ^ k" using k by (simp add: unat_power_of_two)
  have "k = 0 \<or> k = 1 \<or> k = 2 \<or> k = 3" using k by auto
  then have "(2 ^ k :: u64) = 1 \<or> (2 ^ k :: u64) = 2 \<or> (2 ^ k :: u64) = 4 \<or> (2 ^ k :: u64) = 8"
    "(2 ^ k :: u64) = 1 \<longrightarrow> k = 0"
    by auto
  then show ?thesis
    using map mut len align_down [of toff k] uk nb(1)
    by (auto simp: iree_vm_buffer_fill_elements_def iree_vm_buffer_map_rw_def write_bytes_def o'_def)
qed

text \<open>Reading back an element that was written.\<close>

lemma write_elements_cases:
  fixes n toff :: u64
  assumes k: "k \<le> 3" and small: "unat n * 2 ^ k < 2 ^ 63" "unat toff < 2 ^ 63" "length (data t) < 2 ^ 64"
    and src: "length src = unat n * 2 ^ k" and mut: "is_mutable t"
  defines "o' \<equiv> unat toff div 2 ^ k * 2 ^ k"
  shows "iree_vm_buffer_write_elements src t toff n (2 ^ k) =
    (if o' + unat n * 2 ^ k \<le> length (data t)
     then Some (IREE_STATUS_OK, t\<lparr>data := take o' (data t) @ src @ drop (o' + unat n * 2 ^ k) (data t)\<rparr>)
     else Some (IREE_STATUS_OUT_OF_RANGE, t))"
proof -
  have nb: "unat (n * 2 ^ k :: u64) = unat n * 2 ^ k" "(n * 2 ^ k :: u64) AND NOT (2 ^ k - 1) = n * 2 ^ k"
    using small k by (auto intro!: element_bytes)
  have "unat toff + unat (n * 2 ^ k :: u64) < 2 ^ 64" using nb(1) small by simp
  from map_cases [OF this small(3), of k] nb src mut align_down [of toff k] show ?thesis
    by (auto simp: iree_vm_buffer_write_elements_def iree_vm_buffer_map_rw_def write_bytes_def o'_def)
qed

lemma read_elements_cases:
  fixes n soff :: u64
  assumes k: "k \<le> 3" and small: "unat n * 2 ^ k < 2 ^ 63" "unat soff < 2 ^ 63" "length (data s) < 2 ^ 64"
  defines "o' \<equiv> unat soff div 2 ^ k * 2 ^ k"
  shows "iree_vm_buffer_read_elements s soff n (2 ^ k) =
    (if o' + unat n * 2 ^ k \<le> length (data s)
     then Some (IREE_STATUS_OK, take (unat n * 2 ^ k) (drop o' (data s)))
     else Some (IREE_STATUS_OUT_OF_RANGE, []))"
proof -
  have nb: "unat (n * 2 ^ k :: u64) = unat n * 2 ^ k" "(n * 2 ^ k :: u64) AND NOT (2 ^ k - 1) = n * 2 ^ k"
    using small k by (auto intro!: element_bytes)
  have "unat soff + unat (n * 2 ^ k :: u64) < 2 ^ 64" using nb(1) small by simp
  from map_cases [OF this small(3), of k] nb align_down [of soff k] show ?thesis
    by (auto simp: iree_vm_buffer_read_elements_def iree_vm_buffer_map_ro_def read_bytes_def o'_def)
qed

section \<open>Definedness\<close>

text \<open>
  No access is undefined as long as offset and byte count are below 2^63, whatever the size of the
  buffer: the check of the mapping precedes every access.
\<close>

lemma map_status: "iree_vm_buffer_map b off len al = (st, moff, mlen) \<Longrightarrow> st = IREE_STATUS_OK \<or> st = IREE_STATUS_OUT_OF_RANGE"
  by (auto simp: iree_vm_buffer_map_def Let_def split: if_splits)

lemma map_elements_in_bounds:
  fixes n off :: u64
  assumes k: "k \<le> 3" and small: "unat n * 2 ^ k < 2 ^ 63" "unat off < 2 ^ 63"
    and map: "iree_vm_buffer_map b off (n * 2 ^ k) (2 ^ k) = (IREE_STATUS_OK, moff, mlen)"
  shows "unat moff + unat n * 2 ^ k \<le> length (data b)" "unat mlen = unat n * 2 ^ k"
proof -
  have nb: "unat (n * 2 ^ k :: u64) = unat n * 2 ^ k" "(n * 2 ^ k :: u64) AND NOT (2 ^ k - 1) = n * 2 ^ k"
    using small k by (auto intro!: element_bytes)
  have "unat off + unat (n * 2 ^ k :: u64) < 2 ^ 64" using nb(1) small by simp
  from map_in_bounds [OF this map] nb
  show "unat moff + unat n * 2 ^ k \<le> length (data b)" "unat mlen = unat n * 2 ^ k" by auto
qed

lemma read_elements_defined:
  fixes n off :: u64
  assumes "k \<le> 3" "unat n * 2 ^ k < 2 ^ 63" "unat off < 2 ^ 63"
  shows "iree_vm_buffer_read_elements b off n (2 ^ k) \<noteq> None"
proof -
  obtain st moff mlen where map: "iree_vm_buffer_map b off (n * 2 ^ k) (2 ^ k) = (st, moff, mlen)" by (cases "iree_vm_buffer_map b off (n * 2 ^ k) (2 ^ k)")
  show ?thesis
  proof (cases "st = IREE_STATUS_OK")
    case True
    then show ?thesis
      using map map_elements_in_bounds [OF assms, of b moff mlen]
      by (simp add: iree_vm_buffer_read_elements_def iree_vm_buffer_map_ro_def read_bytes_def)
  qed (use map in \<open>simp add: iree_vm_buffer_read_elements_def iree_vm_buffer_map_ro_def\<close>)
qed

lemma write_elements_defined:
  fixes n off :: u64
  assumes "k \<le> 3" "unat n * 2 ^ k < 2 ^ 63" "unat off < 2 ^ 63" "length src = unat n * 2 ^ k"
  shows "iree_vm_buffer_write_elements src b off n (2 ^ k) \<noteq> None"
proof -
  obtain st moff mlen where map: "iree_vm_buffer_map b off (n * 2 ^ k) (2 ^ k) = (st, moff, mlen)" by (cases "iree_vm_buffer_map b off (n * 2 ^ k) (2 ^ k)")
  show ?thesis
  proof (cases "st = IREE_STATUS_OK")
    case True
    then show ?thesis
      using map map_elements_in_bounds [OF assms(1-3), of b moff mlen] assms(4)
      by (simp add: iree_vm_buffer_write_elements_def iree_vm_buffer_map_rw_def write_bytes_def)
  qed (use map in \<open>simp add: iree_vm_buffer_write_elements_def iree_vm_buffer_map_rw_def\<close>)
qed

lemma fill_elements_defined:
  fixes n off :: u64
  assumes "k \<le> 3" "unat n * 2 ^ k < 2 ^ 63" "unat off < 2 ^ 63" "2 ^ k \<le> length val"
  shows "iree_vm_buffer_fill_elements b off n (2 ^ k) val \<noteq> None"
proof -
  obtain st moff mlen where map: "iree_vm_buffer_map b off (n * 2 ^ k) (2 ^ k) = (st, moff, mlen)" by (cases "iree_vm_buffer_map b off (n * 2 ^ k) (2 ^ k)")
  have len: "length (concat (replicate m (take (2 ^ k) val))) = m * 2 ^ k" for m
    using assms(4) by (induction m) auto
  have uk: "unat (2 ^ k :: u64) = 2 ^ k" using assms(1) by (simp add: unat_power_of_two)
  show ?thesis
  proof (cases "st = IREE_STATUS_OK")
    case True
    have "k = 0" if "(2 ^ k :: u64) = 1" using that uk by (metis nat_power_eq_Suc_0_iff One_nat_def numeral_2_eq_2 unat_1 n_not_Suc_n)
    with True show ?thesis
      using map map_elements_in_bounds [OF assms(1-3), of b moff mlen] len uk
      by (auto simp: iree_vm_buffer_fill_elements_def iree_vm_buffer_map_rw_def write_bytes_def)
  qed (use map in \<open>simp add: iree_vm_buffer_fill_elements_def iree_vm_buffer_map_rw_def\<close>)
qed

lemma compare_bytes_defined:
  assumes "unat loff + unat len < 2 ^ 64" "unat roff + unat len < 2 ^ 64"
  shows "iree_vm_buffer_compare_bytes l loff r roff len res \<noteq> None"
proof -
  obtain st1 o1 l1 st2 o2 l2 where map: "iree_vm_buffer_map l loff len (2 ^ 0) = (st1, o1, l1)" "iree_vm_buffer_map r roff len (2 ^ 0) = (st2, o2, l2)"
    by (cases "iree_vm_buffer_map l loff len (2 ^ 0)", cases "iree_vm_buffer_map r roff len (2 ^ 0)")
  then show ?thesis
    using map_in_bounds [OF assms(1), of l 0 o1 l1] map_in_bounds [OF assms(2), of r 0 o2 l2]
    by (cases "st1 = IREE_STATUS_OK"; cases "st2 = IREE_STATUS_OK")
      (auto simp: iree_vm_buffer_compare_bytes_def iree_vm_buffer_map_ro_def read_bytes_def)
qed

text \<open>A new buffer is one new object, or nothing.\<close>

definition created_buffer :: "vm_heap \<Rightarrow> (vm_heap \<times> iree_status \<times> nat option) option \<Rightarrow> bool" where
  "created_buffer h res \<longleftrightarrow>
    (\<exists>st. st \<noteq> IREE_STATUS_OK \<and> res = Some (h, st, None)) \<or>
    (\<exists>acc d. res = Some (h @ [Some (iree_vm_buffer_initialize acc d)], IREE_STATUS_OK, Some (length h)))"

lemma buffer_prefix_size_eq: "buffer_prefix_size = 48"
  by (simp add: buffer_prefix_size_def sizeof_buffer_def iree_host_align_def)

lemma buffer_create_ok:
  assumes "unat len < 2 ^ 63"
  shows "created_buffer h (iree_vm_buffer_create alloc h acc len)"
proof -
  have "unat (48 + len) = 48 + unat len" using assms by (simp add: unat_word_ariths)
  then show ?thesis
    by (auto simp: created_buffer_def iree_vm_buffer_create_def buffer_prefix_size_eq alloc_obj_def Let_def)
qed

lemma buffer_clone_ok:
  assumes "unat len < 2 ^ 63" "unat off < 2 ^ 63"
  shows "created_buffer h (iree_vm_buffer_clone alloc h acc b off len)"
proof -
  have u: "unat (48 + len) = 48 + unat len" using assms by (simp add: unat_word_ariths)
  have sum: "unat off + unat len < 2 ^ 64" using assms by simp
  obtain st moff mlen where map: "iree_vm_buffer_map b off len (2 ^ 0) = (st, moff, mlen)" by (cases "iree_vm_buffer_map b off len (2 ^ 0)")
  show ?thesis
  proof (cases "st = IREE_STATUS_OK")
    case True
    with map_in_bounds [OF sum, of b 0 moff mlen] map u show ?thesis
      by (auto simp: created_buffer_def iree_vm_buffer_clone_def iree_vm_buffer_map_ro_def buffer_prefix_size_eq
          alloc_obj_def read_bytes_def Let_def)
  qed (use map in \<open>simp add: created_buffer_def iree_vm_buffer_clone_def iree_vm_buffer_map_ro_def\<close>)
qed

end
