(* ===== verification/HAL_Buffer.thy ===== *)
theory HAL_Buffer
  imports VM_Buffer
begin

text \<open>
  Buffers of the hardware abstraction layer (\<^verbatim>\<open>iree/hal/buffer.c\<close>) on heap memory
  (\<^verbatim>\<open>iree/hal/buffer_heap.c\<close>). A store holds the buffer objects; a buffer either owns bytes or is a
  subspan of one that does. Assertions and the scribbling over discarded ranges are those of a build with
  \<open>NDEBUG\<close>, and a host allocator is the status it answers for a size.
\<close>

section \<open>Data\<close>

definition IREE_WHOLE_BUFFER :: u64 where "IREE_WHOLE_BUFFER = - 1"

definition IREE_HAL_MEMORY_TYPE_HOST_VISIBLE :: u32 where "IREE_HAL_MEMORY_TYPE_HOST_VISIBLE = 2"
definition IREE_HAL_MEMORY_TYPE_HOST_COHERENT :: u32 where "IREE_HAL_MEMORY_TYPE_HOST_COHERENT = 4"
definition IREE_HAL_MEMORY_ACCESS_READ :: u32 where "IREE_HAL_MEMORY_ACCESS_READ = 1"
definition IREE_HAL_MEMORY_ACCESS_WRITE :: u32 where "IREE_HAL_MEMORY_ACCESS_WRITE = 2"
definition IREE_HAL_MEMORY_ACCESS_DISCARD_WRITE :: u32 where "IREE_HAL_MEMORY_ACCESS_DISCARD_WRITE = 6"
definition IREE_HAL_BUFFER_USAGE_MAPPING :: u32 where "IREE_HAL_BUFFER_USAGE_MAPPING = 4"

definition iree_any_bit_set :: "u32 \<Rightarrow> u32 \<Rightarrow> bool" where "iree_any_bit_set lhs rhs \<longleftrightarrow> lhs AND rhs \<noteq> 0"
definition iree_all_bits_set :: "u32 \<Rightarrow> u32 \<Rightarrow> bool" where "iree_all_bits_set lhs rhs \<longleftrightarrow> lhs AND rhs = rhs"

datatype iree_hal_buffer_overlap =
  IREE_HAL_BUFFER_OVERLAP_DISJOINT | IREE_HAL_BUFFER_OVERLAP_PARTIAL | IREE_HAL_BUFFER_OVERLAP_COMPLETE

text \<open>The vtable of a buffer: a heap buffer with its bytes, or a subspan.\<close>

datatype hal_vtable = HeapBuffer "u8 list" | SubspanBuffer

record iree_hal_buffer =
  hb_ref_count :: int
  hb_vtable :: hal_vtable
  hb_allocated_buffer :: nat
  hb_allocation_size :: u64
  hb_byte_offset :: u64
  hb_byte_length :: u64
  hb_memory_type :: u32
  hb_allowed_access :: u32
  hb_allowed_usage :: u32

type_synonym hal_store = "iree_hal_buffer option list"

definition hb_at :: "hal_store \<Rightarrow> nat \<Rightarrow> iree_hal_buffer option" where
  "hb_at s p = (if p < length s then s ! p else None)"

text \<open>A mapping; its data pointer is the buffer that owns the bytes with an offset into them.\<close>

record iree_hal_buffer_mapping =
  mp_backing_buffer :: nat
  mp_owner :: nat
  mp_byte_offset :: u64
  mp_data_length :: u64
  mp_allowed_access :: u32

section \<open>Heap buffers\<close>

definition sizeof_heap_buffer :: u64 where "sizeof_heap_buffer = 112"

text \<open>
  The status is OK even if the allocation failed; then no buffer is returned. The bytes are zeroed. A size
  that wraps with the header would give less memory than the buffer claims, and is undefined.
\<close>

definition iree_hal_heap_buffer_create ::
  "iree_allocator \<Rightarrow> hal_store \<Rightarrow> u32 \<Rightarrow> u32 \<Rightarrow> u32 \<Rightarrow> u64 \<Rightarrow> (iree_status \<times> hal_store \<times> nat option) option" where
  "iree_hal_heap_buffer_create host_allocator s memory_type allowed_access allowed_usage allocation_size =
    (let header_size = iree_host_align sizeof_heap_buffer 16;
         total_size = header_size + allocation_size
     in if host_allocator total_size \<noteq> IREE_STATUS_OK then Some (IREE_STATUS_OK, s, None)
        else if total_size < header_size then None
        else Some (IREE_STATUS_OK, s @ [Some \<lparr>hb_ref_count = 1, hb_vtable = HeapBuffer (replicate (unat allocation_size) 0),
          hb_allocated_buffer = length s, hb_allocation_size = allocation_size, hb_byte_offset = 0, hb_byte_length = allocation_size,
          hb_memory_type = memory_type, hb_allowed_access = allowed_access, hb_allowed_usage = allowed_usage\<rparr>], Some (length s)))"

definition iree_hal_heap_buffer_wrap ::
  "iree_allocator \<Rightarrow> hal_store \<Rightarrow> u32 \<Rightarrow> u32 \<Rightarrow> u32 \<Rightarrow> u64 \<Rightarrow> u8 list \<Rightarrow> iree_status \<times> hal_store \<times> nat option" where
  "iree_hal_heap_buffer_wrap host_allocator s memory_type allowed_access allowed_usage allocation_size bytes =
    (if host_allocator sizeof_heap_buffer \<noteq> IREE_STATUS_OK then (IREE_STATUS_OK, s, None)
     else (IREE_STATUS_OK, s @ [Some \<lparr>hb_ref_count = 1, hb_vtable = HeapBuffer bytes,
          hb_allocated_buffer = length s, hb_allocation_size = allocation_size, hb_byte_offset = 0, hb_byte_length = of_nat (length bytes),
          hb_memory_type = memory_type, hb_allowed_access = allowed_access, hb_allowed_usage = allowed_usage\<rparr>], Some (length s)))"

section \<open>Reference counts\<close>

definition iree_hal_buffer_retain :: "hal_store \<Rightarrow> nat \<Rightarrow> hal_store option" where
  "iree_hal_buffer_retain s p = do { b \<leftarrow> hb_at s p; Some (s[p := Some (b\<lparr>hb_ref_count := hb_ref_count b + 1\<rparr>)]) }"

text \<open>Destroying a subspan releases the buffer it is a span of.\<close>

partial_function (option) iree_hal_buffer_release :: "hal_store \<Rightarrow> nat \<Rightarrow> hal_store option" where
  "iree_hal_buffer_release s p = do {
     b \<leftarrow> hb_at s p;
     let s = s[p := Some (b\<lparr>hb_ref_count := hb_ref_count b - 1\<rparr>)];
     if hb_ref_count b \<noteq> 1 then Some s
     else (case hb_vtable b of
         HeapBuffer _ \<Rightarrow> Some (s[p := None])
       | SubspanBuffer \<Rightarrow> do { s \<leftarrow> iree_hal_buffer_release s (hb_allocated_buffer b); Some (s[p := None]) })
   }"

declare iree_hal_buffer_release.simps [code]

section \<open>Validation\<close>

definition iree_hal_buffer_validate_memory_type :: "u32 \<Rightarrow> u32 \<Rightarrow> iree_status" where
  "iree_hal_buffer_validate_memory_type actual_memory_type expected_memory_type =
    (if \<not> iree_all_bits_set actual_memory_type expected_memory_type then IREE_STATUS_PERMISSION_DENIED else IREE_STATUS_OK)"

definition iree_hal_buffer_validate_access :: "u32 \<Rightarrow> u32 \<Rightarrow> iree_status" where
  "iree_hal_buffer_validate_access allowed_memory_access required_memory_access =
    (if \<not> iree_any_bit_set required_memory_access (IREE_HAL_MEMORY_ACCESS_READ OR IREE_HAL_MEMORY_ACCESS_WRITE) then IREE_STATUS_INVALID_ARGUMENT
     else if \<not> iree_all_bits_set allowed_memory_access required_memory_access then IREE_STATUS_PERMISSION_DENIED
     else IREE_STATUS_OK)"

definition iree_hal_buffer_validate_usage :: "u32 \<Rightarrow> u32 \<Rightarrow> iree_status" where
  "iree_hal_buffer_validate_usage allowed_usage required_usage =
    (if \<not> iree_all_bits_set allowed_usage required_usage then IREE_STATUS_PERMISSION_DENIED else IREE_STATUS_OK)"

definition iree_hal_buffer_validate_range :: "iree_hal_buffer \<Rightarrow> u64 \<Rightarrow> u64 \<Rightarrow> iree_status" where
  "iree_hal_buffer_validate_range b byte_offset byte_length =
    (if byte_offset > hb_byte_length b then IREE_STATUS_OUT_OF_RANGE
     else if byte_length = 0 then IREE_STATUS_OK
     else if byte_offset + byte_length > hb_byte_length b then IREE_STATUS_OUT_OF_RANGE
     else IREE_STATUS_OK)"

text \<open>\<open>resizable\<close>: the caller passes a place for the adjusted length.\<close>

definition iree_hal_buffer_calculate_range :: "bool \<Rightarrow> u64 \<Rightarrow> u64 \<Rightarrow> u64 \<Rightarrow> u64 \<Rightarrow> iree_status \<times> u64 \<times> u64" where
  "iree_hal_buffer_calculate_range resizable base_offset max_length offset len =
    (if offset > max_length then (IREE_STATUS_OUT_OF_RANGE, 0, 0)
     else if len = IREE_WHOLE_BUFFER \<and> \<not> resizable then (IREE_STATUS_INVALID_ARGUMENT, 0, 0)
     else let adjusted_offset = base_offset + offset;
              adjusted_length = (if len = IREE_WHOLE_BUFFER then max_length - offset else len)
          in if adjusted_length = 0 then (IREE_STATUS_OK, adjusted_offset, adjusted_length)
             else if offset + adjusted_length - 1 \<ge> max_length then (IREE_STATUS_OUT_OF_RANGE, 0, 0)
             else (IREE_STATUS_OK, adjusted_offset, adjusted_length))"

definition iree_hal_buffer_test_overlap ::
  "iree_hal_buffer \<Rightarrow> u64 \<Rightarrow> u64 \<Rightarrow> iree_hal_buffer \<Rightarrow> u64 \<Rightarrow> u64 \<Rightarrow> iree_hal_buffer_overlap" where
  "iree_hal_buffer_test_overlap lhs lhs_offset lhs_length rhs rhs_offset rhs_length =
    (if hb_allocated_buffer lhs \<noteq> hb_allocated_buffer rhs then IREE_HAL_BUFFER_OVERLAP_DISJOINT
     else let lhs_alloc_offset = hb_byte_offset lhs + lhs_offset;
              rhs_alloc_offset = hb_byte_offset rhs + rhs_offset;
              lhs_alloc_length = (if lhs_length = IREE_WHOLE_BUFFER then hb_byte_length lhs - lhs_offset else lhs_length);
              rhs_alloc_length = (if rhs_length = IREE_WHOLE_BUFFER then hb_byte_length rhs - rhs_offset else rhs_length)
          in if lhs_alloc_length = 0 \<or> rhs_alloc_length = 0 then IREE_HAL_BUFFER_OVERLAP_DISJOINT
             else if lhs_alloc_offset = rhs_alloc_offset \<and> lhs_alloc_length = rhs_alloc_length then IREE_HAL_BUFFER_OVERLAP_COMPLETE
             else if lhs_alloc_offset + lhs_alloc_length > rhs_alloc_offset \<and> rhs_alloc_offset + rhs_alloc_length > lhs_alloc_offset
             then IREE_HAL_BUFFER_OVERLAP_PARTIAL
             else IREE_HAL_BUFFER_OVERLAP_DISJOINT)"

section \<open>Subspans\<close>

definition sizeof_hal_buffer :: u64 where "sizeof_hal_buffer = 88"

text \<open>As for heap buffers, a failed allocation is reported as OK without a buffer.\<close>

definition iree_hal_subspan_buffer_create ::
  "iree_allocator \<Rightarrow> hal_store \<Rightarrow> nat \<Rightarrow> u64 \<Rightarrow> u64 \<Rightarrow> (iree_status \<times> hal_store \<times> nat option) option" where
  "iree_hal_subspan_buffer_create host_allocator s allocated_buffer byte_offset byte_length = do {
     a \<leftarrow> hb_at s allocated_buffer;
     if host_allocator sizeof_hal_buffer \<noteq> IREE_STATUS_OK then Some (IREE_STATUS_OK, s, None)
     else do {
       s \<leftarrow> iree_hal_buffer_retain s allocated_buffer;
       Some (IREE_STATUS_OK, s @ [Some \<lparr>hb_ref_count = 1, hb_vtable = SubspanBuffer, hb_allocated_buffer = allocated_buffer,
         hb_allocation_size = hb_allocation_size a, hb_byte_offset = byte_offset, hb_byte_length = byte_length,
         hb_memory_type = hb_memory_type a, hb_allowed_access = hb_allowed_access a, hb_allowed_usage = hb_allowed_usage a\<rparr>], Some (length s))
     }
   }"

partial_function (option) iree_hal_buffer_subspan ::
  "iree_allocator \<Rightarrow> hal_store \<Rightarrow> nat \<Rightarrow> u64 \<Rightarrow> u64 \<Rightarrow> (iree_status \<times> hal_store \<times> nat option) option" where
  "iree_hal_buffer_subspan host_allocator s p byte_offset byte_length = do {
     b \<leftarrow> hb_at s p;
     let (st, byte_offset, byte_length) =
       iree_hal_buffer_calculate_range True (hb_byte_offset b) (hb_byte_length b) byte_offset byte_length;
     if st \<noteq> IREE_STATUS_OK then Some (st, s, None)
     else if byte_offset = 0 \<and> byte_length = hb_byte_length b then do {
       s \<leftarrow> iree_hal_buffer_retain s p;
       Some (IREE_STATUS_OK, s, Some p)
     }
     else if hb_allocated_buffer b \<noteq> p then iree_hal_buffer_subspan host_allocator s (hb_allocated_buffer b) byte_offset byte_length
     else iree_hal_subspan_buffer_create host_allocator s p byte_offset byte_length
   }"

declare iree_hal_buffer_subspan.simps [code]

section \<open>Mappings\<close>

text \<open>\<open>map_range\<close> of the vtables: a subspan forwards to the buffer it is a span of.\<close>

partial_function (option) vtable_map_range :: "hal_store \<Rightarrow> nat \<Rightarrow> nat option" where
  "vtable_map_range s p = do {
     b \<leftarrow> hb_at s p;
     case hb_vtable b of HeapBuffer _ \<Rightarrow> Some p | SubspanBuffer \<Rightarrow> vtable_map_range s (hb_allocated_buffer b)
   }"

declare vtable_map_range.simps [code]

definition iree_hal_buffer_map_range ::
  "hal_store \<Rightarrow> nat \<Rightarrow> u32 \<Rightarrow> u64 \<Rightarrow> u64 \<Rightarrow> (iree_status \<times> iree_hal_buffer_mapping option) option" where
  "iree_hal_buffer_map_range s p memory_access byte_offset byte_length = do {
     b \<leftarrow> hb_at s p;
     let st1 = iree_hal_buffer_validate_memory_type (hb_memory_type b) IREE_HAL_MEMORY_TYPE_HOST_VISIBLE;
     let st2 = iree_hal_buffer_validate_access (hb_allowed_access b) memory_access;
     let st3 = iree_hal_buffer_validate_usage (hb_allowed_usage b) IREE_HAL_BUFFER_USAGE_MAPPING;
     let (st4, offset, data_length) =
           iree_hal_buffer_calculate_range True (hb_byte_offset b) (hb_byte_length b) byte_offset byte_length;
     if st1 \<noteq> IREE_STATUS_OK then Some (st1, None)
     else if st2 \<noteq> IREE_STATUS_OK then Some (st2, None)
     else if st3 \<noteq> IREE_STATUS_OK then Some (st3, None)
     else if st4 \<noteq> IREE_STATUS_OK then Some (st4, None)
     else do {
       owner \<leftarrow> vtable_map_range s p;
       Some (IREE_STATUS_OK, Some \<lparr>mp_backing_buffer = p, mp_owner = owner, mp_byte_offset = offset,
         mp_data_length = data_length, mp_allowed_access = memory_access\<rparr>)
     }
   }"

definition iree_hal_buffer_flush_range :: "iree_hal_buffer_mapping \<Rightarrow> u64 \<Rightarrow> u64 \<Rightarrow> iree_status" where
  "iree_hal_buffer_flush_range m byte_offset byte_length =
    (let st = iree_hal_buffer_validate_access (mp_allowed_access m) IREE_HAL_MEMORY_ACCESS_WRITE
     in if st \<noteq> IREE_STATUS_OK then st
        else fst (iree_hal_buffer_calculate_range True (mp_byte_offset m) (mp_data_length m) byte_offset byte_length))"

definition iree_hal_buffer_invalidate_range :: "iree_hal_buffer_mapping \<Rightarrow> u64 \<Rightarrow> u64 \<Rightarrow> iree_status" where
  "iree_hal_buffer_invalidate_range m byte_offset byte_length =
    (let st = iree_hal_buffer_validate_access (mp_allowed_access m) IREE_HAL_MEMORY_ACCESS_READ
     in if st \<noteq> IREE_STATUS_OK then st
        else fst (iree_hal_buffer_calculate_range True (mp_byte_offset m) (mp_data_length m) byte_offset byte_length))"

text \<open>A span inside of a mapping, as an offset from the start of the mapping and a length.\<close>

definition iree_hal_buffer_mapping_subspan ::
  "iree_hal_buffer_mapping \<Rightarrow> u32 \<Rightarrow> u64 \<Rightarrow> u64 \<Rightarrow> iree_status \<times> u64 \<times> u64" where
  "iree_hal_buffer_mapping_subspan m memory_access byte_offset byte_length =
    (let st = iree_hal_buffer_validate_access (mp_allowed_access m) memory_access
     in if st \<noteq> IREE_STATUS_OK then (st, 0, 0)
        else let (st, byte_offset, data_length) = iree_hal_buffer_calculate_range True 0 (mp_data_length m) byte_offset byte_length
             in if st \<noteq> IREE_STATUS_OK then (st, 0, 0) else (IREE_STATUS_OK, byte_offset, data_length))"

section \<open>Access to the bytes\<close>

definition owner_bytes :: "hal_store \<Rightarrow> nat \<Rightarrow> u8 list option" where
  "owner_bytes s p = (case hb_at s p of Some b \<Rightarrow> (case hb_vtable b of HeapBuffer d \<Rightarrow> Some d | SubspanBuffer \<Rightarrow> None) | None \<Rightarrow> None)"

definition put_owner_bytes :: "hal_store \<Rightarrow> nat \<Rightarrow> u8 list \<Rightarrow> hal_store option" where
  "put_owner_bytes s p d = do { b \<leftarrow> hb_at s p; Some (s[p := Some (b\<lparr>hb_vtable := HeapBuffer d\<rparr>)]) }"

definition read_mapping :: "hal_store \<Rightarrow> iree_hal_buffer_mapping \<Rightarrow> u64 \<Rightarrow> u8 list option" where
  "read_mapping s m n = do { d \<leftarrow> owner_bytes s (mp_owner m); read_bytes d (mp_byte_offset m) (unat n) }"

definition write_mapping :: "hal_store \<Rightarrow> iree_hal_buffer_mapping \<Rightarrow> u8 list \<Rightarrow> hal_store option" where
  "write_mapping s m xs = do {
     d \<leftarrow> owner_bytes s (mp_owner m);
     d \<leftarrow> write_bytes d (mp_byte_offset m) xs;
     put_owner_bytes s (mp_owner m) d
   }"

definition flush_unless_coherent :: "hal_store \<Rightarrow> nat \<Rightarrow> iree_hal_buffer_mapping \<Rightarrow> u64 \<Rightarrow> iree_status option" where
  "flush_unless_coherent s p m n = do {
     b \<leftarrow> hb_at s p;
     Some (if \<not> iree_all_bits_set (hb_memory_type b) IREE_HAL_MEMORY_TYPE_HOST_COHERENT
       then iree_hal_buffer_flush_range m 0 n else IREE_STATUS_OK)
   }"

definition iree_hal_buffer_read_data :: "hal_store \<Rightarrow> nat \<Rightarrow> u64 \<Rightarrow> u64 \<Rightarrow> (iree_status \<times> u8 list) option" where
  "iree_hal_buffer_read_data s p source_offset data_length =
    (if data_length = 0 then Some (IREE_STATUS_OK, [])
     else do {
       (st, m) \<leftarrow> iree_hal_buffer_map_range s p IREE_HAL_MEMORY_ACCESS_READ source_offset data_length;
       case m of None \<Rightarrow> Some (st, []) | Some m \<Rightarrow> do { xs \<leftarrow> read_mapping s m data_length; Some (IREE_STATUS_OK, xs) }
     })"

definition iree_hal_buffer_write_data :: "hal_store \<Rightarrow> nat \<Rightarrow> u64 \<Rightarrow> u8 list \<Rightarrow> (iree_status \<times> hal_store) option" where
  "iree_hal_buffer_write_data s p target_offset source =
    (if source = [] then Some (IREE_STATUS_OK, s)
     else do {
       (st, m) \<leftarrow> iree_hal_buffer_map_range s p IREE_HAL_MEMORY_ACCESS_DISCARD_WRITE target_offset (of_nat (length source));
       case m of
         None \<Rightarrow> Some (st, s)
       | Some m \<Rightarrow> do {
           s \<leftarrow> write_mapping s m source;
           st \<leftarrow> flush_unless_coherent s p m IREE_WHOLE_BUFFER;
           Some (st, s)
         }
     })"

text \<open>
  Filling. A pattern of zeros is written as single bytes. The alignment of the offset is that within the
  buffer.
\<close>

definition iree_hal_buffer_fill :: "hal_store \<Rightarrow> nat \<Rightarrow> u64 \<Rightarrow> u64 \<Rightarrow> u8 list \<Rightarrow> (iree_status \<times> hal_store) option" where
  "iree_hal_buffer_fill s p byte_offset byte_length pattern =
    (if length pattern \<noteq> 1 \<and> length pattern \<noteq> 2 \<and> length pattern \<noteq> 4 then Some (IREE_STATUS_INVALID_ARGUMENT, s)
     else if byte_length = 0 then Some (IREE_STATUS_OK, s)
     else do {
       (st, m) \<leftarrow> iree_hal_buffer_map_range s p IREE_HAL_MEMORY_ACCESS_DISCARD_WRITE byte_offset byte_length;
       case m of
         None \<Rightarrow> Some (st, s)
       | Some m \<Rightarrow>
           let byte_length = (if byte_length = IREE_WHOLE_BUFFER then mp_data_length m else byte_length);
               pattern_length = of_nat (length pattern)
           in if byte_offset mod pattern_length \<noteq> 0 \<or> byte_length mod pattern_length \<noteq> 0
              then Some (IREE_STATUS_INVALID_ARGUMENT, s)
              else let pattern = (if list_all (\<lambda>x. x = 0) pattern then [0] else pattern) in do {
                s \<leftarrow> write_mapping s m (concat (replicate (unat byte_length div length pattern) pattern));
                st \<leftarrow> flush_unless_coherent s p m IREE_WHOLE_BUFFER;
                Some (st, s)
              }
     })"

definition iree_hal_buffer_zero :: "hal_store \<Rightarrow> nat \<Rightarrow> u64 \<Rightarrow> u64 \<Rightarrow> (iree_status \<times> hal_store) option" where
  "iree_hal_buffer_zero s p byte_offset byte_length = iree_hal_buffer_fill s p byte_offset byte_length [0]"

text \<open>Copying ranges that overlap in memory without the test above noticing is undefined.\<close>

definition ranges_overlap :: "iree_hal_buffer_mapping \<Rightarrow> iree_hal_buffer_mapping \<Rightarrow> nat \<Rightarrow> bool" where
  "ranges_overlap m1 m2 n \<longleftrightarrow> mp_owner m1 = mp_owner m2 \<and>
    unat (mp_byte_offset m1) < unat (mp_byte_offset m2) + n \<and> unat (mp_byte_offset m2) < unat (mp_byte_offset m1) + n"

definition iree_hal_buffer_copy_data ::
  "hal_store \<Rightarrow> nat \<Rightarrow> u64 \<Rightarrow> nat \<Rightarrow> u64 \<Rightarrow> u64 \<Rightarrow> (iree_status \<times> hal_store) option" where
  "iree_hal_buffer_copy_data s source source_offset target target_offset data_length =
    (if data_length = 0 then Some (IREE_STATUS_OK, s)
     else do {
       sb \<leftarrow> hb_at s source;
       tb \<leftarrow> hb_at s target;
       if iree_hal_buffer_test_overlap sb source_offset data_length tb target_offset data_length \<noteq> IREE_HAL_BUFFER_OVERLAP_DISJOINT
       then Some (IREE_STATUS_INVALID_ARGUMENT, s)
       else do {
         (st, sm) \<leftarrow> iree_hal_buffer_map_range s source IREE_HAL_MEMORY_ACCESS_READ source_offset data_length;
         case sm of
           None \<Rightarrow> Some (st, s)
         | Some sm \<Rightarrow> do {
             (st, tm) \<leftarrow> iree_hal_buffer_map_range s target IREE_HAL_MEMORY_ACCESS_DISCARD_WRITE target_offset data_length;
             case tm of
               None \<Rightarrow> Some (st, s)
             | Some tm \<Rightarrow>
                 let n = (if data_length = IREE_WHOLE_BUFFER then min (mp_data_length sm) (mp_data_length tm) else mp_data_length tm)
                 in if n = 0 then Some (IREE_STATUS_OK, s)
                    else if ranges_overlap sm tm (unat n) then None
                    else do {
                      xs \<leftarrow> read_mapping s sm n;
                      s \<leftarrow> write_mapping s tm xs;
                      st \<leftarrow> flush_unless_coherent s target tm n;
                      Some (st, s)
                    }
           }
       }
     })"

end
