(* ===== verification/HAL_BufferSafety.thy ===== *)
theory HAL_BufferSafety
  imports HAL_Buffer "HOL-Library.Multiset"
begin

text \<open>
  Lemmas on the buffers of the hardware abstraction layer: when a range is accepted, the invariant of a store
  of buffers with its reference counts, the contents of a buffer as a view of the bytes of its allocation,
  and what each operation does to them.
\<close>

section \<open>Ranges\<close>

definition fits :: "u64 \<Rightarrow> u64 \<Rightarrow> bool" where
  "fits offset len \<longleftrightarrow> len = IREE_WHOLE_BUFFER \<or> unat offset + unat len \<le> 2 ^ 64"

lemma unat_WHOLE: "unat IREE_WHOLE_BUFFER = 2 ^ 64 - 1"
  by (simp add: IREE_WHOLE_BUFFER_def unsigned_minus_1_eq_mask mask_eq_exp_minus_1)

lemma unat_u64_less: "unat (x :: u64) < 2 ^ 64"
proof -
  have "unat x < 2 ^ LENGTH(64)" by (rule unsigned_less)
  then show ?thesis by simp
qed

lemma range_end:
  fixes offset n :: u64
  assumes "n \<noteq> 0" "unat offset + unat n \<le> 2 ^ 64"
  shows "unat (offset + n - 1) = unat offset + unat n - 1"
proof -
  have "0 < unat n" using assms(1) by (simp add: unat_gt_0)
  then have "unat (n - 1) = unat n - 1" using assms(1) by (simp add: unat_minus_one)
  then have "unat (offset + (n - 1)) = unat offset + unat n - 1"
    using \<open>0 < unat n\<close> assms(2) by (subst unat_plus_if') simp
  then show ?thesis by (simp add: algebra_simps)
qed

lemma calculate_range_cases:
  assumes fits: "fits offset len" and base: "unat base + unat max_length < 2 ^ 64"
  shows "iree_hal_buffer_calculate_range True base max_length offset len =
    (if offset \<le> max_length \<and> (len = IREE_WHOLE_BUFFER \<or> unat offset + unat len \<le> unat max_length)
     then (IREE_STATUS_OK, base + offset, if len = IREE_WHOLE_BUFFER then max_length - offset else len)
     else (IREE_STATUS_OUT_OF_RANGE, 0, 0))"
proof (cases "offset \<le> max_length")
  case True
  define n where "n = (if len = IREE_WHOLE_BUFFER then max_length - offset else len)"
  have sub: "unat (max_length - offset) = unat max_length - unat offset" using True by (simp add: unat_sub)
  have n: "unat offset + unat n \<le> 2 ^ 64"
    using fits True sub unat_u64_less [of max_length] by (auto simp: n_def fits_def word_le_nat_alt)
  have calc: "iree_hal_buffer_calculate_range True base max_length offset len =
      (if n = 0 then (IREE_STATUS_OK, base + offset, n)
       else if offset + n - 1 \<ge> max_length then (IREE_STATUS_OUT_OF_RANGE, 0, 0) else (IREE_STATUS_OK, base + offset, n))"
    using True by (auto simp: iree_hal_buffer_calculate_range_def Let_def n_def)
  have range: "(len = IREE_WHOLE_BUFFER \<or> unat offset + unat len \<le> unat max_length) \<longleftrightarrow> unat offset + unat n \<le> unat max_length"
    using sub True by (cases "len = IREE_WHOLE_BUFFER") (simp_all add: n_def word_le_nat_alt)
  have out: "(offset + n - 1 \<ge> max_length) \<longleftrightarrow> \<not> unat offset + unat n \<le> unat max_length" if "n \<noteq> 0"
  proof -
    have "0 < unat n" using that by (simp add: unat_gt_0)
    then show ?thesis unfolding word_le_nat_alt range_end [OF that n] by linarith
  qed
  have zero: "unat offset + unat n \<le> unat max_length" if "n = 0" using that True by (simp add: word_le_nat_alt)
  show ?thesis
    unfolding calc range using True out zero by (cases "n = 0") (simp_all flip: n_def)
qed (simp add: iree_hal_buffer_calculate_range_def not_le)

lemma calculate_range_ok:
  assumes "fits offset len" "unat base + unat max_length < 2 ^ 64"
    and "iree_hal_buffer_calculate_range True base max_length offset len = (IREE_STATUS_OK, o', n')"
  shows "unat o' = unat base + unat offset \<and> unat offset + unat n' \<le> unat max_length \<and> (len \<noteq> IREE_WHOLE_BUFFER \<longrightarrow> n' = len)"
proof -
  have "offset \<le> max_length \<and> (len = IREE_WHOLE_BUFFER \<or> unat offset + unat len \<le> unat max_length)"
      "o' = base + offset" "n' = (if len = IREE_WHOLE_BUFFER then max_length - offset else len)"
    using assms(3) unfolding calculate_range_cases [OF assms(1,2)] by (auto split: if_splits)
  then show ?thesis using assms(2) by (auto simp: unat_sub word_le_nat_alt unat_plus_if')
qed

section \<open>The invariant of a store of buffers\<close>

text \<open>
  A buffer that owns bytes spans all of them; a subspan lies inside of a buffer that owns bytes. The counter
  of a buffer is the number of its subspans and of the references outside of the store (\<open>R\<close>).
\<close>

definition buffer_wf :: "hal_store \<Rightarrow> nat \<Rightarrow> iree_hal_buffer \<Rightarrow> bool" where
  "buffer_wf s p b \<longleftrightarrow> (case hb_vtable b of
      HeapBuffer d \<Rightarrow> hb_allocated_buffer b = p \<and> hb_byte_offset b = 0 \<and> unat (hb_byte_length b) = length d \<and> length d < 2 ^ 63
    | SubspanBuffer \<Rightarrow> hb_allocated_buffer b \<noteq> p \<and>
        (\<exists>d. owner_bytes s (hb_allocated_buffer b) = Some d \<and> unat (hb_byte_offset b) + unat (hb_byte_length b) \<le> length d))"

definition is_span_of :: "nat \<Rightarrow> iree_hal_buffer option \<Rightarrow> bool" where
  "is_span_of p x \<longleftrightarrow> (case x of Some b \<Rightarrow> hb_vtable b = SubspanBuffer \<and> hb_allocated_buffer b = p | None \<Rightarrow> False)"

definition spans :: "hal_store \<Rightarrow> nat \<Rightarrow> nat" where
  "spans s p = length (filter (is_span_of p) s)"

definition hal_ok :: "hal_store \<Rightarrow> nat multiset \<Rightarrow> bool" where
  "hal_ok s R \<longleftrightarrow> (\<forall>p b. hb_at s p = Some b \<longrightarrow> buffer_wf s p b \<and> 0 < hb_ref_count b \<and> hb_ref_count b = int (spans s p + count R p))
    \<and> (\<forall>p. p \<in># R \<or> 0 < spans s p \<longrightarrow> hb_at s p \<noteq> None)"

lemma hb_at_simps [simp]:
  "hb_at (s[p := x]) q = (if q = p \<and> p < length s then x else hb_at s q)"
  "hb_at (s @ [x]) q = (if q = length s then x else hb_at s q)"
  by (auto simp: hb_at_def nth_append)

lemma hb_at_length: "hb_at s p = Some b \<Longrightarrow> p < length s"
  by (auto simp: hb_at_def split: if_splits)

lemma spans_append [simp]: "spans (s @ [x]) p = spans s p + (if is_span_of p x then 1 else 0)"
  by (simp add: spans_def)

lemma spans_update:
  "q < length s \<Longrightarrow> spans (s[q := x]) p + (if is_span_of p (s ! q) then 1 else 0) = spans s p + (if is_span_of p x then 1 else 0)"
  unfolding spans_def
proof (induction s arbitrary: q)
  case (Cons y s)
  then show ?case by (cases q) auto
qed simp

lemma is_span_of_count [simp]: "is_span_of p (Some (b\<lparr>hb_ref_count := n\<rparr>)) = is_span_of p (Some b)"
  by (simp add: is_span_of_def)

lemma hal_okD:
  assumes "hal_ok s R" "hb_at s p = Some b"
  shows "buffer_wf s p b" "0 < hb_ref_count b" "hb_ref_count b = int (spans s p + count R p)"
  using assms unfolding hal_ok_def by blast+

lemma hal_ok_live: "hal_ok s R \<Longrightarrow> p \<in># R \<Longrightarrow> \<exists>b. hb_at s p = Some b"
  by (auto simp: hal_ok_def)

text \<open>The bytes of a well-formed buffer.\<close>

lemma wf_owner:
  assumes "hal_ok s R" "hb_at s p = Some b"
  shows "\<exists>d. owner_bytes s (hb_allocated_buffer b) = Some d \<and> length d < 2 ^ 63
    \<and> unat (hb_byte_offset b) + unat (hb_byte_length b) \<le> length d \<and> vtable_map_range s p = Some (hb_allocated_buffer b)"
proof -
  have wf: "buffer_wf s p b" using hal_okD [OF assms] by simp
  show ?thesis
  proof (cases "hb_vtable b")
    case (HeapBuffer d)
    then show ?thesis using wf assms(2) by (simp add: buffer_wf_def owner_bytes_def vtable_map_range.simps)
  next
    case SubspanBuffer
    then obtain d a where a: "owner_bytes s (hb_allocated_buffer b) = Some d" "hb_at s (hb_allocated_buffer b) = Some a" "hb_vtable a = HeapBuffer d"
        "unat (hb_byte_offset b) + unat (hb_byte_length b) \<le> length d"
      using wf by (auto simp: buffer_wf_def owner_bytes_def split: option.splits hal_vtable.splits)
    have "length d < 2 ^ 63" using hal_okD(1) [OF assms(1) a(2)] a(3) by (simp add: buffer_wf_def)
    moreover have "vtable_map_range s p = Some (hb_allocated_buffer b)"
      using SubspanBuffer assms(2) a(2,3) by (simp add: vtable_map_range.simps [of s p] vtable_map_range.simps [of s "hb_allocated_buffer b"])
    ultimately show ?thesis using a by blast
  qed
qed

section \<open>Reference counts\<close>

lemma count_update:
  fixes n
  assumes "hb_at s p = Some b"
  defines "s' \<equiv> s[p := Some (b\<lparr>hb_ref_count := n\<rparr>)]"
  shows "spans s' q = spans s q" "owner_bytes s' q = owner_bytes s q" "buffer_wf s' q c = buffer_wf s q c"
proof -
  have p: "p < length s" "s ! p = Some b" using assms(1) by (auto simp: hb_at_def split: if_splits)
  show "spans s' q = spans s q" using spans_update [OF p(1), of "Some (b\<lparr>hb_ref_count := n\<rparr>)" q] p(2) by (auto simp: s'_def split: if_splits)
  show o: "owner_bytes s' q = owner_bytes s q" for q using assms(1) p(1) by (simp add: owner_bytes_def s'_def)
  show "buffer_wf s' q c = buffer_wf s q c" by (simp add: buffer_wf_def o split: hal_vtable.splits)
qed

lemma buffer_wf_count [simp]: "buffer_wf s q (b\<lparr>hb_ref_count := n\<rparr>) = buffer_wf s q b"
  by (simp add: buffer_wf_def split: hal_vtable.splits)

lemma release_unfold:
  assumes "hb_at s p = Some b"
  shows "hb_ref_count b \<noteq> 1 \<Longrightarrow> iree_hal_buffer_release s p = Some (s[p := Some (b\<lparr>hb_ref_count := hb_ref_count b - 1\<rparr>)])"
    "hb_ref_count b = 1 \<Longrightarrow> hb_vtable b = HeapBuffer d \<Longrightarrow> iree_hal_buffer_release s p = Some (s[p := None])"
    "hb_ref_count b = 1 \<Longrightarrow> hb_vtable b = SubspanBuffer \<Longrightarrow> iree_hal_buffer_release s p =
      map_option (\<lambda>s. s[p := None]) (iree_hal_buffer_release (s[p := Some (b\<lparr>hb_ref_count := 0\<rparr>)]) (hb_allocated_buffer b))"
  by (subst iree_hal_buffer_release.simps, simp add: assms Let_def map_option_case split: option.split)+

lemma hal_ok_recount:
  assumes ok: "hal_ok s R" and p: "hb_at s p = Some b" and n: "0 < n" "n = int (spans s p + count R' p)"
    and R': "\<And>q. q \<noteq> p \<Longrightarrow> count R' q = count R q"
  shows "hal_ok (s[p := Some (b\<lparr>hb_ref_count := n\<rparr>)]) R'"
proof -
  note u = count_update [OF p, of n]
  let ?s = "s[p := Some (b\<lparr>hb_ref_count := n\<rparr>)]"
  have live: "hb_at ?s q \<noteq> None" if "q \<in># R' \<or> 0 < spans ?s q" for q
  proof (cases "q = p")
    case False
    then have "q \<in># R \<or> 0 < spans s q" using that R' [OF False] by (simp add: u count_greater_zero_iff [symmetric] del: count_greater_zero_iff)
    then show ?thesis using ok False unfolding hal_ok_def by auto
  qed (use hb_at_length [OF p] in simp)
  have "buffer_wf ?s q c \<and> 0 < hb_ref_count c \<and> hb_ref_count c = int (spans ?s q + count R' q)" if c: "hb_at ?s q = Some c" for q c
  proof (cases "q = p")
    case True
    then have "c = b\<lparr>hb_ref_count := n\<rparr>" using c hb_at_length [OF p] by simp
    then show ?thesis unfolding u using True n hal_okD(1) [OF ok p] by simp
  next
    case False
    then have "hb_at s q = Some c" using c by simp
    from hal_okD [OF ok this] show ?thesis unfolding u using R' [OF False] by simp
  qed
  with live show ?thesis unfolding hal_ok_def by blast
qed

lemma hal_retain_ok:
  assumes ok: "hal_ok s R" and p: "hb_at s p = Some b"
  shows "\<exists>s'. iree_hal_buffer_retain s p = Some s' \<and> hal_ok s' (add_mset p R)
    \<and> s' = s[p := Some (b\<lparr>hb_ref_count := hb_ref_count b + 1\<rparr>)] \<and> owner_bytes s' = owner_bytes s"
proof -
  note u = count_update [OF p, of "hb_ref_count b + 1"]
  have "hal_ok (s[p := Some (b\<lparr>hb_ref_count := hb_ref_count b + 1\<rparr>)]) (add_mset p R)"
    using hal_okD [OF ok p] by (intro hal_ok_recount [OF ok p]) auto
  then show ?thesis using p u(2) by (auto simp: iree_hal_buffer_retain_def fun_eq_iff)
qed

text \<open>Removing a buffer nothing refers to.\<close>

lemma hal_ok_free:
  assumes ok: "hal_ok s (add_mset p R)" and p: "hb_at s p = Some b" "hb_ref_count b = 1"
  shows "spans s p = 0" "p \<notin># R"
  using hal_okD(3) [OF ok p(1)] p(2) by (auto simp: count_eq_zero_iff [symmetric])

lemma free_heap:
  assumes ok: "hal_ok s (add_mset p R)" and p: "hb_at s p = Some b" "hb_ref_count b = 1" "hb_vtable b = HeapBuffer d"
  shows "hal_ok (s[p := None]) R"
proof -
  have len: "p < length s" "s ! p = Some b" using p(1) by (auto simp: hb_at_def split: if_splits)
  have sp: "spans (s[p := None]) q = spans s q" for q
    using spans_update [OF len(1), of None q] len(2) p(3) by (simp add: is_span_of_def)
  note f = hal_ok_free [OF ok p(1,2)]
  have wf: "buffer_wf (s[p := None]) q c" if "hb_at s q = Some c" "q \<noteq> p" for q c
  proof -
    have "hb_allocated_buffer c \<noteq> p" if v: "hb_vtable c = SubspanBuffer"
    proof
      assume "hb_allocated_buffer c = p"
      then have "is_span_of p (s ! q)" using v \<open>hb_at s q = Some c\<close> by (auto simp: is_span_of_def hb_at_def split: if_splits)
      then have "0 < spans s p" using hb_at_length [OF \<open>hb_at s q = Some c\<close>] by (auto simp: spans_def filter_empty_conv)
      then show False using f by simp
    qed
    then show ?thesis using hal_okD(1) [OF ok that(1)] len(1) by (auto simp: buffer_wf_def owner_bytes_def split: hal_vtable.splits)
  qed
  show ?thesis using ok len f wf unfolding hal_ok_def sp by (auto simp: sp split: if_splits)
qed

lemma free_span:
  assumes ok: "hal_ok s (add_mset p R)" and p: "hb_at s p = Some b" "hb_ref_count b = 1" "hb_vtable b = SubspanBuffer"
  shows "hal_ok (s[p := None]) (add_mset (hb_allocated_buffer b) R)"
proof -
  have len: "p < length s" "s ! p = Some b" using p(1) by (auto simp: hb_at_def split: if_splits)
  have sp: "spans s q = spans (s[p := None]) q + (if hb_allocated_buffer b = q then 1 else 0)" for q
    using spans_update [OF len(1), of None q] len(2) p(3) by (auto simp: is_span_of_def)
  note f = hal_ok_free [OF ok p(1,2)]
  have o: "owner_bytes (s[p := None]) q = owner_bytes s q" for q using p by (simp add: owner_bytes_def)
  have wf: "buffer_wf (s[p := None]) q c" if "hb_at s q = Some c" for q c
    using hal_okD(1) [OF ok that] by (simp add: buffer_wf_def o split: hal_vtable.splits)
  have q: "hb_allocated_buffer b \<noteq> p" using hal_okD(1) [OF ok p(1)] p(3) by (simp add: buffer_wf_def)
  have "hb_at (s[p := None]) q' \<noteq> None" if "q' \<in># add_mset (hb_allocated_buffer b) R \<or> 0 < spans (s[p := None]) q'" for q'
  proof -
    have "0 < spans s q' \<or> q' \<in># R" using that sp [of q'] by (auto split: if_splits)
    then have "hb_at s q' \<noteq> None" "q' \<noteq> p" using ok f unfolding hal_ok_def by auto
    then show ?thesis by simp
  qed
  moreover have "buffer_wf (s[p := None]) q' c \<and> 0 < hb_ref_count c \<and> hb_ref_count c = int (spans (s[p := None]) q' + count (add_mset (hb_allocated_buffer b) R) q')"
    if c: "hb_at (s[p := None]) q' = Some c" for q' c
  proof -
    have c': "hb_at s q' = Some c" "q' \<noteq> p" using c len(1) by (auto split: if_splits)
    show ?thesis using wf [OF c'(1)] hal_okD(2,3) [OF ok c'(1)] c'(2) sp [of q'] by simp
  qed
  ultimately show ?thesis unfolding hal_ok_def by blast
qed

lemma release_heap:
  assumes ok: "hal_ok s (add_mset p R)" and p: "hb_at s p = Some b" "hb_vtable b = HeapBuffer d"
  shows "\<exists>x. iree_hal_buffer_release s p = Some (s[p := x]) \<and> hal_ok (s[p := x]) R
    \<and> (hb_ref_count b \<noteq> 1 \<longrightarrow> x = Some (b\<lparr>hb_ref_count := hb_ref_count b - 1\<rparr>)) \<and> (hb_ref_count b = 1 \<longrightarrow> x = None)"
proof (cases "hb_ref_count b = 1")
  case True
  then show ?thesis using free_heap [OF ok p(1) True p(2)] p
    by (intro exI [of _ None]) (simp add: release_unfold)
next
  case False
  have "hal_ok (s[p := Some (b\<lparr>hb_ref_count := hb_ref_count b - 1\<rparr>)]) R"
    using hal_okD(2,3) [OF ok p(1)] False by (intro hal_ok_recount [OF ok p(1)]) auto
  then show ?thesis using False p by (simp add: release_unfold)
qed

lemma hal_release_ok:
  assumes ok: "hal_ok s (add_mset p R)"
  shows "\<exists>s'. iree_hal_buffer_release s p = Some s' \<and> hal_ok s' R"
proof -
  obtain b where p: "hb_at s p = Some b" using hal_ok_live [OF ok] by auto
  show ?thesis
  proof (cases "hb_vtable b")
    case (HeapBuffer d)
    then show ?thesis using release_heap [OF ok p HeapBuffer] by auto
  next
    case SubspanBuffer
      show ?thesis
    proof (cases "hb_ref_count b = 1")
      case False
      have "hal_ok (s[p := Some (b\<lparr>hb_ref_count := hb_ref_count b - 1\<rparr>)]) R"
        using hal_okD(2,3) [OF ok p] False by (intro hal_ok_recount [OF ok p]) auto
      then show ?thesis using False p by (simp add: release_unfold)
    next
      case True
      let ?q = "hb_allocated_buffer b"
      have ok1: "hal_ok (s[p := None]) (add_mset ?q R)" by (rule free_span [OF ok p True SubspanBuffer])
      have q: "?q \<noteq> p" using hal_okD(1) [OF ok p] SubspanBuffer by (simp add: buffer_wf_def)
      obtain a d where a: "hb_at s ?q = Some a" "hb_vtable a = HeapBuffer d"
        using hal_okD(1) [OF ok p] SubspanBuffer by (auto simp: buffer_wf_def owner_bytes_def split: option.splits hal_vtable.splits)
      have a1: "hb_at (s[p := None]) ?q = Some a" using a q by simp
      obtain x where x: "iree_hal_buffer_release (s[p := None]) ?q = Some (s[p := None, ?q := x])" "hal_ok (s[p := None, ?q := x]) R"
          "hb_ref_count a \<noteq> 1 \<longrightarrow> x = Some (a\<lparr>hb_ref_count := hb_ref_count a - 1\<rparr>)" "hb_ref_count a = 1 \<longrightarrow> x = None"
        using release_heap [OF ok1 a1 a(2)] by blast
      let ?s = "s[p := Some (b\<lparr>hb_ref_count := 0\<rparr>)]"
      have "iree_hal_buffer_release ?s ?q = Some (?s[?q := x])"
        using a q x(3,4) release_unfold(1,2) [of ?s ?q a] by (cases "hb_ref_count a = 1") simp_all
      moreover have "?s[?q := x, p := None] = s[p := None, ?q := x]" using q by (simp add: list_update_swap)
      ultimately show ?thesis using p True SubspanBuffer x(2) by (simp add: release_unfold(3))
    qed
  qed
qed

section \<open>Mapping and the contents of a buffer\<close>

definition hal_contents :: "hal_store \<Rightarrow> nat \<Rightarrow> u8 list option" where
  "hal_contents s p = do {
     b \<leftarrow> hb_at s p;
     d \<leftarrow> owner_bytes s (hb_allocated_buffer b);
     Some (take (unat (hb_byte_length b)) (drop (unat (hb_byte_offset b)) d))
   }"

lemma contents_ok:
  assumes "hal_ok s R" "hb_at s p = Some b"
  shows "\<exists>d. owner_bytes s (hb_allocated_buffer b) = Some d \<and> length d < 2 ^ 63
    \<and> hal_contents s p = Some (take (unat (hb_byte_length b)) (drop (unat (hb_byte_offset b)) d))
    \<and> unat (hb_byte_offset b) + unat (hb_byte_length b) \<le> length d"
  using wf_owner [OF assms] assms(2) by (auto simp: hal_contents_def)

definition maps_to :: "iree_hal_buffer \<Rightarrow> u32 \<Rightarrow> u64 \<Rightarrow> u64 \<Rightarrow> iree_hal_buffer_mapping \<Rightarrow> bool" where
  "maps_to b memory_access offset len m \<longleftrightarrow> mp_owner m = hb_allocated_buffer b \<and> mp_allowed_access m = memory_access
    \<and> unat (mp_byte_offset m) = unat (hb_byte_offset b) + unat offset
    \<and> unat offset + unat (mp_data_length m) \<le> unat (hb_byte_length b) \<and> (len \<noteq> IREE_WHOLE_BUFFER \<longrightarrow> mp_data_length m = len)"

lemma map_range_ok:
  assumes ok: "hal_ok s R" and p: "hb_at s p = Some b" and fits: "fits offset len"
  shows "(\<exists>st. st \<noteq> IREE_STATUS_OK \<and> iree_hal_buffer_map_range s p memory_access offset len = Some (st, None))
    \<or> (\<exists>m. iree_hal_buffer_map_range s p memory_access offset len = Some (IREE_STATUS_OK, Some m) \<and> maps_to b memory_access offset len m)"
proof -
  obtain d :: "u8 list" where d: "length d < 2 ^ 63" "unat (hb_byte_offset b) + unat (hb_byte_length b) \<le> length d"
      "vtable_map_range s p = Some (hb_allocated_buffer b)"
    using wf_owner [OF ok p] by blast
  have base: "unat (hb_byte_offset b) + unat (hb_byte_length b) < 2 ^ 64" using d by simp
  obtain st o' n' where r: "iree_hal_buffer_calculate_range True (hb_byte_offset b) (hb_byte_length b) offset len = (st, o', n')"
    by (metis prod_cases3)
  have maps: "maps_to b memory_access offset len \<lparr>mp_backing_buffer = p, mp_owner = hb_allocated_buffer b, mp_byte_offset = o',
         mp_data_length = n', mp_allowed_access = memory_access\<rparr>" if "st = IREE_STATUS_OK"
    using calculate_range_ok [OF fits base] r that by (simp add: maps_to_def)
  show ?thesis
    unfolding iree_hal_buffer_map_range_def using p r d(3) maps by (auto simp: Let_def)
qed

lemma read_data_ok:
  assumes ok: "hal_ok s R" and p: "hb_at s p = Some b" and c: "hal_contents s p = Some c"
    and n: "n \<noteq> IREE_WHOLE_BUFFER" "unat offset + unat n \<le> 2 ^ 64"
  shows "(\<exists>st. st \<noteq> IREE_STATUS_OK \<and> iree_hal_buffer_read_data s p offset n = Some (st, [])
        \<and> iree_hal_buffer_map_range s p IREE_HAL_MEMORY_ACCESS_READ offset n = Some (st, None))
    \<or> iree_hal_buffer_read_data s p offset n = Some (IREE_STATUS_OK, take (unat n) (drop (unat offset) c)) \<and> (n \<noteq> 0 \<longrightarrow> unat offset + unat n \<le> length c)"
proof (cases "n = 0")
  case False
  have fits: "fits offset n" using n by (simp add: fits_def)
  obtain d where d: "owner_bytes s (hb_allocated_buffer b) = Some d" "unat (hb_byte_offset b) + unat (hb_byte_length b) \<le> length d"
      "c = take (unat (hb_byte_length b)) (drop (unat (hb_byte_offset b)) d)"
    using contents_ok [OF ok p] c by auto
  from map_range_ok [OF ok p fits, of IREE_HAL_MEMORY_ACCESS_READ] show ?thesis
  proof (elim disjE exE conjE)
    fix m
    assume m: "iree_hal_buffer_map_range s p IREE_HAL_MEMORY_ACCESS_READ offset n = Some (IREE_STATUS_OK, Some m)"
      and t: "maps_to b IREE_HAL_MEMORY_ACCESS_READ offset n m"
    have "read_mapping s m n = Some (take (unat n) (drop (unat offset) c))" "unat offset + unat n \<le> length c"
      using t d n(1) by (auto simp: read_mapping_def maps_to_def read_bytes_def take_drop min_def add.commute)
    then show ?thesis using m False by (simp add: iree_hal_buffer_read_data_def)
  qed (simp add: iree_hal_buffer_read_data_def False)
qed (simp add: iree_hal_buffer_read_data_def)

section \<open>Writing\<close>

lemma put_bytes:
  assumes ok: "hal_ok s R" and a: "hb_at s a = Some b" "hb_vtable b = HeapBuffer d" and len: "length d' = length d"
  defines "s' \<equiv> s[a := Some (b\<lparr>hb_vtable := HeapBuffer d'\<rparr>)]"
  shows "hal_ok s' R" "owner_bytes s' q = (if q = a then Some d' else owner_bytes s q)"
    "hb_at s' q = map_option (\<lambda>c. if q = a then c\<lparr>hb_vtable := HeapBuffer d'\<rparr> else c) (hb_at s q)"
proof -
  have p: "a < length s" "s ! a = Some b" using a(1) by (auto simp: hb_at_def split: if_splits)
  have at: "hb_at s' q = map_option (\<lambda>c. if q = a then c\<lparr>hb_vtable := HeapBuffer d'\<rparr> else c) (hb_at s q)" for q
    using a p(1) by (cases "hb_at s q") (auto simp: s'_def)
  show "hb_at s' q = map_option (\<lambda>c. if q = a then c\<lparr>hb_vtable := HeapBuffer d'\<rparr> else c) (hb_at s q)" by (rule at)
  have o: "owner_bytes s' q = (if q = a then Some d' else owner_bytes s q)" for q
    using a p(1) by (simp add: owner_bytes_def s'_def)
  show "owner_bytes s' q = (if q = a then Some d' else owner_bytes s q)" by (rule o)
  have sp: "spans s' q = spans s q" for q
    using spans_update [OF p(1), of "Some (b\<lparr>hb_vtable := HeapBuffer d'\<rparr>)" q] p(2) a(2) by (simp add: s'_def is_span_of_def)
  have oa: "owner_bytes s a = Some d" using a by (simp add: owner_bytes_def)
  have wf: "buffer_wf s' q (if q = a then c\<lparr>hb_vtable := HeapBuffer d'\<rparr> else c)" if c: "hb_at s q = Some c" for q c
  proof (cases "q = a")
    case True
    then show ?thesis using hal_okD(1) [OF ok c] c a len by (simp add: buffer_wf_def)
  next
    case False
    then show ?thesis using hal_okD(1) [OF ok c] o oa len by (auto simp: buffer_wf_def split: hal_vtable.splits)
  qed
  have "buffer_wf s' q c \<and> 0 < hb_ref_count c \<and> hb_ref_count c = int (spans s' q + count R q)" if h: "hb_at s' q = Some c" for q c
  proof -
    obtain c0 where c0: "hb_at s q = Some c0" "c = (if q = a then c0\<lparr>hb_vtable := HeapBuffer d'\<rparr> else c0)"
      using h unfolding at by auto
    show ?thesis using hal_okD(2,3) [OF ok c0(1)] wf [OF c0(1)] unfolding sp c0(2) by (cases "q = a") simp_all
  qed
  moreover have "hb_at s' q \<noteq> None" if "q \<in># R \<or> 0 < spans s' q" for q
  proof -
    have "hb_at s q \<noteq> None" using ok that unfolding sp hal_ok_def by blast
    then show ?thesis unfolding at by simp
  qed
  ultimately show "hal_ok s' R" unfolding hal_ok_def by blast
qed

lemma owner_bytesD: "owner_bytes s a = Some d \<Longrightarrow> \<exists>b. hb_at s a = Some b \<and> hb_vtable b = HeapBuffer d"
  by (auto simp: owner_bytes_def split: option.splits hal_vtable.splits)

text \<open>Everything but the bytes of one allocation stays as it was.\<close>

definition same_but :: "nat \<Rightarrow> hal_store \<Rightarrow> hal_store \<Rightarrow> bool" where
  "same_but a s s' \<longleftrightarrow> (\<forall>q. q \<noteq> a \<longrightarrow> owner_bytes s' q = owner_bytes s q) \<and>
    (\<forall>q b. hb_at s q = Some b \<longrightarrow> (\<exists>v. hb_at s' q = Some (b\<lparr>hb_vtable := v\<rparr>)))"

lemma same_butD: "same_but a s s' \<Longrightarrow> hb_at s q = Some b \<Longrightarrow> \<exists>v. hb_at s' q = Some (b\<lparr>hb_vtable := v\<rparr>)"
  unfolding same_but_def by blast

lemma write_mapping_ok:
  assumes ok: "hal_ok s R" and d: "owner_bytes s (mp_owner m) = Some d" and len: "unat (mp_byte_offset m) + length xs \<le> length d"
  shows "\<exists>s' d'. write_mapping s m xs = Some s' \<and> hal_ok s' R \<and> same_but (mp_owner m) s s'
    \<and> owner_bytes s' (mp_owner m) = Some d' \<and> write_bytes d (mp_byte_offset m) xs = Some d'"
proof -
  obtain d' where d': "write_bytes d (mp_byte_offset m) xs = Some d'" using write_bytes_Some [OF len] by blast
  obtain b where b: "hb_at s (mp_owner m) = Some b" "hb_vtable b = HeapBuffer d" using owner_bytesD [OF d] by blast
  note pb = put_bytes [OF ok b length_write_bytes [OF d']]
  let ?s = "s[mp_owner m := Some (b\<lparr>hb_vtable := HeapBuffer d'\<rparr>)]"
  have "\<exists>v. hb_at ?s q = Some (c\<lparr>hb_vtable := v\<rparr>)" if "hb_at s q = Some c" for q c
    using pb(3) [of q] that by (intro exI [of _ "if q = mp_owner m then HeapBuffer d' else hb_vtable c"]) simp
  then have "same_but (mp_owner m) s ?s" using pb(2) by (simp add: same_but_def)
  moreover have "write_mapping s m xs = Some ?s" using d d' b(1) by (simp add: write_mapping_def put_owner_bytes_def)
  ultimately show ?thesis using pb(1,2) d' by auto
qed

lemma access_discard_write [simp]:
  "iree_hal_buffer_validate_access IREE_HAL_MEMORY_ACCESS_DISCARD_WRITE IREE_HAL_MEMORY_ACCESS_WRITE = IREE_STATUS_OK"
  by (simp add: iree_hal_buffer_validate_access_def iree_any_bit_set_def iree_all_bits_set_def IREE_HAL_MEMORY_ACCESS_DISCARD_WRITE_def
      IREE_HAL_MEMORY_ACCESS_WRITE_def IREE_HAL_MEMORY_ACCESS_READ_def)

lemma flush_ok:
  assumes "hb_at s p = Some b" "mp_allowed_access m = IREE_HAL_MEMORY_ACCESS_DISCARD_WRITE"
    and "unat (mp_byte_offset m) + unat (mp_data_length m) < 2 ^ 64" "n = IREE_WHOLE_BUFFER \<or> unat n \<le> unat (mp_data_length m)"
  shows "flush_unless_coherent s p m n = Some IREE_STATUS_OK"
proof -
  have "fits 0 n" using unat_u64_less [of n] by (simp add: fits_def)
  from calculate_range_cases [OF this assms(3)] show ?thesis
    using assms(1,2,4) by (auto simp: flush_unless_coherent_def iree_hal_buffer_flush_range_def Let_def)
qed


lemma write_data_ok:
  assumes ok: "hal_ok s R" and p: "hb_at s p = Some b" and c: "hal_contents s p = Some c"
    and xs: "length xs < 2 ^ 64 - 1" "unat offset + length xs \<le> 2 ^ 64"
  shows "(\<exists>st. st \<noteq> IREE_STATUS_OK \<and> iree_hal_buffer_write_data s p offset xs = Some (st, s)
        \<and> iree_hal_buffer_map_range s p IREE_HAL_MEMORY_ACCESS_DISCARD_WRITE offset (of_nat (length xs)) = Some (st, None))
    \<or> xs = [] \<and> iree_hal_buffer_write_data s p offset xs = Some (IREE_STATUS_OK, s)
    \<or> (\<exists>s' d d' off. iree_hal_buffer_write_data s p offset xs = Some (IREE_STATUS_OK, s') \<and> hal_ok s' R
        \<and> same_but (hb_allocated_buffer b) s s' \<and> owner_bytes s (hb_allocated_buffer b) = Some d
        \<and> owner_bytes s' (hb_allocated_buffer b) = Some d' \<and> write_bytes d off xs = Some d'
        \<and> unat off = unat (hb_byte_offset b) + unat offset \<and> unat offset + length xs \<le> unat (hb_byte_length b))"
proof (cases "xs = []")
  case False
  let ?n = "of_nat (length xs) :: u64"
  have n: "unat ?n = length xs" using xs(1) by (simp add: unsigned_of_nat take_bit_nat_eq_self)
  have whole: "?n \<noteq> IREE_WHOLE_BUFFER" using n xs(1) unat_WHOLE by auto
  have fits: "fits offset ?n" using n xs by (simp add: fits_def)
  obtain d where d: "owner_bytes s (hb_allocated_buffer b) = Some d" "length d < 2 ^ 63"
      "unat (hb_byte_offset b) + unat (hb_byte_length b) \<le> length d"
    using contents_ok [OF ok p] by blast
  from map_range_ok [OF ok p fits, of IREE_HAL_MEMORY_ACCESS_DISCARD_WRITE] show ?thesis
  proof (elim disjE exE conjE)
    fix m
    assume m: "iree_hal_buffer_map_range s p IREE_HAL_MEMORY_ACCESS_DISCARD_WRITE offset ?n = Some (IREE_STATUS_OK, Some m)"
      and t: "maps_to b IREE_HAL_MEMORY_ACCESS_DISCARD_WRITE offset ?n m"
    have mm: "mp_owner m = hb_allocated_buffer b" "mp_allowed_access m = IREE_HAL_MEMORY_ACCESS_DISCARD_WRITE" "mp_data_length m = ?n"
        "unat (mp_byte_offset m) = unat (hb_byte_offset b) + unat offset" "unat offset + length xs \<le> unat (hb_byte_length b)"
      using t whole n unfolding maps_to_def by metis+
    obtain s' d' where s': "write_mapping s m xs = Some s'" "hal_ok s' R" "same_but (hb_allocated_buffer b) s s'"
        "owner_bytes s' (hb_allocated_buffer b) = Some d'" "write_bytes d (mp_byte_offset m) xs = Some d'"
      using write_mapping_ok [OF ok, of m d xs] d mm by auto
    obtain v where v: "hb_at s' p = Some (b\<lparr>hb_vtable := v\<rparr>)" using same_butD [OF s'(3) p] by blast
    have "flush_unless_coherent s' p m IREE_WHOLE_BUFFER = Some IREE_STATUS_OK"
      using flush_ok [OF v mm(2)] mm n d by simp
    then have "iree_hal_buffer_write_data s p offset xs = Some (IREE_STATUS_OK, s')"
      using m s'(1) False by (simp add: iree_hal_buffer_write_data_def)
    then show ?thesis using s' mm d(1) by blast
  qed (simp add: iree_hal_buffer_write_data_def False)
qed (simp add: iree_hal_buffer_write_data_def)

text \<open>The contents of a buffer after a write through another: the range that was written changes.\<close>

lemma contents_after_write:
  assumes "same_but (hb_allocated_buffer b) s s'" "owner_bytes s (hb_allocated_buffer b) = Some d"
    and "owner_bytes s' (hb_allocated_buffer b) = Some d'" "write_bytes d off xs = Some d'"
    and q: "hb_at s q = Some e" "hal_contents s q = Some c"
  shows "\<exists>c'. hal_contents s' q = Some c' \<and> length c' = length c \<and>
    (\<forall>i < length c. c' ! i = (if hb_allocated_buffer e = hb_allocated_buffer b \<and> unat off \<le> unat (hb_byte_offset e) + i
        \<and> unat (hb_byte_offset e) + i < unat off + length xs then xs ! (unat (hb_byte_offset e) + i - unat off) else c ! i))"
proof -
  obtain v where v: "hb_at s' q = Some (e\<lparr>hb_vtable := v\<rparr>)" using same_butD [OF assms(1) q(1)] by blast
  obtain g where g: "owner_bytes s (hb_allocated_buffer e) = Some g" "c = take (unat (hb_byte_length e)) (drop (unat (hb_byte_offset e)) g)"
    using q by (auto simp: hal_contents_def bind_eq_Some_conv)
  show ?thesis
  proof (cases "hb_allocated_buffer e = hb_allocated_buffer b")
    case True
    then have "g = d" using g assms(2) by simp
    then show ?thesis using v g(2) assms(3) True nth_write_bytes [OF assms(4)] length_write_bytes [OF assms(4)]
      by (auto simp: hal_contents_def)
  next
    case False
    then show ?thesis using assms(1) v g by (simp add: hal_contents_def same_but_def)
  qed
qed

section \<open>Subspans keep the invariant\<close>

lemma contents_recount:
  assumes "hb_at s p = Some b"
  shows "hal_contents (s[p := Some (b\<lparr>hb_ref_count := n\<rparr>)]) q = hal_contents s q"
  using count_update(2) [OF assms] hb_at_length [OF assms] assms by (simp add: hal_contents_def)

text \<open>
  What a subspan with the bytes \<open>c\<close> is: the store stays well formed with one more reference, all that was
  there keeps its contents, and the new buffer has exactly those bytes. Only if the allocation failed there
  is no buffer.
\<close>

definition span_result :: "bool \<Rightarrow> hal_store \<Rightarrow> nat multiset \<Rightarrow> u8 list \<Rightarrow> (iree_status \<times> hal_store \<times> nat option) option \<Rightarrow> bool" where
  "span_result failed s R c res \<longleftrightarrow> failed \<and> res = Some (IREE_STATUS_OK, s, None) \<or>
    (\<exists>s' q. res = Some (IREE_STATUS_OK, s', Some q) \<and> hal_ok s' (add_mset q R) \<and> hal_contents s' q = Some c
      \<and> (\<forall>x. hb_at s x \<noteq> None \<longrightarrow> hal_contents s' x = hal_contents s x))"

lemma span_retain:
  assumes "hal_ok s R" "hb_at s p = Some b" "hal_contents s p = Some c"
  shows "span_result failed s R c (do { s \<leftarrow> iree_hal_buffer_retain s p; Some (IREE_STATUS_OK, s, Some p) })"
  using hal_retain_ok [OF assms(1,2)] assms(3) contents_recount [OF assms(2)] by (auto simp: span_result_def)

lemma hal_ok_fresh: "hal_ok s R \<Longrightarrow> spans s (length s) = 0 \<and> count R (length s) = 0"
proof -
  assume "hal_ok s R"
  moreover have "hb_at s (length s) = None" by (simp add: hb_at_def)
  ultimately have "\<not> 0 < spans s (length s) \<and> length s \<notin># R" unfolding hal_ok_def by blast
  then show ?thesis by (simp add: count_eq_zero_iff)
qed

lemma owner_append: "hb_vtable b = SubspanBuffer \<Longrightarrow> owner_bytes (s @ [Some b]) q = owner_bytes s q"
proof -
  assume b: "hb_vtable b = SubspanBuffer"
  have "hb_at s (length s) = None" by (simp add: hb_at_def)
  with b show ?thesis by (cases "q = length s") (simp_all add: owner_bytes_def)
qed

lemma hal_ok_new_span:
  assumes ok: "hal_ok s (add_mset a R)" and a: "owner_bytes s a = Some d"
    and b: "hb_vtable b = SubspanBuffer" "hb_allocated_buffer b = a" "hb_ref_count b = 1"
      "unat (hb_byte_offset b) + unat (hb_byte_length b) \<le> length d"
  shows "hal_ok (s @ [Some b]) (add_mset (length s) R)"
proof -
  let ?s = "s @ [Some b]"
  have ne: "a \<noteq> length s" using a by (auto simp: owner_bytes_def hb_at_def split: option.splits if_splits)
  have fresh: "spans s (length s) = 0" "count R (length s) = 0" using hal_ok_fresh [OF ok] ne by auto
  have sp: "spans ?s q = spans s q + (if q = a then 1 else 0)" for q using b by (simp add: is_span_of_def)
  have o: "owner_bytes ?s q = owner_bytes s q" for q by (rule owner_append [OF b(1)])
  have wf: "buffer_wf ?s q c = buffer_wf s q c" for q c by (simp add: buffer_wf_def o split: hal_vtable.splits)
  have "buffer_wf ?s q c \<and> 0 < hb_ref_count c \<and> hb_ref_count c = int (spans ?s q + count (add_mset (length s) R) q)"
    if c: "hb_at ?s q = Some c" for q c
  proof (cases "q = length s")
    case True
    then have "c = b" using c by simp
    then show ?thesis unfolding wf sp using True b a ne fresh by (auto simp: buffer_wf_def)
  next
    case False
    then have "hb_at s q = Some c" using c by simp
    from hal_okD [OF ok this] show ?thesis unfolding wf sp using False ne by auto
  qed
  moreover have "hb_at ?s q \<noteq> None" if "q \<in># add_mset (length s) R \<or> 0 < spans ?s q" for q
  proof (cases "q = length s")
    case False
    have "q \<in># add_mset a R \<or> 0 < spans s q" using that False unfolding sp by (auto split: if_splits)
    then have "hb_at s q \<noteq> None" using ok unfolding hal_ok_def by blast
    then show ?thesis using False by simp
  qed simp
  ultimately show ?thesis unfolding hal_ok_def by blast
qed

lemma span_create:
  assumes ok: "hal_ok s R" and a: "hb_at s a = Some b" "hb_vtable b = HeapBuffer d" and n: "unat o' + unat n \<le> length d"
  shows "span_result (al sizeof_hal_buffer \<noteq> IREE_STATUS_OK) s R (take (unat n) (drop (unat o') d)) (iree_hal_subspan_buffer_create al s a o' n)"
proof (cases "al sizeof_hal_buffer = IREE_STATUS_OK")
  case True
  define s1 where "s1 = s[a := Some (b\<lparr>hb_ref_count := hb_ref_count b + 1\<rparr>)]"
  define e where "e = \<lparr>hb_ref_count = 1, hb_vtable = SubspanBuffer, hb_allocated_buffer = a,
         hb_allocation_size = hb_allocation_size b, hb_byte_offset = o', hb_byte_length = n,
         hb_memory_type = hb_memory_type b, hb_allowed_access = hb_allowed_access b, hb_allowed_usage = hb_allowed_usage b\<rparr>"
  have s1: "hal_ok s1 (add_mset a R)" "owner_bytes s1 = owner_bytes s" "iree_hal_buffer_retain s a = Some s1"
    using hal_retain_ok [OF ok a(1)] by (auto simp: s1_def)
  have l: "length s1 = length s" by (simp add: s1_def)
  have o: "owner_bytes s a = Some d" using a by (simp add: owner_bytes_def)
  have lt: "a < length s" by (rule hb_at_length [OF a(1)])
  have ok2: "hal_ok (s1 @ [Some e]) (add_mset (length s) R)"
    using hal_ok_new_span [OF s1(1), of d e] o s1(2) n l by (simp add: e_def)
  have ob: "owner_bytes (s1 @ [Some e]) x = owner_bytes s1 x" for x
    by (rule owner_append) (simp add: e_def)
  have "hal_contents (s1 @ [Some e]) x = hal_contents s x" if "hb_at s x \<noteq> None" for x
  proof -
    have "x \<noteq> length s1" using that l by (auto simp: hb_at_def)
    then have "hal_contents (s1 @ [Some e]) x = hal_contents s1 x" by (simp add: hal_contents_def ob)
    then show ?thesis using contents_recount [OF a(1)] by (simp add: s1_def)
  qed
  moreover have "hal_contents (s1 @ [Some e]) (length s) = Some (take (unat n) (drop (unat o') d))"
    using l o s1(2) lt by (simp add: hal_contents_def ob) (simp add: e_def o)
  moreover have "iree_hal_subspan_buffer_create al s a o' n = Some (IREE_STATUS_OK, s1 @ [Some e], Some (length s))"
    using True a(1) s1(3) l by (simp add: iree_hal_subspan_buffer_create_def e_def)
  ultimately show ?thesis using ok2 unfolding span_result_def by blast
qed (simp add: iree_hal_subspan_buffer_create_def span_result_def a)

lemma span_heap:
  assumes ok: "hal_ok s R" and a: "hb_at s a = Some b" "hb_vtable b = HeapBuffer d" and n: "unat o' + unat n \<le> length d"
  shows "span_result (al sizeof_hal_buffer \<noteq> IREE_STATUS_OK) s R (take (unat n) (drop (unat o') d)) (iree_hal_buffer_subspan al s a o' n)"
proof -
  have wf: "hb_allocated_buffer b = a" "hb_byte_offset b = 0" "unat (hb_byte_length b) = length d" "length d < 2 ^ 63"
    using hal_okD(1) [OF ok a(1)] a(2) by (simp_all add: buffer_wf_def)
  have "n \<noteq> IREE_WHOLE_BUFFER" using n wf(4) unat_WHOLE by auto
  then have r: "iree_hal_buffer_calculate_range True 0 (hb_byte_length b) o' n = (IREE_STATUS_OK, o', n)"
    using calculate_range_cases [of o' n 0 "hb_byte_length b"] n wf by (simp add: fits_def word_le_nat_alt)
  have sub: "iree_hal_buffer_subspan al s a o' n =
    (if o' = 0 \<and> n = hb_byte_length b then do { s \<leftarrow> iree_hal_buffer_retain s a; Some (IREE_STATUS_OK, s, Some a) }
     else iree_hal_subspan_buffer_create al s a o' n)"
    by (subst iree_hal_buffer_subspan.simps) (simp add: a(1) wf r)
  have c: "hal_contents s a = Some d" using a wf by (simp add: hal_contents_def owner_bytes_def)
  show ?thesis
    using span_retain [OF ok a(1) c] span_create [OF ok a n, of al] unfolding sub by (auto simp: wf)
qed

lemma subspan_cases:
  assumes ok: "hal_ok s R" and p: "hb_at s p = Some b" and c: "hal_contents s p = Some c" and fits: "fits offset len"
  defines "n \<equiv> if len = IREE_WHOLE_BUFFER then length c - unat offset else unat len"
  shows "(if unat offset \<le> length c \<and> unat offset + n \<le> length c
    then span_result (al sizeof_hal_buffer \<noteq> IREE_STATUS_OK) s R (take n (drop (unat offset) c)) (iree_hal_buffer_subspan al s p offset len)
    else iree_hal_buffer_subspan al s p offset len = Some (IREE_STATUS_OUT_OF_RANGE, s, None))"
proof -
  obtain d where d: "owner_bytes s (hb_allocated_buffer b) = Some d" "length d < 2 ^ 63" "unat (hb_byte_offset b) + unat (hb_byte_length b) \<le> length d"
      "c = take (unat (hb_byte_length b)) (drop (unat (hb_byte_offset b)) d)"
    using contents_ok [OF ok p] c by auto
  have lc: "length c = unat (hb_byte_length b)" using d by simp
  note r = calculate_range_cases [OF fits, of "hb_byte_offset b" "hb_byte_length b"]
  show ?thesis
  proof (cases "unat offset \<le> length c \<and> unat offset + n \<le> length c")
    case False
    then have "iree_hal_buffer_calculate_range True (hb_byte_offset b) (hb_byte_length b) offset len = (IREE_STATUS_OUT_OF_RANGE, 0, 0)"
      using r d lc by (auto simp: n_def word_le_nat_alt split: if_splits)
    then show ?thesis using False p by (subst iree_hal_buffer_subspan.simps) auto
  next
    case True
    then obtain o' n' where r': "iree_hal_buffer_calculate_range True (hb_byte_offset b) (hb_byte_length b) offset len = (IREE_STATUS_OK, o', n')"
      using r d lc by (auto simp: n_def word_le_nat_alt split: if_splits)
    have on: "unat o' = unat (hb_byte_offset b) + unat offset" "unat n' = n" "unat o' + unat n' \<le> length d"
    proof -
      show "unat n' = n" using r r' d lc True by (auto simp: n_def word_le_nat_alt unat_sub split: if_splits)
      moreover show "unat o' = unat (hb_byte_offset b) + unat offset" using calculate_range_ok [OF fits _ r'] d by simp
      ultimately show "unat o' + unat n' \<le> length d" using True lc d by simp
    qed
    have "n \<le> unat (hb_byte_length b) - unat offset" using True lc by arith
    then have slice: "take n (drop (unat offset) c) = take (unat n') (drop (unat o') d)"
      using on d(4) by (simp add: drop_take add.commute)
    show ?thesis
    proof (cases "o' = 0 \<and> n' = hb_byte_length b")
      case whole: True
      then have "take n (drop (unat offset) c) = c" using on lc by auto
      moreover have "iree_hal_buffer_subspan al s p offset len = do { s \<leftarrow> iree_hal_buffer_retain s p; Some (IREE_STATUS_OK, s, Some p) }"
        using whole p r' by (subst iree_hal_buffer_subspan.simps) simp
      ultimately show ?thesis using span_retain [OF ok p c] True by simp
    next
      case part: False
      show ?thesis
      proof (cases "hb_vtable b")
        case (HeapBuffer g)
        then have "hb_allocated_buffer b = p" "g = d" using hal_okD(1) [OF ok p] d(1) p by (auto simp: buffer_wf_def owner_bytes_def)
        moreover from this have "iree_hal_buffer_subspan al s p offset len = iree_hal_subspan_buffer_create al s p o' n'"
          using part p r' by (subst iree_hal_buffer_subspan.simps) auto
        ultimately show ?thesis using span_create [OF ok p HeapBuffer, of o' n' al] on slice True by simp
      next
        case SubspanBuffer
        have ne: "hb_allocated_buffer b \<noteq> p" using hal_okD(1) [OF ok p] SubspanBuffer by (simp add: buffer_wf_def)
        have "iree_hal_buffer_subspan al s p offset len = iree_hal_buffer_subspan al s (hb_allocated_buffer b) o' n'"
          using part p r' ne by (subst iree_hal_buffer_subspan.simps) auto
        moreover obtain a where "hb_at s (hb_allocated_buffer b) = Some a" "hb_vtable a = HeapBuffer d" using owner_bytesD [OF d(1)] by blast
        ultimately show ?thesis using span_heap [OF ok _ _ on(3), of "hb_allocated_buffer b" a al] slice True by simp
      qed
    qed
  qed
qed

section \<open>Overlap\<close>

definition range_cells :: "iree_hal_buffer \<Rightarrow> u64 \<Rightarrow> u64 \<Rightarrow> (nat \<times> nat) set" where
  "range_cells b offset n = {hb_allocated_buffer b} \<times> {unat (hb_byte_offset b) + unat offset ..< unat (hb_byte_offset b) + unat offset + unat n}"

definition range_inside :: "iree_hal_buffer \<Rightarrow> u64 \<Rightarrow> u64 \<Rightarrow> bool" where
  "range_inside b offset n \<longleftrightarrow> unat (hb_byte_offset b) + unat (hb_byte_length b) < 2 ^ 63 \<and> unat offset + unat n \<le> unat (hb_byte_length b)"

lemma interval_eq:
  fixes i j m n :: nat
  assumes "0 < m" "0 < n"
  shows "{i ..< i + m} = {j ..< j + n} \<longleftrightarrow> i = j \<and> m = n"
  using assms by (auto simp: ivl_subset set_eq_subset)

lemma interval_disjoint:
  fixes i j m n :: nat
  assumes "0 < m" "0 < n"
  shows "{i ..< i + m} \<inter> {j ..< j + n} = {} \<longleftrightarrow> \<not> (j < i + m \<and> i < j + n)"
proof
  assume d: "{i ..< i + m} \<inter> {j ..< j + n} = {}"
  show "\<not> (j < i + m \<and> i < j + n)"
  proof
    assume "j < i + m \<and> i < j + n"
    then have "max i j \<in> {i ..< i + m} \<inter> {j ..< j + n}" using assms by auto
    then show False using d by blast
  qed
qed auto

lemma test_overlap_same:
  assumes l: "range_inside lhs lo ln" and r: "range_inside rhs ro rn"
    and same: "hb_allocated_buffer lhs = hb_allocated_buffer rhs" "ln \<noteq> 0" "rn \<noteq> 0"
  shows "iree_hal_buffer_test_overlap lhs lo ln rhs ro rn =
    (if range_cells lhs lo ln \<inter> range_cells rhs ro rn = {} then IREE_HAL_BUFFER_OVERLAP_DISJOINT
     else if range_cells lhs lo ln = range_cells rhs ro rn then IREE_HAL_BUFFER_OVERLAP_COMPLETE
     else IREE_HAL_BUFFER_OVERLAP_PARTIAL)"
proof -
  define i j where "i = unat (hb_byte_offset lhs) + unat lo" and "j = unat (hb_byte_offset rhs) + unat ro"
  have w: "ln \<noteq> IREE_WHOLE_BUFFER" "rn \<noteq> IREE_WHOLE_BUFFER" using l r unat_WHOLE by (auto simp: range_inside_def)
  have n: "0 < unat ln" "0 < unat rn" using same by (simp_all add: unat_gt_0)
  have ij: "i + unat ln < 2 ^ 63" "j + unat rn < 2 ^ 63" using l r by (simp_all add: range_inside_def i_def j_def)
  have u: "unat (hb_byte_offset lhs + lo) = i" "unat (hb_byte_offset rhs + ro) = j"
    using ij by (simp_all add: i_def j_def unat_plus_if')
  then have v: "unat (hb_byte_offset lhs + lo + ln) = i + unat ln" "unat (hb_byte_offset rhs + ro + rn) = j + unat rn"
    using ij by (simp_all add: unat_plus_if' [of "hb_byte_offset lhs + lo"] unat_plus_if' [of "hb_byte_offset rhs + ro"])
  have o: "hb_byte_offset lhs + lo = hb_byte_offset rhs + ro \<longleftrightarrow> i = j" using u by (metis word_unat_eq_iff)
  have e: "ln = rn \<longleftrightarrow> unat ln = unat rn" by (simp add: word_unat_eq_iff)
  have t: "iree_hal_buffer_test_overlap lhs lo ln rhs ro rn =
      (if i = j \<and> unat ln = unat rn then IREE_HAL_BUFFER_OVERLAP_COMPLETE
       else if j < i + unat ln \<and> i < j + unat rn then IREE_HAL_BUFFER_OVERLAP_PARTIAL else IREE_HAL_BUFFER_OVERLAP_DISJOINT)"
    unfolding iree_hal_buffer_test_overlap_def Let_def word_less_nat_alt using same w u v o e by simp
  have c: "range_cells lhs lo ln = {hb_allocated_buffer rhs} \<times> {i ..< i + unat ln}"
      "range_cells rhs ro rn = {hb_allocated_buffer rhs} \<times> {j ..< j + unat rn}"
    using same by (simp_all add: range_cells_def i_def j_def)
  have "range_cells lhs lo ln \<inter> range_cells rhs ro rn = {} \<longleftrightarrow> {i ..< i + unat ln} \<inter> {j ..< j + unat rn} = {}"
    unfolding c by blast
  moreover have "range_cells lhs lo ln = range_cells rhs ro rn \<longleftrightarrow> {i ..< i + unat ln} = {j ..< j + unat rn}"
    unfolding c by blast
  ultimately show ?thesis unfolding t interval_disjoint [OF n] interval_eq [OF n] using n by simp
qed

lemma test_overlap_cases:
  assumes l: "range_inside lhs lo ln" and r: "range_inside rhs ro rn"
  shows "iree_hal_buffer_test_overlap lhs lo ln rhs ro rn =
    (if range_cells lhs lo ln \<inter> range_cells rhs ro rn = {} then IREE_HAL_BUFFER_OVERLAP_DISJOINT
     else if range_cells lhs lo ln = range_cells rhs ro rn then IREE_HAL_BUFFER_OVERLAP_COMPLETE
     else IREE_HAL_BUFFER_OVERLAP_PARTIAL)"
proof -
  have w: "ln \<noteq> IREE_WHOLE_BUFFER" "rn \<noteq> IREE_WHOLE_BUFFER" using l r unat_WHOLE by (auto simp: range_inside_def)
  consider (owner) "hb_allocated_buffer lhs \<noteq> hb_allocated_buffer rhs" | (empty) "ln = 0 \<or> rn = 0"
    | (same) "hb_allocated_buffer lhs = hb_allocated_buffer rhs \<and> ln \<noteq> 0 \<and> rn \<noteq> 0" by blast
  then show ?thesis
  proof cases
    case owner
    then have "range_cells lhs lo ln \<inter> range_cells rhs ro rn = {}" by (auto simp: range_cells_def)
    then show ?thesis using owner by (simp add: iree_hal_buffer_test_overlap_def)
  next
    case empty
    then have "range_cells lhs lo ln \<inter> range_cells rhs ro rn = {}" by (auto simp: range_cells_def)
    then show ?thesis unfolding iree_hal_buffer_test_overlap_def using empty w by (simp add: Let_def)
  next
    case same
    then show ?thesis using test_overlap_same [OF l r] by simp
  qed
qed

section \<open>Copying\<close>

lemma maps_inside:
  assumes "hal_ok s R" "hb_at s p = Some b" "maps_to b memory_access offset n m" "n \<noteq> IREE_WHOLE_BUFFER"
  shows "range_inside b offset n" "mp_data_length m = n"
  using contents_ok [OF assms(1,2)] assms(3,4) by (auto simp: maps_to_def range_inside_def)

lemma disjoint_not_overlapping:
  assumes "maps_to b access1 off1 n m1" "maps_to e access2 off2 n m2" "range_cells b off1 n \<inter> range_cells e off2 n = {}" "n \<noteq> 0"
  shows "\<not> ranges_overlap m1 m2 (unat n)"
proof -
  have n: "0 < unat n" using assms(4) by (simp add: unat_gt_0)
  have m: "mp_owner m1 = hb_allocated_buffer b" "mp_owner m2 = hb_allocated_buffer e"
      "unat (mp_byte_offset m1) = unat (hb_byte_offset b) + unat off1" "unat (mp_byte_offset m2) = unat (hb_byte_offset e) + unat off2"
    using assms(1,2) by (simp_all add: maps_to_def)
  let ?I = "{unat (mp_byte_offset m1) ..< unat (mp_byte_offset m1) + unat n}" and ?J = "{unat (mp_byte_offset m2) ..< unat (mp_byte_offset m2) + unat n}"
  have "?I \<inter> ?J = {}" if "mp_owner m1 = mp_owner m2"
  proof -
    have "({mp_owner m1} \<times> ?I) \<inter> ({mp_owner m1} \<times> ?J) = {}"
      using assms(3) that unfolding range_cells_def m [symmetric] by simp
    then show ?thesis by blast
  qed
  then show ?thesis unfolding interval_disjoint [OF n n] ranges_overlap_def by blast
qed

lemma contents_spliced:
  assumes "same_but (hb_allocated_buffer b) s s'" "owner_bytes s (hb_allocated_buffer b) = Some d"
    and "owner_bytes s' (hb_allocated_buffer b) = Some d'" "write_bytes d off xs = Some d'" "hb_at s p = Some b"
    and c: "hal_contents s p = Some c" and off: "unat off = unat (hb_byte_offset b) + offset" "offset + length xs \<le> length c"
  shows "hal_contents s' p = Some (take offset c @ xs @ drop (offset + length xs) c)"
proof -
  obtain c' where c': "hal_contents s' p = Some c'" "length c' = length c"
      "\<forall>i < length c. c' ! i = (if unat off \<le> unat (hb_byte_offset b) + i \<and> unat (hb_byte_offset b) + i < unat off + length xs
        then xs ! (unat (hb_byte_offset b) + i - unat off) else c ! i)"
    using contents_after_write [OF assms(1-4,5) c] by auto
  have "c' = take offset c @ xs @ drop (offset + length xs) c"
    using c'(2,3) off by (intro nth_equalityI) (auto simp: nth_append)
  then show ?thesis using c'(1) by simp
qed

lemma copy_data_cases:
  assumes ok: "hal_ok s R" and p: "hb_at s p = Some b" "hal_contents s p = Some c" and q: "hb_at s q = Some e" "hal_contents s q = Some t"
    and n: "n \<noteq> IREE_WHOLE_BUFFER" "n \<noteq> 0" "unat po + unat n \<le> 2 ^ 64" "unat qo + unat n \<le> 2 ^ 64"
  shows "(\<exists>st. st \<noteq> IREE_STATUS_OK \<and> iree_hal_buffer_copy_data s p po q qo n = Some (st, s)
        \<and> (iree_hal_buffer_test_overlap b po n e qo n \<noteq> IREE_HAL_BUFFER_OVERLAP_DISJOINT
          \<or> iree_hal_buffer_map_range s p IREE_HAL_MEMORY_ACCESS_READ po n = Some (st, None)
          \<or> iree_hal_buffer_map_range s q IREE_HAL_MEMORY_ACCESS_DISCARD_WRITE qo n = Some (st, None)))
    \<or> (\<exists>s'. iree_hal_buffer_copy_data s p po q qo n = Some (IREE_STATUS_OK, s') \<and> hal_ok s' R
        \<and> unat po + unat n \<le> length c \<and> unat qo + unat n \<le> length t
        \<and> hal_contents s' q = Some (take (unat qo) t @ take (unat n) (drop (unat po) c) @ drop (unat qo + unat n) t))"
proof (cases "iree_hal_buffer_test_overlap b po n e qo n = IREE_HAL_BUFFER_OVERLAP_DISJOINT")
  case False
  then show ?thesis using p q n by (simp add: iree_hal_buffer_copy_data_def)
next
  case disj: True
  have fits: "fits po n" "fits qo n" using n by (simp_all add: fits_def)
  note copy_def = iree_hal_buffer_copy_data_def
  from map_range_ok [OF ok p(1) fits(1), of IREE_HAL_MEMORY_ACCESS_READ] show ?thesis
  proof (elim disjE exE conjE)
    fix sm
    assume sm: "iree_hal_buffer_map_range s p IREE_HAL_MEMORY_ACCESS_READ po n = Some (IREE_STATUS_OK, Some sm)"
      and st: "maps_to b IREE_HAL_MEMORY_ACCESS_READ po n sm"
    from map_range_ok [OF ok q(1) fits(2), of IREE_HAL_MEMORY_ACCESS_DISCARD_WRITE] show ?thesis
    proof (elim disjE exE conjE)
      fix tm
      assume tm: "iree_hal_buffer_map_range s q IREE_HAL_MEMORY_ACCESS_DISCARD_WRITE qo n = Some (IREE_STATUS_OK, Some tm)"
        and tt: "maps_to e IREE_HAL_MEMORY_ACCESS_DISCARD_WRITE qo n tm"
      note si = maps_inside [OF ok p(1) st n(1)] and ti = maps_inside [OF ok q(1) tt n(1)]
      have "range_cells b po n \<inter> range_cells e qo n = {}"
        using disj unfolding test_overlap_cases [OF si(1) ti(1)] by (simp split: if_splits)
      then have no: "\<not> ranges_overlap sm tm (unat n)" by (rule disjoint_not_overlapping [OF st tt _ n(2)])
      obtain d where d: "owner_bytes s (hb_allocated_buffer b) = Some d" "unat (hb_byte_offset b) + unat (hb_byte_length b) \<le> length d"
          "c = take (unat (hb_byte_length b)) (drop (unat (hb_byte_offset b)) d)"
        using contents_ok [OF ok p(1)] p(2) by auto
      obtain g where g: "owner_bytes s (hb_allocated_buffer e) = Some g" "length g < 2 ^ 63" "unat (hb_byte_offset e) + unat (hb_byte_length e) \<le> length g"
          "t = take (unat (hb_byte_length e)) (drop (unat (hb_byte_offset e)) g)"
        using contents_ok [OF ok q(1)] q(2) by auto
      let ?xs = "take (unat n) (drop (unat po) c)"
      have lens: "unat po + unat n \<le> length c" "unat qo + unat n \<le> length t" using si(1) ti(1) d g by (simp_all add: range_inside_def)
      have xs: "read_mapping s sm n = Some ?xs" "length ?xs = unat n"
        using st d n(1) lens(1) by (auto simp: read_mapping_def maps_to_def read_bytes_def take_drop min_def add.commute)
      have own: "owner_bytes s (mp_owner tm) = Some g" "unat (mp_byte_offset tm) + length ?xs \<le> length g" "mp_owner tm = hb_allocated_buffer e"
          "unat (mp_byte_offset tm) = unat (hb_byte_offset e) + unat qo" "mp_allowed_access tm = IREE_HAL_MEMORY_ACCESS_DISCARD_WRITE"
        using tt g xs(2) lens by (simp_all add: maps_to_def)
      obtain s' g' where s': "write_mapping s tm ?xs = Some s'" "hal_ok s' R" "same_but (hb_allocated_buffer e) s s'"
          "owner_bytes s' (hb_allocated_buffer e) = Some g'" "write_bytes g (mp_byte_offset tm) ?xs = Some g'"
        using write_mapping_ok [OF ok own(1,2)] own(3) by auto
      obtain v where v: "hb_at s' q = Some (e\<lparr>hb_vtable := v\<rparr>)" using same_butD [OF s'(3) q(1)] by blast
      have "flush_unless_coherent s' q tm n = Some IREE_STATUS_OK"
        using flush_ok [OF v own(5), of n] own(2) xs(2) ti(2) g(2) by simp
      then have "iree_hal_buffer_copy_data s p po q qo n = Some (IREE_STATUS_OK, s')"
        using p(1) q(1) n disj sm tm ti(2) no xs(1) s'(1) by (simp add: copy_def)
      moreover have "hal_contents s' q = Some (take (unat qo) t @ ?xs @ drop (unat qo + unat n) t)"
        using contents_spliced [OF s'(3) g(1) s'(4,5) q own(4)] lens xs(2) by simp
      ultimately show ?thesis using s'(2) lens by blast
    qed (use p q n disj sm in \<open>simp add: copy_def\<close>)
  qed (use p q n disj in \<open>simp add: copy_def\<close>)
qed

end
