(* ===== verification/HAL_BufferView.thy ===== *)
theory HAL_BufferView
  imports HAL_BufferSafety
begin

text \<open>
  The heap allocator (\<^verbatim>\<open>iree/hal/allocator_heap.c\<close>, reached through \<^verbatim>\<open>iree/hal/allocator.c\<close>) and
  buffer views (\<^verbatim>\<open>iree/hal/buffer_view.c\<close>): shaped and typed views of a buffer, the arithmetic of
  row-major offsets and ranges, and subviews. Dimensions are signed 32-bit integers, kept as words.
\<close>

section \<open>The heap allocator\<close>

definition IREE_HAL_MEMORY_TYPE_DEVICE_VISIBLE :: u32 where "IREE_HAL_MEMORY_TYPE_DEVICE_VISIBLE = 16"
definition IREE_HAL_MEMORY_ACCESS_ALL :: u32 where "IREE_HAL_MEMORY_ACCESS_ALL = 7"
definition IREE_HAL_BUFFER_USAGE_TRANSFER :: u32 where "IREE_HAL_BUFFER_USAGE_TRANSFER = 2"
definition IREE_HAL_BUFFER_USAGE_DISPATCH :: u32 where "IREE_HAL_BUFFER_USAGE_DISPATCH = 8"
definition IREE_HAL_BUFFER_COMPATIBILITY_ALLOCATABLE :: u32 where "IREE_HAL_BUFFER_COMPATIBILITY_ALLOCATABLE = 1"
definition IREE_HAL_BUFFER_COMPATIBILITY_IMPORTABLE :: u32 where "IREE_HAL_BUFFER_COMPATIBILITY_IMPORTABLE = 2"
definition IREE_HAL_BUFFER_COMPATIBILITY_QUEUE_TRANSFER :: u32 where "IREE_HAL_BUFFER_COMPATIBILITY_QUEUE_TRANSFER = 1024"
definition IREE_HAL_BUFFER_COMPATIBILITY_QUEUE_DISPATCH :: u32 where "IREE_HAL_BUFFER_COMPATIBILITY_QUEUE_DISPATCH = 2048"

definition iree_hal_heap_allocator_query_buffer_compatibility :: "u32 \<Rightarrow> u32 \<Rightarrow> u32 \<Rightarrow> u64 \<Rightarrow> u32" where
  "iree_hal_heap_allocator_query_buffer_compatibility memory_type allowed_usage intended_usage allocation_size =
    (let intended_usage = intended_usage AND allowed_usage;
         compatibility = IREE_HAL_BUFFER_COMPATIBILITY_ALLOCATABLE OR IREE_HAL_BUFFER_COMPATIBILITY_IMPORTABLE
     in if iree_all_bits_set memory_type IREE_HAL_MEMORY_TYPE_DEVICE_VISIBLE
        then (let compatibility = (if iree_all_bits_set intended_usage IREE_HAL_BUFFER_USAGE_TRANSFER
                    then compatibility OR IREE_HAL_BUFFER_COMPATIBILITY_QUEUE_TRANSFER else compatibility)
              in if iree_all_bits_set intended_usage IREE_HAL_BUFFER_USAGE_DISPATCH
                 then compatibility OR IREE_HAL_BUFFER_COMPATIBILITY_QUEUE_DISPATCH else compatibility)
        else compatibility)"

text \<open>The adjusted memory type and usage; the access is left as it is.\<close>

definition iree_hal_heap_allocator_make_compatible :: "u32 \<Rightarrow> u32 \<Rightarrow> u32 \<times> u32" where
  "iree_hal_heap_allocator_make_compatible memory_type allowed_usage =
    (memory_type OR IREE_HAL_MEMORY_TYPE_HOST_VISIBLE,
     allowed_usage OR IREE_HAL_BUFFER_USAGE_MAPPING OR IREE_HAL_BUFFER_USAGE_TRANSFER)"

definition iree_hal_heap_allocator_allocate_buffer ::
  "iree_allocator \<Rightarrow> hal_store \<Rightarrow> u32 \<Rightarrow> u32 \<Rightarrow> u64 \<Rightarrow> (iree_status \<times> hal_store \<times> nat option) option" where
  "iree_hal_heap_allocator_allocate_buffer host_allocator s memory_type allowed_usage allocation_size =
    (let (memory_type, allowed_usage) = iree_hal_heap_allocator_make_compatible memory_type allowed_usage
     in iree_hal_heap_buffer_create host_allocator s memory_type IREE_HAL_MEMORY_ACCESS_ALL allowed_usage allocation_size)"

definition iree_hal_heap_allocator_wrap_buffer ::
  "iree_allocator \<Rightarrow> hal_store \<Rightarrow> u32 \<Rightarrow> u32 \<Rightarrow> u32 \<Rightarrow> u8 list \<Rightarrow> iree_status \<times> hal_store \<times> nat option" where
  "iree_hal_heap_allocator_wrap_buffer host_allocator s memory_type allowed_access allowed_usage bytes =
    (let (memory_type, allowed_usage) = iree_hal_heap_allocator_make_compatible memory_type allowed_usage
     in iree_hal_heap_buffer_wrap host_allocator s memory_type allowed_access allowed_usage (of_nat (length bytes)) bytes)"

section \<open>Element types and views\<close>

definition iree_hal_element_bit_count :: "u32 \<Rightarrow> u64" where "iree_hal_element_bit_count elt_type = ucast (elt_type AND 0xFF)"

definition iree_hal_element_byte_count :: "u32 \<Rightarrow> u64" where
  "iree_hal_element_byte_count elt_type = (iree_hal_element_bit_count elt_type + 8 - 1) div 8"

record iree_hal_buffer_view =
  bv_ref_count :: int
  bv_buffer :: nat
  bv_element_type :: u32
  bv_byte_length :: u64
  bv_shape :: "u32 list"

type_synonym view_store = "iree_hal_buffer_view option list"

definition bv_at :: "view_store \<Rightarrow> nat \<Rightarrow> iree_hal_buffer_view option" where
  "bv_at vs v = (if v < length vs then vs ! v else None)"

text \<open>A product with the dimensions, widened to unsigned 64 bits.\<close>

definition times_dims :: "u64 \<Rightarrow> u32 list \<Rightarrow> u64" where "times_dims n dims = foldl (\<lambda>a d. a * scast d) n dims"

definition sizeof_buffer_view :: u64 where "sizeof_buffer_view = 40"

text \<open>A null pointer for the dimensions is \<open>None\<close>; a null buffer is dereferenced.\<close>

definition iree_hal_buffer_view_create ::
  "iree_allocator \<Rightarrow> hal_store \<Rightarrow> view_store \<Rightarrow> nat option \<Rightarrow> u32 list option \<Rightarrow> u64 \<Rightarrow> u32 \<Rightarrow>
    (iree_status \<times> hal_store \<times> view_store \<times> nat option) option" where
  "iree_hal_buffer_view_create host_allocator s vs buffer shape shape_rank elt_type =
    (if shape_rank > 0 \<and> shape = None then Some (IREE_STATUS_INVALID_ARGUMENT, s, vs, None)
     else do {
       buffer \<leftarrow> buffer;
       _ \<leftarrow> hb_at s buffer;
       let st = host_allocator (sizeof_buffer_view + 4 * shape_rank);
       if st \<noteq> IREE_STATUS_OK then Some (st, s, vs, None)
       else do {
         s \<leftarrow> iree_hal_buffer_retain s buffer;
         let dims = (case shape of Some dims \<Rightarrow> dims | None \<Rightarrow> []);
         if length dims < unat shape_rank then None
         else do {
           let dims = take (unat shape_rank) dims;
           Some (IREE_STATUS_OK, s, vs @ [Some \<lparr>bv_ref_count = 1, bv_buffer = buffer, bv_element_type = elt_type,
             bv_byte_length = times_dims (iree_hal_element_byte_count elt_type) dims, bv_shape = dims\<rparr>], Some (length vs))
         }
       }
     })"

definition iree_hal_buffer_view_retain :: "view_store \<Rightarrow> nat \<Rightarrow> view_store option" where
  "iree_hal_buffer_view_retain vs v = do { w \<leftarrow> bv_at vs v; Some (vs[v := Some (w\<lparr>bv_ref_count := bv_ref_count w + 1\<rparr>)]) }"

definition iree_hal_buffer_view_destroy :: "hal_store \<Rightarrow> view_store \<Rightarrow> nat \<Rightarrow> (hal_store \<times> view_store) option" where
  "iree_hal_buffer_view_destroy s vs v = do {
     w \<leftarrow> bv_at vs v;
     s \<leftarrow> iree_hal_buffer_release s (bv_buffer w);
     Some (s, vs[v := None])
   }"

definition iree_hal_buffer_view_release :: "hal_store \<Rightarrow> view_store \<Rightarrow> nat \<Rightarrow> (hal_store \<times> view_store) option" where
  "iree_hal_buffer_view_release s vs v = do {
     w \<leftarrow> bv_at vs v;
     let vs = vs[v := Some (w\<lparr>bv_ref_count := bv_ref_count w - 1\<rparr>)];
     if bv_ref_count w = 1 then iree_hal_buffer_view_destroy s vs v else Some (s, vs)
   }"

definition iree_hal_buffer_view_shape_dim :: "iree_hal_buffer_view \<Rightarrow> u64 \<Rightarrow> u32 option" where
  "iree_hal_buffer_view_shape_dim w index =
    (if unat index > length (bv_shape w) then Some 0
     else if unat index < length (bv_shape w) then Some (bv_shape w ! unat index) else None)"

definition iree_hal_buffer_view_element_count :: "iree_hal_buffer_view \<Rightarrow> u64" where
  "iree_hal_buffer_view_element_count w = times_dims 1 (bv_shape w)"

text \<open>The status, the rank and the dimensions written.\<close>

definition iree_hal_buffer_view_shape :: "iree_hal_buffer_view \<Rightarrow> u64 \<Rightarrow> iree_status \<times> u64 \<times> u32 list" where
  "iree_hal_buffer_view_shape w rank_capacity =
    (let shape_rank = of_nat (length (bv_shape w))
     in if rank_capacity < shape_rank then (IREE_STATUS_OUT_OF_RANGE, shape_rank, [])
        else (IREE_STATUS_OK, shape_rank, bv_shape w))"

definition iree_hal_buffer_view_reshape :: "view_store \<Rightarrow> nat \<Rightarrow> u32 list \<Rightarrow> (iree_status \<times> view_store) option" where
  "iree_hal_buffer_view_reshape vs v shape = do {
     w \<leftarrow> bv_at vs v;
     if length shape \<noteq> length (bv_shape w) then Some (IREE_STATUS_INVALID_ARGUMENT, vs)
     else if times_dims 1 shape \<noteq> iree_hal_buffer_view_element_count w then Some (IREE_STATUS_INVALID_ARGUMENT, vs)
     else Some (IREE_STATUS_OK, vs[v := Some (w\<lparr>bv_shape := shape\<rparr>)])
   }"

definition iree_hal_buffer_view_element_size :: "iree_hal_buffer_view \<Rightarrow> u64" where
  "iree_hal_buffer_view_element_size w = iree_hal_element_byte_count (bv_element_type w)"

section \<open>Offsets and ranges\<close>

definition iree_hal_buffer_compute_view_size :: "u32 list \<Rightarrow> u32 \<Rightarrow> u64" where
  "iree_hal_buffer_compute_view_size shape elt_type = times_dims (iree_hal_element_byte_count elt_type) shape"

fun view_offset_loop :: "u64 \<Rightarrow> u32 list \<Rightarrow> u32 list \<Rightarrow> iree_status \<times> u64" where
  "view_offset_loop offset (d # dims) (i # indices) =
    (if sint i \<ge> sint d then (IREE_STATUS_OUT_OF_RANGE, 0) else view_offset_loop (offset + times_dims (scast i) dims) dims indices)"
| "view_offset_loop offset _ _ = (IREE_STATUS_OK, offset)"

definition iree_hal_buffer_compute_view_offset :: "u32 list \<Rightarrow> u32 \<Rightarrow> u32 list \<Rightarrow> iree_status \<times> u64" where
  "iree_hal_buffer_compute_view_offset shape elt_type indices =
    (if length shape \<noteq> length indices then (IREE_STATUS_INVALID_ARGUMENT, 0)
     else let (st, offset) = view_offset_loop 0 shape indices
          in if st \<noteq> IREE_STATUS_OK then (st, 0) else (IREE_STATUS_OK, offset * iree_hal_element_byte_count elt_type))"

text \<open>The last index of a range in each dimension; a sum that leaves the signed 32 bits is undefined.\<close>

definition fits_s32 :: "int \<Rightarrow> bool" where "fits_s32 x \<longleftrightarrow> - 2147483648 \<le> x \<and> x < 2147483648"

fun view_end_indices :: "u32 list \<Rightarrow> u32 list \<Rightarrow> u32 list option" where
  "view_end_indices (i # start_indices) (l # lengths) =
    (if fits_s32 (sint i + sint l) \<and> fits_s32 (sint i + sint l - 1)
     then map_option (Cons (i + l - 1)) (view_end_indices start_indices lengths) else None)"
| "view_end_indices _ _ = Some []"

definition iree_hal_buffer_compute_view_range ::
  "u32 list \<Rightarrow> u32 \<Rightarrow> u32 list \<Rightarrow> u32 list \<Rightarrow> (iree_status \<times> u64 \<times> u64) option" where
  "iree_hal_buffer_compute_view_range shape elt_type start_indices lengths =
    (if length start_indices \<noteq> length lengths then Some (IREE_STATUS_INVALID_ARGUMENT, 0, 0)
     else if length shape \<noteq> length start_indices then Some (IREE_STATUS_INVALID_ARGUMENT, 0, 0)
     else do {
       end_indices \<leftarrow> view_end_indices start_indices lengths;
       let element_size = iree_hal_element_byte_count elt_type;
       let subspan_length = times_dims element_size lengths;
       let (st1, start_byte_offset) = iree_hal_buffer_compute_view_offset shape elt_type start_indices;
       let (st2, end_byte_offset) = iree_hal_buffer_compute_view_offset shape elt_type end_indices;
       Some (if st1 \<noteq> IREE_STATUS_OK then (st1, 0, 0)
         else if st2 \<noteq> IREE_STATUS_OK then (st2, 0, 0)
         else if subspan_length \<noteq> end_byte_offset - start_byte_offset + element_size then (IREE_STATUS_UNIMPLEMENTED, 0, 0)
         else (IREE_STATUS_OK, start_byte_offset, subspan_length))
     })"

definition iree_hal_buffer_view_compute_offset :: "iree_hal_buffer_view \<Rightarrow> u32 list \<Rightarrow> iree_status \<times> u64" where
  "iree_hal_buffer_view_compute_offset w indices = iree_hal_buffer_compute_view_offset (bv_shape w) (bv_element_type w) indices"

definition iree_hal_buffer_view_compute_range :: "iree_hal_buffer_view \<Rightarrow> u32 list \<Rightarrow> u32 list \<Rightarrow> (iree_status \<times> u64 \<times> u64) option" where
  "iree_hal_buffer_view_compute_range w start_indices lengths =
    iree_hal_buffer_compute_view_range (bv_shape w) (bv_element_type w) start_indices lengths"

section \<open>Views of new buffers and of parts of a view\<close>

definition release_if_any :: "hal_store \<Rightarrow> nat option \<Rightarrow> hal_store option" where
  "release_if_any s p = (case p of None \<Rightarrow> Some s | Some p \<Rightarrow> iree_hal_buffer_release s p)"

definition iree_hal_buffer_view_allocate_buffer ::
  "iree_allocator \<Rightarrow> hal_store \<Rightarrow> view_store \<Rightarrow> u32 list \<Rightarrow> u32 \<Rightarrow> u32 \<Rightarrow> u32 \<Rightarrow>
    (iree_status \<times> hal_store \<times> view_store \<times> nat option) option" where
  "iree_hal_buffer_view_allocate_buffer host_allocator s vs shape elt_type memory_type allowed_usage = do {
     let allocation_size = iree_hal_buffer_compute_view_size shape elt_type;
     (st, s, buffer) \<leftarrow> iree_hal_heap_allocator_allocate_buffer host_allocator s memory_type allowed_usage allocation_size;
     (st, s, vs, v) \<leftarrow> (if st = IREE_STATUS_OK
       then iree_hal_buffer_view_create host_allocator s vs buffer (Some shape) (of_nat (length shape)) elt_type
       else Some (st, s, vs, None));
     s \<leftarrow> release_if_any s buffer;
     Some (st, s, vs, v)
   }"

definition iree_hal_buffer_view_clone_heap_buffer ::
  "iree_allocator \<Rightarrow> hal_store \<Rightarrow> view_store \<Rightarrow> u32 list \<Rightarrow> u32 \<Rightarrow> u32 \<Rightarrow> u32 \<Rightarrow> u8 list \<Rightarrow>
    (iree_status \<times> hal_store \<times> view_store \<times> nat option) option" where
  "iree_hal_buffer_view_clone_heap_buffer host_allocator s vs shape elt_type memory_type allowed_usage bytes = do {
     (st, s, vs, v) \<leftarrow> iree_hal_buffer_view_allocate_buffer host_allocator s vs shape elt_type memory_type allowed_usage;
     if st \<noteq> IREE_STATUS_OK then Some (st, s, vs, None)
     else do {
       v \<leftarrow> v;
       w \<leftarrow> bv_at vs v;
       (st, s) \<leftarrow> iree_hal_buffer_write_data s (bv_buffer w) 0 bytes;
       if st = IREE_STATUS_OK then Some (st, s, vs, Some v)
       else do { (s, vs) \<leftarrow> iree_hal_buffer_view_release s vs v; Some (st, s, vs, None) }
     }
   }"

definition iree_hal_buffer_view_wrap_heap_buffer ::
  "iree_allocator \<Rightarrow> hal_store \<Rightarrow> view_store \<Rightarrow> u32 list \<Rightarrow> u32 \<Rightarrow> u32 \<Rightarrow> u32 \<Rightarrow> u32 \<Rightarrow> u8 list \<Rightarrow>
    (iree_status \<times> hal_store \<times> view_store \<times> nat option) option" where
  "iree_hal_buffer_view_wrap_heap_buffer host_allocator s vs shape elt_type memory_type allowed_access allowed_usage bytes = do {
     let (st, s, buffer) = iree_hal_heap_allocator_wrap_buffer host_allocator s memory_type allowed_access allowed_usage bytes;
     (st, s, vs, v) \<leftarrow> (if st = IREE_STATUS_OK
       then iree_hal_buffer_view_create host_allocator s vs buffer (Some shape) (of_nat (length shape)) elt_type
       else Some (st, s, vs, None));
     s \<leftarrow> release_if_any s buffer;
     Some (st, s, vs, v)
   }"

definition iree_hal_buffer_view_wrap_or_clone_heap_buffer ::
  "iree_allocator \<Rightarrow> hal_store \<Rightarrow> view_store \<Rightarrow> u32 list \<Rightarrow> u32 \<Rightarrow> u32 \<Rightarrow> u32 \<Rightarrow> u32 \<Rightarrow> u8 list \<Rightarrow>
    (iree_status \<times> hal_store \<times> view_store \<times> nat option) option" where
  "iree_hal_buffer_view_wrap_or_clone_heap_buffer host_allocator s vs shape elt_type memory_type allowed_access allowed_usage bytes =
    (let compatibility = iree_hal_heap_allocator_query_buffer_compatibility memory_type allowed_usage
           IREE_HAL_BUFFER_USAGE_MAPPING (of_nat (length bytes))
     in if iree_all_bits_set compatibility IREE_HAL_BUFFER_COMPATIBILITY_IMPORTABLE
        then iree_hal_buffer_view_wrap_heap_buffer host_allocator s vs shape elt_type memory_type allowed_access allowed_usage bytes
        else iree_hal_buffer_view_clone_heap_buffer host_allocator s vs shape elt_type memory_type allowed_usage bytes)"

definition iree_hal_buffer_view_subview ::
  "iree_allocator \<Rightarrow> hal_store \<Rightarrow> view_store \<Rightarrow> nat \<Rightarrow> u32 list \<Rightarrow> u32 list \<Rightarrow>
    (iree_status \<times> hal_store \<times> view_store \<times> nat option) option" where
  "iree_hal_buffer_view_subview host_allocator s vs v start_indices lengths = do {
     w \<leftarrow> bv_at vs v;
     (st, start_offset, subview_length) \<leftarrow> iree_hal_buffer_view_compute_range w start_indices lengths;
     if st \<noteq> IREE_STATUS_OK then Some (st, s, vs, None)
     else do {
       (st, s, subview_buffer) \<leftarrow> iree_hal_buffer_subspan host_allocator s (bv_buffer w) start_offset subview_length;
       if st \<noteq> IREE_STATUS_OK then Some (st, s, vs, None)
       else do {
         (st, s, vs, r) \<leftarrow> iree_hal_buffer_view_create host_allocator s vs subview_buffer (Some lengths) (of_nat (length lengths)) (bv_element_type w);
         s \<leftarrow> release_if_any s subview_buffer;
         Some (st, s, vs, r)
       }
     }
   }"

end
