(* ===== verification/HAL_ViewSafety.thy ===== *)
theory HAL_ViewSafety
  imports HAL_BufferView
begin

text \<open>
  Lemmas on buffer views: row-major offsets as integers, when the 64-bit arithmetic of the code computes them,
  why a range the code accepts is contiguous, and what a subview is made of.
\<close>

section \<open>Row-major offsets\<close>

fun row_major :: "int list \<Rightarrow> int list \<Rightarrow> int" where
  "row_major (d # dims) (i # indices) = i * prod_list dims + row_major dims indices"
| "row_major _ _ = 0"

definition in_box :: "int list \<Rightarrow> int list \<Rightarrow> bool" where
  "in_box dims indices \<longleftrightarrow> list_all2 (\<lambda>d i. 0 \<le> i \<and> i < d) dims indices"

lemma in_box_simps [simp]:
  "in_box (d # dims) (i # indices) = (0 \<le> i \<and> i < d \<and> in_box dims indices)"
  "in_box [] indices \<longleftrightarrow> indices = []" "in_box dims [] \<longleftrightarrow> dims = []"
  by (auto simp: in_box_def)

lemma in_box_length: "in_box dims indices \<Longrightarrow> length indices = length dims"
  by (auto simp: in_box_def dest: list_all2_lengthD)

lemma times_dims_int: "times_dims n dims = n * of_int (prod_list (map sint dims))"
proof (induction dims arbitrary: n)
  case (Cons d dims)
  have "times_dims n (d # dims) = times_dims (n * scast d) dims" by (simp add: times_dims_def)
  then show ?case using Cons by (simp add: mult.assoc)
qed (simp add: times_dims_def)

lemma view_offset_loop_eq:
  assumes "length dims = length indices"
  shows "view_offset_loop offset dims indices =
    (if list_all2 (\<lambda>d i. sint i < sint d) dims indices
     then (IREE_STATUS_OK, offset + of_int (row_major (map sint dims) (map sint indices))) else (IREE_STATUS_OUT_OF_RANGE, 0))"
  using assms
proof (induction dims indices arbitrary: offset rule: list_induct2)
  case (Cons d dims i indices)
  show ?case by (simp add: Cons.IH times_dims_int algebra_simps)
qed simp

lemma row_major_bounds: "in_box dims indices \<Longrightarrow> 0 \<le> row_major dims indices \<and> row_major dims indices < prod_list dims"
proof (induction dims indices rule: row_major.induct)
  case (1 d dims i indices)
  then have r: "0 \<le> row_major dims indices" "row_major dims indices < prod_list dims" and i: "0 \<le> i" "i + 1 \<le> d" by auto
  have "(i + 1) * prod_list dims \<le> d * prod_list dims" using r i by (intro mult_right_mono) auto
  then show ?case using r i by (simp add: algebra_simps)
qed auto

lemma row_major_inject:
  assumes "in_box dims i" "in_box dims j" "row_major dims i = row_major dims j"
  shows "i = j"
  using assms
proof (induction dims arbitrary: i j)
  case Nil
  then show ?case by (cases i; cases j) auto
next
  case (Cons d dims)
  obtain a i' b j' where [simp]: "i = a # i'" "j = b # j'" using Cons.prems(1,2) by (cases i; cases j) auto
  let ?D = "prod_list dims"
  have r: "0 \<le> row_major dims i'" "row_major dims i' < ?D" "0 \<le> row_major dims j'" "row_major dims j' < ?D"
    using row_major_bounds Cons.prems(1,2) by auto
  have e: "a * ?D + row_major dims i' = b * ?D + row_major dims j'" using Cons.prems(3) by simp
  have "(a * ?D + row_major dims i') div ?D = a" "(b * ?D + row_major dims j') div ?D = b" using r by auto
  then have "a = b" using e by simp
  then show ?case using e Cons by auto
qed

lemma row_major_plus:
  "length s = length dims \<Longrightarrow> length k = length dims \<Longrightarrow> row_major dims (map2 (+) s k) = row_major dims s + row_major dims k"
proof (induction dims arbitrary: s k)
  case (Cons d dims)
  then show ?case by (cases s; cases k) (auto simp: algebra_simps)
qed simp

text \<open>
  A range of \<open>lengths\<close> elements per dimension is as long as the distance between its corners exactly if
  within the range an element has the same offset in the shape as in a shape of those lengths.
\<close>

lemma prod_list_pos: "\<forall>d \<in> set ds. 0 < d \<Longrightarrow> 0 < prod_list (ds :: int list)"
  by (induction ds) auto

lemma contiguous_step:
  fixes l D L S P :: int
  assumes "1 \<le> l" "L \<le> D" "L \<le> S" "l * L = (l - 1) * D + S"
  shows "S = L" "l = 1 \<or> D = L"
proof -
  have "(l - 1) * (D - L) + (S - L) = 0" using assms(4) by (simp add: algebra_simps)
  moreover have "0 \<le> (l - 1) * (D - L)" using assms by simp
  ultimately have "(l - 1) * (D - L) = 0" "S = L" using assms(3) by linarith+
  then show "S = L" "l = 1 \<or> D = L" by auto
qed

lemma span_at_least:
  "list_all2 (\<lambda>d l. 1 \<le> l \<and> l \<le> d) dims lens \<Longrightarrow>
    0 < prod_list lens \<and> prod_list lens \<le> prod_list dims \<and> prod_list lens \<le> row_major dims (map (\<lambda>l. l - 1) lens) + 1"
proof (induction rule: list_all2_induct)
  case (Cons d dims l lens)
  have "l * prod_list lens \<le> d * prod_list dims" using Cons by (intro mult_mono) auto
  moreover have "(l - 1) * prod_list lens \<le> (l - 1) * prod_list dims" using Cons by (intro mult_left_mono) auto
  ultimately show ?case using Cons by (simp add: algebra_simps)
qed simp

lemma contiguous_offsets:
  assumes "list_all2 (\<lambda>d l. 1 \<le> l \<and> l \<le> d) dims lens" "prod_list lens = row_major dims (map (\<lambda>l. l - 1) lens) + 1" "in_box lens k"
  shows "row_major dims k = row_major lens k"
  using assms
proof (induction arbitrary: k rule: list_all2_induct)
  case (Cons d dims l lens)
  obtain i k' where [simp]: "k = i # k'" using Cons.prems(2) by (cases k) auto
  have b: "1 \<le> l" "prod_list lens \<le> prod_list dims" "prod_list lens \<le> row_major dims (map (\<lambda>l. l - 1) lens) + 1"
    using span_at_least [OF Cons.hyps(2)] Cons.hyps(1) by auto
  have e: "l * prod_list lens = (l - 1) * prod_list dims + (row_major dims (map (\<lambda>l. l - 1) lens) + 1)" using Cons.prems(1) by simp
  have "prod_list lens = row_major dims (map (\<lambda>l. l - 1) lens) + 1" "l = 1 \<or> prod_list dims = prod_list lens"
    using contiguous_step [OF b e] by auto
  then show ?case using Cons.IH [of k'] Cons.prems(2) by auto
qed simp

section \<open>Offsets and ranges without overflow\<close>

lemma uint_of_int_small: "0 \<le> n \<Longrightarrow> n < 2 ^ 64 \<Longrightarrow> uint (of_int n :: u64) = n"
  by (simp add: unsigned_of_int take_bit_int_eq_self)

lemma of_int_u64_eq:
  assumes "of_int m = (of_int n :: u64)" "0 \<le> m" "m < 2 ^ 64" "0 \<le> n" "n < 2 ^ 64"
  shows "m = n"
  using arg_cong [OF assms(1), of uint] unfolding uint_of_int_small [OF assms(2,3)] uint_of_int_small [OF assms(4,5)] .

abbreviation elt_size :: "u32 \<Rightarrow> int" where "elt_size t \<equiv> uint (iree_hal_element_byte_count t)"

definition shape_fits :: "u32 list \<Rightarrow> u32 \<Rightarrow> bool" where
  "shape_fits shape t \<longleftrightarrow> 0 < elt_size t \<and> prod_list (map sint shape) * elt_size t < 2 ^ 63"

lemma view_offset_eq:
  "iree_hal_buffer_compute_view_offset shape t indices =
    (if length shape \<noteq> length indices then (IREE_STATUS_INVALID_ARGUMENT, 0)
     else if list_all2 (\<lambda>d i. sint i < sint d) shape indices
     then (IREE_STATUS_OK, of_int (row_major (map sint shape) (map sint indices) * elt_size t)) else (IREE_STATUS_OUT_OF_RANGE, 0))"
  by (simp add: iree_hal_buffer_compute_view_offset_def view_offset_loop_eq)

lemma in_box_less: "in_box (map sint shape) (map sint indices) \<Longrightarrow> list_all2 (\<lambda>d i. sint i < sint d) shape indices"
  by (auto simp: in_box_def list.rel_map elim: list_all2_mono)

lemma view_offset_ok:
  assumes "in_box (map sint shape) (map sint indices)" "shape_fits shape t"
  shows "\<exists>off. iree_hal_buffer_compute_view_offset shape t indices = (IREE_STATUS_OK, off)
    \<and> uint off = row_major (map sint shape) (map sint indices) * elt_size t
    \<and> uint off + elt_size t \<le> prod_list (map sint shape) * elt_size t"
proof -
  let ?r = "row_major (map sint shape) (map sint indices)" and ?P = "prod_list (map sint shape)"
  have r: "0 \<le> ?r" "?r + 1 \<le> ?P" using row_major_bounds [OF assms(1)] by auto
  have "(?r + 1) * elt_size t \<le> ?P * elt_size t" using r by (intro mult_right_mono) auto
  then have le: "?r * elt_size t + elt_size t \<le> ?P * elt_size t" by (simp add: algebra_simps)
  then have "uint (of_int (?r * elt_size t) :: u64) = ?r * elt_size t"
    using r assms(2) by (intro uint_of_int_small) (auto simp: shape_fits_def)
  then show ?thesis
    using in_box_less [OF assms(1)] in_box_length [OF assms(1)] le by (simp add: view_offset_eq)
qed

lemma sint_plus_fits: "fits_s32 (sint i + sint l) \<Longrightarrow> fits_s32 (sint i + sint l - 1) \<Longrightarrow> sint (i + l - 1 :: u32) = sint i + sint l - 1"
proof -
  assume "fits_s32 (sint i + sint l - 1)"
  then have s: "signed_take_bit 31 (sint i + sint l - 1) = sint i + sint l - 1"
    by (intro signed_take_bit_int_eq_self) (auto simp: fits_s32_def)
  have t: "sint (of_int n :: u32) = signed_take_bit 31 n" for n by (simp add: signed_of_int)
  have "i + l - 1 = (of_int (sint i + sint l - 1) :: u32)" by simp
  then have "sint (i + l - 1) = sint (of_int (sint i + sint l - 1) :: u32)" by (rule arg_cong)
  then show ?thesis unfolding t s .
qed

lemma view_end_indices_sint:
  "view_end_indices start lens = Some ends \<Longrightarrow> length start = length lens \<Longrightarrow>
    length ends = length start \<and> map sint ends = map2 (+) (map sint start) (map (\<lambda>l. l - 1) (map sint lens))"
proof (induction start lens arbitrary: ends rule: view_end_indices.induct)
  case (1 i start l lens)
  then show ?case by (auto simp: sint_plus_fits split: if_splits)
qed auto


lemma all2_map_sint: "list_all2 P (map sint xs) (map sint ys) = list_all2 (\<lambda>x y. P (sint x) (sint y)) xs ys"
  by (simp add: list.rel_map)

text \<open>An accepted range is contiguous.\<close>

lemma corner_lengths:
  assumes "list_all2 (\<lambda>d i. i < d) ds start" "list_all2 (\<lambda>d i. i < d) ds (map2 (+) start (map (\<lambda>l. l - 1) lens))"
    and "length lens = length start" "\<forall>i \<in> set start. 0 \<le> i" "\<forall>l \<in> set lens. 1 \<le> (l :: int)"
  shows "in_box ds start \<and> in_box ds (map2 (+) start (map (\<lambda>l. l - 1) lens)) \<and> list_all2 (\<lambda>d l. 1 \<le> l \<and> l \<le> d) ds lens"
  using assms
proof (induction ds start arbitrary: lens rule: list_all2_induct)
  case (Cons d ds i start)
  then show ?case by (cases lens) auto
qed simp

lemma view_range_ok:
  assumes r: "iree_hal_buffer_compute_view_range shape t start lens = Some (IREE_STATUS_OK, a, n)"
    and nonneg: "\<forall>i \<in> set start. 0 \<le> sint i" "\<forall>l \<in> set lens. 1 \<le> sint l" and fits: "shape_fits shape t"
  defines "ds \<equiv> map sint shape" and "ls \<equiv> map sint lens" and "is \<equiv> map sint start"
  shows "in_box ds is" "list_all2 (\<lambda>d l. 1 \<le> l \<and> l \<le> d) ds ls" "prod_list ls = row_major ds (map (\<lambda>l. l - 1) ls) + 1"
    "uint a = row_major ds is * elt_size t" "uint n = prod_list ls * elt_size t" "uint a + uint n \<le> prod_list ds * elt_size t"
proof -
  let ?e = "elt_size t"
  have len: "length start = length lens" "length shape = length start"
    using r by (auto simp: iree_hal_buffer_compute_view_range_def split: if_splits)
  obtain ends where ends: "view_end_indices start lens = Some ends"
    using r len by (auto simp: iree_hal_buffer_compute_view_range_def bind_eq_Some_conv)
  have e: "length ends = length start" "map sint ends = map2 (+) is (map (\<lambda>l. l - 1) ls)"
    using view_end_indices_sint [OF ends len(1)] by (simp_all add: is_def ls_def)
  have c: "list_all2 (\<lambda>d i. sint i < sint d) shape start" "list_all2 (\<lambda>d i. sint i < sint d) shape ends"
      "a = of_int (row_major ds is * ?e)" "n = times_dims (iree_hal_element_byte_count t) lens"
      "n = of_int (row_major ds (map sint ends) * ?e) - a + of_int ?e"
    using r len ends e(1) by (auto simp: iree_hal_buffer_compute_view_range_def view_offset_eq ds_def is_def Let_def split: if_splits)
  have c': "list_all2 (\<lambda>d i. i < d) ds is" "list_all2 (\<lambda>d i. i < d) ds (map sint ends)"
    using c(1,2) unfolding ds_def is_def all2_map_sint by simp_all
  have box: "in_box ds is" "in_box ds (map sint ends)" "list_all2 (\<lambda>d l. 1 \<le> l \<and> l \<le> d) ds ls"
    using corner_lengths [OF c'(1) c'(2) [unfolded e(2)]] nonneg len unfolding e(2) by (simp_all add: is_def ls_def)
  have pos: "0 < ?e" "prod_list ds * ?e < 2 ^ 63" using fits by (simp_all add: shape_fits_def ds_def)
  have sp: "0 < prod_list ls" "prod_list ls \<le> prod_list ds" using span_at_least [OF box(3)] by auto
  have rm: "0 \<le> row_major ds is" "row_major ds is < prod_list ds" "row_major ds (map sint ends) < prod_list ds"
    using row_major_bounds box(1,2) by auto
  have re: "row_major ds (map sint ends) = row_major ds is + row_major ds (map (\<lambda>l. l - 1) ls)"
    unfolding e(2) using len by (intro row_major_plus) (simp_all add: ds_def is_def ls_def)
  let ?L = "row_major ds (map (\<lambda>l. l - 1) ls) + 1"
  have L: "prod_list ls \<le> ?L" using span_at_least [OF box(3)] by auto
  have le: "prod_list ls * ?e \<le> prod_list ds * ?e" "?L * ?e \<le> prod_list ds * ?e" "(row_major ds is + ?L) * ?e \<le> prod_list ds * ?e"
    using sp rm re by (auto intro!: mult_right_mono)
  have n1: "n = of_int (prod_list ls * ?e)" using c(4) by (simp add: times_dims_int ls_def mult.commute)
  have n2: "n = of_int (?L * ?e)" unfolding c(5) c(3) re by (simp add: algebra_simps)
  have small: "x < 2 ^ 64" if "x \<le> prod_list ds * ?e" for x using that pos(2) by simp
  have ge: "0 \<le> prod_list ls * ?e" "0 \<le> ?L * ?e" "0 \<le> row_major ds is * ?e" using sp L rm pos(1) by simp_all
  have le': "row_major ds is * ?e + ?L * ?e \<le> prod_list ds * ?e" using le(3) by (simp only: distrib_right)
  have "prod_list ls * ?e = ?L * ?e"
    by (rule of_int_u64_eq [OF n1 [unfolded n2, symmetric] ge(1) small [OF le(1)] ge(2) small [OF le(2)]])
  then show eq: "prod_list ls = ?L" using pos by simp
  show "in_box ds is" "list_all2 (\<lambda>d l. 1 \<le> l \<and> l \<le> d) ds ls" by (fact box)+
  show ua: "uint a = row_major ds is * ?e" unfolding c(3)
    by (rule uint_of_int_small [OF ge(3) small]) (use le' ge(2) in linarith)
  show un: "uint n = prod_list ls * ?e" unfolding n1 by (rule uint_of_int_small [OF ge(1) small [OF le(1)]])
  show "uint a + uint n \<le> prod_list ds * ?e" unfolding ua un using le' eq by simp
qed

section \<open>Views\<close>

text \<open>The bytes of the element of a view at an index.\<close>

definition view_element :: "hal_store \<Rightarrow> iree_hal_buffer_view \<Rightarrow> u32 list \<Rightarrow> u8 list option" where
  "view_element s w indices = do {
     c \<leftarrow> hal_contents s (bv_buffer w);
     let (st, offset) = iree_hal_buffer_view_compute_offset w indices;
     if st = IREE_STATUS_OK then Some (take (unat (iree_hal_buffer_view_element_size w)) (drop (unat offset) c)) else None
   }"

text \<open>A view whose elements are all in its buffer.\<close>

definition view_wf :: "hal_store \<Rightarrow> iree_hal_buffer_view \<Rightarrow> bool" where
  "view_wf s w \<longleftrightarrow> shape_fits (bv_shape w) (bv_element_type w) \<and> length (bv_shape w) < 2 ^ 62 \<and>
    (\<exists>b c. hb_at s (bv_buffer w) = Some b \<and> hal_contents s (bv_buffer w) = Some c
      \<and> prod_list (map sint (bv_shape w)) * elt_size (bv_element_type w) \<le> int (length c))"

lemma nat_uint: "nat (uint (x :: u64)) = unat x"
  by (simp flip: unat_eq_nat_uint)

lemma view_element_at:
  assumes "hal_contents s (bv_buffer w) = Some c" "in_box (map sint (bv_shape w)) (map sint indices)" "shape_fits (bv_shape w) (bv_element_type w)"
  shows "view_element s w indices = Some (take (unat (iree_hal_element_byte_count (bv_element_type w)))
    (drop (nat (row_major (map sint (bv_shape w)) (map sint indices) * elt_size (bv_element_type w))) c))"
proof -
  obtain off where "iree_hal_buffer_compute_view_offset (bv_shape w) (bv_element_type w) indices = (IREE_STATUS_OK, off)"
      "uint off = row_major (map sint (bv_shape w)) (map sint indices) * elt_size (bv_element_type w)"
    using view_offset_ok [OF assms(2,3)] by blast
  then show ?thesis using assms(1)
    by (simp add: view_element_def iree_hal_buffer_view_compute_offset_def iree_hal_buffer_view_element_size_def nat_uint flip: \<open>uint off = _\<close>)
qed

lemma retain_release:
  assumes "hb_at s q = Some b" "0 < hb_ref_count b"
  shows "\<exists>s'. iree_hal_buffer_retain s q = Some s' \<and> iree_hal_buffer_release s' q = Some s"
proof -
  let ?s = "s[q := Some (b\<lparr>hb_ref_count := hb_ref_count b + 1\<rparr>)]"
  have q: "q < length s" "s ! q = Some b" using assms(1) by (auto simp: hb_at_def split: if_splits)
  have at: "hb_at ?s q = Some (b\<lparr>hb_ref_count := hb_ref_count b + 1\<rparr>)" using q by simp
  have "iree_hal_buffer_release ?s q = Some (s[q := Some b])"
    using release_unfold(1) [OF at] assms(2) by simp
  moreover have "s[q := Some b] = s" using q list_update_id [of s q] by simp
  ultimately show ?thesis using assms(1) by (simp add: iree_hal_buffer_retain_def)
qed

text \<open>Creating a view takes a reference that releasing the buffer gives back.\<close>

definition new_view :: "nat \<Rightarrow> u32 list \<Rightarrow> u32 \<Rightarrow> iree_hal_buffer_view" where
  "new_view q shape t = \<lparr>bv_ref_count = 1, bv_buffer = q, bv_element_type = t,
    bv_byte_length = times_dims (iree_hal_element_byte_count t) shape, bv_shape = shape\<rparr>"

lemma view_create_ok:
  assumes "hb_at s q = Some b" "0 < hb_ref_count b" "\<And>n. al n = IREE_STATUS_OK" "length shape < 2 ^ 62"
  shows "\<exists>s1. iree_hal_buffer_view_create al s vs (Some q) (Some shape) (of_nat (length shape)) t
      = Some (IREE_STATUS_OK, s1, vs @ [Some (new_view q shape t)], Some (length vs))
    \<and> iree_hal_buffer_release s1 q = Some s"
proof -
  have "unat (of_nat (length shape) :: u64) = length shape"
    using assms(4) by (simp add: unsigned_of_nat take_bit_nat_eq_self)
  then show ?thesis
    using retain_release [OF assms(1,2)] assms(1,3) by (auto simp: iree_hal_buffer_view_create_def new_view_def)
qed

lemma view_end_indices_total:
  "list_all2 (\<lambda>i l. 0 \<le> sint i \<and> 1 \<le> sint l \<and> sint i + sint l < 2 ^ 31) start lens \<Longrightarrow> \<exists>ends. view_end_indices start lens = Some ends"
  by (induction rule: list_all2_induct) (auto simp: fits_s32_def)

lemma view_range_total:
  assumes "list_all2 (\<lambda>i l. 0 \<le> sint i \<and> 1 \<le> sint l \<and> sint i + sint l < 2 ^ 31) start lens"
  shows "\<exists>st a n. iree_hal_buffer_compute_view_range shape t start lens = Some (st, a, n)"
proof -
  obtain ends where "view_end_indices start lens = Some ends" using view_end_indices_total [OF assms] by blast
  then show ?thesis by (auto simp: iree_hal_buffer_compute_view_range_def Let_def split: prod.splits)
qed

lemma subview_cases:
  assumes ok: "hal_ok s R" and v: "bv_at vs v = Some w" and wf: "view_wf s w" and al: "\<And>n. al n = IREE_STATUS_OK"
    and start: "list_all2 (\<lambda>i l. 0 \<le> sint i \<and> 1 \<le> sint l \<and> sint i + sint l < 2 ^ 31) start lens"
  shows "(\<exists>st. st \<noteq> IREE_STATUS_OK \<and> iree_hal_buffer_view_subview al s vs v start lens = Some (st, s, vs, None))
    \<or> (\<exists>s' q c a n. iree_hal_buffer_view_subview al s vs v start lens =
          Some (IREE_STATUS_OK, s', vs @ [Some (new_view q lens (bv_element_type w))], Some (length vs))
        \<and> hal_ok s' (add_mset q R) \<and> (\<forall>x. hb_at s x \<noteq> None \<longrightarrow> hal_contents s' x = hal_contents s x)
        \<and> hal_contents s (bv_buffer w) = Some c \<and> hal_contents s' q = Some (take (unat n) (drop (unat a) c))
        \<and> iree_hal_buffer_compute_view_range (bv_shape w) (bv_element_type w) start lens = Some (IREE_STATUS_OK, a, n)
        \<and> hb_at s' q \<noteq> None)"
proof -
  obtain st a n where r: "iree_hal_buffer_compute_view_range (bv_shape w) (bv_element_type w) start lens = Some (st, a, n)"
    using view_range_total [OF start] by blast
  have sub: "iree_hal_buffer_view_subview al s vs v start lens = (if st \<noteq> IREE_STATUS_OK then Some (st, s, vs, None) else do {
       (st, s, subview_buffer) \<leftarrow> iree_hal_buffer_subspan al s (bv_buffer w) a n;
       if st \<noteq> IREE_STATUS_OK then Some (st, s, vs, None)
       else do {
         (st, s, vs, r) \<leftarrow> iree_hal_buffer_view_create al s vs subview_buffer (Some lens) (of_nat (length lens)) (bv_element_type w);
         s \<leftarrow> release_if_any s subview_buffer;
         Some (st, s, vs, r)
       }
     })"
    by (simp add: iree_hal_buffer_view_subview_def v iree_hal_buffer_view_compute_range_def r)
  show ?thesis
  proof (cases "st = IREE_STATUS_OK")
    case False
    then show ?thesis by (simp add: sub)
  next
    case True
    have fits: "shape_fits (bv_shape w) (bv_element_type w)" using wf by (simp add: view_wf_def)
    obtain b c where b: "hb_at s (bv_buffer w) = Some b" "hal_contents s (bv_buffer w) = Some c"
        "prod_list (map sint (bv_shape w)) * elt_size (bv_element_type w) \<le> int (length c)"
      using wf by (auto simp: view_wf_def)
    have nn: "\<forall>i \<in> set start. 0 \<le> sint i" "\<forall>l \<in> set lens. 1 \<le> sint l"
      using start by (auto simp: list_all2_conv_all_nth in_set_conv_nth)
    have "int (unat a + unat n) \<le> int (length c)"
      using view_range_ok(6) [OF r [unfolded True] nn fits] b(3) by simp
    then have an: "unat a + unat n \<le> length c" by (rule zle_int [THEN iffD1])
    have "length c < 2 ^ 63" using contents_ok [OF ok b(1)] b(2) by auto
    then have "n \<noteq> IREE_WHOLE_BUFFER" "fits a n" using an unat_WHOLE by (auto simp: fits_def)
    then have "span_result (al sizeof_hal_buffer \<noteq> IREE_STATUS_OK) s R (take (unat n) (drop (unat a) c)) (iree_hal_buffer_subspan al s (bv_buffer w) a n)"
      using subspan_cases [OF ok b(1,2), of a n al] an by simp
    then obtain s' q where q: "iree_hal_buffer_subspan al s (bv_buffer w) a n = Some (IREE_STATUS_OK, s', Some q)"
        "hal_ok s' (add_mset q R)" "hal_contents s' q = Some (take (unat n) (drop (unat a) c))"
        "\<forall>x. hb_at s x \<noteq> None \<longrightarrow> hal_contents s' x = hal_contents s x"
      using al unfolding span_result_def by blast
    obtain e where e: "hb_at s' q = Some e" using hal_ok_live [OF q(2)] by auto
    have len: "length lens = length start" using start by (auto dest: list_all2_lengthD)
    have "length shape = length start" if "shape = bv_shape w" for shape
      using r len that True by (auto simp: iree_hal_buffer_compute_view_range_def split: if_splits)
    then have l62: "length lens < 2 ^ 62" using wf len by (auto simp: view_wf_def)
    obtain s1 where s1: "iree_hal_buffer_view_create al s' vs (Some q) (Some lens) (of_nat (length lens)) (bv_element_type w)
          = Some (IREE_STATUS_OK, s1, vs @ [Some (new_view q lens (bv_element_type w))], Some (length vs))"
        "iree_hal_buffer_release s1 q = Some s'"
      using view_create_ok [where al = al and vs = vs and t = "bv_element_type w", OF e hal_okD(2) [OF q(2) e] al l62] by blast
    have "iree_hal_buffer_view_subview al s vs v start lens =
        Some (IREE_STATUS_OK, s', vs @ [Some (new_view q lens (bv_element_type w))], Some (length vs))"
      using True q(1) s1 by (simp add: sub release_if_any_def)
    then show ?thesis using q b(2) r True e by blast
  qed
qed


text \<open>The elements of a subview are those of the view from the first index on.\<close>

lemma sint_plus_index: "0 \<le> sint i \<Longrightarrow> 0 \<le> sint k \<Longrightarrow> sint i + sint k < 2 ^ 31 \<Longrightarrow> sint (i + k :: u32) = sint i + sint k"
proof -
  assume a: "0 \<le> sint i" "0 \<le> sint k" "sint i + sint k < 2 ^ 31"
  have s: "signed_take_bit 31 (sint i + sint k) = sint i + sint k"
    using a by (intro signed_take_bit_int_eq_self) auto
  have t: "sint (of_int n :: u32) = signed_take_bit 31 n" for n by (simp add: signed_of_int)
  have "i + k = (of_int (sint i + sint k) :: u32)" by simp
  then have "sint (i + k) = sint (of_int (sint i + sint k) :: u32)" by (rule arg_cong)
  then show ?thesis unfolding t s .
qed

lemma shifted_indices:
  assumes "list_all2 (\<lambda>i l. 0 \<le> sint i \<and> 1 \<le> sint l \<and> sint i + sint l < 2 ^ 31) start lens" "in_box (map sint lens) (map sint k)"
  shows "map sint (map2 (+) start k) = map2 (+) (map sint start) (map sint (k :: u32 list))"
  using assms
proof (induction arbitrary: k rule: list_all2_induct)
  case (Cons i start l lens)
  then obtain j k' where [simp]: "k = j # k'" by (cases k) auto
  show ?case using Cons sint_plus_index [of i j] by auto
qed simp

lemma shifted_in_box:
  assumes "list_all2 (\<lambda>d i. i < d) ds (map2 (+) is (map (\<lambda>l. l - 1) ls))" "length is = length ls" "\<forall>i \<in> set is. 0 \<le> (i :: int)" "in_box ls k"
  shows "in_box ds (map2 (+) is k)"
  using assms
proof (induction ls arbitrary: ds "is" k)
  case Nil
  then show ?case by simp
next
  case (Cons l ls)
  obtain i is' j k' where [simp]: "is = i # is'" "k = j # k'" using Cons.prems(2,4) by (cases "is"; cases k) auto
  obtain d ds' where [simp]: "ds = d # ds'" using Cons.prems(1) by (cases ds) auto
  show ?case using Cons.prems Cons.IH [of ds' is' k'] by auto
qed

lemma range_box:
  assumes r: "iree_hal_buffer_compute_view_range shape t start lens = Some (IREE_STATUS_OK, a, n)"
    and nn: "\<forall>i \<in> set start. 0 \<le> sint i" "\<forall>l \<in> set lens. 1 \<le> sint l" and fits: "shape_fits shape t" and k: "in_box (map sint lens) k"
  shows "in_box (map sint shape) (map2 (+) (map sint start) k)"
proof -
  have len: "length start = length lens" "length shape = length start"
    using r by (auto simp: iree_hal_buffer_compute_view_range_def split: if_splits)
  obtain ends where ends: "view_end_indices start lens = Some ends"
    using r len by (auto simp: iree_hal_buffer_compute_view_range_def bind_eq_Some_conv)
  have e: "length ends = length start" "map sint ends = map2 (+) (map sint start) (map (\<lambda>l. l - 1) (map sint lens))"
    using view_end_indices_sint [OF ends len(1)] by simp_all
  have "list_all2 (\<lambda>d i. sint i < sint d) shape ends"
    using r len ends e(1) by (auto simp: iree_hal_buffer_compute_view_range_def view_offset_eq Let_def split: if_splits)
  then have "list_all2 (\<lambda>d i. i < d) (map sint shape) (map sint ends)" unfolding all2_map_sint .
  then show ?thesis using shifted_in_box [OF _ _ _ k] e(2) len nn(1) by simp
qed

lemma subview_element:
  assumes r: "iree_hal_buffer_compute_view_range (bv_shape w) (bv_element_type w) start lens = Some (IREE_STATUS_OK, a, n)"
    and start: "list_all2 (\<lambda>i l. 0 \<le> sint i \<and> 1 \<le> sint l \<and> sint i + sint l < 2 ^ 31) start lens"
    and fits: "shape_fits (bv_shape w) (bv_element_type w)" and k: "in_box (map sint lens) (map sint k)"
    and c: "hal_contents s (bv_buffer w) = Some c" "hal_contents s' q = Some (take (unat n) (drop (unat a) c))"
  shows "view_element s' (new_view q lens (bv_element_type w)) k = view_element s w (map2 (+) start k)"
proof -
  let ?t = "bv_element_type w" and ?ds = "map sint (bv_shape w)" and ?ls = "map sint lens" and ?is = "map sint start" and ?k = "map sint k"
  have nn: "\<forall>i \<in> set start. 0 \<le> sint i" "\<forall>l \<in> set lens. 1 \<le> sint l"
    using start by (auto simp: list_all2_conv_all_nth in_set_conv_nth)
  note v = view_range_ok [OF r nn fits]
  have len: "length start = length lens" "length (bv_shape w) = length start"
    using r by (auto simp: iree_hal_buffer_compute_view_range_def split: if_splits)
  have sh: "map sint (map2 (+) start k) = map2 (+) ?is ?k" by (rule shifted_indices [OF start k])
  have lk: "length k = length lens" using in_box_length [OF k] by simp
  have rm: "row_major ?ds (map2 (+) ?is ?k) = row_major ?ds ?is + row_major ?ls ?k"
    using row_major_plus [of ?is ?ds ?k] contiguous_offsets [OF v(2,3) k] len lk by simp
  have box: "in_box ?ds (map2 (+) ?is ?k)" by (rule range_box [OF r nn fits k])
  have lb: "0 \<le> row_major ?ls ?k" "row_major ?ls ?k + 1 \<le> prod_list ?ls" using row_major_bounds [OF k] by auto
  have "(row_major ?ls ?k + 1) * elt_size ?t \<le> prod_list ?ls * elt_size ?t" using lb by (intro mult_right_mono) auto
  then have inside: "row_major ?ls ?k * elt_size ?t + elt_size ?t \<le> uint n" using v(5) by (simp add: algebra_simps)
  have ge: "0 \<le> row_major ?ls ?k * elt_size ?t" using lb by simp
  have lfits: "shape_fits lens ?t"
  proof -
    have "prod_list ?ls * elt_size ?t \<le> prod_list ?ds * elt_size ?t"
      using span_at_least [OF v(2)] by (intro mult_right_mono) auto
    then show ?thesis using fits unfolding shape_fits_def by (meson order.strict_trans1)
  qed
  define x where "x = nat (row_major ?ls ?k * elt_size ?t)"
  have x: "x + unat (iree_hal_element_byte_count ?t) \<le> unat n" "nat (row_major ?ds (map2 (+) ?is ?k) * elt_size ?t) = unat a + x"
  proof -
    have "int (x + unat (iree_hal_element_byte_count ?t)) \<le> int (unat n)" using inside ge by (simp add: x_def)
    then show "x + unat (iree_hal_element_byte_count ?t) \<le> unat n" by (rule zle_int [THEN iffD1])
    have "row_major ?ds (map2 (+) ?is ?k) * elt_size ?t = uint a + row_major ?ls ?k * elt_size ?t" unfolding rm v(4) by (rule distrib_right)
    then show "nat (row_major ?ds (map2 (+) ?is ?k) * elt_size ?t) = unat a + x" using ge by (simp add: x_def nat_add_distrib nat_uint)
  qed
  have "view_element s' (new_view q lens ?t) k = Some (take (unat (iree_hal_element_byte_count ?t)) (drop x (take (unat n) (drop (unat a) c))))"
    using view_element_at [of s' "new_view q lens ?t" "take (unat n) (drop (unat a) c)" k] c(2) k lfits by (simp add: new_view_def x_def)
  moreover have "view_element s w (map2 (+) start k) = Some (take (unat (iree_hal_element_byte_count ?t)) (drop (unat a + x) c))"
    using view_element_at [OF c(1) _ fits, of "map2 (+) start k"] box unfolding sh x(2) by simp
  moreover have "take (unat (iree_hal_element_byte_count ?t)) (drop x (take (unat n) (drop (unat a) c))) = take (unat (iree_hal_element_byte_count ?t)) (drop (unat a + x) c)"
    using x(1) by (simp add: drop_take min_def add.commute)
  ultimately show ?thesis by simp
qed


section \<open>New buffers\<close>

lemma hal_ok_new_heap:
  assumes ok: "hal_ok s R" and b: "hb_vtable b = HeapBuffer d" "hb_allocated_buffer b = length s" "hb_ref_count b = 1"
      "hb_byte_offset b = 0" "unat (hb_byte_length b) = length d" "length d < 2 ^ 63"
  shows "hal_ok (s @ [Some b]) (add_mset (length s) R)"
proof -
  let ?s = "s @ [Some b]"
  have fresh: "spans s (length s) = 0" "count R (length s) = 0" using hal_ok_fresh [OF ok] by auto
  have sp: "spans ?s q = spans s q" for q using b(1) by (simp add: is_span_of_def)
  have o: "owner_bytes s q = Some g \<Longrightarrow> owner_bytes ?s q = Some g" for q g
    by (auto simp: owner_bytes_def hb_at_def nth_append split: if_splits)
  have "buffer_wf ?s q c \<and> 0 < hb_ref_count c \<and> hb_ref_count c = int (spans ?s q + count (add_mset (length s) R) q)"
    if c: "hb_at ?s q = Some c" for q c
  proof (cases "q = length s")
    case True
    then have "c = b" using c by simp
    then show ?thesis unfolding sp using True b fresh by (simp add: buffer_wf_def)
  next
    case False
    then have c': "hb_at s q = Some c" using c by simp
    have "buffer_wf ?s q c" using hal_okD(1) [OF ok c'] o by (auto simp: buffer_wf_def split: hal_vtable.splits)
    then show ?thesis unfolding sp using hal_okD(2,3) [OF ok c'] False by simp
  qed
  moreover have "hb_at ?s q \<noteq> None" if "q \<in># add_mset (length s) R \<or> 0 < spans ?s q" for q
  proof (cases "q = length s")
    case False
    have "q \<in># R \<or> 0 < spans s q" using that False unfolding sp by auto
    then have "hb_at s q \<noteq> None" using ok unfolding hal_ok_def by blast
    then show ?thesis using False by simp
  qed simp
  ultimately show ?thesis unfolding hal_ok_def by blast
qed

lemma contents_append:
  assumes "hal_ok s R" "hb_at s x \<noteq> None"
  shows "hal_contents (s @ [b]) x = hal_contents s x"
proof -
  obtain c where c: "hb_at s x = Some c" using assms(2) by blast
  obtain d where d: "owner_bytes s (hb_allocated_buffer c) = Some d" using wf_owner [OF assms(1) c] by blast
  have "hb_allocated_buffer c \<noteq> length s" using d by (auto simp: owner_bytes_def hb_at_def)
  then have "owner_bytes (s @ [b]) (hb_allocated_buffer c) = Some d" using d by (simp add: owner_bytes_def)
  moreover have "x \<noteq> length s" using c by (auto simp: hb_at_def)
  ultimately show ?thesis using c d by (simp add: hal_contents_def)
qed

text \<open>What the heap allocator hands out can be read and written through a mapping.\<close>

definition host_accessible :: "iree_hal_buffer \<Rightarrow> bool" where
  "host_accessible b \<longleftrightarrow> iree_all_bits_set (hb_memory_type b) IREE_HAL_MEMORY_TYPE_HOST_VISIBLE
    \<and> iree_all_bits_set (hb_allowed_access b) IREE_HAL_MEMORY_ACCESS_ALL \<and> iree_all_bits_set (hb_allowed_usage b) IREE_HAL_BUFFER_USAGE_MAPPING"

lemma and_or_absorb: "(x OR y OR z) AND y = (y :: u32)" "(x OR y) AND y = y"
  by (rule bit_word_eqI, auto simp: bit_simps)+

lemma heap_size:
  assumes "unat bytes < 2 ^ 63"
  shows "iree_host_align sizeof_heap_buffer 16 \<le> iree_host_align sizeof_heap_buffer 16 + bytes"
proof -
  have "iree_host_align sizeof_heap_buffer 16 = 112" by code_simp
  then show ?thesis using assms by (simp add: word_le_nat_alt unat_plus_if')
qed

lemma allocate_buffer_ok:
  assumes ok: "hal_ok s R" and al: "\<And>n. al n = IREE_STATUS_OK" and small: "unat bytes < 2 ^ 63"
  shows "\<exists>b. iree_hal_heap_allocator_allocate_buffer al s memory_type allowed_usage bytes = Some (IREE_STATUS_OK, s @ [Some b], Some (length s))
    \<and> hal_ok (s @ [Some b]) (add_mset (length s) R) \<and> hal_contents (s @ [Some b]) (length s) = Some (replicate (unat bytes) 0)
    \<and> hb_ref_count b = 1 \<and> host_accessible b \<and> hb_vtable b \<noteq> SubspanBuffer"
proof -
  define b where "b = \<lparr>hb_ref_count = 1, hb_vtable = HeapBuffer (replicate (unat bytes) 0),
          hb_allocated_buffer = length s, hb_allocation_size = bytes, hb_byte_offset = 0, hb_byte_length = bytes,
          hb_memory_type = memory_type OR IREE_HAL_MEMORY_TYPE_HOST_VISIBLE, hb_allowed_access = IREE_HAL_MEMORY_ACCESS_ALL,
          hb_allowed_usage = allowed_usage OR IREE_HAL_BUFFER_USAGE_MAPPING OR IREE_HAL_BUFFER_USAGE_TRANSFER\<rparr>"
  have "iree_hal_heap_allocator_allocate_buffer al s memory_type allowed_usage bytes = Some (IREE_STATUS_OK, s @ [Some b], Some (length s))"
    using al heap_size [OF small]
    by (simp add: iree_hal_heap_allocator_allocate_buffer_def iree_hal_heap_allocator_make_compatible_def iree_hal_heap_buffer_create_def b_def Let_def not_less)
  moreover have "hal_ok (s @ [Some b]) (add_mset (length s) R)"
    using small by (intro hal_ok_new_heap [OF ok]) (auto simp: b_def)
  moreover have "hal_contents (s @ [Some b]) (length s) = Some (replicate (unat bytes) 0)"
    by (simp add: hal_contents_def owner_bytes_def b_def)
  ultimately show ?thesis by (intro exI [of _ b]) (simp add: b_def host_accessible_def iree_all_bits_set_def and_or_absorb)
qed

lemma accessible_statuses:
  assumes "host_accessible b" "memory_access = IREE_HAL_MEMORY_ACCESS_READ \<or> memory_access = IREE_HAL_MEMORY_ACCESS_DISCARD_WRITE"
  shows "iree_hal_buffer_validate_memory_type (hb_memory_type b) IREE_HAL_MEMORY_TYPE_HOST_VISIBLE = IREE_STATUS_OK"
    "iree_hal_buffer_validate_access (hb_allowed_access b) memory_access = IREE_STATUS_OK"
    "iree_hal_buffer_validate_usage (hb_allowed_usage b) IREE_HAL_BUFFER_USAGE_MAPPING = IREE_STATUS_OK"
proof -
  have a: "hb_allowed_access b AND 7 = 7"
    using assms(1) by (simp add: host_accessible_def iree_all_bits_set_def IREE_HAL_MEMORY_ACCESS_ALL_def)
  have "hb_allowed_access b AND x = x" if "7 AND x = x" for x
  proof -
    have "hb_allowed_access b AND x = (hb_allowed_access b AND 7) AND x" using that by (simp add: and.assoc)
    then show ?thesis using a that by simp
  qed
  from this [of 1] this [of 6] show "iree_hal_buffer_validate_access (hb_allowed_access b) memory_access = IREE_STATUS_OK"
    using assms(2) by (auto simp: iree_hal_buffer_validate_access_def iree_any_bit_set_def iree_all_bits_set_def
        IREE_HAL_MEMORY_ACCESS_READ_def IREE_HAL_MEMORY_ACCESS_WRITE_def IREE_HAL_MEMORY_ACCESS_DISCARD_WRITE_def)
qed (use assms(1) in \<open>simp_all add: host_accessible_def iree_hal_buffer_validate_memory_type_def iree_hal_buffer_validate_usage_def\<close>)

lemma map_range_accessible:
  assumes ok: "hal_ok s R" and p: "hb_at s p = Some b" "host_accessible b"
    and acc: "memory_access = IREE_HAL_MEMORY_ACCESS_READ \<or> memory_access = IREE_HAL_MEMORY_ACCESS_DISCARD_WRITE"
    and n: "unat offset + unat n \<le> unat (hb_byte_length b)"
  shows "\<exists>m. iree_hal_buffer_map_range s p memory_access offset n = Some (IREE_STATUS_OK, Some m)"
proof -
  obtain d :: "u8 list" where d: "length d < 2 ^ 63" "unat (hb_byte_offset b) + unat (hb_byte_length b) \<le> length d"
      "vtable_map_range s p = Some (hb_allocated_buffer b)"
    using wf_owner [OF ok p(1)] by blast
  have base: "unat (hb_byte_offset b) + unat (hb_byte_length b) < 2 ^ 64" using d by simp
  have "fits offset n" using n d by (simp add: fits_def)
  then show ?thesis
    using calculate_range_cases [OF _ base, of offset n] n d(3) p(1) accessible_statuses [OF p(2) acc]
    by (simp add: iree_hal_buffer_map_range_def Let_def word_le_nat_alt)
qed

lemma contents_length:
  "hal_ok s R \<Longrightarrow> hb_at s p = Some b \<Longrightarrow> hal_contents s p = Some c \<Longrightarrow> length c = unat (hb_byte_length b)"
  using contents_ok [of s R p b] by auto

lemma new_heap_owner: "hal_ok (s @ [Some b]) R \<Longrightarrow> hb_vtable b \<noteq> SubspanBuffer \<Longrightarrow> hb_allocated_buffer b = length s"
  using hal_okD(1) [of "s @ [Some b]" R "length s" b] by (cases "hb_vtable b") (simp_all add: buffer_wf_def)

lemma view_allocate_ok:
  assumes ok: "hal_ok s R" and al: "\<And>n. al n = IREE_STATUS_OK" and small: "unat (iree_hal_buffer_compute_view_size shape t) < 2 ^ 63" "length shape < 2 ^ 62"
  shows "\<exists>b. iree_hal_buffer_view_allocate_buffer al s vs shape t memory_type allowed_usage
      = Some (IREE_STATUS_OK, s @ [Some b], vs @ [Some (new_view (length s) shape t)], Some (length vs))
    \<and> hal_ok (s @ [Some b]) (add_mset (length s) R) \<and> host_accessible b \<and> hb_vtable b \<noteq> SubspanBuffer
    \<and> hal_contents (s @ [Some b]) (length s) = Some (replicate (unat (iree_hal_buffer_compute_view_size shape t)) 0)"
proof -
  obtain b where b: "iree_hal_heap_allocator_allocate_buffer al s memory_type allowed_usage (iree_hal_buffer_compute_view_size shape t)
        = Some (IREE_STATUS_OK, s @ [Some b], Some (length s))"
      "hal_ok (s @ [Some b]) (add_mset (length s) R)" "hb_ref_count b = 1" "host_accessible b" "hb_vtable b \<noteq> SubspanBuffer"
      "hal_contents (s @ [Some b]) (length s) = Some (replicate (unat (iree_hal_buffer_compute_view_size shape t)) 0)"
    using allocate_buffer_ok [where al = al, OF ok al small(1)] by blast
  obtain s1 where s1: "iree_hal_buffer_view_create al (s @ [Some b]) vs (Some (length s)) (Some shape) (of_nat (length shape)) t
      = Some (IREE_STATUS_OK, s1, vs @ [Some (new_view (length s) shape t)], Some (length vs))"
      "iree_hal_buffer_release s1 (length s) = Some (s @ [Some b])"
    using view_create_ok [where al = al and vs = vs and t = t, OF _ _ al small(2), of "s @ [Some b]" "length s" b] b(3) by auto
  show ?thesis using b s1 by (simp add: iree_hal_buffer_view_allocate_buffer_def release_if_any_def)
qed

lemma clone_ok:
  assumes ok: "hal_ok s R" and al: "\<And>n. al n = IREE_STATUS_OK"
    and small: "length bytes = unat (iree_hal_buffer_compute_view_size shape t)" "length bytes < 2 ^ 63" "length shape < 2 ^ 62"
  shows "\<exists>s'. iree_hal_buffer_view_clone_heap_buffer al s vs shape t memory_type allowed_usage bytes
      = Some (IREE_STATUS_OK, s', vs @ [Some (new_view (length s) shape t)], Some (length vs))
    \<and> hal_ok s' (add_mset (length s) R) \<and> hal_contents s' (length s) = Some bytes
    \<and> (\<forall>x. hb_at s x \<noteq> None \<longrightarrow> hal_contents s' x = hal_contents s x)"
proof -
  obtain b where b: "iree_hal_buffer_view_allocate_buffer al s vs shape t memory_type allowed_usage
      = Some (IREE_STATUS_OK, s @ [Some b], vs @ [Some (new_view (length s) shape t)], Some (length vs))"
      "hal_ok (s @ [Some b]) (add_mset (length s) R)" "host_accessible b"
      "hal_contents (s @ [Some b]) (length s) = Some (replicate (length bytes) 0)" "hb_vtable b \<noteq> SubspanBuffer"
    using view_allocate_ok [where al = al and vs = vs and t = t and memory_type = memory_type and allowed_usage = allowed_usage, OF ok al _ small(3)]
      small(1,2) by auto
  let ?s = "s @ [Some b]"
  have at: "hb_at ?s (length s) = Some b" by simp
  have same: "hal_contents ?s x = hal_contents s x" if "hb_at s x \<noteq> None" for x by (rule contents_append [OF ok that])
  have v: "bv_at (vs @ [Some (new_view (length s) shape t)]) (length vs) = Some (new_view (length s) shape t)" by (simp add: bv_at_def)
  have clone: "iree_hal_buffer_view_clone_heap_buffer al s vs shape t memory_type allowed_usage bytes
      = Some (IREE_STATUS_OK, s', vs @ [Some (new_view (length s) shape t)], Some (length vs))"
    if "iree_hal_buffer_write_data ?s (length s) 0 bytes = Some (IREE_STATUS_OK, s')" for s'
    using b(1) v that by (simp add: iree_hal_buffer_view_clone_heap_buffer_def new_view_def)
  have lb: "unat (hb_byte_length b) = length bytes" using contents_length [OF b(2) at b(4)] by simp
  have n: "unat (of_nat (length bytes) :: u64) = length bytes" using small(2) by (simp add: unsigned_of_nat take_bit_nat_eq_self)
  obtain m where m: "iree_hal_buffer_map_range ?s (length s) IREE_HAL_MEMORY_ACCESS_DISCARD_WRITE 0 (of_nat (length bytes)) = Some (IREE_STATUS_OK, Some m)"
    using map_range_accessible [OF b(2) at b(3), of IREE_HAL_MEMORY_ACCESS_DISCARD_WRITE 0 "of_nat (length bytes)"] n lb by auto
  have "length bytes < 2 ^ 64 - 1" "unat (0 :: u64) + length bytes \<le> 2 ^ 64" using small(2) by auto
  from write_data_ok [OF b(2) at b(4) this] show ?thesis
  proof (elim disjE exE conjE)
    fix st assume "iree_hal_buffer_map_range ?s (length s) IREE_HAL_MEMORY_ACCESS_DISCARD_WRITE 0 (of_nat (length bytes)) = Some (st, None)"
    then show ?thesis using m by simp
  next
    assume "bytes = []" "iree_hal_buffer_write_data ?s (length s) 0 bytes = Some (IREE_STATUS_OK, ?s)"
    then show ?thesis using clone b(2,4) same by auto
  next
    fix s' d d' off
    assume w: "iree_hal_buffer_write_data ?s (length s) 0 bytes = Some (IREE_STATUS_OK, s')" "hal_ok s' (add_mset (length s) R)"
      "same_but (hb_allocated_buffer b) ?s s'" "owner_bytes ?s (hb_allocated_buffer b) = Some d"
      "owner_bytes s' (hb_allocated_buffer b) = Some d'" "write_bytes d off bytes = Some d'" "unat off = unat (hb_byte_offset b) + unat (0 :: u64)"
    have "hal_contents s' (length s) = Some bytes"
      using contents_spliced [OF w(3-6) at b(4) w(7)] by simp
    moreover have "hal_contents s' x = hal_contents s x" if x: "hb_at s x \<noteq> None" for x
    proof -
      obtain e where e: "hb_at s x = Some e" using x by blast
      obtain g where "owner_bytes s (hb_allocated_buffer e) = Some g" using wf_owner [OF ok e] by blast
      then have ne: "hb_allocated_buffer e \<noteq> length s" by (auto simp: owner_bytes_def hb_at_def)
      have "hb_allocated_buffer b = length s" using new_heap_owner [OF b(2) b(5)] .
      then have o: "owner_bytes s' (hb_allocated_buffer e) = owner_bytes ?s (hb_allocated_buffer e)" using w(3) ne by (simp add: same_but_def)
      have "hb_at ?s x = Some e" using e by (auto simp: hb_at_def nth_append split: if_splits)
      then obtain v where "hb_at s' x = Some (e\<lparr>hb_vtable := v\<rparr>)" using same_butD [OF w(3)] by blast
      then have "hal_contents s' x = hal_contents ?s x" using o \<open>hb_at ?s x = Some e\<close> by (simp add: hal_contents_def)
      then show ?thesis using same [OF x] by simp
    qed
    ultimately show ?thesis using clone w(1,2) by blast
  qed
qed

end
