(* ===== verification/HAL_Local.thy ===== *)
theory HAL_Local
  imports IREE_Bits HAL_ViewSafety
begin

text \<open>
  Local execution (\<^verbatim>\<open>iree/hal/local\<close>): descriptor set layouts and executable layouts, executables that run
  a grid of workgroups, the command buffer that executes inline, and the command buffer that validates what
  it forwards (\<^verbatim>\<open>iree/hal/command_buffer_validation.c\<close>). The code of an executable is a function of its
  record; layouts are values, their reference counts are not modelled.
\<close>

section \<open>Layouts\<close>

definition IREE_HAL_LOCAL_MAX_DESCRIPTOR_BINDING_COUNT :: nat where "IREE_HAL_LOCAL_MAX_DESCRIPTOR_BINDING_COUNT = 32"
definition IREE_HAL_LOCAL_MAX_DESCRIPTOR_SET_COUNT :: nat where "IREE_HAL_LOCAL_MAX_DESCRIPTOR_SET_COUNT = 2"
definition IREE_HAL_LOCAL_MAX_PUSH_CONSTANT_COUNT :: nat where "IREE_HAL_LOCAL_MAX_PUSH_CONSTANT_COUNT = 64"

definition IREE_HAL_DESCRIPTOR_TYPE_UNIFORM_BUFFER_DYNAMIC :: u32 where "IREE_HAL_DESCRIPTOR_TYPE_UNIFORM_BUFFER_DYNAMIC = 8"
definition IREE_HAL_DESCRIPTOR_TYPE_STORAGE_BUFFER_DYNAMIC :: u32 where "IREE_HAL_DESCRIPTOR_TYPE_STORAGE_BUFFER_DYNAMIC = 9"

record iree_hal_descriptor_set_layout_binding =
  lb_binding :: u32
  lb_type :: u32
  lb_access :: u32

record iree_hal_local_descriptor_set_layout =
  sl_usage_type :: u32
  sl_bindings :: "iree_hal_descriptor_set_layout_binding list"

definition iree_hal_local_descriptor_set_layout_create ::
  "iree_allocator \<Rightarrow> u32 \<Rightarrow> iree_hal_descriptor_set_layout_binding list \<Rightarrow> iree_status \<times> iree_hal_local_descriptor_set_layout option" where
  "iree_hal_local_descriptor_set_layout_create host_allocator usage_type bindings =
    (if length bindings > IREE_HAL_LOCAL_MAX_DESCRIPTOR_BINDING_COUNT then (IREE_STATUS_INVALID_ARGUMENT, None)
     else let st = host_allocator (40 + of_nat (length bindings) * 12)
          in if st = IREE_STATUS_OK then (st, Some \<lparr>sl_usage_type = usage_type, sl_bindings = bindings\<rparr>) else (st, None))"

record iree_hal_local_executable_layout =
  el_push_constants :: u64
  el_dynamic_binding_count :: u64
  el_used_bindings :: u64
  el_set_layouts :: "iree_hal_local_descriptor_set_layout list"

text \<open>The mask of the used bindings and the number of dynamic ones, set by set and binding by binding.\<close>

fun layout_bindings_loop :: "nat \<Rightarrow> nat \<Rightarrow> iree_hal_descriptor_set_layout_binding list \<Rightarrow> u64 \<times> u64 \<Rightarrow> u64 \<times> u64" where
  "layout_bindings_loop i j [] m = m"
| "layout_bindings_loop i j (b # bindings) (used, dynamic) = layout_bindings_loop i (j + 1) bindings
     (used OR push_bit (i * IREE_HAL_LOCAL_MAX_DESCRIPTOR_BINDING_COUNT + j) 1,
      if lb_type b = IREE_HAL_DESCRIPTOR_TYPE_STORAGE_BUFFER_DYNAMIC \<or> lb_type b = IREE_HAL_DESCRIPTOR_TYPE_UNIFORM_BUFFER_DYNAMIC
      then dynamic + 1 else dynamic)"

fun layout_sets_loop :: "nat \<Rightarrow> iree_hal_local_descriptor_set_layout list \<Rightarrow> u64 \<times> u64 \<Rightarrow> u64 \<times> u64" where
  "layout_sets_loop i [] m = m"
| "layout_sets_loop i (sl # set_layouts) m = layout_sets_loop (i + 1) set_layouts (layout_bindings_loop i 0 (sl_bindings sl) m)"

definition iree_hal_local_executable_layout_create ::
  "iree_allocator \<Rightarrow> u64 \<Rightarrow> iree_hal_local_descriptor_set_layout list \<Rightarrow> iree_status \<times> iree_hal_local_executable_layout option" where
  "iree_hal_local_executable_layout_create host_allocator push_constants set_layouts =
    (if length set_layouts > IREE_HAL_LOCAL_MAX_DESCRIPTOR_SET_COUNT then (IREE_STATUS_INVALID_ARGUMENT, None)
     else if unat push_constants > IREE_HAL_LOCAL_MAX_PUSH_CONSTANT_COUNT then (IREE_STATUS_INVALID_ARGUMENT, None)
     else let st = host_allocator (64 + of_nat (length set_layouts) * 8)
          in if st = IREE_STATUS_OK
             then let (used, dynamic) = layout_sets_loop 0 set_layouts (0, 0)
                  in (st, Some \<lparr>el_push_constants = push_constants, el_dynamic_binding_count = dynamic,
                      el_used_bindings = used, el_set_layouts = set_layouts\<rparr>)
             else (st, None))"

section \<open>Executables\<close>

type_synonym iree_hal_vec3 = "u32 \<times> u32 \<times> u32"

text \<open>A binding pointer is null or the owner of the bytes with an offset into them.\<close>

type_synonym binding_ptr = "(nat \<times> u64) option"

record iree_hal_executable_dispatch_state =
  ds_workgroup_count :: iree_hal_vec3
  ds_workgroup_size :: iree_hal_vec3
  ds_push_constant_count :: u64
  ds_push_constants :: "u8 list"
  ds_binding_count :: u64
  ds_binding_ptrs :: "binding_ptr list"
  ds_binding_lengths :: "u64 list"

type_synonym issue_call = "u64 \<Rightarrow> iree_hal_executable_dispatch_state \<Rightarrow> iree_hal_vec3 \<Rightarrow> hal_store \<Rightarrow> (iree_status \<times> hal_store) option"

record iree_hal_local_executable =
  ex_layouts :: "iree_hal_local_executable_layout list"
  ex_issue_call :: issue_call

definition iree_hal_local_executable_issue_call :: "iree_hal_local_executable \<Rightarrow> issue_call" where
  "iree_hal_local_executable_issue_call executable ordinal dispatch_state workgroup_id s =
    ex_issue_call executable ordinal dispatch_state workgroup_id s"

text \<open>
  The three loops over the grid. A failed call leaves the innermost loop only; the next row starts over and
  its status replaces the failure.
\<close>

definition grid_axis :: "u32 \<Rightarrow> u32 list" where "grid_axis n = map of_nat [0..<unat n]"

fun workgroups_x :: "(u32 \<Rightarrow> hal_store \<Rightarrow> (iree_status \<times> hal_store) option) \<Rightarrow> u32 list \<Rightarrow> iree_status \<times> hal_store \<Rightarrow> (iree_status \<times> hal_store) option" where
  "workgroups_x call [] r = Some r"
| "workgroups_x call (x # xs) (st, s) = do {
     (st, s) \<leftarrow> call x s;
     if st \<noteq> IREE_STATUS_OK then Some (st, s) else workgroups_x call xs (st, s)
   }"

fun workgroups_y :: "(u32 \<Rightarrow> u32 \<Rightarrow> hal_store \<Rightarrow> (iree_status \<times> hal_store) option) \<Rightarrow> u32 list \<Rightarrow> u32 list \<Rightarrow> iree_status \<times> hal_store \<Rightarrow> (iree_status \<times> hal_store) option" where
  "workgroups_y call xs [] r = Some r"
| "workgroups_y call xs (y # ys) r = do { r \<leftarrow> workgroups_x (\<lambda>x. call x y) xs r; workgroups_y call xs ys r }"

fun workgroups_z :: "(u32 \<Rightarrow> u32 \<Rightarrow> u32 \<Rightarrow> hal_store \<Rightarrow> (iree_status \<times> hal_store) option) \<Rightarrow> u32 list \<Rightarrow> u32 list \<Rightarrow> u32 list \<Rightarrow> iree_status \<times> hal_store \<Rightarrow> (iree_status \<times> hal_store) option" where
  "workgroups_z call xs ys [] r = Some r"
| "workgroups_z call xs ys (z # zs) r = do { r \<leftarrow> workgroups_y (\<lambda>x y. call x y z) xs ys r; workgroups_z call xs ys zs r }"

definition iree_hal_local_executable_issue_dispatch_inline ::
  "iree_hal_local_executable \<Rightarrow> u64 \<Rightarrow> iree_hal_executable_dispatch_state \<Rightarrow> hal_store \<Rightarrow> (iree_status \<times> hal_store) option" where
  "iree_hal_local_executable_issue_dispatch_inline executable ordinal dispatch_state s =
    (let (nx, ny, nz) = ds_workgroup_count dispatch_state
     in workgroups_z (\<lambda>x y z. iree_hal_local_executable_issue_call executable ordinal dispatch_state (x, y, z))
          (grid_axis nx) (grid_axis ny) (grid_axis nz) (IREE_STATUS_OK, s))"

section \<open>The inline command buffer\<close>

definition IREE_HAL_COMMAND_BUFFER_MODE_ONE_SHOT :: u32 where "IREE_HAL_COMMAND_BUFFER_MODE_ONE_SHOT = 1"
definition IREE_HAL_COMMAND_BUFFER_MODE_ALLOW_INLINE_EXECUTION :: u32 where "IREE_HAL_COMMAND_BUFFER_MODE_ALLOW_INLINE_EXECUTION = 16"

record iree_hal_inline_command_buffer =
  ic_mode :: u32
  ic_allowed_categories :: u32
  ic_queue_affinity :: u64
  ic_full_bindings :: "binding_ptr list"
  ic_full_binding_lengths :: "u64 list"
  ic_packed_bindings :: "binding_ptr list"
  ic_packed_binding_lengths :: "u64 list"
  ic_push_constants :: "u8 list"

definition max_bindings :: nat where
  "max_bindings = IREE_HAL_LOCAL_MAX_DESCRIPTOR_SET_COUNT * IREE_HAL_LOCAL_MAX_DESCRIPTOR_BINDING_COUNT"

definition iree_hal_inline_command_buffer_reset :: "iree_hal_inline_command_buffer \<Rightarrow> iree_hal_inline_command_buffer" where
  "iree_hal_inline_command_buffer_reset cb = cb\<lparr>
     ic_full_bindings := replicate max_bindings None, ic_full_binding_lengths := replicate max_bindings 0,
     ic_packed_bindings := replicate max_bindings None, ic_packed_binding_lengths := replicate max_bindings 0,
     ic_push_constants := replicate (IREE_HAL_LOCAL_MAX_PUSH_CONSTANT_COUNT * 4) 0\<rparr>"

definition sizeof_inline_command_buffer :: u64 where "sizeof_inline_command_buffer = 2416"

definition iree_hal_inline_command_buffer_create ::
  "iree_allocator \<Rightarrow> u32 \<Rightarrow> u32 \<Rightarrow> u64 \<Rightarrow> iree_status \<times> iree_hal_inline_command_buffer option" where
  "iree_hal_inline_command_buffer_create host_allocator mode command_categories queue_affinity =
    (if \<not> iree_all_bits_set mode (IREE_HAL_COMMAND_BUFFER_MODE_ONE_SHOT OR IREE_HAL_COMMAND_BUFFER_MODE_ALLOW_INLINE_EXECUTION)
     then (IREE_STATUS_INVALID_ARGUMENT, None)
     else let st = host_allocator sizeof_inline_command_buffer
          in if st = IREE_STATUS_OK
             then (st, Some (iree_hal_inline_command_buffer_reset \<lparr>ic_mode = mode, ic_allowed_categories = command_categories,
                    ic_queue_affinity = queue_affinity, ic_full_bindings = [], ic_full_binding_lengths = [],
                    ic_packed_bindings = [], ic_packed_binding_lengths = [], ic_push_constants = []\<rparr>))
             else (st, None))"

definition iree_hal_inline_command_buffer_begin :: "iree_hal_inline_command_buffer \<Rightarrow> iree_status \<times> iree_hal_inline_command_buffer" where
  "iree_hal_inline_command_buffer_begin cb = (IREE_STATUS_OK, iree_hal_inline_command_buffer_reset cb)"

definition iree_hal_inline_command_buffer_end :: "iree_hal_inline_command_buffer \<Rightarrow> iree_status \<times> iree_hal_inline_command_buffer" where
  "iree_hal_inline_command_buffer_end cb = (IREE_STATUS_OK, iree_hal_inline_command_buffer_reset cb)"

text \<open>Barriers, events and discarded buffers change nothing.\<close>

definition iree_hal_inline_command_buffer_execution_barrier :: iree_status where "iree_hal_inline_command_buffer_execution_barrier = IREE_STATUS_OK"
definition iree_hal_inline_command_buffer_signal_event :: iree_status where "iree_hal_inline_command_buffer_signal_event = IREE_STATUS_OK"
definition iree_hal_inline_command_buffer_reset_event :: iree_status where "iree_hal_inline_command_buffer_reset_event = IREE_STATUS_OK"
definition iree_hal_inline_command_buffer_wait_events :: iree_status where "iree_hal_inline_command_buffer_wait_events = IREE_STATUS_OK"
definition iree_hal_inline_command_buffer_discard_buffer :: "nat \<Rightarrow> iree_status" where
  "iree_hal_inline_command_buffer_discard_buffer buffer = IREE_STATUS_OK"

definition iree_hal_inline_command_buffer_fill_buffer :: "hal_store \<Rightarrow> nat \<Rightarrow> u64 \<Rightarrow> u64 \<Rightarrow> u8 list \<Rightarrow> (iree_status \<times> hal_store) option" where
  "iree_hal_inline_command_buffer_fill_buffer s target_buffer target_offset len pattern =
    iree_hal_buffer_fill s target_buffer target_offset len pattern"

definition iree_hal_inline_command_buffer_update_buffer ::
  "hal_store \<Rightarrow> u8 list \<Rightarrow> u64 \<Rightarrow> nat \<Rightarrow> u64 \<Rightarrow> u64 \<Rightarrow> (iree_status \<times> hal_store) option" where
  "iree_hal_inline_command_buffer_update_buffer s source_buffer source_offset target_buffer target_offset len = do {
     xs \<leftarrow> read_bytes source_buffer source_offset (unat len);
     iree_hal_buffer_write_data s target_buffer target_offset xs
   }"

definition iree_hal_inline_command_buffer_copy_buffer ::
  "hal_store \<Rightarrow> nat \<Rightarrow> u64 \<Rightarrow> nat \<Rightarrow> u64 \<Rightarrow> u64 \<Rightarrow> (iree_status \<times> hal_store) option" where
  "iree_hal_inline_command_buffer_copy_buffer s source_buffer source_offset target_buffer target_offset len =
    iree_hal_buffer_copy_data s source_buffer source_offset target_buffer target_offset len"

definition iree_hal_inline_command_buffer_push_constants ::
  "iree_hal_inline_command_buffer \<Rightarrow> u64 \<Rightarrow> u8 list \<Rightarrow> (iree_status \<times> iree_hal_inline_command_buffer) option" where
  "iree_hal_inline_command_buffer_push_constants cb offset vals =
    (if offset + of_nat (length vals) \<ge> 256 then Some (IREE_STATUS_INVALID_ARGUMENT, cb)
     else do { d \<leftarrow> write_bytes (ic_push_constants cb) offset vals; Some (IREE_STATUS_OK, cb\<lparr>ic_push_constants := d\<rparr>) })"

record iree_hal_descriptor_set_binding =
  sb_binding :: u32
  sb_buffer :: nat
  sb_offset :: u64
  sb_length :: u64

text \<open>The access of a binding is looked up in the layout of the set with the flat ordinal of the binding.\<close>

fun push_descriptor_set_loop ::
  "hal_store \<Rightarrow> iree_hal_local_descriptor_set_layout \<Rightarrow> nat \<Rightarrow> iree_hal_descriptor_set_binding list \<Rightarrow> iree_hal_inline_command_buffer \<Rightarrow>
    (iree_status \<times> iree_hal_inline_command_buffer) option" where
  "push_descriptor_set_loop s sl binding_base [] cb = Some (IREE_STATUS_OK, cb)"
| "push_descriptor_set_loop s sl binding_base (b # bindings) cb =
    (if unat (sb_binding b) \<ge> IREE_HAL_LOCAL_MAX_DESCRIPTOR_BINDING_COUNT then Some (IREE_STATUS_INVALID_ARGUMENT, cb)
     else do {
       let binding_ordinal = binding_base + unat (sb_binding b);
       if binding_ordinal \<ge> length (sl_bindings sl) then None
       else do {
         (st, m) \<leftarrow> iree_hal_buffer_map_range s (sb_buffer b) (lb_access (sl_bindings sl ! binding_ordinal)) (sb_offset b) (sb_length b);
         case m of
           None \<Rightarrow> Some (st, cb)
         | Some m \<Rightarrow> push_descriptor_set_loop s sl binding_base bindings (cb\<lparr>
             ic_full_bindings := (ic_full_bindings cb)[binding_ordinal := Some (mp_owner m, mp_byte_offset m)],
             ic_full_binding_lengths := (ic_full_binding_lengths cb)[binding_ordinal := mp_data_length m]\<rparr>)
       }
     })"

definition iree_hal_inline_command_buffer_push_descriptor_set ::
  "hal_store \<Rightarrow> iree_hal_inline_command_buffer \<Rightarrow> iree_hal_local_executable_layout \<Rightarrow> u32 \<Rightarrow> iree_hal_descriptor_set_binding list \<Rightarrow>
    (iree_status \<times> iree_hal_inline_command_buffer) option" where
  "iree_hal_inline_command_buffer_push_descriptor_set s cb executable_layout set_ordinal bindings =
    (if unat set_ordinal \<ge> IREE_HAL_LOCAL_MAX_DESCRIPTOR_SET_COUNT then Some (IREE_STATUS_INVALID_ARGUMENT, cb)
     else if unat set_ordinal \<ge> length (el_set_layouts executable_layout) then None
     else push_descriptor_set_loop s (el_set_layouts executable_layout ! unat set_ordinal) (unat set_ordinal * IREE_HAL_LOCAL_MAX_DESCRIPTOR_BINDING_COUNT) bindings cb)"

definition iree_hal_inline_command_buffer_bind_descriptor_set :: iree_status where
  "iree_hal_inline_command_buffer_bind_descriptor_set = IREE_STATUS_UNIMPLEMENTED"

text \<open>Packing the used bindings: \<open>i\<close> counts up to the number of set bits of the mask.\<close>

function pack_bindings_loop ::
  "nat \<Rightarrow> nat \<Rightarrow> u64 \<Rightarrow> int \<Rightarrow> iree_hal_inline_command_buffer \<Rightarrow> (iree_status \<times> iree_hal_inline_command_buffer) option" where
  "pack_bindings_loop i used_binding_count used_binding_mask binding_base cb =
    (if i \<ge> used_binding_count then Some (IREE_STATUS_OK, cb)
     else let mask_offset = iree_math_count_trailing_zeros_u64 used_binding_mask;
              binding_ordinal = nat (binding_base + mask_offset)
          in if binding_ordinal \<ge> length (ic_full_bindings cb) \<or> i \<ge> length (ic_packed_bindings cb) then None
             else let cb = cb\<lparr>ic_packed_bindings := (ic_packed_bindings cb)[i := ic_full_bindings cb ! binding_ordinal]\<rparr>
                  in if ic_full_bindings cb ! binding_ordinal = None then Some (IREE_STATUS_FAILED_PRECONDITION, cb)
                     else pack_bindings_loop (i + 1) used_binding_count (iree_shr_u64 used_binding_mask (mask_offset + 1))
                            (binding_base + mask_offset + 1)
                            (cb\<lparr>ic_packed_binding_lengths := (ic_packed_binding_lengths cb)[i := ic_full_binding_lengths cb ! binding_ordinal]\<rparr>))"
  by pat_completeness auto
termination by (relation "measure (\<lambda>(i, n, _). n - i)") auto

definition iree_hal_inline_command_buffer_dispatch ::
  "hal_store \<Rightarrow> iree_hal_inline_command_buffer \<Rightarrow> iree_hal_local_executable \<Rightarrow> u32 \<Rightarrow> iree_hal_vec3 \<Rightarrow>
    (iree_status \<times> hal_store \<times> iree_hal_inline_command_buffer) option" where
  "iree_hal_inline_command_buffer_dispatch s cb executable entry_point workgroups =
    (if sint entry_point < 0 \<or> sint entry_point \<ge> int (length (ex_layouts executable)) then None
     else do {
       let local_layout = ex_layouts executable ! nat (sint entry_point);
       let used_binding_count = nat (iree_math_count_ones_u64 (el_used_bindings local_layout));
       (st, cb) \<leftarrow> pack_bindings_loop 0 used_binding_count (el_used_bindings local_layout) 0 cb;
       if st \<noteq> IREE_STATUS_OK then Some (st, s, cb)
       else do {
         (st, s) \<leftarrow> iree_hal_local_executable_issue_dispatch_inline executable (scast entry_point)
           \<lparr>ds_workgroup_count = workgroups, ds_workgroup_size = (1, 1, 1), ds_push_constant_count = el_push_constants local_layout,
            ds_push_constants = ic_push_constants cb, ds_binding_count = of_nat used_binding_count,
            ds_binding_ptrs = ic_packed_bindings cb, ds_binding_lengths = ic_packed_binding_lengths cb\<rparr> s;
         Some (st, s, cb)
       }
     })"

definition iree_hal_inline_command_buffer_dispatch_indirect ::
  "hal_store \<Rightarrow> iree_hal_inline_command_buffer \<Rightarrow> iree_hal_local_executable \<Rightarrow> u32 \<Rightarrow> nat \<Rightarrow> u64 \<Rightarrow>
    (iree_status \<times> hal_store \<times> iree_hal_inline_command_buffer) option" where
  "iree_hal_inline_command_buffer_dispatch_indirect s cb executable entry_point workgroups_buffer workgroups_offset = do {
     (st, m) \<leftarrow> iree_hal_buffer_map_range s workgroups_buffer IREE_HAL_MEMORY_ACCESS_READ workgroups_offset 12;
     case m of
       None \<Rightarrow> Some (st, s, cb)
     | Some m \<Rightarrow> do {
         xs \<leftarrow> read_mapping s m 12;
         iree_hal_inline_command_buffer_dispatch s cb executable entry_point
           (from_le (take 4 xs), from_le (take 4 (drop 4 xs)), from_le (drop 8 xs))
       }
   }"

end
