(* ===== verification/HAL_Validation.thy ===== *)
theory HAL_Validation
  imports HAL_Local
begin

text \<open>
  The command buffer of \<^verbatim>\<open>iree/hal/command_buffer_validation.c\<close>, which checks each command before it
  forwards it, here to the inline command buffer. The compatibility a device's allocator reports for a buffer
  is a parameter (\<open>query\<close>).
\<close>

definition IREE_HAL_COMMAND_CATEGORY_TRANSFER :: u32 where "IREE_HAL_COMMAND_CATEGORY_TRANSFER = 1"
definition IREE_HAL_COMMAND_CATEGORY_DISPATCH :: u32 where "IREE_HAL_COMMAND_CATEGORY_DISPATCH = 2"
definition IREE_HAL_COMMAND_CATEGORY_ANY :: u32 where "IREE_HAL_COMMAND_CATEGORY_ANY = 3"

type_synonym query_compatibility = "u32 \<Rightarrow> u32 \<Rightarrow> u32 \<Rightarrow> u64 \<Rightarrow> u32"

record iree_hal_validating_command_buffer =
  vc_target_command_buffer :: iree_hal_inline_command_buffer
  vc_allowed_categories :: u32
  vc_is_recording :: bool

text \<open>The first failure of a sequence of checks.\<close>

fun first_error :: "iree_status list \<Rightarrow> iree_status" where
  "first_error [] = IREE_STATUS_OK"
| "first_error (st # sts) = (if st \<noteq> IREE_STATUS_OK then st else first_error sts)"

definition iree_hal_command_buffer_validate_categories :: "iree_hal_validating_command_buffer \<Rightarrow> u32 \<Rightarrow> iree_status" where
  "iree_hal_command_buffer_validate_categories v required_categories =
    (if \<not> iree_all_bits_set (vc_allowed_categories v) required_categories then IREE_STATUS_FAILED_PRECONDITION else IREE_STATUS_OK)"

definition iree_hal_command_buffer_validate_buffer_compatibility ::
  "query_compatibility \<Rightarrow> iree_hal_buffer \<Rightarrow> u32 \<Rightarrow> u32 \<Rightarrow> iree_status" where
  "iree_hal_command_buffer_validate_buffer_compatibility query b required_compatibility intended_usage =
    (if \<not> iree_all_bits_set (query (hb_memory_type b) (hb_allowed_usage b) intended_usage (hb_allocation_size b)) required_compatibility
     then IREE_STATUS_PERMISSION_DENIED else IREE_STATUS_OK)"

definition sizeof_validating_command_buffer :: u64 where "sizeof_validating_command_buffer = 48"

definition iree_hal_command_buffer_wrap_validation ::
  "iree_allocator \<Rightarrow> iree_hal_inline_command_buffer \<Rightarrow> iree_status \<times> iree_hal_validating_command_buffer option" where
  "iree_hal_command_buffer_wrap_validation host_allocator target_command_buffer =
    (let st = host_allocator sizeof_validating_command_buffer
     in if st = IREE_STATUS_OK
        then (st, Some \<lparr>vc_target_command_buffer = target_command_buffer,
               vc_allowed_categories = ic_allowed_categories target_command_buffer, vc_is_recording = False\<rparr>)
        else (st, None))"

definition iree_hal_validating_command_buffer_begin ::
  "iree_hal_validating_command_buffer \<Rightarrow> iree_status \<times> iree_hal_validating_command_buffer" where
  "iree_hal_validating_command_buffer_begin v =
    (if vc_is_recording v then (IREE_STATUS_FAILED_PRECONDITION, v)
     else let (st, cb) = iree_hal_inline_command_buffer_begin (vc_target_command_buffer v)
          in (st, v\<lparr>vc_is_recording := True, vc_target_command_buffer := cb\<rparr>))"

definition iree_hal_validating_command_buffer_end ::
  "iree_hal_validating_command_buffer \<Rightarrow> iree_status \<times> iree_hal_validating_command_buffer" where
  "iree_hal_validating_command_buffer_end v =
    (if \<not> vc_is_recording v then (IREE_STATUS_FAILED_PRECONDITION, v)
     else let (st, cb) = iree_hal_inline_command_buffer_end (vc_target_command_buffer v)
          in (st, v\<lparr>vc_is_recording := False, vc_target_command_buffer := cb\<rparr>))"

definition iree_hal_validating_command_buffer_execution_barrier :: "iree_hal_validating_command_buffer \<Rightarrow> iree_status" where
  "iree_hal_validating_command_buffer_execution_barrier v =
    first_error [iree_hal_command_buffer_validate_categories v IREE_HAL_COMMAND_CATEGORY_ANY, iree_hal_inline_command_buffer_execution_barrier]"

definition iree_hal_validating_command_buffer_signal_event :: "iree_hal_validating_command_buffer \<Rightarrow> iree_status" where
  "iree_hal_validating_command_buffer_signal_event v =
    first_error [iree_hal_command_buffer_validate_categories v IREE_HAL_COMMAND_CATEGORY_DISPATCH, iree_hal_inline_command_buffer_signal_event]"

definition iree_hal_validating_command_buffer_reset_event :: "iree_hal_validating_command_buffer \<Rightarrow> iree_status" where
  "iree_hal_validating_command_buffer_reset_event v =
    first_error [iree_hal_command_buffer_validate_categories v IREE_HAL_COMMAND_CATEGORY_DISPATCH, iree_hal_inline_command_buffer_reset_event]"

definition iree_hal_validating_command_buffer_wait_events :: "iree_hal_validating_command_buffer \<Rightarrow> iree_status" where
  "iree_hal_validating_command_buffer_wait_events v =
    first_error [iree_hal_command_buffer_validate_categories v IREE_HAL_COMMAND_CATEGORY_DISPATCH, iree_hal_inline_command_buffer_wait_events]"

definition iree_hal_validating_command_buffer_discard_buffer ::
  "hal_store \<Rightarrow> iree_hal_validating_command_buffer \<Rightarrow> nat \<Rightarrow> iree_status option" where
  "iree_hal_validating_command_buffer_discard_buffer s v buffer = do {
     b \<leftarrow> hb_at s buffer;
     Some (first_error [iree_hal_command_buffer_validate_categories v IREE_HAL_COMMAND_CATEGORY_TRANSFER,
       iree_hal_buffer_validate_memory_type (hb_memory_type b) IREE_HAL_MEMORY_TYPE_DEVICE_VISIBLE,
       iree_hal_inline_command_buffer_discard_buffer buffer])
   }"

text \<open>The memory type of the target is compared with a constant of the access flags, which has the value of host-visible.\<close>

definition iree_hal_validating_command_buffer_fill_buffer ::
  "query_compatibility \<Rightarrow> hal_store \<Rightarrow> iree_hal_validating_command_buffer \<Rightarrow> nat \<Rightarrow> u64 \<Rightarrow> u64 \<Rightarrow> u8 list \<Rightarrow> (iree_status \<times> hal_store) option" where
  "iree_hal_validating_command_buffer_fill_buffer query s v target_buffer target_offset len pattern = do {
     b \<leftarrow> hb_at s target_buffer;
     let st = first_error [iree_hal_command_buffer_validate_categories v IREE_HAL_COMMAND_CATEGORY_TRANSFER,
       iree_hal_command_buffer_validate_buffer_compatibility query b IREE_HAL_BUFFER_COMPATIBILITY_QUEUE_TRANSFER IREE_HAL_BUFFER_USAGE_TRANSFER,
       iree_hal_buffer_validate_memory_type (hb_memory_type b) IREE_HAL_MEMORY_ACCESS_WRITE,
       iree_hal_buffer_validate_access (hb_allowed_access b) IREE_HAL_MEMORY_ACCESS_WRITE,
       iree_hal_buffer_validate_usage (hb_allowed_usage b) IREE_HAL_BUFFER_USAGE_TRANSFER,
       iree_hal_buffer_validate_range b target_offset len];
     if st \<noteq> IREE_STATUS_OK then Some (st, s)
     else if length pattern \<noteq> 1 \<and> length pattern \<noteq> 2 \<and> length pattern \<noteq> 4 then Some (IREE_STATUS_INVALID_ARGUMENT, s)
     else if target_offset mod of_nat (length pattern) \<noteq> 0 \<or> len mod of_nat (length pattern) \<noteq> 0 then Some (IREE_STATUS_INVALID_ARGUMENT, s)
     else iree_hal_inline_command_buffer_fill_buffer s target_buffer target_offset len pattern
   }"

definition iree_hal_validating_command_buffer_update_buffer ::
  "query_compatibility \<Rightarrow> hal_store \<Rightarrow> iree_hal_validating_command_buffer \<Rightarrow> u8 list \<Rightarrow> u64 \<Rightarrow> nat \<Rightarrow> u64 \<Rightarrow> u64 \<Rightarrow> (iree_status \<times> hal_store) option" where
  "iree_hal_validating_command_buffer_update_buffer query s v source_buffer source_offset target_buffer target_offset len = do {
     b \<leftarrow> hb_at s target_buffer;
     let st = first_error [iree_hal_command_buffer_validate_categories v IREE_HAL_COMMAND_CATEGORY_TRANSFER,
       iree_hal_command_buffer_validate_buffer_compatibility query b IREE_HAL_BUFFER_COMPATIBILITY_QUEUE_TRANSFER IREE_HAL_BUFFER_USAGE_TRANSFER,
       iree_hal_buffer_validate_memory_type (hb_memory_type b) IREE_HAL_MEMORY_TYPE_DEVICE_VISIBLE,
       iree_hal_buffer_validate_access (hb_allowed_access b) IREE_HAL_MEMORY_ACCESS_WRITE,
       iree_hal_buffer_validate_usage (hb_allowed_usage b) IREE_HAL_BUFFER_USAGE_TRANSFER,
       iree_hal_buffer_validate_range b target_offset len];
     if st \<noteq> IREE_STATUS_OK then Some (st, s)
     else iree_hal_inline_command_buffer_update_buffer s source_buffer source_offset target_buffer target_offset len
   }"

definition iree_hal_validating_command_buffer_copy_buffer ::
  "query_compatibility \<Rightarrow> hal_store \<Rightarrow> iree_hal_validating_command_buffer \<Rightarrow> nat \<Rightarrow> u64 \<Rightarrow> nat \<Rightarrow> u64 \<Rightarrow> u64 \<Rightarrow> (iree_status \<times> hal_store) option" where
  "iree_hal_validating_command_buffer_copy_buffer query s v source_buffer source_offset target_buffer target_offset len = do {
     a \<leftarrow> hb_at s source_buffer;
     b \<leftarrow> hb_at s target_buffer;
     let st = first_error [iree_hal_command_buffer_validate_categories v IREE_HAL_COMMAND_CATEGORY_TRANSFER,
       iree_hal_command_buffer_validate_buffer_compatibility query a IREE_HAL_BUFFER_COMPATIBILITY_QUEUE_TRANSFER IREE_HAL_BUFFER_USAGE_TRANSFER,
       iree_hal_command_buffer_validate_buffer_compatibility query b IREE_HAL_BUFFER_COMPATIBILITY_QUEUE_TRANSFER IREE_HAL_BUFFER_USAGE_TRANSFER,
       iree_hal_buffer_validate_access (hb_allowed_access a) IREE_HAL_MEMORY_ACCESS_READ,
       iree_hal_buffer_validate_usage (hb_allowed_usage a) IREE_HAL_BUFFER_USAGE_TRANSFER,
       iree_hal_buffer_validate_range a source_offset len,
       iree_hal_buffer_validate_usage (hb_allowed_usage b) IREE_HAL_BUFFER_USAGE_TRANSFER,
       iree_hal_buffer_validate_access (hb_allowed_access b) IREE_HAL_MEMORY_ACCESS_WRITE,
       iree_hal_buffer_validate_range b target_offset len];
     if st \<noteq> IREE_STATUS_OK then Some (st, s)
     else if \<not> iree_any_bit_set (hb_memory_type a) IREE_HAL_MEMORY_TYPE_DEVICE_VISIBLE
       \<and> \<not> iree_any_bit_set (hb_memory_type b) IREE_HAL_MEMORY_TYPE_DEVICE_VISIBLE then Some (IREE_STATUS_PERMISSION_DENIED, s)
     else if iree_hal_buffer_test_overlap a source_offset len b target_offset len \<noteq> IREE_HAL_BUFFER_OVERLAP_DISJOINT
       then Some (IREE_STATUS_INVALID_ARGUMENT, s)
     else iree_hal_inline_command_buffer_copy_buffer s source_buffer source_offset target_buffer target_offset len
   }"

text \<open>The entry point of the interface ignores an empty update.\<close>

definition iree_hal_command_buffer_push_constants ::
  "iree_hal_inline_command_buffer \<Rightarrow> u64 \<Rightarrow> u8 list \<Rightarrow> (iree_status \<times> iree_hal_inline_command_buffer) option" where
  "iree_hal_command_buffer_push_constants cb offset vals =
    (if vals = [] then Some (IREE_STATUS_OK, cb) else iree_hal_inline_command_buffer_push_constants cb offset vals)"

definition iree_hal_validating_command_buffer_push_constants ::
  "iree_hal_validating_command_buffer \<Rightarrow> u64 \<Rightarrow> u8 list \<Rightarrow> (iree_status \<times> iree_hal_validating_command_buffer) option" where
  "iree_hal_validating_command_buffer_push_constants v offset vals = do {
     let st = first_error [iree_hal_command_buffer_validate_categories v IREE_HAL_COMMAND_CATEGORY_DISPATCH];
     if st \<noteq> IREE_STATUS_OK then Some (st, v)
     else if length vals mod 4 \<noteq> 0 then Some (IREE_STATUS_INVALID_ARGUMENT, v)
     else do {
       (st, cb) \<leftarrow> iree_hal_command_buffer_push_constants (vc_target_command_buffer v) offset vals;
       Some (st, v\<lparr>vc_target_command_buffer := cb\<rparr>)
     }
   }"

definition iree_hal_validating_command_buffer_push_descriptor_set ::
  "hal_store \<Rightarrow> iree_hal_validating_command_buffer \<Rightarrow> iree_hal_local_executable_layout \<Rightarrow> u32 \<Rightarrow> iree_hal_descriptor_set_binding list \<Rightarrow>
    (iree_status \<times> iree_hal_validating_command_buffer) option" where
  "iree_hal_validating_command_buffer_push_descriptor_set s v executable_layout set_ordinal bindings = do {
     let st = iree_hal_command_buffer_validate_categories v IREE_HAL_COMMAND_CATEGORY_DISPATCH;
     if st \<noteq> IREE_STATUS_OK then Some (st, v)
     else do {
       (st, cb) \<leftarrow> iree_hal_inline_command_buffer_push_descriptor_set s (vc_target_command_buffer v) executable_layout set_ordinal bindings;
       Some (st, v\<lparr>vc_target_command_buffer := cb\<rparr>)
     }
   }"

definition iree_hal_validating_command_buffer_bind_descriptor_set :: "iree_hal_validating_command_buffer \<Rightarrow> iree_status" where
  "iree_hal_validating_command_buffer_bind_descriptor_set v =
    first_error [iree_hal_command_buffer_validate_categories v IREE_HAL_COMMAND_CATEGORY_DISPATCH, iree_hal_inline_command_buffer_bind_descriptor_set]"

definition iree_hal_validating_command_buffer_dispatch ::
  "hal_store \<Rightarrow> iree_hal_validating_command_buffer \<Rightarrow> iree_hal_local_executable \<Rightarrow> u32 \<Rightarrow> iree_hal_vec3 \<Rightarrow>
    (iree_status \<times> hal_store \<times> iree_hal_validating_command_buffer) option" where
  "iree_hal_validating_command_buffer_dispatch s v executable entry_point workgroups = do {
     let st = iree_hal_command_buffer_validate_categories v IREE_HAL_COMMAND_CATEGORY_DISPATCH;
     if st \<noteq> IREE_STATUS_OK then Some (st, s, v)
     else do {
       (st, s, cb) \<leftarrow> iree_hal_inline_command_buffer_dispatch s (vc_target_command_buffer v) executable entry_point workgroups;
       Some (st, s, v\<lparr>vc_target_command_buffer := cb\<rparr>)
     }
   }"

definition iree_hal_validating_command_buffer_dispatch_indirect ::
  "query_compatibility \<Rightarrow> hal_store \<Rightarrow> iree_hal_validating_command_buffer \<Rightarrow> iree_hal_local_executable \<Rightarrow> u32 \<Rightarrow> nat \<Rightarrow> u64 \<Rightarrow>
    (iree_status \<times> hal_store \<times> iree_hal_validating_command_buffer) option" where
  "iree_hal_validating_command_buffer_dispatch_indirect query s v executable entry_point workgroups_buffer workgroups_offset = do {
     b \<leftarrow> hb_at s workgroups_buffer;
     let st = first_error [iree_hal_command_buffer_validate_categories v IREE_HAL_COMMAND_CATEGORY_DISPATCH,
       iree_hal_command_buffer_validate_buffer_compatibility query b IREE_HAL_BUFFER_COMPATIBILITY_QUEUE_DISPATCH IREE_HAL_BUFFER_USAGE_DISPATCH,
       iree_hal_buffer_validate_memory_type (hb_memory_type b) IREE_HAL_MEMORY_TYPE_DEVICE_VISIBLE,
       iree_hal_buffer_validate_access (hb_allowed_access b) IREE_HAL_MEMORY_ACCESS_READ,
       iree_hal_buffer_validate_usage (hb_allowed_usage b) IREE_HAL_BUFFER_USAGE_DISPATCH,
       iree_hal_buffer_validate_range b workgroups_offset 12];
     if st \<noteq> IREE_STATUS_OK then Some (st, s, v)
     else do {
       (st, s, cb) \<leftarrow> iree_hal_inline_command_buffer_dispatch_indirect s (vc_target_command_buffer v) executable entry_point workgroups_buffer workgroups_offset;
       Some (st, s, v\<lparr>vc_target_command_buffer := cb\<rparr>)
     }
   }"

end
