(* ===== verification/HAL_LocalSafety.thy ===== *)
theory HAL_LocalSafety
  imports HAL_Validation
begin

text \<open>
  Lemmas on local execution: the loop that packs the used bindings of a dispatch, the mask of an executable
  layout, the order in which the workgroups of a grid run, and what filling a buffer does.
\<close>

section \<open>Packing the used bindings\<close>

declare pack_bindings_loop.simps [simp del]

definition set_bits_from :: "nat \<Rightarrow> u64 \<Rightarrow> nat list" where "set_bits_from k used = filter (bit used) [k..<64]"

lemma set_bits_from_rec:
  "set_bits_from k used = (if k < 64 then (if bit used k then k # set_bits_from (k + 1) used else set_bits_from (k + 1) used) else [])"
  by (simp add: set_bits_from_def upt_conv_Cons)

lemma set_bits_from_Cons:
  "set_bits_from base used = k # ks \<Longrightarrow>
    base \<le> k \<and> k < 64 \<and> bit used k \<and> (\<forall>j. base \<le> j \<longrightarrow> j < k \<longrightarrow> \<not> bit used j) \<and> ks = set_bits_from (k + 1) used"
proof (induction "64 - base" arbitrary: base)
  case 0
  then show ?case by (simp add: set_bits_from_rec [of base])
next
  case (Suc n)
  have base: "base < 64" using Suc.hyps(2) by simp
  show ?case
  proof (cases "bit used base")
    case True
    then have "k = base" "ks = set_bits_from (base + 1) used" using Suc.prems base unfolding set_bits_from_rec [of base] by auto
    then show ?thesis using True base by simp
  next
    case False
    then have "set_bits_from (base + 1) used = k # ks" using Suc.prems base unfolding set_bits_from_rec [of base] by simp
    from Suc.hyps(1) [OF _ this] Suc.hyps(2) have IH: "base + 1 \<le> k \<and> k < 64 \<and> bit used k \<and> (\<forall>j. base + 1 \<le> j \<longrightarrow> j < k \<longrightarrow> \<not> bit used j) \<and> ks = set_bits_from (k + 1) used"
      by simp
    have "\<not> bit used j" if "base \<le> j" "j < k" for j using IH False that by (cases "j = base") auto
    then show ?thesis using IH by simp
  qed
qed

lemma count_ones_set_bits: "nat (iree_math_count_ones_u64 used) = length (set_bits_from 0 used)"
proof -
  have "{i. bit used i} = set (set_bits_from 0 used)" by (auto simp: set_bits_from_def dest: bit_imp_le_length)
  moreover have "distinct (set_bits_from 0 used)" by (simp add: set_bits_from_def)
  ultimately have "card {i. bit used i} = length (set_bits_from 0 used)" by (simp add: distinct_card)
  then show ?thesis using ones_card [of used] by (simp add: count_ones_u64_bits)
qed

text \<open>One turn of the loop takes the next set bit.\<close>

lemma pack_step:
  assumes "set_bits_from base used = k # ks"
  shows "iree_math_count_trailing_zeros_u64 (drop_bit base used) = int k - int base"
    "iree_shr_u64 (drop_bit base used) (int k - int base + 1) = drop_bit (k + 1) used"
proof -
  have k: "base \<le> k" "k < 64" "bit used k" "\<forall>j. base \<le> j \<longrightarrow> j < k \<longrightarrow> \<not> bit used j" using set_bits_from_Cons [OF assms] by auto
  have "iree_math_count_trailing_zeros_u64 (drop_bit base used) = int (k - base)"
    using k by (intro trailing_zeros_lowest) (auto simp: bit_drop_bit_eq)
  then show "iree_math_count_trailing_zeros_u64 (drop_bit base used) = int k - int base" using k(1) by simp
  have n: "nat (int k - int base + 1) = k - base + 1" using k(1) by simp
  have d: "drop_bit (k - base + 1) (drop_bit base used) = drop_bit (k + 1) used" using k(1) by (simp add: drop_bit_drop_bit)
  have "drop_bit (k + 1) used = 0" if "\<not> k - base + 1 < 64"
  proof (rule bit_word_eqI)
    fix j :: nat assume "j < LENGTH(64)"
    have "k = 63" using that k(1,2) by simp
    then show "bit (drop_bit (k + 1) used) j = bit 0 j" using bit_imp_le_length [of used "k + 1 + j"] by (auto simp: bit_drop_bit_eq)
  qed
  then show "iree_shr_u64 (drop_bit base used) (int k - int base + 1) = drop_bit (k + 1) used"
    using k(1) n d by (auto simp: iree_shr_u64_def)
qed

definition bindings_ok :: "iree_hal_inline_command_buffer \<Rightarrow> bool" where
  "bindings_ok cb \<longleftrightarrow> length (ic_full_bindings cb) = 64 \<and> length (ic_full_binding_lengths cb) = 64
    \<and> length (ic_packed_bindings cb) = 64 \<and> length (ic_packed_binding_lengths cb) = 64 \<and> length (ic_push_constants cb) = 256"

lemma take_update: "i < length xs \<Longrightarrow> take (Suc i) (xs[i := x]) = take i xs @ [x]"
  by (simp add: take_Suc_conv_app_nth)

lemma pack_all:
  assumes "bindings_ok cb" "\<forall>k \<in> set (set_bits_from base used). ic_full_bindings cb ! k \<noteq> None" "n = i + length (set_bits_from base used)" "n \<le> 64"
  shows "\<exists>ps ls. pack_bindings_loop i n (drop_bit base used) (int base) cb
      = Some (IREE_STATUS_OK, cb\<lparr>ic_packed_bindings := ps, ic_packed_binding_lengths := ls\<rparr>)
    \<and> length ps = 64 \<and> length ls = 64
    \<and> take n ps = take i (ic_packed_bindings cb) @ map (\<lambda>k. ic_full_bindings cb ! k) (set_bits_from base used)
    \<and> take n ls = take i (ic_packed_binding_lengths cb) @ map (\<lambda>k. ic_full_binding_lengths cb ! k) (set_bits_from base used)"
  using assms
proof (induction "set_bits_from base used" arbitrary: base i cb)
  case Nil
  then show ?case
    by (intro exI [of _ "ic_packed_bindings cb"] exI [of _ "ic_packed_binding_lengths cb"]) (simp add: bindings_ok_def pack_bindings_loop.simps [of i])
next
  case (Cons k ks)
  note b = Cons.hyps(2) [symmetric]
  have k: "base \<le> k" "k < 64" "ks = set_bits_from (k + 1) used" using set_bits_from_Cons [OF b] by auto
  have i: "i < n" "i < 64" using Cons.prems(3,4) b by auto
  let ?cb = "cb\<lparr>ic_packed_bindings := (ic_packed_bindings cb)[i := ic_full_bindings cb ! k],
      ic_packed_binding_lengths := (ic_packed_binding_lengths cb)[i := ic_full_binding_lengths cb ! k]\<rparr>"
  have nn: "ic_full_bindings cb ! k \<noteq> None" using Cons.prems(2) b by simp
  have step: "pack_bindings_loop i n (drop_bit base used) (int base) cb = pack_bindings_loop (i + 1) n (drop_bit (k + 1) used) (int (k + 1)) ?cb"
    using i k(1,2) nn Cons.prems(1) pack_step [OF b] by (subst pack_bindings_loop.simps) (auto simp: Let_def bindings_ok_def add.commute)
  have "\<exists>ps ls. pack_bindings_loop (i + 1) n (drop_bit (k + 1) used) (int (k + 1)) ?cb
      = Some (IREE_STATUS_OK, ?cb\<lparr>ic_packed_bindings := ps, ic_packed_binding_lengths := ls\<rparr>)
    \<and> length ps = 64 \<and> length ls = 64
    \<and> take n ps = take (i + 1) (ic_packed_bindings ?cb) @ map (\<lambda>k. ic_full_bindings ?cb ! k) (set_bits_from (k + 1) used)
    \<and> take n ls = take (i + 1) (ic_packed_binding_lengths ?cb) @ map (\<lambda>k. ic_full_binding_lengths ?cb ! k) (set_bits_from (k + 1) used)"
    using Cons.prems b k(3) by (intro Cons.hyps(1)) (auto simp: bindings_ok_def)
  then obtain ps ls where IH: "pack_bindings_loop (i + 1) n (drop_bit (k + 1) used) (int (k + 1)) ?cb
      = Some (IREE_STATUS_OK, ?cb\<lparr>ic_packed_bindings := ps, ic_packed_binding_lengths := ls\<rparr>)" "length ps = 64" "length ls = 64"
    "take n ps = take (i + 1) (ic_packed_bindings ?cb) @ map (\<lambda>k. ic_full_bindings ?cb ! k) (set_bits_from (k + 1) used)"
    "take n ls = take (i + 1) (ic_packed_binding_lengths ?cb) @ map (\<lambda>k. ic_full_binding_lengths ?cb ! k) (set_bits_from (k + 1) used)" by blast
  show ?case
  proof (intro exI conjI)
    show "pack_bindings_loop i n (drop_bit base used) (int base) cb
        = Some (IREE_STATUS_OK, cb\<lparr>ic_packed_bindings := ps, ic_packed_binding_lengths := ls\<rparr>)" using step IH(1) by simp
    show "take n ps = take i (ic_packed_bindings cb) @ map (\<lambda>k. ic_full_bindings cb ! k) (set_bits_from base used)"
      using IH(4) b k(3) Cons.prems(1) i(2) by (simp add: bindings_ok_def take_update)
    show "take n ls = take i (ic_packed_binding_lengths cb) @ map (\<lambda>k. ic_full_binding_lengths cb ! k) (set_bits_from base used)"
      using IH(5) b k(3) Cons.prems(1) i(2) by (simp add: bindings_ok_def take_update)
  qed (use IH(2,3) in auto)
qed


section \<open>The mask of an executable layout\<close>

lemma bindings_loop_bits:
  "i < 2 \<Longrightarrow> j + length bs \<le> 32 \<Longrightarrow>
    bit (fst (layout_bindings_loop i j bs (used, dynamic))) k \<longleftrightarrow> bit used k \<or> (i * 32 + j \<le> k \<and> k < i * 32 + j + length bs)"
proof (induction bs arbitrary: j used dynamic)
  case (Cons b bs)
  have "bit (push_bit (i * 32 + j) 1 :: u64) k \<longleftrightarrow> k = i * 32 + j" using Cons.prems by (auto simp: bit_simps)
  then show ?case using Cons by (auto simp: bit_or_iff IREE_HAL_LOCAL_MAX_DESCRIPTOR_BINDING_COUNT_def)
qed auto

lemma sets_loop_bits:
  "i + length sls \<le> 2 \<Longrightarrow> \<forall>sl \<in> set sls. length (sl_bindings sl) \<le> 32 \<Longrightarrow>
    bit (fst (layout_sets_loop i sls m)) k \<longleftrightarrow> bit (fst m) k \<or> (\<exists>a < length sls. (i + a) * 32 \<le> k \<and> k < (i + a) * 32 + length (sl_bindings (sls ! a)))"
proof (induction sls arbitrary: i m)
  case (Cons sl sls)
  obtain used dynamic where m: "m = (used, dynamic)" by (cases m)
  have "bit (fst (layout_sets_loop i (sl # sls) m)) k \<longleftrightarrow> bit (fst (layout_bindings_loop i 0 (sl_bindings sl) m)) k
      \<or> (\<exists>a < length sls. (i + 1 + a) * 32 \<le> k \<and> k < (i + 1 + a) * 32 + length (sl_bindings (sls ! a)))"
    using Cons.IH [of "i + 1"] Cons.prems by simp
  also have "bit (fst (layout_bindings_loop i 0 (sl_bindings sl) m)) k \<longleftrightarrow> bit (fst m) k \<or> (i * 32 \<le> k \<and> k < i * 32 + length (sl_bindings sl))"
    using bindings_loop_bits [of i 0 "sl_bindings sl"] Cons.prems by (simp add: m)
  also have "(bit (fst m) k \<or> (i * 32 \<le> k \<and> k < i * 32 + length (sl_bindings sl)))
      \<or> (\<exists>a < length sls. (i + 1 + a) * 32 \<le> k \<and> k < (i + 1 + a) * 32 + length (sl_bindings (sls ! a)))
    \<longleftrightarrow> bit (fst m) k \<or> (\<exists>a < length (sl # sls). (i + a) * 32 \<le> k \<and> k < (i + a) * 32 + length (sl_bindings ((sl # sls) ! a)))"
    by (auto simp: less_Suc_eq_0_disj)
  finally show ?case .
qed simp

section \<open>The grid of workgroups\<close>

text \<open>The calls of a dispatch in the order they are made.\<close>

definition grid :: "iree_hal_vec3 \<Rightarrow> iree_hal_vec3 list" where
  "grid n = (case n of (nx, ny, nz) \<Rightarrow> concat (map (\<lambda>z. concat (map (\<lambda>y. map (\<lambda>x. (x, y, z)) (grid_axis nx)) (grid_axis ny))) (grid_axis nz)))"

fun run_calls :: "(iree_hal_vec3 \<Rightarrow> hal_store \<Rightarrow> (iree_status \<times> hal_store) option) \<Rightarrow> iree_hal_vec3 list \<Rightarrow> iree_status \<times> hal_store \<Rightarrow> (iree_status \<times> hal_store) option" where
  "run_calls call [] r = Some r"
| "run_calls call (g # gs) (st, s) = do { r \<leftarrow> call g s; run_calls call gs r }"

lemma run_calls_append: "run_calls call (gs @ hs) r = do { r \<leftarrow> run_calls call gs r; run_calls call hs r }"
proof (induction gs arbitrary: r)
  case (Cons g gs)
  then show ?case by (cases r) (simp split: Option.bind_splits)
qed simp

definition never_fails :: "(iree_hal_vec3 \<Rightarrow> hal_store \<Rightarrow> (iree_status \<times> hal_store) option) \<Rightarrow> bool" where
  "never_fails call \<longleftrightarrow> (\<forall>g s st s'. call g s = Some (st, s') \<longrightarrow> st = IREE_STATUS_OK)"

lemma workgroups_x_run: "never_fails call \<Longrightarrow> workgroups_x (\<lambda>x. call (x, y, z)) xs r = run_calls call (map (\<lambda>x. (x, y, z)) xs) r"
proof (induction xs arbitrary: r)
  case (Cons x xs)
  obtain st s where r: "r = (st, s)" by (cases r)
  show ?case
  proof (cases "call (x, y, z) s")
    case (Some q)
    obtain st' s' where q: "q = (st', s')" by (cases q)
    then have "st' = IREE_STATUS_OK" using Some Cons.prems unfolding never_fails_def by blast
    then show ?thesis using Some q r Cons by simp
  qed (simp add: r)
qed simp

lemma workgroups_y_run:
  "never_fails call \<Longrightarrow> workgroups_y (\<lambda>x y. call (x, y, z)) xs ys r = run_calls call (concat (map (\<lambda>y. map (\<lambda>x. (x, y, z)) xs) ys)) r"
proof (induction ys arbitrary: r)
  case (Cons y ys)
  then have "workgroups_y (\<lambda>x y. call (x, y, z)) xs ys = run_calls call (concat (map (\<lambda>y. map (\<lambda>x. (x, y, z)) xs) ys))" by blast
  then show ?case using Cons.prems by (simp add: workgroups_x_run run_calls_append)
qed simp

lemma workgroups_z_run:
  "never_fails call \<Longrightarrow> workgroups_z (\<lambda>x y z. call (x, y, z)) xs ys zs r
    = run_calls call (concat (map (\<lambda>z. concat (map (\<lambda>y. map (\<lambda>x. (x, y, z)) xs) ys)) zs)) r"
proof (induction zs arbitrary: r)
  case (Cons z zs)
  then have "workgroups_z (\<lambda>x y z. call (x, y, z)) xs ys zs
      = run_calls call (concat (map (\<lambda>z. concat (map (\<lambda>y. map (\<lambda>x. (x, y, z)) xs) ys)) zs))" by blast
  then show ?case using Cons.prems by (simp add: workgroups_y_run run_calls_append)
qed simp

lemma set_grid: "set (grid (nx, ny, nz)) = {(x, y, z). x < nx \<and> y < ny \<and> z < nz}"
proof -
  have axis: "set (grid_axis n) = {x. x < n}" for n
  proof -
    have "x \<in> set (grid_axis n)" if "x < n" for x
      using that by (auto simp: grid_axis_def word_less_nat_alt intro!: image_eqI [of _ _ "unat x"])
    moreover have "x < n" if x: "x \<in> set (grid_axis n)" for x
    proof -
      obtain i where i: "x = of_nat i" "i < unat n" using x by (auto simp: grid_axis_def)
      have "unat n < 2 ^ LENGTH(32)" by (rule unsigned_less)
      then have "unat (of_nat i :: u32) = i" using i(2) by (simp add: unsigned_of_nat take_bit_nat_eq_self)
      then show ?thesis using i by (simp add: word_less_nat_alt)
    qed
    ultimately show ?thesis by blast
  qed
  show ?thesis by (auto simp: grid_def axis)
qed

lemma distinct_grid: "distinct (grid n)"
proof -
  have axis: "distinct (grid_axis m)" for m
  proof -
    have "unat m < 2 ^ LENGTH(32)" by (rule unsigned_less)
    then have "unat (of_nat i :: u32) = i" if "i < unat m" for i using that by (simp add: unsigned_of_nat take_bit_nat_eq_self)
    then have "inj_on (of_nat :: nat \<Rightarrow> u32) {0..<unat m}" by (intro inj_onI) (metis atLeastLessThan_iff)
    then show ?thesis by (simp add: grid_axis_def distinct_map)
  qed
  obtain nx ny nz where n: "n = (nx, ny, nz)" by (cases n)
  have "grid n = map (\<lambda>(z, y, x). (x, y, z)) (List.product (grid_axis nz) (List.product (grid_axis ny) (grid_axis nx)))"
    by (simp add: n grid_def product_concat_map map_concat comp_def)
  then show ?thesis by (auto simp: distinct_map distinct_product axis inj_on_def)
qed

section \<open>Filling\<close>

lemma concat_replicate_zero: "list_all (\<lambda>x. x = 0) pat \<Longrightarrow> concat (replicate n pat) = replicate (n * length pat) (0 :: u8)"
proof -
  assume "list_all (\<lambda>x. x = 0) pat"
  then have "pat = replicate (length pat) 0" by (intro nth_equalityI) (auto simp: list_all_length)
  then obtain k where "pat = replicate k 0" by blast
  then show ?thesis by (induction n) (simp_all add: replicate_add)
qed

lemma word_mod_dvd:
  fixes x :: u64
  assumes "0 < k" "k < 2 ^ 64"
  shows "x mod of_nat k = 0 \<longleftrightarrow> unat x mod k = 0"
proof -
  have "unat (of_nat k :: u64) = k" using assms by (simp add: unsigned_of_nat take_bit_nat_eq_self)
  then show ?thesis by (simp add: word_unat_eq_iff unat_mod_distrib)
qed

lemma fill_cases:
  assumes ok: "hal_ok s R" and p: "hb_at s p = Some b" and c: "hal_contents s p = Some c"
    and n: "n \<noteq> IREE_WHOLE_BUFFER" "n \<noteq> 0" "unat offset + unat n \<le> 2 ^ 64"
  shows "(\<exists>st. st \<noteq> IREE_STATUS_OK \<and> iree_hal_buffer_fill s p offset n pat = Some (st, s))
    \<or> (\<exists>s'. iree_hal_buffer_fill s p offset n pat = Some (IREE_STATUS_OK, s') \<and> hal_ok s' R \<and> length pat dvd unat n
        \<and> unat offset + unat n \<le> length c
        \<and> hal_contents s' p = Some (take (unat offset) c @ concat (replicate (unat n div length pat) pat) @ drop (unat offset + unat n) c))"
proof (cases "length pat = 1 \<or> length pat = 2 \<or> length pat = 4")
  case False
  then show ?thesis by (simp add: iree_hal_buffer_fill_def)
next
  case len: True
  then have k: "0 < length pat" "length pat < 2 ^ 64" by auto
  have guard: "\<not> (length pat \<noteq> 1 \<and> length pat \<noteq> 2 \<and> length pat \<noteq> 4)" using len by blast
  note fill_def = iree_hal_buffer_fill_def
  have fits: "fits offset n" using n by (simp add: fits_def)
  from map_range_ok [OF ok p fits, of IREE_HAL_MEMORY_ACCESS_DISCARD_WRITE] show ?thesis
  proof (elim disjE exE conjE)
    fix m
    assume m: "iree_hal_buffer_map_range s p IREE_HAL_MEMORY_ACCESS_DISCARD_WRITE offset n = Some (IREE_STATUS_OK, Some m)"
      and t: "maps_to b IREE_HAL_MEMORY_ACCESS_DISCARD_WRITE offset n m"
    show ?thesis
    proof (cases "offset mod of_nat (length pat) \<noteq> 0 \<or> n mod of_nat (length pat) \<noteq> 0")
      case True
      then show ?thesis using m guard n by (auto simp: fill_def Let_def)
    next
      case aligned: False
      then have dvd: "length pat dvd unat n" using word_mod_dvd [OF k, of n] by (simp add: mod_eq_0_iff_dvd)
      define pat' where "pat' = (if list_all (\<lambda>x. x = 0) pat then [0] else pat)"
      define xs where "xs = concat (replicate (unat n div length pat') pat')"
      have xs: "xs = concat (replicate (unat n div length pat) pat)"
        using dvd by (simp add: xs_def pat'_def concat_replicate_zero concat_replicate_trivial)
      have lxs: "length xs = unat n" unfolding xs using dvd by (simp add: length_concat sum_list_replicate)
      obtain d where d: "owner_bytes s (hb_allocated_buffer b) = Some d" "length d < 2 ^ 63" "unat (hb_byte_offset b) + unat (hb_byte_length b) \<le> length d"
          "c = take (unat (hb_byte_length b)) (drop (unat (hb_byte_offset b)) d)"
        using contents_ok [OF ok p] c by auto
      have own: "owner_bytes s (mp_owner m) = Some d" "unat (mp_byte_offset m) + length xs \<le> length d" "mp_owner m = hb_allocated_buffer b"
          "unat (mp_byte_offset m) = unat (hb_byte_offset b) + unat offset" "mp_allowed_access m = IREE_HAL_MEMORY_ACCESS_DISCARD_WRITE"
          "unat offset + unat n \<le> length c" "mp_data_length m = n"
        using t d lxs n(1) by (auto simp: maps_to_def)
      obtain s' d' where s': "write_mapping s m xs = Some s'" "hal_ok s' R" "same_but (hb_allocated_buffer b) s s'"
          "owner_bytes s' (hb_allocated_buffer b) = Some d'" "write_bytes d (mp_byte_offset m) xs = Some d'"
        using write_mapping_ok [OF ok own(1,2)] own(3) by auto
      obtain v where v: "hb_at s' p = Some (b\<lparr>hb_vtable := v\<rparr>)" using same_butD [OF s'(3) p] by blast
      have "flush_unless_coherent s' p m IREE_WHOLE_BUFFER = Some IREE_STATUS_OK"
        using flush_ok [OF v own(5), of IREE_WHOLE_BUFFER] own(2,7) lxs d(2) by simp
      then have "iree_hal_buffer_fill s p offset n pat = Some (IREE_STATUS_OK, s')"
        using m guard n aligned s'(1) unfolding fill_def xs_def pat'_def by (simp add: Let_def)
      moreover have "hal_contents s' p = Some (take (unat offset) c @ xs @ drop (unat offset + unat n) c)"
        using contents_spliced [OF s'(3) d(1) s'(4,5) p c own(4)] own(6) lxs by simp
      ultimately show ?thesis using s'(2) dvd own(6) xs by blast
    qed
  qed (use guard n in \<open>auto simp: fill_def\<close>)
qed

end
