(* ===== verification/HAL_Properties.thy ===== *)
theory HAL_Properties
  imports HAL_LocalSafety
begin

text \<open>
  Properties of the hardware abstraction layer: buffers and their subspans, reads, writes and copies, buffer
  views and subviews, and local execution of dispatches.
\<close>

section \<open>Sample buffers\<close>

definition sample_buffer :: "nat \<Rightarrow> u8 list \<Rightarrow> iree_hal_buffer" where
  "sample_buffer p d = \<lparr>hb_ref_count = 1, hb_vtable = HeapBuffer d, hb_allocated_buffer = p, hb_allocation_size = of_nat (length d),
    hb_byte_offset = 0, hb_byte_length = of_nat (length d), hb_memory_type = 22, hb_allowed_access = 7, hb_allowed_usage = 14\<rparr>"

definition sample_buffers :: hal_store where
  "sample_buffers = [Some (sample_buffer 0 [1, 2, 3, 4, 5, 6, 7, 8]), Some (sample_buffer 1 [9, 9, 9, 9])]"

lemma sample_at: "hb_at sample_buffers 0 = Some (sample_buffer 0 [1, 2, 3, 4, 5, 6, 7, 8])" "hb_at sample_buffers (Suc 0) = Some (sample_buffer 1 [9, 9, 9, 9])"
  by (simp_all add: hb_at_def sample_buffers_def)

lemma sample_contents: "hal_contents sample_buffers 0 = Some [1, 2, 3, 4, 5, 6, 7, 8]" "hal_contents sample_buffers (Suc 0) = Some [9, 9, 9, 9]"
  by (simp_all add: hal_contents_def sample_at owner_bytes_def sample_buffer_def)

lemma sample_ok: "hal_ok sample_buffers {#0, Suc 0#}"
proof -
  have sp: "spans sample_buffers p = 0" for p by (simp add: spans_def sample_buffers_def is_span_of_def sample_buffer_def)
  have at: "hb_at sample_buffers p = (if p = 0 then Some (sample_buffer 0 [1, 2, 3, 4, 5, 6, 7, 8]) else if p = Suc 0 then Some (sample_buffer 1 [9, 9, 9, 9]) else None)" for p
    by (auto simp: hb_at_def sample_buffers_def less_Suc_eq)
  show ?thesis unfolding hal_ok_def sp at by (auto simp: buffer_wf_def sample_buffer_def split: if_splits)
qed


section \<open>Buffers\<close>

lemma disjoint_kept:
  assumes ok: "hal_ok s R" and p: "hb_at s p = Some b" and q: "hb_at s q = Some e" "hal_contents s q = Some g" "unat o' + unat n \<le> length g"
    and disj: "iree_hal_buffer_test_overlap b offset (of_nat (length xs)) e o' n = IREE_HAL_BUFFER_OVERLAP_DISJOINT"
    and w: "same_but (hb_allocated_buffer b) s s'" "owner_bytes s (hb_allocated_buffer b) = Some d" "owner_bytes s' (hb_allocated_buffer b) = Some d'"
      "write_bytes d off xs = Some d'" "unat off = unat (hb_byte_offset b) + unat offset" "unat offset + length xs \<le> unat (hb_byte_length b)"
    and xs: "length xs < 2 ^ 64 - 1"
  shows "\<exists>g'. hal_contents s' q = Some g' \<and> length g' = length g \<and> take (unat n) (drop (unat o') g') = take (unat n) (drop (unat o') g)"
proof -
  have lx: "unat (of_nat (length xs) :: u64) = length xs" using xs by (simp add: unsigned_of_nat take_bit_nat_eq_self)
  have lg: "length g = unat (hb_byte_length e)" by (rule contents_length [OF ok q(1,2)])
  have ib: "range_inside b offset (of_nat (length xs))" using contents_ok [OF ok p] w(6) lx by (auto simp: range_inside_def)
  have ie: "range_inside e o' n" using contents_ok [OF ok q(1)] q(3) lg by (auto simp: range_inside_def)
  have cells: "range_cells b offset (of_nat (length xs)) \<inter> range_cells e o' n = {}"
    using disj unfolding test_overlap_cases [OF ib ie] by (simp split: if_splits)
  obtain g' where g': "hal_contents s' q = Some g'" "length g' = length g"
      "\<forall>i < length g. g' ! i = (if hb_allocated_buffer e = hb_allocated_buffer b \<and> unat off \<le> unat (hb_byte_offset e) + i
        \<and> unat (hb_byte_offset e) + i < unat off + length xs then xs ! (unat (hb_byte_offset e) + i - unat off) else g ! i)"
    using contents_after_write [OF w(1-4) q(1,2)] by blast
  have "g' ! (unat o' + i) = g ! (unat o' + i)" if i: "i < unat n" for i
  proof -
    have "(hb_allocated_buffer e, unat (hb_byte_offset e) + unat o' + i) \<in> range_cells e o' n" using i by (simp add: range_cells_def)
    then have "(hb_allocated_buffer e, unat (hb_byte_offset e) + unat o' + i) \<notin> range_cells b offset (of_nat (length xs))" using cells by blast
    then show ?thesis using g'(3) q(3) i w(5) lx by (auto simp: range_cells_def)
  qed
  then have "take (unat n) (drop (unat o') g') = take (unat n) (drop (unat o') g)"
    using g'(2) q(3) by (intro nth_equalityI) auto
  then show ?thesis using g'(1,2) by blast
qed



text \<open>
  C14. Writing through a buffer replaces exactly the range of its bytes, or leaves the store as it was if the
  status is not OK. A range of any buffer that \<open>iree_hal_buffer_test_overlap\<close> calls disjoint keeps its bytes.
\<close>

theorem hal_write_exact:
  assumes ok: "hal_ok s R" and p: "hb_at s p = Some b" "hal_contents s p = Some c"
    and xs: "length xs < 2 ^ 64 - 1" "unat offset + length xs \<le> 2 ^ 64"
  shows "\<exists>st s'. iree_hal_buffer_write_data s p offset xs = Some (st, s') \<and> hal_ok s' R \<and> (st \<noteq> IREE_STATUS_OK \<longrightarrow> s' = s)
    \<and> (st = IREE_STATUS_OK \<longrightarrow> hal_contents s' p = Some (take (unat offset) c @ xs @ drop (unat offset + length xs) c)
      \<and> (\<forall>q e g o' n. hb_at s q = Some e \<longrightarrow> hal_contents s q = Some g \<longrightarrow> unat o' + unat n \<le> length g \<longrightarrow>
          iree_hal_buffer_test_overlap b offset (of_nat (length xs)) e o' n = IREE_HAL_BUFFER_OVERLAP_DISJOINT \<longrightarrow>
          (\<exists>g'. hal_contents s' q = Some g' \<and> length g' = length g \<and> take (unat n) (drop (unat o') g') = take (unat n) (drop (unat o') g))))"
  using write_data_ok [OF ok p xs]
proof (elim disjE exE conjE)
  fix s' d d' off
  assume w: "iree_hal_buffer_write_data s p offset xs = Some (IREE_STATUS_OK, s')" "hal_ok s' R" "same_but (hb_allocated_buffer b) s s'"
    "owner_bytes s (hb_allocated_buffer b) = Some d" "owner_bytes s' (hb_allocated_buffer b) = Some d'" "write_bytes d off xs = Some d'"
    "unat off = unat (hb_byte_offset b) + unat offset" "unat offset + length xs \<le> unat (hb_byte_length b)"
  have lc: "length c = unat (hb_byte_length b)" by (rule contents_length [OF ok p])
  have "\<exists>g'. hal_contents s' q = Some g' \<and> length g' = length g \<and> take (unat n) (drop (unat o') g') = take (unat n) (drop (unat o') g)"
    if q: "hb_at s q = Some e" "hal_contents s q = Some g" "unat o' + unat n \<le> length g"
      and disj: "iree_hal_buffer_test_overlap b offset (of_nat (length xs)) e o' n = IREE_HAL_BUFFER_OVERLAP_DISJOINT" for q e g o' n
    by (rule disjoint_kept [OF ok p(1) q(1,2,3) disj w(3-8) xs(1)])
  then show ?thesis
    using w contents_spliced [OF w(3-6) p w(7)] lc by (intro exI [of _ IREE_STATUS_OK] exI [of _ s']) simp
qed (use ok p in auto)

theorem hal_write_exact_witness:
  "\<exists>s'. iree_hal_buffer_write_data sample_buffers 0 4 [70, 71] = Some (IREE_STATUS_OK, s')
    \<and> hal_contents s' 0 = Some [1, 2, 3, 4, 70, 71, 7, 8] \<and> hal_contents s' (Suc 0) = Some [9, 9, 9, 9]"
proof -
  let ?xs = "[70, 71] :: u8 list"
  have len: "length ?xs < 2 ^ 64 - 1" "unat (4 :: u64) + length ?xs \<le> 2 ^ 64" by simp_all
  have run: "map_option fst (iree_hal_buffer_write_data sample_buffers 0 4 ?xs) = Some IREE_STATUS_OK" by code_simp
  have disj: "iree_hal_buffer_test_overlap (sample_buffer 0 [1, 2, 3, 4, 5, 6, 7, 8]) 4 (of_nat (length ?xs)) (sample_buffer 1 [9, 9, 9, 9]) 0 4
      = IREE_HAL_BUFFER_OVERLAP_DISJOINT" by code_simp
  obtain st s' where w: "iree_hal_buffer_write_data sample_buffers 0 4 ?xs = Some (st, s')"
    and c0: "st = IREE_STATUS_OK \<Longrightarrow> hal_contents s' 0 = Some (take (unat (4 :: u64)) [1, 2, 3, 4, 5, 6, 7, 8] @ ?xs @ drop (unat (4 :: u64) + length ?xs) [1, 2, 3, 4, 5, 6, 7, 8])"
    and c1: "\<And>q e g o' n. st = IREE_STATUS_OK \<Longrightarrow> hb_at sample_buffers q = Some e \<Longrightarrow> hal_contents sample_buffers q = Some g \<Longrightarrow> unat o' + unat n \<le> length g \<Longrightarrow>
        iree_hal_buffer_test_overlap (sample_buffer 0 [1, 2, 3, 4, 5, 6, 7, 8]) 4 (of_nat (length ?xs)) e o' n = IREE_HAL_BUFFER_OVERLAP_DISJOINT \<Longrightarrow>
        \<exists>g'. hal_contents s' q = Some g' \<and> length g' = length g \<and> take (unat n) (drop (unat o') g') = take (unat n) (drop (unat o') g)"
    using hal_write_exact [OF sample_ok sample_at(1) sample_contents(1) len] by (elim exE conjE) (rule that, blast+)
  have st: "st = IREE_STATUS_OK" using run w by simp
  have "\<exists>g'. hal_contents s' (Suc 0) = Some g' \<and> length g' = length [9, 9, 9, 9 :: u8]
      \<and> take (unat (4 :: u64)) (drop (unat (0 :: u64)) g') = take (unat (4 :: u64)) (drop (unat (0 :: u64)) [9, 9, 9, 9])"
    by (rule c1 [OF st sample_at(2) sample_contents(2) _ disj]) simp
  then show ?thesis using w st c0 by auto
qed



text \<open>
  C16. For ranges inside of their buffers the overlap test is exact: \<open>DISJOINT\<close> if no byte of an allocation is
  in both, \<open>COMPLETE\<close> if they are the same bytes, \<open>PARTIAL\<close> otherwise.
\<close>

theorem hal_overlap_exact:
  assumes "range_inside lhs lo ln" "range_inside rhs ro rn"
  shows "iree_hal_buffer_test_overlap lhs lo ln rhs ro rn =
    (if range_cells lhs lo ln \<inter> range_cells rhs ro rn = {} then IREE_HAL_BUFFER_OVERLAP_DISJOINT
     else if range_cells lhs lo ln = range_cells rhs ro rn then IREE_HAL_BUFFER_OVERLAP_COMPLETE
     else IREE_HAL_BUFFER_OVERLAP_PARTIAL)"
  by (rule test_overlap_cases [OF assms])

theorem hal_overlap_exact_witness:
  "range_cells (sample_buffer 0 [1, 2, 3, 4]) 0 2 \<inter> range_cells (sample_buffer 0 [1, 2, 3, 4]) 1 3 \<noteq> {}"
proof
  assume e: "range_cells (sample_buffer 0 [1, 2, 3, 4]) 0 2 \<inter> range_cells (sample_buffer 0 [1, 2, 3, 4]) 1 3 = {}"
  have "range_inside (sample_buffer 0 [1, 2, 3, 4]) 0 2" "range_inside (sample_buffer 0 [1, 2, 3, 4]) 1 3"
    by (simp_all add: range_inside_def sample_buffer_def)
  from hal_overlap_exact [OF this] e
  have "iree_hal_buffer_test_overlap (sample_buffer 0 [1, 2, 3, 4]) 0 2 (sample_buffer 0 [1, 2, 3, 4]) 1 3 = IREE_HAL_BUFFER_OVERLAP_DISJOINT" by simp
  moreover have "iree_hal_buffer_test_overlap (sample_buffer 0 [1, 2, 3, 4]) 0 2 (sample_buffer 0 [1, 2, 3, 4]) 1 3 = IREE_HAL_BUFFER_OVERLAP_PARTIAL" by code_simp
  ultimately show False by simp
qed

text \<open>
  C35. Releasing a reference to a buffer terminates and leaves a well-formed store with one reference less; the
  last reference to a subspan also gives back the one it holds on the buffer that owns the memory.
\<close>

theorem hal_release_balanced:
  assumes "hal_ok s (add_mset p R)"
  shows "\<exists>s'. iree_hal_buffer_release s p = Some s' \<and> hal_ok s' R"
  by (rule hal_release_ok [OF assms])

theorem hal_release_balanced_witness: "\<exists>s'. iree_hal_buffer_release sample_buffers 0 = Some s' \<and> hal_ok s' {#Suc 0#}"
  using hal_release_balanced [OF sample_ok] .

text \<open>
  C36. The range check adds without a test for overflow: with an offset of at least three, a length of
  \<open>1 - offset\<close> modulo \<open>2^64\<close> is accepted, although no buffer is that long.
\<close>

theorem calculate_range_wraps:
  assumes "3 \<le> offset" "offset \<le> max_length"
  shows "iree_hal_buffer_calculate_range True base max_length offset (1 - offset) = (IREE_STATUS_OK, base + offset, 1 - offset)
    \<and> unat offset + unat (1 - offset) = 2 ^ 64 + 1"
proof -
  have o: "3 \<le> unat offset" "unat offset \<le> unat max_length" using assms by (simp_all add: word_le_nat_alt)
  have "unat (1 - offset) = 2 ^ 64 + 1 - unat offset"
    using o(1) unat_u64_less [of offset] by (simp add: unat_sub_if_size word_size word_le_nat_alt)
  then have u: "unat offset + unat (1 - offset) = 2 ^ 64 + 1" using unat_u64_less [of offset] by simp
  have ne: "1 - offset \<noteq> IREE_WHOLE_BUFFER" using u o(1) unat_WHOLE by auto
  have nz: "1 - offset \<noteq> 0" using o(1) by auto
  have "\<not> max_length \<le> 0" using o by (auto simp: word_le_nat_alt)
  then show ?thesis using assms(2) ne nz u by (simp add: iree_hal_buffer_calculate_range_def Let_def)
qed

theorem calculate_range_wraps_witness:
  "iree_hal_buffer_calculate_range True 0 8 3 (1 - 3) = (IREE_STATUS_OK, 3, 18446744073709551614)
    \<and> iree_hal_buffer_read_data sample_buffers 0 3 18446744073709551614 = None"
proof
  show "iree_hal_buffer_calculate_range True 0 8 3 (1 - 3) = (IREE_STATUS_OK, 3, 18446744073709551614)"
    using calculate_range_wraps [of 3 8 0] by simp
  show "iree_hal_buffer_read_data sample_buffers 0 3 18446744073709551614 = None"
  proof -
    have "iree_hal_buffer_map_range sample_buffers 0 IREE_HAL_MEMORY_ACCESS_READ 3 18446744073709551614
        = Some (IREE_STATUS_OK, Some \<lparr>mp_backing_buffer = 0, mp_owner = 0, mp_byte_offset = 3, mp_data_length = 18446744073709551614, mp_allowed_access = 1\<rparr>)"
      by code_simp
    then show ?thesis by (simp add: iree_hal_buffer_read_data_def read_mapping_def owner_bytes_def sample_at sample_buffer_def read_bytes_def)
  qed
qed

section \<open>Buffer views\<close>

text \<open>
  C37. For indices inside of the shape the offset of an element is its row-major position: the element lies
  inside of the view, and elements at different indices do not overlap.
\<close>

theorem view_offset_exact:
  assumes "in_box (map sint shape) (map sint i)" "in_box (map sint shape) (map sint j)" "shape_fits shape t"
  shows "\<exists>a b. iree_hal_buffer_compute_view_offset shape t i = (IREE_STATUS_OK, a) \<and> iree_hal_buffer_compute_view_offset shape t j = (IREE_STATUS_OK, b)
    \<and> uint a + elt_size t \<le> uint (iree_hal_buffer_compute_view_size shape t)
    \<and> (i \<noteq> j \<longrightarrow> uint a + elt_size t \<le> uint b \<or> uint b + elt_size t \<le> uint a)"
proof -
  let ?R = "\<lambda>i. row_major (map sint shape) (map sint i)" and ?P = "prod_list (map sint shape)"
  obtain a b where a: "iree_hal_buffer_compute_view_offset shape t i = (IREE_STATUS_OK, a)" "uint a = ?R i * elt_size t" "uint a + elt_size t \<le> ?P * elt_size t"
    and b: "iree_hal_buffer_compute_view_offset shape t j = (IREE_STATUS_OK, b)" "uint b = ?R j * elt_size t"
    using view_offset_ok [OF assms(1,3)] view_offset_ok [OF assms(2,3)] by blast
  have "0 \<le> uint a" by simp
  then have P: "0 \<le> ?P * elt_size t" using a(3) by (meson add_nonneg_nonneg order_trans uint_ge_0)
  have "iree_hal_buffer_compute_view_size shape t = of_int (?P * elt_size t)"
    by (simp add: iree_hal_buffer_compute_view_size_def times_dims_int mult.commute)
  moreover have "?P * elt_size t < 2 ^ 64" using assms(3) by (simp add: shape_fits_def)
  ultimately have s: "uint (iree_hal_buffer_compute_view_size shape t) = ?P * elt_size t" using P by (simp only: uint_of_int_small)
  have "uint a + elt_size t \<le> uint b \<or> uint b + elt_size t \<le> uint a" if "i \<noteq> j"
  proof -
    have "map sint i \<noteq> map sint j" using that by (metis list.inj_map_strong injI signed_word_eqI)
    then have "?R i \<noteq> ?R j" using row_major_inject [OF assms(1,2)] by blast
    then have "?R i + 1 \<le> ?R j \<or> ?R j + 1 \<le> ?R i" by linarith
    then have "(?R i + 1) * elt_size t \<le> ?R j * elt_size t \<or> (?R j + 1) * elt_size t \<le> ?R i * elt_size t"
      by (meson mult_right_mono uint_ge_0)
    then show ?thesis unfolding a(2) b(2) by (simp only: distrib_right mult_1)
  qed
  then show ?thesis using a b s by auto
qed

lemma sample_shape: "shape_fits [2, 3] 0x01000020"
proof -
  have "iree_hal_element_byte_count 0x01000020 = 4" by code_simp
  then show ?thesis by (simp add: shape_fits_def)
qed

theorem view_offset_exact_witness:
  "\<exists>a b. iree_hal_buffer_compute_view_offset [2, 3] 0x01000020 [1, 2] = (IREE_STATUS_OK, a)
    \<and> iree_hal_buffer_compute_view_offset [2, 3] 0x01000020 [0, 2] = (IREE_STATUS_OK, b) \<and> uint a + 4 \<le> 24"
proof -
  have "iree_hal_element_byte_count 0x01000020 = 4" "iree_hal_buffer_compute_view_size [2, 3] 0x01000020 = 24" by code_simp+
  then show ?thesis using view_offset_exact [OF _ _ sample_shape, of "[1, 2]" "[0, 2]"] by auto
qed



text \<open>
  Cloning data of the size of a shape into a new view succeeds if memory can be allocated: the new buffer has
  exactly those bytes, and everything that was there keeps its contents.
\<close>

theorem clone_heap_buffer_contents:
  assumes "hal_ok s R" "\<And>n. al n = IREE_STATUS_OK"
    and "length bytes = unat (iree_hal_buffer_compute_view_size shape t)" "length bytes < 2 ^ 63" "length shape < 2 ^ 62"
  shows "\<exists>s' vs' w. iree_hal_buffer_view_clone_heap_buffer al s vs shape t memory_type allowed_usage bytes = Some (IREE_STATUS_OK, s', vs', Some (length vs))
    \<and> bv_at vs' (length vs) = Some w \<and> bv_shape w = shape \<and> bv_element_type w = t
    \<and> hal_ok s' (add_mset (bv_buffer w) R) \<and> hal_contents s' (bv_buffer w) = Some bytes
    \<and> (\<forall>x. hb_at s x \<noteq> None \<longrightarrow> hal_contents s' x = hal_contents s x)"
proof -
  obtain s' where s': "iree_hal_buffer_view_clone_heap_buffer al s vs shape t memory_type allowed_usage bytes
      = Some (IREE_STATUS_OK, s', vs @ [Some (new_view (length s) shape t)], Some (length vs))"
      "hal_ok s' (add_mset (length s) R)" "hal_contents s' (length s) = Some bytes" "\<forall>x. hb_at s x \<noteq> None \<longrightarrow> hal_contents s' x = hal_contents s x"
    using clone_ok [where al = al and vs = vs and memory_type = memory_type and allowed_usage = allowed_usage, OF assms] by blast
  have "bv_at (vs @ [Some (new_view (length s) shape t)]) (length vs) = Some (new_view (length s) shape t)" by (simp add: bv_at_def)
  then show ?thesis using s' by (simp add: new_view_def)
qed

theorem clone_heap_buffer_contents_witness:
  "\<exists>s' vs' w. iree_hal_buffer_view_clone_heap_buffer (\<lambda>_. IREE_STATUS_OK) [] [] [2, 3] 0x02000008 0 0 [1, 2, 3, 4, 5, 6] = Some (IREE_STATUS_OK, s', vs', Some 0)
    \<and> bv_at vs' 0 = Some w \<and> hal_contents s' (bv_buffer w) = Some [1, 2, 3, 4, 5, 6]"
proof -
  have "iree_hal_buffer_compute_view_size [2, 3] 0x02000008 = 6" by code_simp
  moreover have "hal_ok [] {#}" by (simp add: hal_ok_def hb_at_def spans_def)
  ultimately show ?thesis
    using clone_heap_buffer_contents [of "[]" "{#}" "\<lambda>_. IREE_STATUS_OK" "[1, 2, 3, 4, 5, 6]" "[2, 3]" "0x02000008" "[]" 0 0] by auto
qed

section \<open>Local execution\<close>

text \<open>
  C12. A dispatch hands the executable a dense list of its bindings: exactly those whose bit is set in the mask
  of the layout, in the order of their ordinals, with their lengths. Nothing else of the command buffer changes.
\<close>

theorem dispatch_packs_used_bindings:
  assumes "bindings_ok cb" "0 \<le> sint entry" "sint entry < int (length (ex_layouts ex))" "el = ex_layouts ex ! nat (sint entry)"
    and "used = filter (bit (el_used_bindings el)) [0..<64]" "\<forall>k \<in> set used. ic_full_bindings cb ! k \<noteq> None"
  shows "\<exists>ps ls. iree_hal_inline_command_buffer_dispatch s cb ex entry wg = do {
      (st, s) \<leftarrow> iree_hal_local_executable_issue_dispatch_inline ex (scast entry)
        \<lparr>ds_workgroup_count = wg, ds_workgroup_size = (1, 1, 1), ds_push_constant_count = el_push_constants el,
         ds_push_constants = ic_push_constants cb, ds_binding_count = of_nat (length used), ds_binding_ptrs = ps, ds_binding_lengths = ls\<rparr> s;
      Some (st, s, cb\<lparr>ic_packed_bindings := ps, ic_packed_binding_lengths := ls\<rparr>) }
    \<and> take (length used) ps = map (\<lambda>k. ic_full_bindings cb ! k) used
    \<and> take (length used) ls = map (\<lambda>k. ic_full_binding_lengths cb ! k) used"
proof -
  have used: "used = set_bits_from 0 (el_used_bindings el)" by (simp add: assms(5) set_bits_from_def)
  have n: "nat (iree_math_count_ones_u64 (el_used_bindings el)) = length used" by (simp add: used count_ones_set_bits)
  have "length used \<le> 64" unfolding assms(5) using length_filter_le [of "bit (el_used_bindings el)" "[0..<64]"] by simp
  then obtain ps ls where p: "pack_bindings_loop 0 (length used) (el_used_bindings el) 0 cb
        = Some (IREE_STATUS_OK, cb\<lparr>ic_packed_bindings := ps, ic_packed_binding_lengths := ls\<rparr>)"
      "take (length used) ps = map (\<lambda>k. ic_full_bindings cb ! k) used" "take (length used) ls = map (\<lambda>k. ic_full_binding_lengths cb ! k) used"
    using pack_all [OF assms(1), of 0 "el_used_bindings el" "length used" 0] assms(6) by (auto simp: used)
  have e: "ex_layouts ex ! nat (sint entry) = el" by (simp add: assms(4))
  show ?thesis
    using assms(2,3) p n by (intro exI [of _ ps] exI [of _ ls]) (simp add: iree_hal_inline_command_buffer_dispatch_def e Let_def)
qed

definition sample_layout :: iree_hal_local_executable_layout where
  "sample_layout = \<lparr>el_push_constants = 0, el_dynamic_binding_count = 0, el_used_bindings = 0x100000005, el_set_layouts = []\<rparr>"

definition sample_commands :: iree_hal_inline_command_buffer where
  "sample_commands = (iree_hal_inline_command_buffer_reset \<lparr>ic_mode = 17, ic_allowed_categories = 3, ic_queue_affinity = 0,
      ic_full_bindings = [], ic_full_binding_lengths = [], ic_packed_bindings = [], ic_packed_binding_lengths = [], ic_push_constants = []\<rparr>)
    \<lparr>ic_full_bindings := (replicate 64 None)[0 := Some (0, 0), 2 := Some (0, 4), 32 := Some (1, 0)]\<rparr>"

text \<open>The calls of this executable fail for the workgroup at the origin only.\<close>

definition sample_executable :: iree_hal_local_executable where
  "sample_executable = \<lparr>ex_layouts = [sample_layout],
    ex_issue_call = (\<lambda>_ _ g s. Some (if g = (0, 0, 0) then IREE_STATUS_INTERNAL else IREE_STATUS_OK, s))\<rparr>"

lemma sample_used: "filter (bit (el_used_bindings sample_layout)) [0..<64] = [0, 2, 32]"
  by code_simp

theorem dispatch_packs_used_bindings_witness:
  "\<exists>ps ls. iree_hal_inline_command_buffer_dispatch [] sample_commands sample_executable 0 (1, 1, 1)
      = Some (IREE_STATUS_INTERNAL, [], sample_commands\<lparr>ic_packed_bindings := ps, ic_packed_binding_lengths := ls\<rparr>)
    \<and> take 3 ps = [Some (0, 0), Some (0, 4), Some (1, 0)]"
proof -
  have ok: "bindings_ok sample_commands"
    by (simp add: bindings_ok_def sample_commands_def iree_hal_inline_command_buffer_reset_def max_bindings_def IREE_HAL_LOCAL_MAX_DESCRIPTOR_SET_COUNT_def
        IREE_HAL_LOCAL_MAX_DESCRIPTOR_BINDING_COUNT_def IREE_HAL_LOCAL_MAX_PUSH_CONSTANT_COUNT_def)
  have full: "\<forall>k \<in> set [0, 2, 32]. ic_full_bindings sample_commands ! k \<noteq> None"
      "map (\<lambda>k. ic_full_bindings sample_commands ! k) [0, 2, 32] = [Some (0, 0), Some (0, 4), Some (1, 0)]"
    by (simp_all add: sample_commands_def)
  obtain ps ls where h: "iree_hal_inline_command_buffer_dispatch [] sample_commands sample_executable 0 (1, 1, 1)
      = Some (IREE_STATUS_INTERNAL, [], sample_commands\<lparr>ic_packed_bindings := ps, ic_packed_binding_lengths := ls\<rparr>)"
      "take 3 ps = [Some (0, 0), Some (0, 4), Some (1, 0)]"
    using dispatch_packs_used_bindings [OF ok, of 0 sample_executable sample_layout "[0, 2, 32]" "[]" "(1, 1, 1)"] full sample_used
    by (auto simp: sample_executable_def iree_hal_local_executable_issue_dispatch_inline_def iree_hal_local_executable_issue_call_def grid_axis_def numeral_3_eq_3)
  then show ?thesis by blast
qed


lemma issue_call_eq: "iree_hal_local_executable_issue_call ex ordinal ds g = ex_issue_call ex ordinal ds g"
  by (rule ext) (simp add: iree_hal_local_executable_issue_call_def)

text \<open>
  C38. If no call of an executable fails, a dispatch calls it once for every workgroup of the grid, \<open>x\<close> running
  fastest and \<open>z\<close> slowest, each call on the memory the one before it left.
\<close>

theorem dispatch_visits_grid:
  assumes "never_fails (\<lambda>g. ex_issue_call ex ordinal ds g)"
  shows "iree_hal_local_executable_issue_dispatch_inline ex ordinal ds s
      = run_calls (\<lambda>g. ex_issue_call ex ordinal ds g) (grid (ds_workgroup_count ds)) (IREE_STATUS_OK, s)
    \<and> distinct (grid (ds_workgroup_count ds))
    \<and> (\<forall>x y z. (x, y, z) \<in> set (grid (ds_workgroup_count ds)) \<longleftrightarrow>
        x < fst (ds_workgroup_count ds) \<and> y < fst (snd (ds_workgroup_count ds)) \<and> z < snd (snd (ds_workgroup_count ds)))"
proof -
  obtain nx ny nz where n: "ds_workgroup_count ds = (nx, ny, nz)" by (cases "ds_workgroup_count ds")
  have "iree_hal_local_executable_issue_dispatch_inline ex ordinal ds s
      = run_calls (\<lambda>g. ex_issue_call ex ordinal ds g) (grid (nx, ny, nz)) (IREE_STATUS_OK, s)"
    using workgroups_z_run [OF assms, of "grid_axis nx" "grid_axis ny" "grid_axis nz" "(IREE_STATUS_OK, s)"]
    by (simp add: iree_hal_local_executable_issue_dispatch_inline_def issue_call_eq n grid_def)
  then show ?thesis using distinct_grid [of "(nx, ny, nz)"] set_grid [of nx ny nz] by (simp add: n)
qed

definition sample_dispatch_state :: iree_hal_executable_dispatch_state where
  "sample_dispatch_state = \<lparr>ds_workgroup_count = (1, 2, 1), ds_workgroup_size = (1, 1, 1), ds_push_constant_count = 0, ds_push_constants = [],
    ds_binding_count = 0, ds_binding_ptrs = [], ds_binding_lengths = []\<rparr>"

theorem dispatch_visits_grid_witness:
  "iree_hal_local_executable_issue_dispatch_inline \<lparr>ex_layouts = [], ex_issue_call = (\<lambda>_ _ g s. Some (IREE_STATUS_OK, None # s))\<rparr> 0 sample_dispatch_state []
    = Some (IREE_STATUS_OK, [None, None])"
proof -
  let ?ex = "\<lparr>ex_layouts = [], ex_issue_call = (\<lambda>_ _ g s. Some (IREE_STATUS_OK, None # s))\<rparr>"
  have "never_fails (\<lambda>g. ex_issue_call ?ex 0 sample_dispatch_state g)" by (simp add: never_fails_def)
  note visits = conjunct1 [OF dispatch_visits_grid [OF this, of "[]"]]
  have "grid (ds_workgroup_count sample_dispatch_state) = [(0, 0, 0), (0, 1, 0)]" by code_simp
  then show ?thesis unfolding visits by simp
qed

lemma workgroups_x_ok:
  assumes "\<And>x s. \<exists>s'. call x s = Some (IREE_STATUS_OK, s')"
  shows "\<exists>s'. workgroups_x call (x # xs) r = Some (IREE_STATUS_OK, s')"
proof (induction xs arbitrary: x r)
  case Nil
  obtain st s where "r = (st, s)" by (cases r)
  then show ?case using assms [of x s] by auto
next
  case (Cons y ys)
  obtain st s where r: "r = (st, s)" by (cases r)
  obtain s' where "call x s = Some (IREE_STATUS_OK, s')" using assms by blast
  then show ?case using Cons [of y "(IREE_STATUS_OK, s')"] r by simp
qed

lemma workgroups_x_total: "(\<And>x s. call x s \<noteq> None) \<Longrightarrow> \<exists>r'. workgroups_x call xs r = Some r'"
proof (induction xs arbitrary: r)
  case (Cons x xs)
  obtain st s where r: "r = (st, s)" by (cases r)
  obtain st' s' where "call x s = Some (st', s')" using Cons.prems [of x s] by auto
  then show ?case using Cons r by auto
qed simp

lemma workgroups_y_total: "(\<And>x y s. call x y s \<noteq> None) \<Longrightarrow> \<exists>r'. workgroups_y call xs ys r = Some r'"
proof (induction ys arbitrary: r)
  case (Cons y ys)
  obtain r1 where "workgroups_x (\<lambda>x. call x y) xs r = Some r1" using workgroups_x_total [of "\<lambda>x. call x y"] Cons.prems by blast
  then show ?case using Cons by simp
qed simp

lemma workgroups_z_total: "(\<And>x y z s. call x y z s \<noteq> None) \<Longrightarrow> \<exists>r'. workgroups_z call xs ys zs r = Some r'"
proof (induction zs arbitrary: r)
  case (Cons z zs)
  obtain r1 where "workgroups_y (\<lambda>x y. call x y z) xs ys r = Some r1" using workgroups_y_total [of "\<lambda>x y. call x y z"] Cons.prems by blast
  then show ?case using Cons by simp
qed simp

lemma workgroups_y_append: "workgroups_y call xs (ys @ ys') r = do { r \<leftarrow> workgroups_y call xs ys r; workgroups_y call xs ys' r }"
  by (induction ys arbitrary: r) (auto split: Option.bind_splits)

lemma workgroups_z_append: "workgroups_z call xs ys (zs @ zs') r = do { r \<leftarrow> workgroups_z call xs ys zs r; workgroups_z call xs ys zs' r }"
  by (induction zs arbitrary: r) (auto split: Option.bind_splits)

text \<open>
  C39. The loops over a grid leave only the innermost loop when a call fails, so the status of a dispatch is that
  of its last row: if the calls of the last row succeed, the dispatch reports OK whatever failed before.
\<close>

theorem dispatch_failure_lost:
  assumes "ds_workgroup_count ds = (nx, ny, nz)" "0 < nx" "0 < ny" "0 < nz"
    and "\<And>g s. ex_issue_call ex ordinal ds g s \<noteq> None"
    and "\<And>x s. \<exists>s'. ex_issue_call ex ordinal ds (x, ny - 1, nz - 1) s = Some (IREE_STATUS_OK, s')"
  shows "\<exists>s'. iree_hal_local_executable_issue_dispatch_inline ex ordinal ds s = Some (IREE_STATUS_OK, s')"
proof -
  have last: "\<exists>ms. grid_axis n = ms @ [n - 1]" if "0 < n" for n
  proof -
    have "0 < unat n" using that by (simp add: word_less_nat_alt)
    then obtain k where k: "unat n = Suc k" using gr0_conv_Suc by blast
    have "n = of_nat (unat n)" by simp
    then have "n - 1 = of_nat k" unfolding k by simp
    then show ?thesis using k by (simp add: grid_axis_def)
  qed
  let ?call = "\<lambda>x y z. ex_issue_call ex ordinal ds (x, y, z)"
  obtain ys zs where y: "grid_axis ny = ys @ [ny - 1]" and z: "grid_axis nz = zs @ [nz - 1]" using last assms(3,4) by blast
  obtain x xs where x: "grid_axis nx = x # xs" using last [OF assms(2)] by (cases "grid_axis nx") auto
  obtain r1 where r1: "workgroups_z ?call (grid_axis nx) (grid_axis ny) zs (IREE_STATUS_OK, s) = Some r1"
    using workgroups_z_total [of ?call] assms(5) by blast
  obtain r2 where r2: "workgroups_y (\<lambda>x y. ?call x y (nz - 1)) (grid_axis nx) ys r1 = Some r2"
    using workgroups_y_total [of "\<lambda>x y. ?call x y (nz - 1)"] assms(5) by blast
  obtain s' where "workgroups_x (\<lambda>x. ?call x (ny - 1) (nz - 1)) (x # xs) r2 = Some (IREE_STATUS_OK, s')"
    using workgroups_x_ok [of "\<lambda>x. ?call x (ny - 1) (nz - 1)"] assms(6) by blast
  then have "workgroups_z ?call (grid_axis nx) (grid_axis ny) (grid_axis nz) (IREE_STATUS_OK, s) = Some (IREE_STATUS_OK, s')"
    using r1 r2 unfolding z workgroups_z_append by (simp add: y workgroups_y_append x)
  then show ?thesis by (simp add: iree_hal_local_executable_issue_dispatch_inline_def issue_call_eq assms(1))
qed

theorem dispatch_failure_lost_witness:
  "\<exists>s'. iree_hal_local_executable_issue_dispatch_inline sample_executable 0 sample_dispatch_state [] = Some (IREE_STATUS_OK, s')
    \<and> map_option fst (ex_issue_call sample_executable 0 sample_dispatch_state (0, 0, 0) []) = Some IREE_STATUS_INTERNAL"
proof -
  have "\<exists>s'. iree_hal_local_executable_issue_dispatch_inline sample_executable 0 sample_dispatch_state [] = Some (IREE_STATUS_OK, s')"
    by (rule dispatch_failure_lost [of sample_dispatch_state 1 2 1]) (simp_all add: sample_dispatch_state_def sample_executable_def)
  then show ?thesis by (simp add: sample_executable_def)
qed

text \<open>
  C40. A binding of the second descriptor set is looked up in the layout of its set with its ordinal over all
  sets. No layout has that many bindings, so pushing any binding to the second set reads past the layout.
\<close>

theorem second_set_push_undefined:
  assumes "iree_hal_local_descriptor_set_layout_create al usage_type bindings = (IREE_STATUS_OK, Some sl)"
    and "length (el_set_layouts el) = 2" "el_set_layouts el ! 1 = sl" "sb_binding b < 32"
  shows "iree_hal_inline_command_buffer_push_descriptor_set s cb el 1 (b # bs) = None"
proof -
  have "length (sl_bindings sl) \<le> 32"
    using assms(1) by (auto simp: iree_hal_local_descriptor_set_layout_create_def Let_def IREE_HAL_LOCAL_MAX_DESCRIPTOR_BINDING_COUNT_def split: if_splits)
  then show ?thesis
    using assms(2-4) by (simp add: iree_hal_inline_command_buffer_push_descriptor_set_def IREE_HAL_LOCAL_MAX_DESCRIPTOR_SET_COUNT_def
        IREE_HAL_LOCAL_MAX_DESCRIPTOR_BINDING_COUNT_def Let_def word_less_nat_alt)
qed

theorem second_set_push_undefined_witness:
  "iree_hal_inline_command_buffer_push_descriptor_set sample_buffers sample_commands
     (sample_layout\<lparr>el_set_layouts := [\<lparr>sl_usage_type = 1, sl_bindings = [\<lparr>lb_binding = 0, lb_type = 7, lb_access = 1\<rparr>]\<rparr>,
        \<lparr>sl_usage_type = 1, sl_bindings = [\<lparr>lb_binding = 0, lb_type = 7, lb_access = 1\<rparr>]\<rparr>]\<rparr>)
     1 [\<lparr>sb_binding = 0, sb_buffer = 0, sb_offset = 0, sb_length = 4\<rparr>] = None"
  by (rule second_set_push_undefined [where al = "\<lambda>_. IREE_STATUS_OK" and usage_type = 1 and bindings = "[\<lparr>lb_binding = 0, lb_type = 7, lb_access = 1\<rparr>]"])
    (simp_all add: iree_hal_local_descriptor_set_layout_create_def IREE_HAL_LOCAL_MAX_DESCRIPTOR_BINDING_COUNT_def)










end
