(* ===== verification/VM_ListArray.thy ===== *)
theory VM_ListArray
  imports VM_List
begin

text \<open>
  What a client of a list may rely on, as an interface (a locale) with its two providers: lists of
  32-bit integers and lists of references of one type.
\<close>

section \<open>Lists as arrays\<close>

text \<open>
  The interface a client of a list relies on: the list is a sequence \<open>elems\<close>, reading and writing
  in range act on it, out of range nothing happens, and pushing appends while there is room.
\<close>

primrec push_all :: "('s \<Rightarrow> 'e \<Rightarrow> 's option) \<Rightarrow> 's \<Rightarrow> 'e list \<Rightarrow> 's option" where
  "push_all psh s [] = Some s"
| "push_all psh s (x # xs) = (case psh s x of None \<Rightarrow> None | Some s' \<Rightarrow> push_all psh s' xs)"

locale growable_array =
  fixes inv :: "'s \<Rightarrow> bool"
    and room :: "'s \<Rightarrow> nat \<Rightarrow> bool"
    and valid :: "'e \<Rightarrow> bool"
    and elems :: "'s \<Rightarrow> 'e list"
    and lookup :: "'s \<Rightarrow> nat \<Rightarrow> 'e option"
    and upd :: "'s \<Rightarrow> nat \<Rightarrow> 'e \<Rightarrow> 's option"
    and psh :: "'s \<Rightarrow> 'e \<Rightarrow> 's option"
  assumes lookup_elems: "inv s \<Longrightarrow> lookup s i = (if i < length (elems s) then Some (elems s ! i) else None)"
    and upd_elems: "inv s \<Longrightarrow> valid x \<Longrightarrow> i < length (elems s) \<Longrightarrow>
      \<exists>s'. upd s i x = Some s' \<and> inv s' \<and> elems s' = (elems s)[i := x]"
    and upd_refused: "inv s \<Longrightarrow> length (elems s) \<le> i \<Longrightarrow> upd s i x = None"
    and psh_elems: "inv s \<Longrightarrow> valid x \<Longrightarrow> room s (Suc n) \<Longrightarrow>
      \<exists>s'. psh s x = Some s' \<and> inv s' \<and> elems s' = elems s @ [x] \<and> room s' n"
begin

lemma lookup_upd:
  assumes "inv s" "valid x" "upd s i x = Some s'"
  shows "lookup s' j = (if j = i then Some x else lookup s j)"
proof -
  have i: "i < length (elems s)" using upd_refused [OF assms(1), of i x] assms(3) by (cases "i < length (elems s)") auto
  then have "inv s'" "elems s' = (elems s)[i := x]" using upd_elems [OF assms(1,2) i] assms(3) by auto
  with assms(1) i show ?thesis by (simp add: lookup_elems)
qed

lemma push_all_elems:
  "inv s \<Longrightarrow> \<forall>x \<in> set xs. valid x \<Longrightarrow> room s (length xs + n) \<Longrightarrow>
    \<exists>s'. push_all psh s xs = Some s' \<and> inv s' \<and> elems s' = elems s @ xs \<and> room s' n"
proof (induction xs arbitrary: s)
  case (Cons x xs)
  then obtain s1 where s1: "psh s x = Some s1" "inv s1" "elems s1 = elems s @ [x]" "room s1 (length xs + n)"
    using psh_elems [of s x "length xs + n"] by auto
  with Cons.IH [OF s1(2)] Cons.prems show ?case by auto
qed auto

lemma lookup_push_all:
  assumes "inv s" "\<forall>x \<in> set xs. valid x" "room s (length xs)" "push_all psh s xs = Some s'" "i < length xs"
  shows "lookup s' (length (elems s) + i) = Some (xs ! i)"
proof -
  from push_all_elems [OF assms(1,2), of 0] assms(3,4) have "inv s'" "elems s' = elems s @ xs" by auto
  with assms(5) show ?thesis by (simp add: lookup_elems nth_append)
qed

end

text \<open>Lists of 32-bit integers, accessed as \<^verbatim>\<open>ListGetI32\<close> and \<^verbatim>\<open>ListSetI32\<close> of the interpreter do.\<close>

definition list_room_at :: "iree_allocator \<Rightarrow> nat \<Rightarrow> vm_heap \<Rightarrow> nat \<Rightarrow> bool" where
  "list_room_at alloc p h n \<longleftrightarrow> (\<exists>l. list_at h p = Some l \<and> list_room l n) \<and> (\<forall>sz. sz \<noteq> 0 \<longrightarrow> alloc sz = IREE_STATUS_OK)"

definition i32_list_inv :: "type_table \<Rightarrow> iree_vm_ref \<Rightarrow> nat \<Rightarrow> iree_vm_ref multiset \<Rightarrow> vm_heap \<Rightarrow> bool" where
  "i32_list_inv tbl lr p R h \<longleftrightarrow> (\<exists>l vs. list_root tbl h lr p l R \<and> storage l = StValue vs
    \<and> element_type l = iree_vm_type_def_make_value_type IREE_VM_VALUE_TYPE_I32)"

definition i32_list_elems :: "nat \<Rightarrow> vm_heap \<Rightarrow> u32 list" where
  "i32_list_elems p h = (case list_at h p of
      Some l \<Rightarrow> (case storage l of StValue vs \<Rightarrow> map i32_of (take (unat (list_count l)) vs) | _ \<Rightarrow> [])
    | None \<Rightarrow> [])"

definition i32_list_get :: "nat \<Rightarrow> vm_heap \<Rightarrow> nat \<Rightarrow> u32 option" where
  "i32_list_get p h i = (case list_at h p of
      Some l \<Rightarrow>
        if i < 2 ^ 64
        then (case iree_vm_list_get_value_as l (of_nat i) IREE_VM_VALUE_TYPE_I32 zero_value of
            Some (st, v) \<Rightarrow> if st = IREE_STATUS_OK then Some (iree_vm_value_get_i32 v) else None
          | None \<Rightarrow> None)
        else None
    | None \<Rightarrow> None)"

definition i32_list_set :: "type_table \<Rightarrow> nat \<Rightarrow> vm_heap \<Rightarrow> nat \<Rightarrow> u32 \<Rightarrow> vm_heap option" where
  "i32_list_set tbl p h i x =
    (if i < 2 ^ 64
     then (case iree_vm_list_set_value tbl h p (of_nat i) (iree_vm_value_make_i32 0 x) of
         Some (h', st) \<Rightarrow> if st = IREE_STATUS_OK then Some h' else None
       | None \<Rightarrow> None)
     else None)"

definition i32_list_push :: "type_table \<Rightarrow> iree_allocator \<Rightarrow> nat \<Rightarrow> vm_heap \<Rightarrow> u32 \<Rightarrow> vm_heap option" where
  "i32_list_push tbl alloc p h x = (case iree_vm_list_push_value tbl alloc h p (iree_vm_value_make_i32 0 x) of
      Some (h', st) \<Rightarrow> if st = IREE_STATUS_OK then Some h' else None
    | None \<Rightarrow> None)"

lemma i32_bits:
  "take_bit (8 * kValueTypeSizes IREE_VM_VALUE_TYPE_I32)
    (val_bits (iree_vm_list_convert_value_type (iree_vm_value_make_i32 rest x) IREE_VM_VALUE_TYPE_I32)) = ucast x"
  by (rule bit_word_eqI) (auto simp: iree_vm_list_convert_value_type_def iree_vm_value_make_i32_def kValueTypeSizes_def bit_simps dest: bit_imp_le_length)

lemma i32_of_ucast [simp]: "i32_of (ucast (x :: u32)) = x"
  unfolding i32_of_def by (rule bit_word_eqI) (auto simp: bit_simps)

lemma i32_list_length:
  assumes "list_wf l" "storage l = StValue vs"
  shows "length (take (unat (list_count l)) vs) = unat (list_count l)"
  using list_wf_count [OF assms(1)] assms(2) by (simp add: list_refs_def)

lemma of_nat_less_count: "i < 2 ^ 64 \<Longrightarrow> (of_nat i :: u64) < c \<longleftrightarrow> i < unat c"
  by (simp add: word_less_nat_alt unat_of_nat)

lemma i32_list_invE:
  assumes "i32_list_inv tbl lr p R h"
  obtains l vs where "list_root tbl h lr p l R" "storage l = StValue vs" "value_type (element_type l) = IREE_VM_VALUE_TYPE_I32"
    "element_type l = iree_vm_type_def_make_value_type IREE_VM_VALUE_TYPE_I32"
    "list_at h p = Some l" "list_wf l" "i32_list_elems p h = map i32_of (take (unat (list_count l)) vs)"
    "length (i32_list_elems p h) = unat (list_count l)" "unat (list_count l) \<le> length vs"
proof -
  from assms obtain l vs where l: "list_root tbl h lr p l R" "storage l = StValue vs" "element_type l = iree_vm_type_def_make_value_type IREE_VM_VALUE_TYPE_I32"
    by (auto simp: i32_list_inv_def)
  have wf: "list_wf l" and la: "list_at h p = Some l" using l(1) by (auto simp: list_root_wf list_root_def)
  have el: "i32_list_elems p h = map i32_of (take (unat (list_count l)) vs)" using la l by (simp add: i32_list_elems_def)
  have len: "unat (list_count l) \<le> length vs" using list_wf_count [OF wf] l(2) by (simp add: list_refs_def)
  show thesis
    using l wf la el len by (intro that [of l vs]) (simp_all add: iree_vm_type_def_make_value_type_def)
qed

lemma i32_list_lookup:
  assumes "i32_list_inv tbl lr p R h"
  shows "i32_list_get p h i = (if i < length (i32_list_elems p h) then Some (i32_list_elems p h ! i) else None)"
proof -
  obtain l vs where l: "storage l = StValue vs" "value_type (element_type l) = IREE_VM_VALUE_TYPE_I32" "list_at h p = Some l" "list_wf l"
    "i32_list_elems p h = map i32_of (take (unat (list_count l)) vs)" "length (i32_list_elems p h) = unat (list_count l)" "unat (list_count l) \<le> length vs"
    using assms by (rule i32_list_invE)
  show ?thesis
  proof (cases "i < unat (list_count l)")
    case False
    then have "\<not> (i < 2 ^ 64 \<and> (of_nat i :: u64) < list_count l)" using of_nat_less_count by blast
    with False l show ?thesis
      by (auto simp: i32_list_get_def iree_vm_list_get_value_as_def split: if_splits)
  next
    case True
    moreover have "unat (list_count l) < 2 ^ 64" using unsigned_less [of "list_count l", where ?'a = nat] by simp
    ultimately have i: "i < 2 ^ 64" "(of_nat i :: u64) < list_count l" "unat (of_nat i :: u64) = i" "i < length vs"
      using l(7) by (auto simp: of_nat_less_count unat_of_nat)
    then have "iree_vm_list_get_value_as l (of_nat i) IREE_VM_VALUE_TYPE_I32 zero_value
      = Some (IREE_STATUS_OK, \<lparr>val_type = IREE_VM_VALUE_TYPE_I32, val_bits = load_element (element_size l) (vs ! i)\<rparr>)"
      using l(1,2) by (simp add: iree_vm_list_get_value_as_def iree_vm_list_convert_value_type_def not_le)
    moreover have "load_element (element_size l) (vs ! i) = ucast (i32_of (vs ! i))"
      using list_wf_element_size(1) [OF l(4,1)] l(2) by (simp add: load_element_def kValueTypeSizes_def)
    ultimately show ?thesis
      using True i l(3,5,6) i32_of_ucast by (simp add: i32_list_get_def iree_vm_value_get_i32_def i32_of_def)
  qed
qed

lemma i32_list_upd:
  assumes "i32_list_inv tbl lr p R h" "i < length (i32_list_elems p h)"
  shows "\<exists>h'. i32_list_set tbl p h i x = Some h' \<and> i32_list_inv tbl lr p R h' \<and> i32_list_elems p h' = (i32_list_elems p h)[i := x]"
proof -
  obtain l vs where l: "list_root tbl h lr p l R" "storage l = StValue vs" "value_type (element_type l) = IREE_VM_VALUE_TYPE_I32"
    "element_type l = iree_vm_type_def_make_value_type IREE_VM_VALUE_TYPE_I32"
    "i32_list_elems p h = map i32_of (take (unat (list_count l)) vs)" "length (i32_list_elems p h) = unat (list_count l)"
    using assms(1) by (rule i32_list_invE)
  moreover have "unat (list_count l) < 2 ^ 64" using unsigned_less [of "list_count l", where ?'a = nat] by simp
  ultimately have i: "i < 2 ^ 64" "(of_nat i :: u64) < list_count l" "unat (of_nat i :: u64) = i"
    using assms(2) by (auto simp: of_nat_less_count unat_of_nat)
  from set_value_StValue [OF l(1,2) i(2), of "iree_vm_value_make_i32 0 x"] obtain h' where
    h': "iree_vm_list_set_value tbl h p (of_nat i) (iree_vm_value_make_i32 0 x) = Some (h', IREE_STATUS_OK)"
    "list_root tbl h' lr p (l\<lparr>storage := StValue (vs[i := ucast x])\<rparr>) R"
    unfolding l(3) i32_bits i(3) by blast
  then have "list_at h' p = Some (l\<lparr>storage := StValue (vs[i := ucast x])\<rparr>)" by (simp add: list_root_def)
  then have "i32_list_elems p h' = (i32_list_elems p h)[i := x]"
    using l(5) by (simp add: i32_list_elems_def take_update_swap map_update)
  moreover have "i32_list_inv tbl lr p R h'" using h'(2) l(4) by (auto simp: i32_list_inv_def)
  ultimately show ?thesis using h'(1) i(1) by (simp add: i32_list_set_def)
qed

lemma i32_list_upd_refused:
  assumes "i32_list_inv tbl lr p R h" "length (i32_list_elems p h) \<le> i"
  shows "i32_list_set tbl p h i x = None"
proof -
  obtain l vs where l: "list_at h p = Some l" "length (i32_list_elems p h) = unat (list_count l)"
    using assms(1) by (rule i32_list_invE)
  then have "\<not> (i < 2 ^ 64 \<and> (of_nat i :: u64) < list_count l)" using assms(2) of_nat_less_count by fastforce
  with l(1) show ?thesis by (auto simp: i32_list_set_def iree_vm_list_set_value_def)
qed

lemma i32_list_psh:
  assumes "i32_list_inv tbl lr p R h" "list_room_at alloc p h (Suc n)"
  shows "\<exists>h'. i32_list_push tbl alloc p h x = Some h' \<and> i32_list_inv tbl lr p R h'
    \<and> i32_list_elems p h' = i32_list_elems p h @ [x] \<and> list_room_at alloc p h' n"
proof -
  obtain l vs where l: "list_root tbl h lr p l R" "storage l = StValue vs" "value_type (element_type l) = IREE_VM_VALUE_TYPE_I32"
    "element_type l = iree_vm_type_def_make_value_type IREE_VM_VALUE_TYPE_I32" "list_at h p = Some l"
    "i32_list_elems p h = map i32_of (take (unat (list_count l)) vs)"
    using assms(1) by (rule i32_list_invE)
  have room: "list_room l (Suc n)" and alloc: "\<forall>sz. sz \<noteq> 0 \<longrightarrow> alloc sz = IREE_STATUS_OK"
    using assms(2) l(5) by (auto simp: list_room_at_def)
  from push_value_StValue [OF l(1) room alloc l(2), of "iree_vm_value_make_i32 0 x"] obtain h' l' vs' where
    h': "iree_vm_list_push_value tbl alloc h p (iree_vm_value_make_i32 0 x) = Some (h', IREE_STATUS_OK)"
    "list_root tbl h' lr p l' R" "list_room l' n" "storage l' = StValue vs'" "element_type l' = element_type l"
    "take (unat (list_count l')) vs' = take (unat (list_count l)) vs @ [ucast x]"
    unfolding l(3) i32_bits by blast
  have la': "list_at h' p = Some l'" using h'(2) by (simp add: list_root_def)
  have "i32_list_elems p h' = i32_list_elems p h @ [x]" using la' h'(4,6) l(6) by (simp add: i32_list_elems_def)
  moreover have "i32_list_inv tbl lr p R h'" using h'(2,4,5) l(4) by (auto simp: i32_list_inv_def)
  moreover have "list_room_at alloc p h' n" using la' h'(3) alloc by (auto simp: list_room_at_def)
  ultimately show ?thesis using h'(1) by (simp add: i32_list_push_def)
qed

interpretation i32_list: growable_array "i32_list_inv tbl lr p R" "list_room_at alloc p" "\<lambda>_. True" "i32_list_elems p"
    "i32_list_get p" "i32_list_set tbl p" "i32_list_push tbl alloc p"
  for tbl lr p R alloc
  by unfold_locales (auto simp: i32_list_lookup i32_list_upd i32_list_upd_refused i32_list_psh)

text \<open>
  Lists of references of one type: the caller keeps its own reference to every value it stores.
\<close>

definition ref_list_inv :: "type_table \<Rightarrow> iree_vm_ref \<Rightarrow> nat \<Rightarrow> nat \<Rightarrow> iree_vm_ref multiset \<Rightarrow> vm_heap \<Rightarrow> bool" where
  "ref_list_inv tbl lr p t R h \<longleftrightarrow> (\<exists>l rs. list_root tbl h lr p l R \<and> storage l = StRef rs \<and> def_ref_type (element_type l) = t)"

definition ref_list_valid :: "nat \<Rightarrow> iree_vm_ref multiset \<Rightarrow> iree_vm_ref \<Rightarrow> bool" where
  "ref_list_valid t R v \<longleftrightarrow> v \<in># R \<and> ref_type v = t \<and> ref_ptr v \<noteq> None"

definition ref_list_elems :: "nat \<Rightarrow> vm_heap \<Rightarrow> iree_vm_ref list" where
  "ref_list_elems p h = (case list_at h p of
      Some l \<Rightarrow> (case storage l of StRef rs \<Rightarrow> take (unat (list_count l)) rs | _ \<Rightarrow> [])
    | None \<Rightarrow> [])"

definition ref_list_get :: "type_table \<Rightarrow> nat \<Rightarrow> vm_heap \<Rightarrow> nat \<Rightarrow> iree_vm_ref option" where
  "ref_list_get tbl p h i =
    (if i < 2 ^ 64
     then (case iree_vm_list_get_ref_assign tbl h p (of_nat i) null_ref of
         Some (h', st, v) \<Rightarrow> if st = IREE_STATUS_OK then Some v else None
       | None \<Rightarrow> None)
     else None)"

definition ref_list_set :: "type_table \<Rightarrow> nat \<Rightarrow> vm_heap \<Rightarrow> nat \<Rightarrow> iree_vm_ref \<Rightarrow> vm_heap option" where
  "ref_list_set tbl p h i v =
    (if i < 2 ^ 64
     then (case iree_vm_list_set_ref_retain tbl h p (of_nat i) v of
         Some (h', st, _) \<Rightarrow> if st = IREE_STATUS_OK then Some h' else None
       | None \<Rightarrow> None)
     else None)"

definition ref_list_push :: "type_table \<Rightarrow> iree_allocator \<Rightarrow> nat \<Rightarrow> vm_heap \<Rightarrow> iree_vm_ref \<Rightarrow> vm_heap option" where
  "ref_list_push tbl alloc p h v = (case iree_vm_list_push_ref_retain tbl alloc h p v of
      Some (h', st, _) \<Rightarrow> if st = IREE_STATUS_OK then Some h' else None
    | None \<Rightarrow> None)"

lemma ref_list_invE:
  assumes "ref_list_inv tbl lr p t R h"
  obtains l rs where "list_root tbl h lr p l R" "storage l = StRef rs" "def_ref_type (element_type l) = t"
    "list_at h p = Some l" "list_wf l" "ref_list_elems p h = take (unat (list_count l)) rs"
    "length (ref_list_elems p h) = unat (list_count l)" "unat (list_count l) \<le> length rs"
proof -
  from assms obtain l rs where l: "list_root tbl h lr p l R" "storage l = StRef rs" "def_ref_type (element_type l) = t"
    by (auto simp: ref_list_inv_def)
  have wf: "list_wf l" and la: "list_at h p = Some l" using l(1) by (auto simp: list_root_wf list_root_def)
  have el: "ref_list_elems p h = take (unat (list_count l)) rs" using la l by (simp add: ref_list_elems_def)
  have len: "unat (list_count l) \<le> length rs" using list_wf_count [OF wf] l(2) by (simp add: list_refs_def)
  show thesis using l wf la el len by (intro that [of l rs]) simp_all
qed

lemma index_cases:
  obtains "i < unat c" "i < 2 ^ 64" "(of_nat i :: u64) < c" "unat (of_nat i :: u64) = i"
  | "unat c \<le> i" "\<not> (i < 2 ^ 64 \<and> (of_nat i :: u64) < c)"
proof (cases "i < unat c")
  case True
  moreover have "unat c < 2 ^ 64" using unsigned_less [of c, where ?'a = nat] by simp
  ultimately show thesis using that(1) by (auto simp: of_nat_less_count unat_of_nat)
next
  case False
  then show thesis using that(2) of_nat_less_count by fastforce
qed

lemma ref_list_lookup:
  assumes "ref_list_inv tbl lr p t R h"
  shows "ref_list_get tbl p h i = (if i < length (ref_list_elems p h) then Some (ref_list_elems p h ! i) else None)"
proof -
  obtain l rs where l: "storage l = StRef rs" "list_at h p = Some l" "ref_list_elems p h = take (unat (list_count l)) rs"
    "length (ref_list_elems p h) = unat (list_count l)" "unat (list_count l) \<le> length rs"
    using assms by (rule ref_list_invE)
  show ?thesis
    using l by (cases rule: index_cases [of i "list_count l"])
      (auto simp: ref_list_get_def iree_vm_list_get_ref_assign_def iree_vm_ref_assign_def null_ref_def not_le split: if_splits)
qed

lemma ref_list_upd:
  assumes "ref_list_inv tbl lr p t R h" "ref_list_valid t R v" "i < length (ref_list_elems p h)"
  shows "\<exists>h'. ref_list_set tbl p h i v = Some h' \<and> ref_list_inv tbl lr p t R h' \<and> ref_list_elems p h' = (ref_list_elems p h)[i := v]"
proof -
  obtain l rs where l: "list_root tbl h lr p l R" "storage l = StRef rs" "def_ref_type (element_type l) = t"
    "ref_list_elems p h = take (unat (list_count l)) rs" "length (ref_list_elems p h) = unat (list_count l)"
    using assms(1) by (rule ref_list_invE)
  obtain R' where R': "R = add_mset v R'" using assms(2) by (auto simp: ref_list_valid_def dest: multi_member_split)
  have i: "i < 2 ^ 64" "(of_nat i :: u64) < list_count l" "unat (of_nat i :: u64) = i"
    using assms(3) l(5) by (auto intro: index_cases [of i "list_count l"])
  from set_ref_StRef [OF l(1) [unfolded R'] l(2) i(2), of False] assms(2) l(3) obtain h' where
    h': "iree_vm_list_set_ref tbl h p (of_nat i) False v = Some (h', IREE_STATUS_OK, v)"
    "list_root tbl h' lr p (l\<lparr>storage := StRef (rs[i := v])\<rparr>) R"
    unfolding R' i(3) by (auto simp: ref_list_valid_def)
  then have "ref_list_elems p h' = (ref_list_elems p h)[i := v]"
    using l(4) by (simp add: ref_list_elems_def list_root_def take_update_swap)
  moreover have "ref_list_inv tbl lr p t R h'" using h'(2) l(3) by (auto simp: ref_list_inv_def)
  ultimately show ?thesis using h'(1) i(1) by (simp add: ref_list_set_def iree_vm_list_set_ref_retain_def)
qed

lemma ref_list_upd_refused:
  assumes "ref_list_inv tbl lr p t R h" "length (ref_list_elems p h) \<le> i"
  shows "ref_list_set tbl p h i v = None"
proof -
  obtain l rs where l: "list_at h p = Some l" "length (ref_list_elems p h) = unat (list_count l)"
    using assms(1) by (rule ref_list_invE)
  then show ?thesis
    using assms(2) by (cases rule: index_cases [of i "list_count l"])
      (auto simp: ref_list_set_def iree_vm_list_set_ref_retain_def iree_vm_list_set_ref_def)
qed

lemma ref_list_psh:
  assumes "ref_list_inv tbl lr p t R h" "ref_list_valid t R v" "list_room_at alloc p h (Suc n)"
  shows "\<exists>h'. ref_list_push tbl alloc p h v = Some h' \<and> ref_list_inv tbl lr p t R h'
    \<and> ref_list_elems p h' = ref_list_elems p h @ [v] \<and> list_room_at alloc p h' n"
proof -
  obtain l rs where l: "list_root tbl h lr p l R" "storage l = StRef rs" "def_ref_type (element_type l) = t"
    "list_at h p = Some l" "ref_list_elems p h = take (unat (list_count l)) rs"
    using assms(1) by (rule ref_list_invE)
  have room: "list_room l (Suc n)" and alloc: "\<forall>sz. sz \<noteq> 0 \<longrightarrow> alloc sz = IREE_STATUS_OK"
    using assms(3) l(4) by (auto simp: list_room_at_def)
  obtain R' where R': "R = add_mset v R'" using assms(2) by (auto simp: ref_list_valid_def dest: multi_member_split)
  from push_ref_retain_StRef [OF l(1) [unfolded R'] room alloc l(2)] assms(2) l(3) obtain h' l' rs' where
    h': "iree_vm_list_push_ref_retain tbl alloc h p v = Some (h', IREE_STATUS_OK, v)" "list_root tbl h' lr p l' R"
    "list_room l' n" "storage l' = StRef rs'" "element_type l' = element_type l"
    "take (unat (list_count l')) rs' = take (unat (list_count l)) rs @ [v]"
    unfolding R' by (auto simp: ref_list_valid_def)
  have la': "list_at h' p = Some l'" using h'(2) by (simp add: list_root_def)
  have "ref_list_elems p h' = ref_list_elems p h @ [v]" using la' h'(4,6) l(5) by (simp add: ref_list_elems_def)
  moreover have "ref_list_inv tbl lr p t R h'" using h'(2,4,5) l(3) by (auto simp: ref_list_inv_def)
  moreover have "list_room_at alloc p h' n" using la' h'(3) alloc by (auto simp: list_room_at_def)
  ultimately show ?thesis using h'(1) by (simp add: ref_list_push_def)
qed

interpretation ref_list: growable_array "ref_list_inv tbl lr p t R" "list_room_at alloc p" "ref_list_valid t R" "ref_list_elems p"
    "ref_list_get tbl p" "ref_list_set tbl p" "ref_list_push tbl alloc p"
  for tbl lr p t R alloc
  by unfold_locales (auto simp: ref_list_lookup ref_list_upd ref_list_upd_refused ref_list_psh)

end
