(* ===== verification/VM_Builtin.thy ===== *)
theory VM_Builtin
  imports VM_ListArray VM_Buffer
begin

text \<open>
  Registration of the VM's own reference types (\<open>iree/vm/builtin_types.c\<close>, and the \<open>register_types\<close>
  functions of \<open>iree/vm/list.c\<close> and \<open>iree/vm/buffer.c\<close>), and the small stores that the witnesses of the
  properties use.
\<close>

section \<open>Registration\<close>

text \<open>The static variables: the table of descriptors and the descriptors of the two types, all zero at start.\<close>

record vm_builtin =
  vb_types :: type_table
  vb_buffer :: iree_vm_ref_type_descriptor
  vb_list :: iree_vm_ref_type_descriptor

definition zero_descriptor :: iree_vm_ref_type_descriptor where
  "zero_descriptor = \<lparr>td_destroy = DestroyNull, td_offsetof_counter = 0, td_type = 0, td_type_name = []\<rparr>"

definition vb_initial :: vm_builtin where
  "vb_initial = \<lparr>vb_types = replicate IREE_VM_MAX_TYPE_ID None, vb_buffer = zero_descriptor, vb_list = zero_descriptor\<rparr>"

definition iree_vm_buffer_register_types :: "vm_builtin \<Rightarrow> (iree_status \<times> vm_builtin) option" where
  "iree_vm_buffer_register_types vb =
    (if td_type (vb_buffer vb) \<noteq> IREE_VM_REF_TYPE_NULL then Some (IREE_STATUS_OK, vb)
     else do {
       (types, d, st) \<leftarrow> iree_vm_ref_register_type (vb_types vb)
         ((vb_buffer vb)\<lparr>td_destroy := DestroyBuffer, td_offsetof_counter := 0, td_type_name := ''vm.buffer''\<rparr>);
       Some (st, vb\<lparr>vb_types := types, vb_buffer := d\<rparr>)
     })"

definition iree_vm_list_register_types :: "vm_builtin \<Rightarrow> (iree_status \<times> vm_builtin) option" where
  "iree_vm_list_register_types vb =
    (if td_type (vb_list vb) \<noteq> IREE_VM_REF_TYPE_NULL then Some (IREE_STATUS_OK, vb)
     else do {
       (types, d, st) \<leftarrow> iree_vm_ref_register_type (vb_types vb)
         ((vb_list vb)\<lparr>td_destroy := DestroyList, td_offsetof_counter := 0, td_type_name := ''vm.list''\<rparr>);
       Some (st, vb\<lparr>vb_types := types, vb_list := d\<rparr>)
     })"

definition iree_vm_register_builtin_types :: "vm_builtin \<Rightarrow> (iree_status \<times> vm_builtin) option" where
  "iree_vm_register_builtin_types vb = do {
     (st, vb) \<leftarrow> iree_vm_buffer_register_types vb;
     if st \<noteq> IREE_STATUS_OK then Some (st, vb) else iree_vm_list_register_types vb
   }"

section \<open>Lemmas\<close>

text \<open>A table with a free entry: registration takes the first one.\<close>

lemma register_type_ok:
  assumes len: "length tbl = IREE_VM_MAX_TYPE_ID" and free: "\<exists>j. 0 < j \<and> j < length tbl \<and> tbl ! j = None"
  shows "\<exists>j. 0 < j \<and> j < IREE_VM_MAX_TYPE_ID \<and> tbl ! j = None \<and> (\<forall>k. 0 < k \<and> k < j \<longrightarrow> tbl ! k \<noteq> None)
    \<and> iree_vm_ref_register_type tbl d = Some (tbl[j := Some (d\<lparr>td_type := j\<rparr>)], d\<lparr>td_type := j\<rparr>, IREE_STATUS_OK)"
proof -
  define j where "j = (LEAST j. 0 < j \<and> j < length tbl \<and> tbl ! j = None)"
  have j: "0 < j \<and> j < length tbl \<and> tbl ! j = None" unfolding j_def by (rule LeastI_ex [OF free])
  have least: "tbl ! k \<noteq> None" if "0 < k" "k < j" for k
    using not_less_Least [of k "\<lambda>j. 0 < j \<and> j < length tbl \<and> tbl ! j = None"] that j by (auto simp: j_def)
  have "iree_vm_ref_register_type tbl d = Some (tbl[j := Some (d\<lparr>td_type := j\<rparr>)], d\<lparr>td_type := j\<rparr>, IREE_STATUS_OK)"
    unfolding iree_vm_ref_register_type_def using j least len by (intro register_type_from_free) auto
  with j least len show ?thesis by auto
qed

lemma get_registered:
  "length tbl = IREE_VM_MAX_TYPE_ID \<Longrightarrow> j < IREE_VM_MAX_TYPE_ID \<Longrightarrow>
    iree_vm_ref_get_type_descriptor (tbl[j := Some d]) t = (if t = j then Some d else iree_vm_ref_get_type_descriptor tbl t)"
  by (auto simp: iree_vm_ref_get_type_descriptor_def)

section \<open>Small stores\<close>

definition buffer_type_desc :: iree_vm_ref_type_descriptor where
  "buffer_type_desc = \<lparr>td_destroy = DestroyBuffer, td_offsetof_counter = 0, td_type = 1, td_type_name = ''vm.buffer''\<rparr>"

definition list_type_desc :: iree_vm_ref_type_descriptor where
  "list_type_desc = \<lparr>td_destroy = DestroyList, td_offsetof_counter = 0, td_type = 2, td_type_name = ''vm.list''\<rparr>"

definition sample_types :: type_table where
  "sample_types = (replicate IREE_VM_MAX_TYPE_ID None)[1 := Some buffer_type_desc, 2 := Some list_type_desc]"

definition sample_ref :: "nat \<Rightarrow> nat \<Rightarrow> iree_vm_ref" where
  "sample_ref t p = \<lparr>ref_ptr = Some p, ref_offsetof_counter = 0, ref_type = t\<rparr>"

definition sample_object :: "vm_body \<Rightarrow> vm_obj option" where
  "sample_object b = Some \<lparr>counter = 1, obj_offset = 0, body = b\<rparr>"

lemma sample_types_get:
  "iree_vm_ref_get_type_descriptor sample_types 1 = Some buffer_type_desc"
  "iree_vm_ref_get_type_descriptor sample_types (Suc 0) = Some buffer_type_desc"
  "iree_vm_ref_get_type_descriptor sample_types 2 = Some list_type_desc"
  by (simp_all add: sample_types_def iree_vm_ref_get_type_descriptor_def IREE_VM_MAX_TYPE_ID_def nth_list_update)

lemma builtin_types_initial:
  "iree_vm_register_builtin_types vb_initial
    = Some (IREE_STATUS_OK, \<lparr>vb_types = sample_types, vb_buffer = buffer_type_desc, vb_list = list_type_desc\<rparr>)"
proof -
  have r: "iree_vm_ref_register_type (replicate IREE_VM_MAX_TYPE_ID None) d
      = Some ((replicate IREE_VM_MAX_TYPE_ID None)[1 := Some (d\<lparr>td_type := 1\<rparr>)], d\<lparr>td_type := 1\<rparr>, IREE_STATUS_OK)" for d
    unfolding iree_vm_ref_register_type_def by (rule register_type_from_free) (auto simp: IREE_VM_MAX_TYPE_ID_def)
  have s: "iree_vm_ref_register_type ((replicate IREE_VM_MAX_TYPE_ID None)[1 := Some e]) d
      = Some ((replicate IREE_VM_MAX_TYPE_ID None)[1 := Some e, 2 := Some (d\<lparr>td_type := 2\<rparr>)], d\<lparr>td_type := 2\<rparr>, IREE_STATUS_OK)" for d e
    unfolding iree_vm_ref_register_type_def
    by (rule register_type_from_free) (auto simp: IREE_VM_MAX_TYPE_ID_def nth_list_update numeral_2_eq_2 less_Suc_eq)
  show ?thesis
    by (simp add: iree_vm_register_builtin_types_def iree_vm_buffer_register_types_def iree_vm_list_register_types_def
        vb_initial_def zero_descriptor_def r s IREE_VM_REF_TYPE_NULL_def sample_types_def buffer_type_desc_def list_type_desc_def
        del: One_nat_def)
qed

lemma heap_ok_empty: "heap_ok tbl [] {#}"
  by (simp add: heap_ok_def heap_inv_def balanced_def obj_at_def cnt_def held_def)

lemma heap_ok_sample_buffer:
  assumes "heap_ok sample_types h R"
  shows "heap_ok sample_types (h @ [sample_object (BBuffer b)]) (add_mset (sample_ref 1 (length h)) R)"
  unfolding sample_object_def sample_ref_def
  using heap_ok_alloc [OF assms sample_types_get(1), of "\<lparr>counter = 1, obj_offset = 0, body = BBuffer b\<rparr>"]
  by (simp add: buffer_type_desc_def kind_ok_def)

lemma heap_ok_sample_list:
  assumes "heap_ok sample_types h R" "list_wf l" "\<forall>r \<in> set (list_refs l). r = null_ref"
  shows "heap_ok sample_types (h @ [sample_object (BList l)]) (add_mset (sample_ref 2 (length h)) R)"
  unfolding sample_object_def sample_ref_def
  using heap_ok_alloc [OF assms(1) sample_types_get(3), of "\<lparr>counter = 1, obj_offset = 0, body = BList l\<rparr>"] assms(2,3)
  by (simp add: list_type_desc_def kind_ok_def)

end
