(* ===== verification/VM_ObjectProperties.thy ===== *)
theory VM_ObjectProperties
  imports VM_Builtin
begin

text \<open>
  The properties of references, type registration, lists and buffers, each with a witness on a small
  store.
\<close>

section \<open>Type registration\<close>

text \<open>
  Registering the VM's own types in a table with two free entries succeeds; each type is then found
  under its own identifier, with the destroy function of its objects, and a second registration changes
  nothing.
\<close>

theorem register_builtin_types_ok:
  assumes "length (vb_types vb) = IREE_VM_MAX_TYPE_ID" "td_type (vb_buffer vb) = 0" "td_type (vb_list vb) = 0"
    and "0 < j" "j < k" "k < IREE_VM_MAX_TYPE_ID" "vb_types vb ! j = None" "vb_types vb ! k = None"
  shows "\<exists>vb'. iree_vm_register_builtin_types vb = Some (IREE_STATUS_OK, vb')
    \<and> iree_vm_ref_get_type_descriptor (vb_types vb') (td_type (vb_buffer vb')) = Some (vb_buffer vb')
    \<and> iree_vm_ref_get_type_descriptor (vb_types vb') (td_type (vb_list vb')) = Some (vb_list vb')
    \<and> td_type (vb_buffer vb') \<noteq> 0 \<and> td_type (vb_list vb') \<noteq> 0 \<and> td_type (vb_buffer vb') \<noteq> td_type (vb_list vb')
    \<and> td_destroy (vb_buffer vb') = DestroyBuffer \<and> td_destroy (vb_list vb') = DestroyList
    \<and> iree_vm_register_builtin_types vb' = Some (IREE_STATUS_OK, vb')"
proof -
  let ?tbl = "vb_types vb"
  let ?b = "(vb_buffer vb)\<lparr>td_destroy := DestroyBuffer, td_offsetof_counter := 0, td_type_name := ''vm.buffer''\<rparr>"
  let ?l = "(vb_list vb)\<lparr>td_destroy := DestroyList, td_offsetof_counter := 0, td_type_name := ''vm.list''\<rparr>"
  have "\<exists>j. 0 < j \<and> j < length ?tbl \<and> ?tbl ! j = None" using assms by (intro exI [of _ k]) simp
  from register_type_ok [OF assms(1) this, of ?b] obtain m where
    m: "0 < m" "m < IREE_VM_MAX_TYPE_ID" "?tbl ! m = None" "\<forall>i. 0 < i \<and> i < m \<longrightarrow> ?tbl ! i \<noteq> None"
      "iree_vm_ref_register_type ?tbl ?b = Some (?tbl[m := Some (?b\<lparr>td_type := m\<rparr>)], ?b\<lparr>td_type := m\<rparr>, IREE_STATUS_OK)"
    by auto
  let ?tbl1 = "?tbl[m := Some (?b\<lparr>td_type := m\<rparr>)]"
  have mk: "m \<le> j" using m(4) assms(4,7) by (meson not_less)
  have "\<exists>j. 0 < j \<and> j < length ?tbl1 \<and> ?tbl1 ! j = None"
    using assms mk by (intro exI [of _ k]) simp
  from register_type_ok [OF _ this, of ?l] assms(1) obtain n where
    n: "0 < n" "n < IREE_VM_MAX_TYPE_ID" "?tbl1 ! n = None"
      "iree_vm_ref_register_type ?tbl1 ?l = Some (?tbl1[n := Some (?l\<lparr>td_type := n\<rparr>)], ?l\<lparr>td_type := n\<rparr>, IREE_STATUS_OK)"
    by auto
  have mn: "m \<noteq> n" using n(3) m(2) assms(1) by auto
  let ?vb = "vb\<lparr>vb_types := ?tbl1[n := Some (?l\<lparr>td_type := n\<rparr>)], vb_buffer := ?b\<lparr>td_type := m\<rparr>, vb_list := ?l\<lparr>td_type := n\<rparr>\<rparr>"
  have "iree_vm_register_builtin_types vb = Some (IREE_STATUS_OK, ?vb)"
    using m(5) n(4) assms(2,3)
    by (simp add: iree_vm_register_builtin_types_def iree_vm_buffer_register_types_def iree_vm_list_register_types_def IREE_VM_REF_TYPE_NULL_def)
  moreover have "iree_vm_register_builtin_types ?vb = Some (IREE_STATUS_OK, ?vb)"
    using m(1) n(1)
    by (simp add: iree_vm_register_builtin_types_def iree_vm_buffer_register_types_def iree_vm_list_register_types_def IREE_VM_REF_TYPE_NULL_def)
  moreover have "iree_vm_ref_get_type_descriptor (vb_types ?vb) m = Some (?b\<lparr>td_type := m\<rparr>)"
      "iree_vm_ref_get_type_descriptor (vb_types ?vb) n = Some (?l\<lparr>td_type := n\<rparr>)"
    using m n mn assms(1) by (simp_all add: get_registered)
  ultimately show ?thesis
    using m(1) n(1) mn by (intro exI [of _ ?vb]) simp
qed

theorem register_builtin_types_ok_witness:
  "\<exists>vb'. iree_vm_register_builtin_types vb_initial = Some (IREE_STATUS_OK, vb')
    \<and> iree_vm_ref_get_type_descriptor (vb_types vb') (td_type (vb_list vb')) = Some (vb_list vb')"
  using register_builtin_types_ok [of vb_initial 1 2]
  by (auto simp: vb_initial_def zero_descriptor_def IREE_VM_MAX_TYPE_ID_def)

text \<open>
  C31: a full type table. The scan reads one entry past the end of the table before it would report the
  exhaustion, so registering one type too many is undefined behaviour.
\<close>

theorem register_type_full_undefined:
  assumes "length tbl = IREE_VM_MAX_TYPE_ID" "list_all (\<lambda>d. d \<noteq> None) (tl tbl)"
  shows "iree_vm_ref_register_type tbl d = None"
proof -
  have "tbl ! k \<noteq> None" if "1 \<le> k" "k < length tbl" for k
    using assms(2) that by (cases tbl) (auto simp: list_all_length nth_Cons split: nat.splits)
  then show ?thesis
    using assms(1) unfolding iree_vm_ref_register_type_def by (intro register_type_from_full) (auto simp: IREE_VM_MAX_TYPE_ID_def)
qed

theorem register_type_full_undefined_witness:
  "iree_vm_ref_register_type (replicate IREE_VM_MAX_TYPE_ID (Some zero_descriptor)) zero_descriptor = None"
  by (rule register_type_full_undefined) (simp_all add: IREE_VM_MAX_TYPE_ID_def list_all_iff)

section \<open>References\<close>

text \<open>
  C7: releasing a reference that is accounted for always returns, whatever the object holds, and the
  store stays balanced without it: the counter of every object is the number of references to it.
\<close>

theorem release_terminates_balanced:
  assumes "heap_ok tbl h (add_mset r R)"
  shows "\<exists>h' r'. iree_vm_ref_release tbl h r = Some (h', r') \<and> ref_ptr r' = None \<and> heap_ok tbl h' R"
proof -
  obtain \<Gamma> where "ref_wf tbl \<Gamma> r" using assms by (auto simp: heap_ok_def)
  then have "ref_ptr (released r) = None" by (rule ref_ptr_released)
  with release_ok [OF assms] show ?thesis by blast
qed

theorem release_terminates_balanced_witness:
  "\<exists>h' r'. iree_vm_ref_release sample_types [sample_object (BBuffer \<lparr>access = 0, data = [7]\<rparr>)] (sample_ref 1 0) = Some (h', r')
    \<and> ref_ptr r' = None \<and> heap_ok sample_types h' {#}"
  using release_terminates_balanced [OF heap_ok_sample_buffer [OF heap_ok_empty, of "\<lparr>access = 0, data = [7]\<rparr>"]] by simp

text \<open>The last reference to a list or buffer frees it.\<close>

lemma held_live:
  assumes "p \<in># held h"
  obtains q ob l where "obj_at h q = Some ob" "counter ob \<ge> 1" "body ob = BList l" "p \<in># addrs_of (list_refs l)"
proof -
  have "\<exists>x \<in> set h. p \<in># held_obj x"
    using assms unfolding held_def by (induction h) auto
  then obtain q where q: "q < length h" "p \<in># held_obj (h ! q)" by (auto simp: in_set_conv_nth)
  then show ?thesis
    using that [of q] by (auto simp: held_obj_def obj_at_def split: option.splits if_splits vm_body.splits)
qed

lemma held_shrinks: "shrinks {} h h' \<Longrightarrow> p \<in># held h' \<Longrightarrow> p \<in># held h"
  by (elim held_live) (metis held_mem shrinksD(3))

text \<open>
  Releasing the last reference to a list or a buffer frees the object, and no reference to it is left
  in any list of the store.
\<close>

theorem release_last_frees:
  assumes ok: "heap_ok tbl h (add_mset r R)" and r: "ref_ptr r = Some p" and ob: "obj_at h p = Some ob" "counter ob = 1" "body ob \<noteq> BNative"
    and rel: "iree_vm_ref_release tbl h r = Some (h', r')"
  shows "obj_at h' p = None \<and> p \<notin># held h'"
proof -
  let ?F = "\<Sum>r \<in># R. ref_addrs r"
  obtain \<Gamma> where \<Gamma>: "ref_wf tbl \<Gamma> r" "heap_inv tbl \<Gamma> h (ref_addrs r + ?F)"
    using ok by (auto simp: heap_ok_def)
  then have ra: "ref_addrs r = {#p#}" using r by (auto simp: ref_addrs_def ref_wf_def)
  have "card (live_set h) < Suc (length h)" using card_live_set [of h] by simp
  with release_contractE [OF release_fuel_contract \<Gamma>(2,1)] rel
  have inv: "heap_inv tbl \<Gamma> h' ?F" and sh: "shrinks {} h h'"
    unfolding iree_vm_ref_release_def by (metis option.inject prod.inject)+
  have "counter ob = int (count (held h + (ref_addrs r + ?F)) p)"
    using balancedD [of h "ref_addrs r + ?F" p ob] ob(1) \<Gamma>(2) by (simp add: heap_inv_def)
  then have "int (count (held h) p) + int (count ?F p) = 0" using ob(2) ra by simp
  then have c0: "count (held h) p = 0" "count ?F p = 0" by linarith+
  then have cnt: "p \<notin># held h" "p \<notin># ?F" by (simp_all only: not_in_iff)
  have nh: "p \<notin># held h'" using cnt(1) held_shrinks [OF sh] by blast
  have "obj_at h' p = None"
  proof (rule ccontr)
    assume "obj_at h' p \<noteq> None"
    then obtain ob' where ob': "obj_at h' p = Some ob'" by blast
    have "counter ob' = 0"
      using balancedD [of h' ?F p ob'] inv ob' nh c0(2) by (simp only: heap_inv_def not_in_iff count_union)
    moreover have "kind_ok (fst (\<Gamma> p)) (body ob)" "kind_ok (fst (\<Gamma> p)) (body ob')"
      using inv \<Gamma>(2) ob(1) ob' by (simp_all add: heap_inv_def obj_wf_def)
    then have "body ob' \<noteq> BNative"
      using ob(3) by (auto simp: kind_ok_def split: iree_vm_ref_destroy.splits)
    ultimately show False
      using shrinksD(4) [OF sh _ ob'] ob by simp
  qed
  with nh show ?thesis by blast
qed

theorem release_last_frees_witness:
  "obj_at (fst (the (iree_vm_ref_release sample_types [sample_object (BBuffer \<lparr>access = 0, data = [7]\<rparr>)] (sample_ref 1 0)))) 0 = None"
proof -
  let ?h = "[sample_object (BBuffer \<lparr>access = 0, data = [7]\<rparr>)]"
  have ok: "heap_ok sample_types ?h (add_mset (sample_ref 1 0) {#})"
    using heap_ok_sample_buffer [OF heap_ok_empty, of "\<lparr>access = 0, data = [7]\<rparr>"] by simp
  obtain h' r' where rel: "iree_vm_ref_release sample_types ?h (sample_ref 1 0) = Some (h', r')"
    using release_ok [OF ok] by blast
  have "obj_at h' 0 = None \<and> 0 \<notin># held h'"
    by (rule release_last_frees [OF ok _ _ _ _ rel, of 0 "the (?h ! 0)"]) (simp_all add: sample_ref_def sample_object_def obj_at_def)
  with rel show ?thesis by simp
qed

text \<open>
  Retaining or moving a reference into another variable. The variable's old reference is released,
  it then holds the reference, the source is cleared by a move and kept by a retain, and the store stays
  balanced.
\<close>

theorem retain_or_move_balanced:
  assumes "heap_ok tbl h (add_mset r (add_mset out_ref R))"
  shows "\<exists>h' r'. iree_vm_ref_retain_or_move tbl False is_move h r out_ref = Some (h', r', r)
    \<and> r' = (if is_move \<or> ref_ptr r = None then null_ref else r) \<and> heap_ok tbl h' (add_mset r' (add_mset r R))"
  using retain_or_move_ok [OF assms, of is_move] by blast

theorem retain_or_move_balanced_witness:
  "\<exists>h' r'. iree_vm_ref_retain_or_move sample_types False False [sample_object (BBuffer \<lparr>access = 0, data = [7]\<rparr>)]
      (sample_ref 1 0) null_ref = Some (h', r', sample_ref 1 0)
    \<and> r' = sample_ref 1 0 \<and> heap_ok sample_types h' {#sample_ref 1 0, sample_ref 1 0#}"
proof -
  let ?h = "[sample_object (BBuffer \<lparr>access = 0, data = [7]\<rparr>)]"
  have "heap_ok sample_types ?h (add_mset (sample_ref 1 0) (add_mset null_ref {#}))"
    using heap_ok_sample_buffer [OF heap_ok_empty, of "\<lparr>access = 0, data = [7]\<rparr>"]
    by (simp add: add_mset_commute [of _ null_ref])
  from retain_or_move_balanced [OF this, of False] show ?thesis by (simp add: sample_ref_def)
qed

section \<open>Lists\<close>

definition sample_list :: "iree_vm_type_def \<Rightarrow> vm_heap" where
  "sample_list et = [sample_object (BList (empty_list (Some et)))]"

definition i32_def :: iree_vm_type_def where "i32_def = iree_vm_type_def_make_value_type IREE_VM_VALUE_TYPE_I32"
definition buffer_def :: iree_vm_type_def where "buffer_def = iree_vm_type_def_make_ref_type 1"

lemma sample_list_ok: "heap_ok sample_types (sample_list et) {#sample_ref 2 0#}"
  using heap_ok_sample_list [OF heap_ok_empty, of "empty_list (Some et)"] by (simp add: sample_list_def list_wf_empty)

lemma sample_list_root:
  "list_root sample_types (sample_list et) (sample_ref 2 0) 0 (empty_list (Some et)) {#}"
  using sample_list_ok [of et] by (simp add: list_root_def sample_ref_def sample_list_def list_at_Some obj_at_def sample_object_def)

lemma sample_storage:
  "storage (empty_list (Some i32_def)) = StValue []" "storage (empty_list (Some buffer_def)) = StRef []"
  "element_type (empty_list (Some et)) = et"
  by (simp_all add: empty_list_def i32_def_def buffer_def_def zero_storage_def iree_vm_type_def_make_value_type_def
      iree_vm_type_def_make_ref_type_def iree_vm_type_def_is_value_def iree_vm_type_def_is_ref_def IREE_VM_REF_TYPE_NULL_def)

text \<open>
  C29: lists of 32-bit integers are growable arrays. Pushing values to a list appends them to its
  elements, in order, and each is then read back at its index; a read past the end is refused.
\<close>

theorem i32_list_push_get:
  assumes inv: "i32_list_inv tbl lr p R h" and room: "list_room_at alloc p h (length xs)"
  shows "\<exists>h'. push_all (i32_list_push tbl alloc p) h xs = Some h' \<and> i32_list_inv tbl lr p R h'
    \<and> i32_list_elems p h' = i32_list_elems p h @ xs
    \<and> (\<forall>i. i32_list_get p h' i = (if i < length (i32_list_elems p h @ xs) then Some ((i32_list_elems p h @ xs) ! i) else None))"
proof -
  obtain h' where h': "push_all (i32_list_push tbl alloc p) h xs = Some h'" "i32_list_inv tbl lr p R h'"
      "i32_list_elems p h' = i32_list_elems p h @ xs"
    using i32_list.push_all_elems [OF inv, of xs alloc 0] room by auto
  with i32_list.lookup_elems [OF h'(2)] show ?thesis by (intro exI [of _ h']) simp
qed

theorem i32_list_push_get_witness:
  "\<exists>h'. push_all (i32_list_push sample_types (\<lambda>_. IREE_STATUS_OK) 0) (sample_list i32_def) [5, 6] = Some h'
    \<and> i32_list_get 0 h' 1 = Some 6 \<and> i32_list_get 0 h' 2 = None"
proof -
  have "i32_list_inv sample_types (sample_ref 2 0) 0 {#} (sample_list i32_def)"
    unfolding i32_list_inv_def using sample_list_root [of i32_def]
    by (intro exI [of _ "empty_list (Some i32_def)"] exI [of _ "[]"]) (simp add: sample_storage i32_def_def [symmetric])
  moreover have "list_room_at (\<lambda>_. IREE_STATUS_OK) 0 (sample_list i32_def) (length [5 :: u32, 6])"
    by (simp add: list_room_at_def list_room_def sample_list_def list_at_def obj_at_def sample_object_def empty_list_def)
  moreover have "i32_list_elems 0 (sample_list i32_def) = []"
    by (simp add: i32_list_elems_def sample_list_def list_at_def obj_at_def sample_object_def sample_storage)
  ultimately show ?thesis
    using i32_list_push_get [of sample_types "sample_ref 2 0" 0 "{#}" "sample_list i32_def" "\<lambda>_. IREE_STATUS_OK" "[5, 6]"]
    by auto
qed

text \<open>
  Lists of references are growable arrays too: pushing references that are accounted for appends
  them, retained, and each is read back at its index.
\<close>

theorem ref_list_push_get:
  assumes inv: "ref_list_inv tbl lr p t R h" and valid: "\<forall>v \<in> set vs. ref_list_valid t R v" and room: "list_room_at alloc p h (length vs)"
  shows "\<exists>h'. push_all (ref_list_push tbl alloc p) h vs = Some h' \<and> ref_list_inv tbl lr p t R h'
    \<and> ref_list_elems p h' = ref_list_elems p h @ vs
    \<and> (\<forall>i. ref_list_get tbl p h' i = (if i < length (ref_list_elems p h @ vs) then Some ((ref_list_elems p h @ vs) ! i) else None))"
proof -
  obtain h' where h': "push_all (ref_list_push tbl alloc p) h vs = Some h'" "ref_list_inv tbl lr p t R h'"
      "ref_list_elems p h' = ref_list_elems p h @ vs"
    using ref_list.push_all_elems [OF inv valid, of alloc 0] room by auto
  with ref_list.lookup_elems [OF h'(2)] show ?thesis by (intro exI [of _ h']) simp
qed

definition sample_list_buffer :: vm_heap where
  "sample_list_buffer = sample_list buffer_def @ [sample_object (BBuffer \<lparr>access = 0, data = [7]\<rparr>)]"

lemma sample_list_buffer_root:
  "list_root sample_types sample_list_buffer (sample_ref 2 0) 0 (empty_list (Some buffer_def)) {#sample_ref 1 1#}"
proof -
  have "heap_ok sample_types sample_list_buffer {#sample_ref 1 1, sample_ref 2 0#}"
    using heap_ok_sample_buffer [OF sample_list_ok, of buffer_def "\<lparr>access = 0, data = [7]\<rparr>"]
    by (simp add: sample_list_buffer_def sample_list_def)
  then show ?thesis
    by (simp add: list_root_def sample_ref_def sample_list_buffer_def sample_list_def list_at_Some obj_at_def sample_object_def
        add_mset_commute)
qed

theorem ref_list_push_get_witness:
  "\<exists>h'. push_all (ref_list_push sample_types (\<lambda>_. IREE_STATUS_OK) 0) sample_list_buffer [sample_ref 1 1, sample_ref 1 1] = Some h'
    \<and> ref_list_get sample_types 0 h' 1 = Some (sample_ref 1 1) \<and> ref_list_get sample_types 0 h' 2 = None"
proof -
  have "ref_list_inv sample_types (sample_ref 2 0) 0 1 {#sample_ref 1 1#} sample_list_buffer"
    unfolding ref_list_inv_def using sample_list_buffer_root
    by (intro exI [of _ "empty_list (Some buffer_def)"] exI [of _ "[]"]) (simp add: sample_storage, simp add: buffer_def_def iree_vm_type_def_make_ref_type_def)
  moreover have "list_room_at (\<lambda>_. IREE_STATUS_OK) 0 sample_list_buffer (length [sample_ref 1 1, sample_ref 1 1])"
    by (simp add: list_room_at_def list_room_def sample_list_buffer_def sample_list_def list_at_def obj_at_def sample_object_def empty_list_def)
  moreover have "ref_list_elems 0 sample_list_buffer = []"
    by (simp add: ref_list_elems_def sample_list_buffer_def sample_list_def list_at_def obj_at_def sample_object_def sample_storage)
  moreover have "\<forall>v \<in> set [sample_ref 1 1, sample_ref 1 1]. ref_list_valid 1 {#sample_ref 1 1#} v"
    by (simp add: ref_list_valid_def sample_ref_def)
  ultimately show ?thesis
    using ref_list_push_get [of sample_types "sample_ref 2 0" 0 1 "{#sample_ref 1 1#}" sample_list_buffer "[sample_ref 1 1, sample_ref 1 1]"
        "\<lambda>_. IREE_STATUS_OK"]
    by auto
qed

text \<open>
  Resizing a list keeps the elements below both sizes, releases those that are cut, clears the new
  ones, and fails only when the allocator does, leaving the list as it was.
\<close>

theorem resize_keeps_list:
  assumes "list_root tbl h lr p l R" "unat n \<le> 2 ^ 57"
  shows "\<exists>h' st l'. iree_vm_list_resize tbl alloc h p n = Some (h', st) \<and> list_root tbl h' lr p l' R
    \<and> (if st = IREE_STATUS_OK then l' = resized l n \<and> list_count l' = n
       else l' = l \<and> capacity l < n \<and> (\<exists>sz. sz \<noteq> 0 \<and> st = alloc sz))"
proof -
  obtain h' st where h': "iree_vm_list_resize tbl alloc h p n = Some (h', st)"
      "list_root tbl h' lr p (if st = IREE_STATUS_OK then resized l n else l) R" "n \<le> capacity l \<longrightarrow> st = IREE_STATUS_OK"
      "st = IREE_STATUS_OK \<or> (\<exists>sz. sz \<noteq> 0 \<and> st = alloc sz)"
    using resize_ok [OF assms, of alloc] by blast
  have "list_count (resized l n) = n" by (auto simp: resized_def Let_def)
  with h' show ?thesis
    by (intro exI [of _ h'] exI [of _ st] exI [of _ "if st = IREE_STATUS_OK then resized l n else l"]) auto
qed

theorem resize_keeps_list_witness:
  "\<exists>h' l'. iree_vm_list_resize sample_types (\<lambda>_. IREE_STATUS_OK) (sample_list i32_def) 0 3 = Some (h', IREE_STATUS_OK)
    \<and> list_root sample_types h' (sample_ref 2 0) 0 l' {#} \<and> list_count l' = 3"
  using resize_keeps_list [OF sample_list_root [of i32_def], of 3 "\<lambda>_. IREE_STATUS_OK"]
  by (auto split: if_splits)

text \<open>
  Storing a reference in a list of its type and reading it back. The stored reference is the one
  read, both variables and the element hold it, and the store stays balanced.
\<close>

theorem set_ref_get_ref:
  assumes root: "list_root tbl h lr p l (add_mset v (add_mset null_ref R))" and rs: "storage l = StRef rs" and i: "i < list_count l"
    and t: "ref_type v = def_ref_type (element_type l)" and v: "ref_ptr v \<noteq> None"
  shows "\<exists>h1 h2. iree_vm_list_set_ref tbl h p i False v = Some (h1, IREE_STATUS_OK, v)
    \<and> iree_vm_list_get_ref_retain tbl h1 p i null_ref = Some (h2, IREE_STATUS_OK, v)
    \<and> heap_ok tbl h2 (add_mset lr (add_mset v (add_mset v R)))"
proof -
  obtain h1 where h1: "iree_vm_list_set_ref tbl h p i False v = Some (h1, IREE_STATUS_OK, v)"
      "list_root tbl h1 lr p (l\<lparr>storage := StRef (rs[unat i := v])\<rparr>) (add_mset v (add_mset null_ref R))"
    using set_ref_StRef [OF root rs i, of False] t v by auto
  let ?l = "l\<lparr>storage := StRef (rs[unat i := v])\<rparr>"
  have root1: "list_root tbl h1 lr p ?l (add_mset null_ref (add_mset v R))" using h1(2) by (simp add: add_mset_commute)
  have len: "unat i < length rs" using list_wf_length [OF list_root_wf [OF root] i] rs by (simp add: list_refs_def)
  obtain h2 where "iree_vm_list_get_ref_retain tbl h1 p i null_ref = Some (h2, IREE_STATUS_OK, list_refs ?l ! unat i)"
      "list_root tbl h2 lr p ?l (add_mset (list_refs ?l ! unat i) (add_mset v R))"
    using get_ref_retain_ok [OF root1, of i] i by auto
  with h1(1) len show ?thesis by (auto simp: list_refs_def list_root_def)
qed

text \<open>A list of one buffer reference, which it holds, and the same buffer held outside.\<close>

definition sample_ref_list :: iree_vm_list where
  "sample_ref_list = \<lparr>capacity = 1, list_count = 1, element_type = buffer_def, element_size = 16, storage = StRef [null_ref]\<rparr>"

lemma sample_ref_list_wf: "list_wf sample_ref_list" "list_refs sample_ref_list = [null_ref]"
  by (simp_all add: list_wf_def sample_ref_list_def list_refs_def buffer_def_def storage_wf_def storage_element_size_def
      iree_vm_type_def_make_ref_type_def sizeof_ref_def null_ref_def iree_vm_type_def_is_value_def iree_vm_type_def_is_ref_def
      IREE_VM_REF_TYPE_NULL_def)

theorem set_ref_get_ref_witness:
  "\<exists>h1 h2. iree_vm_list_set_ref sample_types
      [sample_object (BList sample_ref_list), sample_object (BBuffer \<lparr>access = 0, data = [7]\<rparr>)] 0 0 False (sample_ref 1 1)
        = Some (h1, IREE_STATUS_OK, sample_ref 1 1)
    \<and> iree_vm_list_get_ref_retain sample_types h1 0 0 null_ref = Some (h2, IREE_STATUS_OK, sample_ref 1 1)
    \<and> heap_ok sample_types h2 {#sample_ref 2 0, sample_ref 1 1, sample_ref 1 1#}"
proof -
  let ?h = "[sample_object (BList sample_ref_list), sample_object (BBuffer \<lparr>access = 0, data = [7]\<rparr>)]"
  have "heap_ok sample_types [sample_object (BList sample_ref_list)] {#sample_ref 2 0#}"
    using heap_ok_sample_list [OF heap_ok_empty, of sample_ref_list] by (simp add: sample_ref_list_wf)
  from heap_ok_sample_buffer [OF this, of "\<lparr>access = 0, data = [7]\<rparr>"]
  have "list_root sample_types ?h (sample_ref 2 0) 0 sample_ref_list (add_mset (sample_ref 1 1) (add_mset null_ref {#}))"
    by (simp add: list_root_def add_mset_commute [of _ null_ref] list_at_Some obj_at_def sample_object_def)
      (simp add: sample_ref_def add_mset_commute)
  from set_ref_get_ref [OF this, of "[null_ref]" 0] show ?thesis
    by (simp add: sample_ref_list_def buffer_def_def iree_vm_type_def_make_ref_type_def sample_ref_def)
qed

text \<open>
  A reference is refused when the index is past the end, when the list holds values, or when it is of
  another type than the elements; the list and the reference are then unchanged.
\<close>

theorem set_ref_refused_unchanged:
  assumes "list_at h p = Some l" "list_wf l"
    and "i \<ge> list_count l \<or> (\<exists>vs. storage l = StValue vs)
     \<or> (\<exists>rs. storage l = StRef rs) \<and> ref_type v \<noteq> 0 \<and> ref_type v \<noteq> def_ref_type (element_type l)"
  shows "\<exists>st. iree_vm_list_set_ref tbl h p i is_move v = Some (h, st, v) \<and> st \<noteq> IREE_STATUS_OK"
  using assms by (rule set_ref_refused)

theorem set_ref_refused_unchanged_witness:
  "\<exists>st. iree_vm_list_set_ref sample_types (sample_list buffer_def) 0 0 True (sample_ref 1 1) = Some (sample_list buffer_def, st, sample_ref 1 1)
    \<and> st \<noteq> IREE_STATUS_OK"
  by (rule set_ref_refused_unchanged [of _ _ "empty_list (Some buffer_def)"])
    (simp add: sample_list_def list_at_def obj_at_def sample_object_def, rule list_wf_empty, simp add: empty_list_def)

text \<open>
  Integers are converted between the widths of the list elements as C converts them: the result is
  the value reduced to the target width, with its sign.
\<close>

theorem convert_value_reduces:
  assumes "int_type (val_type v)" "int_type t"
  shows "value_int (iree_vm_list_convert_value_type v t) = signed_take_bit (8 * kValueTypeSizes t - 1) (value_int v)"
  using assms by (rule value_int_convert)

theorem convert_value_reduces_witness:
  "value_int (iree_vm_list_convert_value_type \<lparr>val_type = IREE_VM_VALUE_TYPE_I32, val_bits = 0xFFFFFFFF\<rparr> IREE_VM_VALUE_TYPE_I8) = - 1"
proof -
  let ?v = "\<lparr>val_type = IREE_VM_VALUE_TYPE_I32, val_bits = 0xFFFFFFFF\<rparr>"
  have "value_int ?v = - 1" by code_simp
  with convert_value_reduces [of ?v IREE_VM_VALUE_TYPE_I8] show ?thesis by (simp add: int_type_def)
qed



section \<open>Buffers\<close>

text \<open>
  A range that a buffer maps lies inside the buffer, for any offset, length and power-of-two
  alignment whose sum does not wrap; it starts and ends at the aligned positions.
\<close>

theorem buffer_map_in_bounds:
  assumes "unat off + unat len < 2 ^ 64" "iree_vm_buffer_map b off len (2 ^ k) = (IREE_STATUS_OK, moff, mlen)"
  shows "unat moff + unat mlen \<le> length (data b) \<and> moff = off AND NOT (2 ^ k - 1) \<and> mlen = len AND NOT (2 ^ k - 1)"
  using assms by (rule map_in_bounds)

theorem buffer_map_in_bounds_witness:
  "snd (iree_vm_buffer_map \<lparr>access = 0, data = replicate 8 0\<rparr> 5 3 (2 ^ 2)) = (4, 0)"
proof -
  have "iree_vm_buffer_map \<lparr>access = 0, data = replicate 8 0\<rparr> 5 3 (2 ^ 2) = (IREE_STATUS_OK, 4, 0)" by code_simp
  from buffer_map_in_bounds [OF _ this] show ?thesis using \<open>_ = (IREE_STATUS_OK, 4, 0)\<close> by simp
qed

text \<open>
  Elements written to a buffer are read back. A write is refused, without effect, exactly when it
  does not fit or the buffer is read-only.
\<close>

theorem buffer_write_read:
  fixes n off :: u64
  assumes k: "k \<le> 3" and small: "unat n * 2 ^ k < 2 ^ 63" "unat off < 2 ^ 63" "length (data b) < 2 ^ 64"
    and src: "length src = unat n * 2 ^ k"
  shows "\<exists>st b'. iree_vm_buffer_write_elements src b off n (2 ^ k) = Some (st, b')
    \<and> (st = IREE_STATUS_OK \<longleftrightarrow> is_mutable b \<and> unat off div 2 ^ k * 2 ^ k + length src \<le> length (data b))
    \<and> (if st = IREE_STATUS_OK
       then iree_vm_buffer_read_elements b' off n (2 ^ k) = Some (IREE_STATUS_OK, src)
       else b' = b)"
proof (cases "is_mutable b")
  case False
  then show ?thesis by (simp add: read_only_unchanged)
next
  case mut: True
  let ?o = "unat off div 2 ^ k * 2 ^ k"
  note w = write_elements_cases [OF k small src mut]
  show ?thesis
  proof (cases "?o + unat n * 2 ^ k \<le> length (data b)")
    case True
    define b' where "b' = b\<lparr>data := take ?o (data b) @ src @ drop (?o + unat n * 2 ^ k) (data b)\<rparr>"
    have len: "length (data b') = length (data b)" using True src by (simp add: b'_def)
    have "iree_vm_buffer_read_elements b' off n (2 ^ k) = Some (IREE_STATUS_OK, take (unat n * 2 ^ k) (drop ?o (data b')))"
      using read_elements_cases [OF k small(1,2), of b'] len small(3) True by simp
    moreover have "take (unat n * 2 ^ k) (drop ?o (data b')) = src"
      using True src by (simp add: b'_def)
    ultimately show ?thesis using w True mut src by (simp add: b'_def)
  next
    case False
    then show ?thesis using w src by simp
  qed
qed

theorem buffer_write_read_witness:
  "\<exists>b'. iree_vm_buffer_write_elements [1, 2, 3, 4] \<lparr>access = 1, data = replicate 8 0\<rparr> 4 1 (2 ^ 2) = Some (IREE_STATUS_OK, b')
    \<and> iree_vm_buffer_read_elements b' 4 1 (2 ^ 2) = Some (IREE_STATUS_OK, [1, 2, 3, 4])"
  using buffer_write_read [of 2 1 4 "\<lparr>access = 1, data = replicate 8 0\<rparr>" "[1, 2, 3, 4]"]
  by (auto simp: IREE_VM_BUFFER_ACCESS_MUTABLE_def split: if_splits)

text \<open>
  Copying between buffers. The source is read only inside its bounds and the target written only
  inside its bounds and only if it is mutable; the target then holds the source bytes at the target
  offset and is unchanged elsewhere.
\<close>

theorem buffer_copy_bytes_exact:
  assumes "unat soff + unat len < 2 ^ 64" "unat toff + unat len < 2 ^ 64"
    "length (data s) < 2 ^ 64" "length (data t) < 2 ^ 64"
    "\<not> same \<or> unat soff + unat len \<le> unat toff \<or> unat toff + unat len \<le> unat soff"
  shows "iree_vm_buffer_copy_bytes same s soff t toff len =
    (if unat soff + unat len > length (data s) then Some (IREE_STATUS_OUT_OF_RANGE, t)
     else if \<not> is_mutable t then Some (IREE_STATUS_PERMISSION_DENIED, t)
     else if unat toff + unat len > length (data t) then Some (IREE_STATUS_OUT_OF_RANGE, t)
     else Some (IREE_STATUS_OK, t\<lparr>data := take (unat toff) (data t) @ take (unat len) (drop (unat soff) (data s))
                                  @ drop (unat toff + unat len) (data t)\<rparr>))"
  using assms by (rule copy_bytes_cases)

theorem buffer_copy_bytes_exact_witness:
  "iree_vm_buffer_copy_bytes False \<lparr>access = 0, data = [1, 2, 3]\<rparr> 1 \<lparr>access = 1, data = [9, 9, 9]\<rparr> 0 2
    = Some (IREE_STATUS_OK, \<lparr>access = 1, data = [2, 3, 9]\<rparr>)"
  by (subst buffer_copy_bytes_exact) (simp_all add: IREE_VM_BUFFER_ACCESS_MUTABLE_def)

text \<open>Comparing two ranges that lie inside their buffers tells whether all their bytes are equal.\<close>

theorem buffer_compare_bytes_exact:
  assumes "unat loff + unat len < 2 ^ 64" "unat roff + unat len < 2 ^ 64" "length (data l) < 2 ^ 64" "length (data r) < 2 ^ 64"
  shows "iree_vm_buffer_compare_bytes l loff r roff len res =
    (if unat loff + unat len \<le> length (data l) \<and> unat roff + unat len \<le> length (data r)
     then Some (IREE_STATUS_OK, take (unat len) (drop (unat loff) (data l)) = take (unat len) (drop (unat roff) (data r)))
     else Some (IREE_STATUS_OUT_OF_RANGE, res))"
  unfolding compare_bytes_cases [OF assms] by (auto simp: list_eq_iff_nth_eq)

theorem buffer_compare_bytes_exact_witness:
  "iree_vm_buffer_compare_bytes \<lparr>access = 0, data = [1, 2, 3]\<rparr> 1 \<lparr>access = 0, data = [2, 3]\<rparr> 0 2 False = Some (IREE_STATUS_OK, True)"
  by (subst buffer_compare_bytes_exact) simp_all

text \<open>Filling stores the pattern in every element of the range, inside the bounds of the buffer, and nothing else.\<close>

theorem buffer_fill_exact:
  fixes n toff :: u64
  assumes "k \<le> 3" "unat n * 2 ^ k < 2 ^ 63" "unat toff < 2 ^ 63" "length (data t) < 2 ^ 64" "length val = 2 ^ k" "is_mutable t"
  shows "iree_vm_buffer_fill_elements t toff n (2 ^ k) val =
    (let o' = unat toff div 2 ^ k * 2 ^ k in
     if o' + unat n * 2 ^ k \<le> length (data t)
     then Some (IREE_STATUS_OK, t\<lparr>data := take o' (data t) @ concat (replicate (unat n) val) @ drop (o' + unat n * 2 ^ k) (data t)\<rparr>)
     else Some (IREE_STATUS_OUT_OF_RANGE, t))"
  using fill_elements_cases [OF assms(1-4) _ assms(6), of val] assms(5) by (simp add: Let_def)

theorem buffer_fill_exact_witness:
  "iree_vm_buffer_fill_elements \<lparr>access = 1, data = [9, 9, 9, 9, 9]\<rparr> 2 1 (2 ^ 1) [1, 2]
    = Some (IREE_STATUS_OK, \<lparr>access = 1, data = [9, 9, 1, 2, 9]\<rparr>)"
  by (subst buffer_fill_exact) (simp_all add: IREE_VM_BUFFER_ACCESS_MUTABLE_def)

end
