(* ===== verification/VM_Registers.thy ===== *)
theory VM_Registers
  imports VM_RefLive VM_Buffer
begin

text \<open>
  The register file of a bytecode frame and the reading of bytecode operands
  (\<^verbatim>\<open>iree/vm/bytecode_dispatch_util.h\<close>, and the register helpers of \<^verbatim>\<open>iree/vm/bytecode_dispatch.c\<close>).

  A register ordinal of the bytecode is any 16-bit value; every access masks it with the bank's mask.
  The 32-bit bank is the memory of the bank, padding included; a 64-bit access covers two of its
  entries. An index past the bank is undefined behaviour.
\<close>

section \<open>Registers\<close>

definition IREE_I32_REGISTER_MASK :: u32 where "IREE_I32_REGISTER_MASK = 0x7FFF"
definition IREE_REF_REGISTER_TYPE_BIT :: u16 where "IREE_REF_REGISTER_TYPE_BIT = 0x8000"
definition IREE_REF_REGISTER_MOVE_BIT :: u16 where "IREE_REF_REGISTER_MOVE_BIT = 0x4000"
definition IREE_REF_REGISTER_MASK :: u32 where "IREE_REF_REGISTER_MASK = 0x3FFF"

record iree_vm_registers =
  i32_mask :: u16
  i32_bank :: "u32 list"
  ref_mask :: u16
  ref_bank :: "iree_vm_ref list"

definition is_ref_reg :: "u16 \<Rightarrow> bool" where
  "is_ref_reg reg \<longleftrightarrow> reg AND IREE_REF_REGISTER_TYPE_BIT \<noteq> 0"

definition is_move_reg :: "u16 \<Rightarrow> bool" where
  "is_move_reg reg \<longleftrightarrow> reg AND IREE_REF_REGISTER_MOVE_BIT \<noteq> 0"

definition i32_index :: "iree_vm_registers \<Rightarrow> u16 \<Rightarrow> nat" where
  "i32_index regs reg = unat (reg AND i32_mask regs)"

definition i64_index :: "iree_vm_registers \<Rightarrow> u16 \<Rightarrow> nat" where
  "i64_index regs reg = unat (reg AND (i32_mask regs AND NOT 1))"

definition ref_index :: "iree_vm_registers \<Rightarrow> u16 \<Rightarrow> nat" where
  "ref_index regs reg = unat (reg AND ref_mask regs)"

text \<open>Memory accesses of the bank at an index: four bytes, and eight bytes.\<close>

definition load_i32 :: "iree_vm_registers \<Rightarrow> nat \<Rightarrow> u32 option" where
  "load_i32 regs k = (if k < length (i32_bank regs) then Some (i32_bank regs ! k) else None)"

definition store_i32 :: "iree_vm_registers \<Rightarrow> nat \<Rightarrow> u32 \<Rightarrow> iree_vm_registers option" where
  "store_i32 regs k v =
    (if k < length (i32_bank regs) then Some (regs\<lparr>i32_bank := (i32_bank regs)[k := v]\<rparr>) else None)"

definition load_i64 :: "iree_vm_registers \<Rightarrow> nat \<Rightarrow> u64 option" where
  "load_i64 regs k =
    (if Suc k < length (i32_bank regs)
     then Some (ucast (i32_bank regs ! k) OR push_bit 32 (ucast (i32_bank regs ! Suc k))) else None)"

definition store_i64 :: "iree_vm_registers \<Rightarrow> nat \<Rightarrow> u64 \<Rightarrow> iree_vm_registers option" where
  "store_i64 regs k v =
    (if Suc k < length (i32_bank regs)
     then Some (regs\<lparr>i32_bank := (i32_bank regs)[k := ucast v, Suc k := ucast (drop_bit 32 v)]\<rparr>) else None)"

definition load_ref :: "iree_vm_registers \<Rightarrow> nat \<Rightarrow> iree_vm_ref option" where
  "load_ref regs k = (if k < length (ref_bank regs) then Some (ref_bank regs ! k) else None)"

definition store_ref :: "iree_vm_registers \<Rightarrow> nat \<Rightarrow> iree_vm_ref \<Rightarrow> iree_vm_registers option" where
  "store_ref regs k r =
    (if k < length (ref_bank regs) then Some (regs\<lparr>ref_bank := (ref_bank regs)[k := r]\<rparr>) else None)"

section \<open>Bytecode operands\<close>

text \<open>
  The bytes of a function, by their offset from its first byte; a byte outside of the module's
  bytecode is \<open>None\<close>. Every decoding returns the value and the advanced program counter.
\<close>

type_synonym bytecode = "int \<Rightarrow> u8 option"

primrec read_code :: "bytecode \<Rightarrow> int \<Rightarrow> nat \<Rightarrow> u8 list option" where
  "read_code code pc 0 = Some []"
| "read_code code pc (Suc n) = do { b \<leftarrow> code pc; bs \<leftarrow> read_code code (pc + 1) n; Some (b # bs) }"

definition OP_I8 :: "bytecode \<Rightarrow> int \<Rightarrow> u8 option" where
  "OP_I8 code pc = code pc"
definition OP_I16 :: "bytecode \<Rightarrow> int \<Rightarrow> u16 option" where
  "OP_I16 code pc = map_option from_le (read_code code pc 2)"
definition OP_I32 :: "bytecode \<Rightarrow> int \<Rightarrow> u32 option" where
  "OP_I32 code pc = map_option from_le (read_code code pc 4)"
definition OP_I64 :: "bytecode \<Rightarrow> int \<Rightarrow> u64 option" where
  "OP_I64 code pc = map_option from_le (read_code code pc 8)"

definition VM_DecConstI8 :: "bytecode \<Rightarrow> int \<Rightarrow> (u8 \<times> int) option" where
  "VM_DecConstI8 code pc = map_option (\<lambda>v. (v, pc + 1)) (OP_I8 code pc)"
definition VM_DecConstI32 :: "bytecode \<Rightarrow> int \<Rightarrow> (u32 \<times> int) option" where
  "VM_DecConstI32 code pc = map_option (\<lambda>v. (v, pc + 4)) (OP_I32 code pc)"
definition VM_DecConstI64 :: "bytecode \<Rightarrow> int \<Rightarrow> (u64 \<times> int) option" where
  "VM_DecConstI64 code pc = map_option (\<lambda>v. (v, pc + 8)) (OP_I64 code pc)"

text \<open>A register ordinal, of a result or of a reference operand.\<close>

definition VM_DecReg :: "bytecode \<Rightarrow> int \<Rightarrow> (u16 \<times> int) option" where
  "VM_DecReg code pc = map_option (\<lambda>v. (v, pc + 2)) (OP_I16 code pc)"

definition VM_DecOperandRegI32 :: "iree_vm_registers \<Rightarrow> bytecode \<Rightarrow> int \<Rightarrow> (u32 \<times> int) option" where
  "VM_DecOperandRegI32 regs code pc =
    do { (reg, pc) \<leftarrow> VM_DecReg code pc; v \<leftarrow> load_i32 regs (i32_index regs reg); Some (v, pc) }"

definition VM_DecOperandRegI64 :: "iree_vm_registers \<Rightarrow> bytecode \<Rightarrow> int \<Rightarrow> (u64 \<times> int) option" where
  "VM_DecOperandRegI64 regs code pc =
    do { (reg, pc) \<leftarrow> VM_DecReg code pc; v \<leftarrow> load_i64 regs (i64_index regs reg); Some (v, pc) }"

definition VM_DecResultRegI32 :: "iree_vm_registers \<Rightarrow> bytecode \<Rightarrow> int \<Rightarrow> (nat \<times> int) option" where
  "VM_DecResultRegI32 regs code pc = map_option (\<lambda>(reg, pc). (i32_index regs reg, pc)) (VM_DecReg code pc)"

definition VM_DecResultRegI64 :: "iree_vm_registers \<Rightarrow> bytecode \<Rightarrow> int \<Rightarrow> (nat \<times> int) option" where
  "VM_DecResultRegI64 regs code pc = map_option (\<lambda>(reg, pc). (i64_index regs reg, pc)) (VM_DecReg code pc)"

text \<open>The slot of a reference register and whether its use is a move.\<close>

definition VM_DecOperandRegRef :: "iree_vm_registers \<Rightarrow> bytecode \<Rightarrow> int \<Rightarrow> ((nat \<times> bool) \<times> int) option" where
  "VM_DecOperandRegRef regs code pc =
    map_option (\<lambda>(reg, pc). ((ref_index regs reg, is_move_reg reg), pc)) (VM_DecReg code pc)"

definition VM_DecResultRegRef :: "iree_vm_registers \<Rightarrow> bytecode \<Rightarrow> int \<Rightarrow> ((nat \<times> bool) \<times> int) option" where
  "VM_DecResultRegRef regs code pc =
    map_option (\<lambda>(reg, pc). ((ref_index regs reg, is_move_reg reg), pc)) (VM_DecReg code pc)"

text \<open>A list of register ordinals, and a list of source and target pairs.\<close>

primrec read_regs :: "bytecode \<Rightarrow> int \<Rightarrow> nat \<Rightarrow> u16 list option" where
  "read_regs code pc 0 = Some []"
| "read_regs code pc (Suc n) = do { r \<leftarrow> OP_I16 code pc; rs \<leftarrow> read_regs code (pc + 2) n; Some (r # rs) }"

primrec read_pairs :: "bytecode \<Rightarrow> int \<Rightarrow> nat \<Rightarrow> (u16 \<times> u16) list option" where
  "read_pairs code pc 0 = Some []"
| "read_pairs code pc (Suc n) =
    do { src \<leftarrow> OP_I16 code pc; dst \<leftarrow> OP_I16 code (pc + 2); rs \<leftarrow> read_pairs code (pc + 4) n; Some ((src, dst) # rs) }"

definition VM_DecVariadicOperands :: "bytecode \<Rightarrow> int \<Rightarrow> (u16 list \<times> int) option" where
  "VM_DecVariadicOperands code pc =
    do { n \<leftarrow> OP_I16 code pc; rs \<leftarrow> read_regs code (pc + 2) (unat n); Some (rs, pc + 2 + 2 * int (unat n)) }"

definition VM_DecBranchOperands :: "bytecode \<Rightarrow> int \<Rightarrow> ((u16 \<times> u16) list \<times> int) option" where
  "VM_DecBranchOperands code pc =
    do { n \<leftarrow> OP_I16 code pc; rs \<leftarrow> read_pairs code (pc + 2) (unat n); Some (rs, pc + 2 + 4 * int (unat n)) }"

text \<open>A string attribute is skipped; its bytes are not read by the dispatcher.\<close>

definition VM_DecStrAttr :: "bytecode \<Rightarrow> int \<Rightarrow> int option" where
  "VM_DecStrAttr code pc = map_option (\<lambda>n. pc + 2 + int (unat n)) (OP_I16 code pc)"

text \<open>The comparison is between \<^verbatim>\<open>size_t\<close> values, so negative type ids are clamped as well.\<close>

definition iree_vm_map_type :: "iree_vm_type_def list \<Rightarrow> u32 \<Rightarrow> iree_vm_type_def option" where
  "iree_vm_map_type type_table type_id =
    (let t = (if sint type_id < 0 \<or> nat (sint type_id) \<ge> length type_table then 0 else nat (sint type_id))
     in if t < length type_table then Some (type_table ! t) else None)"

definition VM_DecTypeOf :: "iree_vm_type_def list \<Rightarrow> bytecode \<Rightarrow> int \<Rightarrow> (iree_vm_type_def \<times> int) option" where
  "VM_DecTypeOf types code pc =
    do { t \<leftarrow> OP_I32 code pc; d \<leftarrow> iree_vm_map_type types t; Some (d, pc + 4) }"

section \<open>References in an array of slots\<close>

text \<open>
  The reference operations applied to two slots of one array, which may be the same slot; the
  array is what the pointers of the call lead into.
\<close>

definition retain_or_move_at ::
  "type_table \<Rightarrow> bool \<Rightarrow> vm_heap \<Rightarrow> iree_vm_ref list \<Rightarrow> nat \<Rightarrow> nat \<Rightarrow> (vm_heap \<times> iree_vm_ref list) option" where
  "retain_or_move_at tbl is_move h rs i j =
    (if i < length rs \<and> j < length rs
     then map_option (\<lambda>(h1, src, dst). (h1, rs[i := src, j := dst]))
       (iree_vm_ref_retain_or_move tbl (i = j) is_move h (rs ! i) (rs ! j))
     else None)"

definition retain_or_move_checked_at ::
  "type_table \<Rightarrow> bool \<Rightarrow> vm_heap \<Rightarrow> iree_vm_ref list \<Rightarrow> nat \<Rightarrow> nat \<Rightarrow> nat \<Rightarrow> (vm_heap \<times> iree_status \<times> iree_vm_ref list) option" where
  "retain_or_move_checked_at tbl is_move h rs i t j =
    (if i < length rs \<and> j < length rs
     then map_option (\<lambda>(h1, st, src, dst). (h1, st, rs[i := src, j := dst]))
       (iree_vm_ref_retain_or_move_checked tbl (i = j) is_move h (rs ! i) t (rs ! j))
     else None)"

definition release_at :: "type_table \<Rightarrow> vm_heap \<Rightarrow> iree_vm_ref list \<Rightarrow> nat \<Rightarrow> (vm_heap \<times> iree_vm_ref list) option" where
  "release_at tbl h rs i =
    (if i < length rs then map_option (\<lambda>(h1, r). (h1, rs[i := r])) (iree_vm_ref_release tbl h (rs ! i)) else None)"

text \<open>The remapping of a branch, one pair after the other, and the release of moved operands.\<close>

fun iree_vm_bytecode_dispatch_remap_branch_registers ::
  "type_table \<Rightarrow> vm_heap \<Rightarrow> iree_vm_registers \<Rightarrow> (u16 \<times> u16) list \<Rightarrow> (vm_heap \<times> iree_vm_registers) option" where
  "iree_vm_bytecode_dispatch_remap_branch_registers tbl h regs [] = Some (h, regs)"
| "iree_vm_bytecode_dispatch_remap_branch_registers tbl h regs ((src_reg, dst_reg) # pairs) =
    (if is_ref_reg src_reg
     then do {
       (h1, rs) \<leftarrow> retain_or_move_at tbl (is_move_reg src_reg) h (ref_bank regs) (ref_index regs src_reg) (ref_index regs dst_reg);
       iree_vm_bytecode_dispatch_remap_branch_registers tbl h1 (regs\<lparr>ref_bank := rs\<rparr>) pairs
     }
     else do {
       v \<leftarrow> load_i32 regs (i32_index regs src_reg);
       regs1 \<leftarrow> store_i32 regs (i32_index regs dst_reg) v;
       iree_vm_bytecode_dispatch_remap_branch_registers tbl h regs1 pairs
     })"

fun iree_vm_bytecode_dispatch_discard_registers ::
  "type_table \<Rightarrow> vm_heap \<Rightarrow> iree_vm_registers \<Rightarrow> u16 list \<Rightarrow> (vm_heap \<times> iree_vm_registers) option" where
  "iree_vm_bytecode_dispatch_discard_registers tbl h regs [] = Some (h, regs)"
| "iree_vm_bytecode_dispatch_discard_registers tbl h regs (reg # reg_list) =
    (if is_ref_reg reg \<and> is_move_reg reg
     then do {
       (h1, rs) \<leftarrow> release_at tbl h (ref_bank regs) (ref_index regs reg);
       iree_vm_bytecode_dispatch_discard_registers tbl h1 (regs\<lparr>ref_bank := rs\<rparr>) reg_list
     }
     else iree_vm_bytecode_dispatch_discard_registers tbl h regs reg_list)"

section \<open>Bounds\<close>

text \<open>
  A register file of a frame: both masks are one less than a power of two, the reference bank has
  exactly the masked range, and the 32-bit bank has at least four entries and the masked range.
\<close>

definition regs_wf :: "iree_vm_registers \<Rightarrow> bool" where
  "regs_wf regs \<longleftrightarrow>
    (\<exists>k < 15. i32_mask regs = mask k \<and> length (i32_bank regs) = max 4 (2 ^ k)) \<and>
    (\<exists>k < 14. ref_mask regs = mask k \<and> length (ref_bank regs) = 2 ^ k)"

lemma unat_and_mask: "unat ((x :: 'a::len word) AND mask k) = unat x mod 2 ^ k"
  by (simp add: unat_take_bit flip: take_bit_eq_mask)

lemma i32_index_bound: "regs_wf regs \<Longrightarrow> i32_index regs reg < length (i32_bank regs)"
  by (auto simp: regs_wf_def i32_index_def unat_and_mask less_max_iff_disj)

lemma ref_index_bound: "regs_wf regs \<Longrightarrow> ref_index regs reg < length (ref_bank regs)"
  by (auto simp: regs_wf_def ref_index_def unat_and_mask)

lemma i64_index_bound:
  assumes "regs_wf regs"
  shows "Suc (i64_index regs reg) < length (i32_bank regs)" "even (i64_index regs reg)"
proof -
  obtain k where k: "k < 15" "i32_mask regs = mask k" "length (i32_bank regs) = max 4 (2 ^ k)"
    using assms by (auto simp: regs_wf_def)
  have one: "(1 :: u16) = mask 1" by (simp add: mask_eq_exp_minus_1)
  have "i64_index regs reg = unat ((reg AND mask k) AND NOT (mask 1))"
    unfolding i64_index_def k one by (simp add: and.assoc)
  also have "\<dots> = (unat reg mod 2 ^ k) div 2 * 2"
    unfolding unat_and_not_mask unat_and_mask by simp
  finally have eq: "i64_index regs reg = (unat reg mod 2 ^ k) div 2 * 2" .
  show "even (i64_index regs reg)" by (simp add: eq)
  show "Suc (i64_index regs reg) < length (i32_bank regs)"
  proof (cases k)
    case 0
    then show ?thesis by (simp add: eq k)
  next
    case (Suc j)
    have "unat reg mod 2 ^ k < 2 * 2 ^ j" unfolding Suc by simp
    then have "(unat reg mod 2 ^ k) div 2 < 2 ^ j" by (simp add: less_mult_imp_div_less mult.commute)
    then show ?thesis unfolding eq k(3) Suc by simp
  qed
qed

lemma load_store_simps:
  assumes "regs_wf regs"
  shows "load_i32 regs (i32_index regs reg) = Some (i32_bank regs ! i32_index regs reg)"
    "store_i32 regs (i32_index regs reg) v = Some (regs\<lparr>i32_bank := (i32_bank regs)[i32_index regs reg := v]\<rparr>)"
    "load_ref regs (ref_index regs reg) = Some (ref_bank regs ! ref_index regs reg)"
    "store_ref regs (ref_index regs reg) r = Some (regs\<lparr>ref_bank := (ref_bank regs)[ref_index regs reg := r]\<rparr>)"
  using i32_index_bound [OF assms] ref_index_bound [OF assms]
  by (simp_all add: load_i32_def store_i32_def load_ref_def store_ref_def)

lemma load_i64_wf: "regs_wf regs \<Longrightarrow> load_i64 regs (i64_index regs reg) \<noteq> None"
  using i64_index_bound(1) [of regs reg] by (simp add: load_i64_def)

lemma store_i64_wf: "regs_wf regs \<Longrightarrow> store_i64 regs (i64_index regs reg) v \<noteq> None"
  using i64_index_bound(1) [of regs reg] by (simp add: store_i64_def)

lemma load_store_i64:
  assumes "store_i64 regs k v = Some regs'"
  shows "load_i64 regs' k = Some v"
proof -
  have "(ucast (ucast v :: u32) OR push_bit 32 (ucast (ucast (drop_bit 32 v) :: u32)) :: u64) = v"
    by (rule bit_word_eqI) (auto simp: bit_simps)
  with assms show ?thesis
    by (auto simp: store_i64_def load_i64_def split: if_splits)
qed

lemma regs_wf_store [simp]:
  "store_i32 regs k v = Some regs' \<Longrightarrow> regs_wf regs' \<longleftrightarrow> regs_wf regs"
  "store_i64 regs k w = Some regs' \<Longrightarrow> regs_wf regs' \<longleftrightarrow> regs_wf regs"
  by (auto simp: store_i32_def store_i64_def regs_wf_def split: if_splits)

section \<open>Accounting\<close>

text \<open>Replacing the contents of one slot, or of two, of an array of roots.\<close>

lemma mset_one_slot:
  assumes "i < length xs"
  obtains R where "mset xs = add_mset (xs ! i) R" "\<And>y. mset (xs[i := y]) = add_mset y R"
  using that [of "mset xs - {#xs ! i#}"] assms by (simp add: mset_update)

lemma mset_two_slots:
  assumes "i < length xs" "j < length xs" "i \<noteq> j"
  obtains R where "mset xs = add_mset (xs ! i) (add_mset (xs ! j) R)"
    "\<And>y z. mset (xs[i := y, j := z]) = add_mset y (add_mset z R)"
proof -
  define R where "R = mset xs - {#xs ! i#} - {#xs ! j#}"
  have up: "mset (xs[i := y]) = add_mset y (mset xs - {#xs ! i#})" for y
    using assms(1) by (simp add: mset_update)
  have j: "xs ! j \<in># mset xs - {#xs ! i#}"
  proof (cases "xs ! i = xs ! j")
    case False
    with assms show ?thesis by (simp add: in_diff_count)
  next
    case True
    have "xs[j := xs ! i] = xs" using True by simp
    have "count (mset xs) (xs ! j) \<ge> 2"
    proof -
      have "{i, j} \<subseteq> {k. k < length xs \<and> xs ! k = xs ! j}" using assms True by auto
      then have "card {i, j} \<le> card {k. k < length xs \<and> xs ! k = xs ! j}" by (intro card_mono) auto
      then show ?thesis
        using assms(3) by (simp add: count_mset length_filter_conv_card count_list_eq_length_filter eq_commute)
    qed
    then show ?thesis using True by (simp add: in_diff_count)
  qed
  have R: "mset xs - {#xs ! i#} = add_mset (xs ! j) R"
    using insert_DiffM [OF j] unfolding R_def by simp
  have "mset xs = add_mset (xs ! i) (mset xs - {#xs ! i#})"
    using assms(1) by simp
  then have "mset xs = add_mset (xs ! i) (add_mset (xs ! j) R)"
    by (simp only: R)
  moreover have "mset (xs[i := y, j := z]) = add_mset y (add_mset z R)" for y z
  proof -
    have "mset (xs[i := y, j := z]) = add_mset z (mset (xs[i := y]) - {#xs ! j#})"
      using assms by (simp add: mset_update)
    also have "mset (xs[i := y]) = add_mset y (add_mset (xs ! j) R)"
      by (simp only: up R)
    finally show ?thesis by (simp add: add_mset_commute)
  qed
  ultimately show ?thesis by (rule that)
qed

lemma retain_or_move_at_ok:
  assumes ok: "heap_ok tbl h (mset rs + F)" and i: "i < length rs" and j: "j < length rs"
  shows "\<exists>h' rs' L. retain_or_move_at tbl is_move h rs i j = Some (h', rs') \<and> length rs' = length rs
    \<and> heap_ok tbl h' (mset rs' + (L + F)) \<and> shrinks {} h h' \<and> rs' ! j = rs ! i \<and> (i \<noteq> j \<or> is_move \<longrightarrow> L = {#})"
proof (cases "i = j")
  case True
  obtain R where R: "mset rs = add_mset (rs ! i) R"
    using mset_one_slot [OF i] by blast
  with ok have "heap_ok tbl h (add_mset (rs ! i) (R + F))" by simp
  then obtain h' where h': "inc_ref h (rs ! i) = Some h'" "shrinks {} h h'"
      "heap_ok tbl h' (add_mset (rs ! i) (add_mset (rs ! i) (R + F)))"
    using inc_ref_ok by blast
  then have "heap_ok tbl h' (mset rs + ({#rs ! i#} + F))"
    using R by simp
  with True h' i ok show ?thesis
    by (auto simp: retain_or_move_at_def iree_vm_ref_retain_or_move_def intro: exI [of _ "{#rs ! i#}"] exI [of _ "{#}"])
next
  case False
  obtain R where R: "mset rs = add_mset (rs ! i) (add_mset (rs ! j) R)"
      "\<And>y z. mset (rs[i := y, j := z]) = add_mset y (add_mset z R)"
    using mset_two_slots [OF i j False] by blast
  from ok R(1) have "heap_ok tbl h (add_mset (rs ! i) (add_mset (rs ! j) (R + F)))" by simp
  from retain_or_move_ok [OF this, of is_move] obtain h' where
    h': "iree_vm_ref_retain_or_move tbl False is_move h (rs ! i) (rs ! j)
        = Some (h', if is_move \<or> ref_ptr (rs ! i) = None then null_ref else rs ! i, rs ! i)" "shrinks {} h h'"
      "heap_ok tbl h' (add_mset (if is_move \<or> ref_ptr (rs ! i) = None then null_ref else rs ! i) (add_mset (rs ! i) (R + F)))"
    by blast
  then show ?thesis
    using False i j R(2) by (auto simp: retain_or_move_at_def intro!: exI [of _ "{#}"])
qed

lemma retain_or_move_checked_at_ok:
  assumes ok: "heap_ok tbl h (mset rs + F)" and i: "i < length rs" and j: "j < length rs"
  shows "\<exists>h' st rs' L. retain_or_move_checked_at tbl is_move h rs i t j = Some (h', st, rs') \<and> length rs' = length rs
    \<and> heap_ok tbl h' (mset rs' + (L + F)) \<and> shrinks {} h h'"
proof (cases "ref_type (rs ! i) \<noteq> IREE_VM_REF_TYPE_NULL \<and> ref_type (rs ! i) \<noteq> t")
  case True
  then show ?thesis
    using ok i j
    by (auto simp: retain_or_move_checked_at_def iree_vm_ref_retain_or_move_checked_def intro: exI [of _ "{#}"])
next
  case False
  then have "retain_or_move_checked_at tbl is_move h rs i t j
      = map_option (\<lambda>(h1, rs1). (h1, IREE_STATUS_OK, rs1)) (retain_or_move_at tbl is_move h rs i j)"
    using i j
    by (auto simp: retain_or_move_checked_at_def iree_vm_ref_retain_or_move_checked_def retain_or_move_at_def
        option.map_comp intro!: option.map_cong0)
  with retain_or_move_at_ok [OF ok i j, of is_move] show ?thesis
    by auto
qed

lemma release_at_ok:
  assumes ok: "heap_ok tbl h (mset rs + F)" and i: "i < length rs"
  shows "\<exists>h'. release_at tbl h rs i = Some (h', rs[i := released (rs ! i)])
    \<and> heap_ok tbl h' (mset (rs[i := released (rs ! i)]) + F) \<and> shrinks {} h h'"
proof -
  obtain R where R: "mset rs = add_mset (rs ! i) R" "\<And>y. mset (rs[i := y]) = add_mset y R"
    using mset_one_slot [OF i] by blast
  with ok have ok1: "heap_ok tbl h (add_mset (rs ! i) (R + F))" by simp
  from release_ok [OF this] obtain h' where
    h': "iree_vm_ref_release tbl h (rs ! i) = Some (h', released (rs ! i))" "heap_ok tbl h' (R + F)" "shrinks {} h h'"
    by blast
  moreover have "heap_ok tbl h' (add_mset (released (rs ! i)) (R + F))"
    using h'(2) ok1 by simp
  ultimately show ?thesis
    using i R(2) by (simp add: release_at_def)
qed

lemma regs_wf_ref_bank [simp]: "length rs = length (ref_bank regs) \<Longrightarrow> regs_wf (regs\<lparr>ref_bank := rs\<rparr>) \<longleftrightarrow> regs_wf regs"
  by (simp add: regs_wf_def)

lemma regs_wf_i32_bank [simp]: "length vs = length (i32_bank regs) \<Longrightarrow> regs_wf (regs\<lparr>i32_bank := vs\<rparr>) \<longleftrightarrow> regs_wf regs"
  by (simp add: regs_wf_def)

text \<open>
  The remapping of a branch never leaves the register file, for any list of pairs, and it keeps the
  accounting up to references it leaks (a pair that retains a register into itself).
\<close>

lemma remap_branch_registers_ok:
  assumes "regs_wf regs" "heap_ok tbl h (mset (ref_bank regs) + F)"
  shows "\<exists>h' regs' L. iree_vm_bytecode_dispatch_remap_branch_registers tbl h regs pairs = Some (h', regs')
    \<and> regs_wf regs' \<and> length (ref_bank regs') = length (ref_bank regs)
    \<and> heap_ok tbl h' (mset (ref_bank regs') + (L + F)) \<and> shrinks {} h h'"
  using assms
proof (induction pairs arbitrary: h regs F)
  case Nil
  then show ?case by (auto intro: exI [of _ "{#}"])
next
  case (Cons pair pairs)
  obtain src_reg dst_reg where pair: "pair = (src_reg, dst_reg)" by force
  show ?case
  proof (cases "is_ref_reg src_reg")
    case True
    obtain h1 rs L where step: "retain_or_move_at tbl (is_move_reg src_reg) h (ref_bank regs)
          (ref_index regs src_reg) (ref_index regs dst_reg) = Some (h1, rs)" "length rs = length (ref_bank regs)"
        "heap_ok tbl h1 (mset rs + (L + F))" "shrinks {} h h1"
      using retain_or_move_at_ok [OF Cons.prems(2) ref_index_bound ref_index_bound] Cons.prems(1) by metis
    have "regs_wf (regs\<lparr>ref_bank := rs\<rparr>)" "heap_ok tbl h1 (mset (ref_bank (regs\<lparr>ref_bank := rs\<rparr>)) + (L + F))"
      using step Cons.prems by simp_all
    from Cons.IH [OF this] obtain h' regs' L' where
      "iree_vm_bytecode_dispatch_remap_branch_registers tbl h1 (regs\<lparr>ref_bank := rs\<rparr>) pairs = Some (h', regs')"
      "regs_wf regs'" "length (ref_bank regs') = length rs" "heap_ok tbl h' (mset (ref_bank regs') + (L' + (L + F)))" "shrinks {} h1 h'"
      by auto
    then show ?thesis
      using True pair step by (auto intro!: exI [of _ "L' + L"] shrinks_trans [of _ h h1] simp: add.assoc)
  next
    case False
    define regs1 where "regs1 = regs\<lparr>i32_bank := (i32_bank regs)[i32_index regs dst_reg := i32_bank regs ! i32_index regs src_reg]\<rparr>"
    have "regs_wf regs1" "heap_ok tbl h (mset (ref_bank regs1) + F)"
      using Cons.prems by (simp_all add: regs1_def)
    from Cons.IH [OF this] obtain h' regs' L' where
      "iree_vm_bytecode_dispatch_remap_branch_registers tbl h regs1 pairs = Some (h', regs')"
      "regs_wf regs'" "length (ref_bank regs') = length (ref_bank regs)" "heap_ok tbl h' (mset (ref_bank regs') + (L' + F))" "shrinks {} h h'"
      by (auto simp: regs1_def)
    then show ?thesis
      using False pair Cons.prems(1) by (auto simp: load_store_simps regs1_def)
  qed
qed

lemma discard_registers_ok:
  assumes "regs_wf regs" "heap_ok tbl h (mset (ref_bank regs) + F)"
  shows "\<exists>h' regs'. iree_vm_bytecode_dispatch_discard_registers tbl h regs reg_list = Some (h', regs')
    \<and> regs_wf regs' \<and> length (ref_bank regs') = length (ref_bank regs)
    \<and> heap_ok tbl h' (mset (ref_bank regs') + F) \<and> shrinks {} h h'"
  using assms
proof (induction reg_list arbitrary: h regs)
  case Nil
  then show ?case by simp
next
  case (Cons reg reg_list)
  show ?case
  proof (cases "is_ref_reg reg \<and> is_move_reg reg")
    case True
    obtain h1 rs where step: "release_at tbl h (ref_bank regs) (ref_index regs reg) = Some (h1, rs)"
        "length rs = length (ref_bank regs)" "heap_ok tbl h1 (mset rs + F)" "shrinks {} h h1"
      using release_at_ok [OF Cons.prems(2) ref_index_bound [OF Cons.prems(1)], of reg] by force
    have "regs_wf (regs\<lparr>ref_bank := rs\<rparr>)" "heap_ok tbl h1 (mset (ref_bank (regs\<lparr>ref_bank := rs\<rparr>)) + F)"
      using step Cons.prems by simp_all
    from Cons.IH [OF this] show ?thesis
      using True step by (auto intro: shrinks_trans [of _ h h1])
  next
    case False
    with Cons.IH [OF Cons.prems] show ?thesis by auto
  qed
qed

end
