(* ===== verification/VM_Stack.thy ===== *)
theory VM_Stack
  imports VM_Registers VM_List
begin

text \<open>
  The VM stack (\<^verbatim>\<open>iree/vm/stack.c\<close>) and the frames of bytecode functions (the stack management part of
  \<^verbatim>\<open>iree/vm/bytecode_dispatch.c\<close>).

  The frames are a list with the top frame first; \<open>frame_storage_size\<close> counts the bytes they take.
  A module is named by a number, and its state by another. The stack's state resolver is a function
  from modules to a status and a state.
\<close>

section \<open>Frames\<close>

definition IREE_VM_STACK_DEFAULT_SIZE :: u64 where "IREE_VM_STACK_DEFAULT_SIZE = 8 * 1024"
definition IREE_VM_STACK_MIN_SIZE :: u64 where "IREE_VM_STACK_MIN_SIZE = 1024"
definition IREE_VM_STACK_MAX_SIZE :: u64 where "IREE_VM_STACK_MAX_SIZE = 1024 * 1024"
definition IREE_VM_STACK_GROWTH_FACTOR :: u64 where "IREE_VM_STACK_GROWTH_FACTOR = 2"

text \<open>Sizes of the structures on a 64-bit machine.\<close>

definition sizeof_stack_frame_header :: u64 where "sizeof_stack_frame_header = 80"
definition sizeof_stack :: u64 where "sizeof_stack = 80"
definition sizeof_bytecode_frame_storage :: u64 where "sizeof_bytecode_frame_storage = 40"

datatype iree_vm_stack_frame_type =
    IREE_VM_STACK_FRAME_EXTERNAL
  | IREE_VM_STACK_FRAME_NATIVE
  | IREE_VM_STACK_FRAME_BYTECODE

record iree_vm_function =
  fn_module :: "nat option"
  fn_linkage :: u16
  fn_ordinal :: u16

text \<open>
  The storage of a bytecode frame: the register list the callee's results go to and the registers.
  Other frames have no storage and no cleanup function.
\<close>

record iree_vm_bytecode_frame =
  return_registers :: "u16 list option"
  registers :: iree_vm_registers

record iree_vm_stack_frame =
  frame_size :: u64
  frame_type :: iree_vm_stack_frame_type
  frame_function :: iree_vm_function
  frame_depth :: int
  frame_state :: "nat option"
  frame_pc :: int
  frame_storage :: "iree_vm_bytecode_frame option"

record iree_vm_stack =
  frames :: "iree_vm_stack_frame list"
  frame_storage_capacity :: u64
  frame_storage_size :: u64
  owns_frame_storage :: bool

type_synonym state_resolver = "nat \<Rightarrow> iree_status \<times> nat"

definition iree_vm_stack_initialize :: "u64 \<Rightarrow> iree_status \<times> iree_vm_stack option" where
  "iree_vm_stack_initialize data_length =
    (if data_length < IREE_VM_STACK_MIN_SIZE then (IREE_STATUS_INVALID_ARGUMENT, None)
     else let storage_offset = iree_host_align sizeof_stack 16
          in (IREE_STATUS_OK, Some
            \<lparr>frames = [], frame_storage_capacity = data_length - storage_offset,
             frame_storage_size = 0, owns_frame_storage = False\<rparr>))"

definition iree_vm_stack_allocate :: "iree_allocator \<Rightarrow> iree_status \<times> iree_vm_stack option" where
  "iree_vm_stack_allocate alloc =
    (let storage_size = IREE_VM_STACK_DEFAULT_SIZE;
         st = alloc storage_size
     in if st = IREE_STATUS_OK then iree_vm_stack_initialize storage_size else (st, None))"

definition iree_vm_stack_current_frame :: "iree_vm_stack \<Rightarrow> iree_vm_stack_frame option" where
  "iree_vm_stack_current_frame s = (case frames s of [] \<Rightarrow> None | f # _ \<Rightarrow> Some f)"

definition iree_vm_stack_parent_frame :: "iree_vm_stack \<Rightarrow> iree_vm_stack_frame option" where
  "iree_vm_stack_parent_frame s = (case frames s of _ # f # _ \<Rightarrow> Some f | _ \<Rightarrow> None)"

definition iree_vm_stack_query_module_state :: "state_resolver \<Rightarrow> nat \<Rightarrow> iree_status \<times> nat" where
  "iree_vm_stack_query_module_state query_module_state m = query_module_state m"

section \<open>Growth\<close>

text \<open>
  The doubling loop. The multiplication wraps; a capacity that has become 0 loops forever, so the
  loop may not return.
\<close>

partial_function (option) grow_capacity :: "u64 \<Rightarrow> u64 \<Rightarrow> u64 option" where
  "grow_capacity new_capacity minimum_capacity =
    (let new_capacity = new_capacity * IREE_VM_STACK_GROWTH_FACTOR
     in if new_capacity < minimum_capacity then grow_capacity new_capacity minimum_capacity else Some new_capacity)"

declare grow_capacity.simps [code]

text \<open>
  The frames are moved as they are: their pointers are rebased by the distance of the two blocks.
  No allocator means that the storage cannot grow.
\<close>

definition iree_vm_stack_grow ::
  "iree_allocator option \<Rightarrow> iree_vm_stack \<Rightarrow> u64 \<Rightarrow> (iree_status \<times> iree_vm_stack) option" where
  "iree_vm_stack_grow allocator s minimum_capacity = (case allocator of
      None \<Rightarrow> Some (IREE_STATUS_RESOURCE_EXHAUSTED, s)
    | Some alloc \<Rightarrow> do {
        new_capacity \<leftarrow> grow_capacity (frame_storage_capacity s) minimum_capacity;
        if new_capacity > IREE_VM_STACK_MAX_SIZE then Some (IREE_STATUS_RESOURCE_EXHAUSTED, s)
        else let st = alloc new_capacity
             in if st \<noteq> IREE_STATUS_OK then Some (st, s)
                else Some (IREE_STATUS_OK, s\<lparr>frame_storage_capacity := new_capacity, owns_frame_storage := True\<rparr>)
      })"

section \<open>Enter and leave\<close>

text \<open>The module state of the callee: the caller's if the module is the same.\<close>

definition callee_module_state ::
  "state_resolver \<Rightarrow> iree_vm_stack \<Rightarrow> iree_vm_function \<Rightarrow> iree_status \<times> nat option" where
  "callee_module_state query_module_state s f =
    (case iree_vm_stack_current_frame s of
       Some caller \<Rightarrow>
         if fn_module (frame_function caller) = fn_module f then (IREE_STATUS_OK, frame_state caller)
         else (case fn_module f of
             None \<Rightarrow> (IREE_STATUS_OK, None)
           | Some m \<Rightarrow> (let (st, ms) = query_module_state m in (st, Some ms)))
     | None \<Rightarrow> (case fn_module f of
             None \<Rightarrow> (IREE_STATUS_OK, None)
           | Some m \<Rightarrow> (let (st, ms) = query_module_state m in (st, Some ms))))"

definition iree_vm_stack_function_enter ::
  "iree_allocator option \<Rightarrow> state_resolver \<Rightarrow> iree_vm_stack \<Rightarrow> iree_vm_function \<Rightarrow> iree_vm_stack_frame_type \<Rightarrow> u64 \<Rightarrow>
   iree_vm_bytecode_frame option \<Rightarrow> (iree_status \<times> iree_vm_stack) option" where
  "iree_vm_stack_function_enter allocator query_module_state s f type data_size fstorage =
    (let new_top = frame_storage_size s + sizeof_stack_frame_header + data_size
     in do {
       (st, s) \<leftarrow> (if new_top > frame_storage_capacity s then iree_vm_stack_grow allocator s new_top
                   else Some (IREE_STATUS_OK, s));
       if st \<noteq> IREE_STATUS_OK then Some (st, s)
       else let (st, module_state) = callee_module_state query_module_state s f
            in if st \<noteq> IREE_STATUS_OK then Some (st, s)
               else let frame =
                     \<lparr>frame_size = sizeof_stack_frame_header + data_size, frame_type = type, frame_function = f,
                      frame_depth = (case iree_vm_stack_current_frame s of Some c \<Rightarrow> frame_depth c + 1 | None \<Rightarrow> 0),
                      frame_state = module_state, frame_pc = 0, frame_storage = fstorage\<rparr>
                    in Some (IREE_STATUS_OK, s\<lparr>frames := frame # frames s, frame_storage_size := new_top\<rparr>)
     })"

text \<open>Releases the references of the frame in the order of the registers.\<close>

fun cleanup_refs :: "type_table \<Rightarrow> vm_heap \<Rightarrow> iree_vm_ref list \<Rightarrow> vm_heap option" where
  "cleanup_refs tbl h [] = Some h"
| "cleanup_refs tbl h (r # rs) =
    (if ref_ptr r \<noteq> None
     then do { (h1, _) \<leftarrow> iree_vm_ref_release tbl h r; cleanup_refs tbl h1 rs }
     else cleanup_refs tbl h rs)"

definition iree_vm_bytecode_stack_frame_cleanup ::
  "type_table \<Rightarrow> vm_heap \<Rightarrow> iree_vm_stack_frame \<Rightarrow> vm_heap option" where
  "iree_vm_bytecode_stack_frame_cleanup tbl h f = (case frame_storage f of
      None \<Rightarrow> Some h
    | Some b \<Rightarrow>
        let regs = registers b; n = Suc (unat (ref_mask regs))
        in if n \<le> length (ref_bank regs) then cleanup_refs tbl h (take n (ref_bank regs)) else None)"

definition iree_vm_stack_function_leave ::
  "type_table \<Rightarrow> vm_heap \<Rightarrow> iree_vm_stack \<Rightarrow> (vm_heap \<times> iree_status \<times> iree_vm_stack) option" where
  "iree_vm_stack_function_leave tbl h s = (case frames s of
      [] \<Rightarrow> Some (h, IREE_STATUS_FAILED_PRECONDITION, s)
    | f # fs \<Rightarrow> do {
        h1 \<leftarrow> iree_vm_bytecode_stack_frame_cleanup tbl h f;
        Some (h1, IREE_STATUS_OK, s\<lparr>frames := fs, frame_storage_size := frame_storage_size s - frame_size f\<rparr>)
      })"

text \<open>Leaves every frame; the storage of the stack is then freed.\<close>

fun leave_all :: "type_table \<Rightarrow> vm_heap \<Rightarrow> iree_vm_stack_frame list \<Rightarrow> vm_heap option" where
  "leave_all tbl h [] = Some h"
| "leave_all tbl h (f # fs) = do { h1 \<leftarrow> iree_vm_bytecode_stack_frame_cleanup tbl h f; leave_all tbl h1 fs }"

definition iree_vm_stack_deinitialize :: "type_table \<Rightarrow> vm_heap \<Rightarrow> iree_vm_stack \<Rightarrow> vm_heap option" where
  "iree_vm_stack_deinitialize tbl h s = leave_all tbl h (frames s)"

section \<open>Bytecode frames\<close>

record iree_vm_FunctionDescriptor =
  bytecode_offset :: u32
  bytecode_length :: u32
  i32_register_count :: u16
  ref_register_count :: u16

text \<open>
  The counts are signed 16-bit integers; a count below 1 is 1. Registers are cleared by the memset of
  the new frame.
\<close>

definition register_count :: "u16 \<Rightarrow> u32" where
  "register_count n = iree_math_round_up_to_pow2_u32 (if sint n > 1 then scast n else 1)"

definition bytecode_frame_size :: "u32 \<Rightarrow> u32 \<Rightarrow> u64" where
  "bytecode_frame_size i32_count ref_count =
    (let header_size = iree_host_align sizeof_bytecode_frame_storage 16;
         i32_register_size = iree_host_align (ucast i32_count * 4) 16;
         ref_register_size = iree_host_align (ucast ref_count * of_nat sizeof_ref) 16
     in header_size + i32_register_size + ref_register_size)"

definition iree_vm_bytecode_get_register_storage :: "u32 \<Rightarrow> u32 \<Rightarrow> iree_vm_registers" where
  "iree_vm_bytecode_get_register_storage i32_count ref_count =
    \<lparr>i32_mask = (if i32_count \<noteq> 0 then ucast (i32_count - 1) else 0),
     i32_bank = replicate (unat (iree_host_align (ucast i32_count * 4) 16 :: u64) div 4) 0,
     ref_mask = (if ref_count \<noteq> 0 then ucast (ref_count - 1) else 0),
     ref_bank = replicate (unat (iree_host_align (ucast ref_count * of_nat sizeof_ref) 16 :: u64) div sizeof_ref) null_ref\<rparr>"

definition iree_vm_bytecode_function_enter ::
  "iree_allocator option \<Rightarrow> state_resolver \<Rightarrow> iree_vm_FunctionDescriptor list \<Rightarrow> iree_vm_stack \<Rightarrow> iree_vm_function \<Rightarrow>
   (iree_status \<times> iree_vm_stack) option" where
  "iree_vm_bytecode_function_enter allocator query_module_state function_descriptor_table s f =
    (if unat (fn_ordinal f) \<ge> length function_descriptor_table then Some (IREE_STATUS_INVALID_ARGUMENT, s)
     else let target_descriptor = function_descriptor_table ! unat (fn_ordinal f);
              i32_count = register_count (i32_register_count target_descriptor);
              ref_count = register_count (ref_register_count target_descriptor)
          in if i32_count > IREE_I32_REGISTER_MASK \<or> ref_count > IREE_REF_REGISTER_MASK
             then Some (IREE_STATUS_RESOURCE_EXHAUSTED, s)
             else iree_vm_stack_function_enter allocator query_module_state s f IREE_VM_STACK_FRAME_BYTECODE
               (bytecode_frame_size i32_count ref_count)
               (Some \<lparr>return_registers = None,
                      registers = iree_vm_bytecode_get_register_storage i32_count ref_count\<rparr>))"

section \<open>Growth of the storage\<close>

lemma unat_double: "2 * unat (c :: u64) < 2 ^ 64 \<Longrightarrow> unat (c * IREE_VM_STACK_GROWTH_FACTOR) = 2 * unat c"
  by (simp add: IREE_VM_STACK_GROWTH_FACTOR_def unat_word_ariths)

text \<open>
  The doubling loop returns for every non-zero capacity and every requirement up to 2^62 bytes. The
  result is enough, and at most twice the larger of the two.
\<close>

lemma grow_capacity_ok:
  assumes "0 < unat c" "unat c \<le> 2 ^ 62" "unat m \<le> 2 ^ 62"
  shows "\<exists>n. grow_capacity c m = Some n \<and> unat m \<le> unat n \<and> 2 * unat c \<le> unat n \<and> unat n \<le> 2 * max (unat c) (unat m)"
  using assms
proof (induction "unat m - unat c" arbitrary: c rule: less_induct)
  case less
  have d: "unat (c * IREE_VM_STACK_GROWTH_FACTOR) = 2 * unat c"
    using less.prems by (intro unat_double) simp
  show ?case
  proof (cases "2 * unat c < unat m")
    case True
    let ?c = "c * IREE_VM_STACK_GROWTH_FACTOR"
    have "\<exists>n. grow_capacity ?c m = Some n \<and> unat m \<le> unat n \<and> 2 * unat ?c \<le> unat n \<and> unat n \<le> 2 * max (unat ?c) (unat m)"
      using True less.prems by (intro less.hyps) (simp_all add: d)
    then obtain n where "grow_capacity ?c m = Some n" "unat m \<le> unat n" "2 * unat ?c \<le> unat n" "unat n \<le> 2 * max (unat ?c) (unat m)"
      by blast
    moreover have "grow_capacity c m = grow_capacity ?c m"
      using True d by (subst grow_capacity.simps) (simp add: word_less_nat_alt)
    ultimately show ?thesis using True d by auto
  next
    case False
    then have "grow_capacity c m = Some (c * IREE_VM_STACK_GROWTH_FACTOR)"
      using d by (subst grow_capacity.simps) (simp add: word_less_nat_alt)
    with False d show ?thesis by auto
  qed
qed

section \<open>Well-formed stacks\<close>

text \<open>
  The frames are numbered from 0 at the bottom, the storage size is the sum of the frame sizes and
  within the capacity, and every bytecode frame has a register file.
\<close>

definition frame_wf :: "iree_vm_stack_frame \<Rightarrow> bool" where
  "frame_wf f \<longleftrightarrow> (\<forall>b. frame_storage f = Some b \<longrightarrow> regs_wf (registers b))"

definition frame_refs :: "iree_vm_stack_frame \<Rightarrow> iree_vm_ref list" where
  "frame_refs f = (case frame_storage f of None \<Rightarrow> [] | Some b \<Rightarrow> ref_bank (registers b))"

definition stack_wf :: "iree_vm_stack \<Rightarrow> bool" where
  "stack_wf s \<longleftrightarrow>
    (\<forall>i < length (frames s). frame_depth (frames s ! i) = int (length (frames s) - 1 - i)) \<and>
    unat (frame_storage_size s) = (\<Sum>f \<leftarrow> frames s. unat (frame_size f)) \<and>
    frame_storage_size s \<le> frame_storage_capacity s \<and>
    0 < unat (frame_storage_capacity s) \<and> unat (frame_storage_capacity s) \<le> 2 ^ 61 \<and>
    (\<forall>f \<in> set (frames s). frame_wf f)"

definition stack_refs :: "iree_vm_stack \<Rightarrow> iree_vm_ref list" where
  "stack_refs s = concat (map frame_refs (frames s))"

lemma uint_scast_pos: "0 \<le> sint (n :: u16) \<Longrightarrow> uint (scast n :: u32) = sint n"
  by transfer (simp add: take_bit_int_eq_self_iff order_less_trans [OF signed_take_bit_int_less_exp])

lemma register_count_pow2:
  assumes "register_count n \<le> IREE_I32_REGISTER_MASK"
  shows "\<exists>k < 15. register_count n = 2 ^ k"
proof -
  define m where "m = (if sint n > 1 then scast n else 1 :: u32)"
  have eq: "register_count n = 2 ^ bit_width (m - 1)"
    by (simp add: register_count_def m_def round_up_u32_eq)
  have "0 < unat m \<and> unat m \<le> 2 ^ 15"
  proof (cases "sint n > 1")
    case True
    have "sint n < 2 ^ 15" using sint_lt [of n] by simp
    with True have "uint (scast n :: u32) = sint n"
      by (simp add: uint_scast_pos)
    with True \<open>sint n < 2 ^ 15\<close> show ?thesis by (simp add: m_def unat_eq_nat_uint)
  qed (simp add: m_def)
  then have "unat (m - 1) < 2 ^ 15"
    by (subst unat_minus_one) (auto simp: unat_gt_0)
  then have k: "bit_width (m - 1) \<le> 15" by (simp add: bit_width_le_iff)
  have "bit_width (m - 1) \<noteq> 15"
    using assms by (auto simp: eq IREE_I32_REGISTER_MASK_def word_le_nat_alt)
  with k eq show ?thesis by (intro exI [of _ "bit_width (m - 1)"]) simp
qed

lemma stack_initialize_wf:
  assumes "iree_vm_stack_initialize n = (IREE_STATUS_OK, Some s)" "unat n \<le> 2 ^ 61"
  shows "stack_wf s \<and> frames s = [] \<and> unat (frame_storage_capacity s) = unat n - 80"
proof -
  have a: "iree_host_align sizeof_stack 16 = 80"
    by (simp add: iree_host_align_def sizeof_stack_def)
  have "unat n \<ge> 1024"
    using assms(1) by (auto simp: iree_vm_stack_initialize_def IREE_VM_STACK_MIN_SIZE_def word_less_nat_alt split: if_splits)
  then have "unat (n - 80) = unat n - 80"
    by (simp add: unat_sub word_le_nat_alt)
  with assms a \<open>unat n \<ge> 1024\<close> show ?thesis
    by (auto simp: iree_vm_stack_initialize_def stack_wf_def split: if_splits)
qed

lemma stack_grow_ok:
  assumes "stack_wf s" "unat m \<le> 2 ^ 62"
  shows "\<exists>st s'. iree_vm_stack_grow allocator s m = Some (st, s') \<and> stack_wf s' \<and> frames s' = frames s
    \<and> frame_storage_size s' = frame_storage_size s \<and> frame_storage_capacity s \<le> frame_storage_capacity s'
    \<and> (st = IREE_STATUS_OK \<longrightarrow> m \<le> frame_storage_capacity s' \<and> frame_storage_capacity s' \<le> IREE_VM_STACK_MAX_SIZE)"
proof (cases allocator)
  case None
  then show ?thesis using assms by (simp add: iree_vm_stack_grow_def)
next
  case (Some alloc)
  obtain n where n: "grow_capacity (frame_storage_capacity s) m = Some n" "unat m \<le> unat n"
      "2 * unat (frame_storage_capacity s) \<le> unat n"
    using grow_capacity_ok [of "frame_storage_capacity s" m] assms by (auto simp: stack_wf_def)
  have le: "frame_storage_capacity s \<le> n" using n by (simp add: word_le_nat_alt)
  have wf: "stack_wf (s\<lparr>frame_storage_capacity := n, owns_frame_storage := True\<rparr>)" if "n \<le> IREE_VM_STACK_MAX_SIZE"
    using assms n le that order_trans [OF _ le]
    by (auto simp: stack_wf_def IREE_VM_STACK_MAX_SIZE_def word_le_nat_alt)
  show ?thesis
    using assms(1) n wf le
    by (auto simp: Some iree_vm_stack_grow_def Let_def word_le_nat_alt word_less_nat_alt not_less)
qed

lemma register_storage_wf:
  assumes "i32_count = 2 ^ k" "k < 15" "ref_count = 2 ^ m" "m < 14"
  shows "regs_wf (iree_vm_bytecode_get_register_storage i32_count ref_count)"
    "ref_bank (iree_vm_bytecode_get_register_storage i32_count ref_count) = replicate (2 ^ m) null_ref"
    "unat (bytecode_frame_size i32_count ref_count) \<le> 2 ^ 20"
proof -
  have u: "unat (ucast (2 ^ j :: u32) * c :: u64) = 2 ^ j * unat c" if "j < 15" "unat c \<le> 16" for j c
  proof -
    have le: "(2 :: nat) ^ j \<le> 2 ^ 14" using that(1) by (intro power_increasing) auto
    have "unat (ucast (2 ^ j :: u32) :: u64) = 2 ^ j"
      using that le by (simp add: unat_ucast unat_power_of_two)
    with le show ?thesis
      using that(2) mult_le_mono [of "2 ^ j" "2 ^ 14" "unat c" 16] by (simp add: unat_word_ariths)
  qed
  have al: "unat (iree_host_align (ucast (2 ^ j :: u32) * c) 16) = (2 ^ j * unat c + 15) div 16 * 16"
    if "j < 15" "unat c \<le> 16" for j c
  proof -
    have "(2 :: nat) ^ j \<le> 2 ^ 14" using that(1) by (intro power_increasing) auto
    then have "2 ^ j * unat c \<le> 2 ^ 14 * 16" using that(2) by (intro mult_le_mono) auto
    then show ?thesis
      using unat_iree_host_align [of 4 "ucast (2 ^ j :: u32) * c"] u [OF that] by simp
  qed
  have mk: "ucast (2 ^ j - 1 :: u32) = (mask j :: u16)" if "j < 15" for j
  proof -
    have "(2 ^ j - 1 :: u32) = mask j" by (simp add: mask_eq_exp_minus_1)
    then show ?thesis using that by (auto intro!: bit_word_eqI simp: bit_simps)
  qed
  have nz: "(2 ^ j :: u32) \<noteq> 0" if "j < 15" for j
    using unat_power_of_two [of j, where 'a = 32] that by (auto simp flip: unat_eq_0)
  have i32: "(2 ^ j * 4 + 15) div 16 * 16 div 4 = max 4 ((2 :: nat) ^ j)" for j
  proof -
    consider "j = 0" | "j = 1" | i where "j = Suc (Suc i)" by (metis One_nat_def not0_implies_Suc)
    then show ?thesis by cases (simp_all add: max_def)
  qed
  have s16: "unat (of_nat sizeof_ref :: u64) = 16" by (simp add: sizeof_ref_def)
  have r: "(2 ^ m * 16 + 15) div 16 * 16 div sizeof_ref = (2 :: nat) ^ m"
    by (simp add: sizeof_ref_def)
  show "ref_bank (iree_vm_bytecode_get_register_storage i32_count ref_count) = replicate (2 ^ m) null_ref"
    using al [of m "of_nat sizeof_ref"] assms r s16 by (simp add: iree_vm_bytecode_get_register_storage_def)
  then show "regs_wf (iree_vm_bytecode_get_register_storage i32_count ref_count)"
    using al [of k 4] assms i32 [of k] mk nz
    by (auto simp: regs_wf_def iree_vm_bytecode_get_register_storage_def)
  have "(2 :: nat) ^ k \<le> 2 ^ 14" "(2 :: nat) ^ m \<le> 2 ^ 13" using assms by (intro power_increasing; simp)+
  then show "unat (bytecode_frame_size i32_count ref_count) \<le> 2 ^ 20"
    using al [of k 4] al [of m "of_nat sizeof_ref"] assms s16
    by (simp add: bytecode_frame_size_def sizeof_bytecode_frame_storage_def iree_host_align_def [of 40] unat_word_ariths)
qed

section \<open>Entering and leaving functions\<close>

lemma depth_push:
  assumes "\<forall>i < length fs. frame_depth (fs ! i) = int (length fs - 1 - i)"
    and "frame_depth f = (case fs of c # _ \<Rightarrow> frame_depth c + 1 | [] \<Rightarrow> 0)"
  shows "\<forall>i < length (f # fs). frame_depth ((f # fs) ! i) = int (length (f # fs) - 1 - i)"
proof (intro allI impI)
  fix i
  assume i: "i < length (f # fs)"
  show "frame_depth ((f # fs) ! i) = int (length (f # fs) - 1 - i)"
  proof (cases i)
    case 0
    then show ?thesis using assms by (cases fs) auto
  next
    case (Suc j)
    then show ?thesis using assms(1) i by simp
  qed
qed

definition entered ::
  "iree_vm_stack \<Rightarrow> iree_vm_stack_frame \<Rightarrow> iree_vm_stack \<Rightarrow> bool" where
  "entered s f s' \<longleftrightarrow> frames s' = f # frames s \<and> frame_storage_size s' = frame_storage_size s + frame_size f
    \<and> frame_depth f = int (length (frames s)) \<and> frame_pc f = 0"

lemma function_enter_ok:
  assumes wf: "stack_wf s" and size: "unat data_size \<le> 2 ^ 60"
    and regs: "\<forall>b. fstorage = Some b \<longrightarrow> regs_wf (registers b)"
  shows "\<exists>st s'. iree_vm_stack_function_enter allocator query_module_state s fn type data_size fstorage = Some (st, s')
    \<and> stack_wf s' \<and> (if st = IREE_STATUS_OK
        then \<exists>f. entered s f s' \<and> frame_storage f = fstorage \<and> frame_function f = fn \<and> frame_type f = type
        else frames s' = frames s \<and> frame_storage_size s' = frame_storage_size s)"
proof -
  define new_top where "new_top = frame_storage_size s + sizeof_stack_frame_header + data_size"
  have fs: "unat (frame_storage_size s) \<le> 2 ^ 61"
    using wf by (auto simp: stack_wf_def word_le_nat_alt)
  then have top: "unat new_top = unat (frame_storage_size s) + (80 + unat data_size)"
    using size by (simp add: new_top_def sizeof_stack_frame_header_def unat_word_ariths)
  have hs: "unat (sizeof_stack_frame_header + data_size) = 80 + unat data_size"
    using size by (simp add: sizeof_stack_frame_header_def unat_word_ariths)
  have "\<exists>st s1. (if new_top > frame_storage_capacity s then iree_vm_stack_grow allocator s new_top else Some (IREE_STATUS_OK, s))
      = Some (st, s1) \<and> stack_wf s1 \<and> frames s1 = frames s \<and> frame_storage_size s1 = frame_storage_size s
      \<and> (st = IREE_STATUS_OK \<longrightarrow> new_top \<le> frame_storage_capacity s1)"
  proof (cases "new_top > frame_storage_capacity s")
    case True
    then show ?thesis
      using stack_grow_ok [OF wf, of new_top allocator] top size fs by fastforce
  next
    case False
    then show ?thesis using wf by auto
  qed
  then obtain st s1 where s1: "(if new_top > frame_storage_capacity s then iree_vm_stack_grow allocator s new_top else Some (IREE_STATUS_OK, s))
      = Some (st, s1)" "stack_wf s1" "frames s1 = frames s" "frame_storage_size s1 = frame_storage_size s"
      "st = IREE_STATUS_OK \<longrightarrow> new_top \<le> frame_storage_capacity s1"
    by blast
  obtain st2 ms where ms: "callee_module_state query_module_state s1 fn = (st2, ms)" by force
  show ?thesis
  proof (cases "st = IREE_STATUS_OK \<and> st2 = IREE_STATUS_OK")
    case False
    then show ?thesis
      using s1 ms unfolding iree_vm_stack_function_enter_def new_top_def [symmetric]
      by (auto simp: Let_def)
  next
    case True
    define f where "f = \<lparr>frame_size = sizeof_stack_frame_header + data_size, frame_type = type, frame_function = fn,
        frame_depth = (case iree_vm_stack_current_frame s1 of Some c \<Rightarrow> frame_depth c + 1 | None \<Rightarrow> 0),
        frame_state = ms, frame_pc = 0, frame_storage = fstorage\<rparr>"
    define s' where "s' = s1\<lparr>frames := f # frames s1, frame_storage_size := new_top\<rparr>"
    have eq: "iree_vm_stack_function_enter allocator query_module_state s fn type data_size fstorage = Some (IREE_STATUS_OK, s')"
      using s1 ms True unfolding iree_vm_stack_function_enter_def new_top_def [symmetric]
      by (simp add: Let_def f_def s'_def)
    have depth: "frame_depth f = (case frames s1 of c # _ \<Rightarrow> frame_depth c + 1 | [] \<Rightarrow> 0)"
      by (auto simp: f_def iree_vm_stack_current_frame_def split: list.splits)
    have d: "\<forall>i < length (frames s'). frame_depth (frames s' ! i) = int (length (frames s') - 1 - i)"
      using depth_push [OF _ depth] s1(2) by (simp add: s'_def stack_wf_def)
    then have fd: "frame_depth f = int (length (frames s))"
      using s1(3) by (auto simp: s'_def)
    have "stack_wf s'"
      using s1 True top hs d regs unfolding stack_wf_def
      by (simp add: s'_def f_def frame_wf_def)
    moreover have "entered s f s'"
      using s1 fd by (simp add: entered_def s'_def f_def new_top_def add.assoc)
    ultimately show ?thesis
      using eq by (auto simp: f_def)
  qed
qed

lemma bytecode_function_enter_ok:
  assumes wf: "stack_wf s"
  shows "\<exists>st s'. iree_vm_bytecode_function_enter allocator query_module_state fdt s fn = Some (st, s')
    \<and> stack_wf s' \<and> (if st = IREE_STATUS_OK
        then unat (fn_ordinal fn) < length fdt \<and>
          (\<exists>f b. entered s f s' \<and> frame_storage f = Some b \<and> frame_function f = fn
            \<and> regs_wf (registers b) \<and> (\<forall>r \<in> set (ref_bank (registers b)). r = null_ref))
        else frames s' = frames s \<and> frame_storage_size s' = frame_storage_size s)"
proof -
  define d where "d = fdt ! unat (fn_ordinal fn)"
  define ic where "ic = register_count (i32_register_count d)"
  define rc where "rc = register_count (ref_register_count d)"
  consider "unat (fn_ordinal fn) \<ge> length fdt"
    | "unat (fn_ordinal fn) < length fdt" "ic > IREE_I32_REGISTER_MASK \<or> rc > IREE_REF_REGISTER_MASK"
    | "unat (fn_ordinal fn) < length fdt" "ic \<le> IREE_I32_REGISTER_MASK" "rc \<le> IREE_REF_REGISTER_MASK"
    by fastforce
  then show ?thesis
  proof cases
    case 3
    have "rc \<le> IREE_I32_REGISTER_MASK"
      using 3(3) order_trans [of rc IREE_REF_REGISTER_MASK]
      by (simp add: IREE_I32_REGISTER_MASK_def IREE_REF_REGISTER_MASK_def)
    then obtain k m where km: "k < 15" "ic = 2 ^ k" "m < 15" "rc = 2 ^ m"
      using register_count_pow2 3(2) unfolding ic_def rc_def by meson
    have "m \<noteq> 14" using 3(3) km by (auto simp: IREE_REF_REGISTER_MASK_def word_le_nat_alt)
    with km have m: "m < 14" by simp
    note st = register_storage_wf [OF km(2,1,4) m]
    define b where "b = \<lparr>return_registers = None, registers = iree_vm_bytecode_get_register_storage ic rc\<rparr>"
    have eq: "iree_vm_bytecode_function_enter allocator query_module_state fdt s fn
        = iree_vm_stack_function_enter allocator query_module_state s fn IREE_VM_STACK_FRAME_BYTECODE (bytecode_frame_size ic rc) (Some b)"
      using 3 by (simp add: iree_vm_bytecode_function_enter_def Let_def b_def not_less [symmetric] flip: ic_def rc_def d_def)
    have "unat (bytecode_frame_size ic rc) \<le> 2 ^ 60" using st(3) by simp
    moreover have b: "regs_wf (registers b)" "\<forall>r \<in> set (ref_bank (registers b)). r = null_ref"
      using st by (simp_all add: b_def)
    ultimately obtain st1 s' where
      r: "iree_vm_stack_function_enter allocator query_module_state s fn IREE_VM_STACK_FRAME_BYTECODE (bytecode_frame_size ic rc) (Some b) = Some (st1, s')"
        "stack_wf s'" "if st1 = IREE_STATUS_OK then \<exists>f. entered s f s' \<and> frame_storage f = Some b \<and> frame_function f = fn \<and> frame_type f = IREE_VM_STACK_FRAME_BYTECODE
        else frames s' = frames s \<and> frame_storage_size s' = frame_storage_size s"
      using function_enter_ok [OF wf, of "bytecode_frame_size ic rc" "Some b" allocator query_module_state fn IREE_VM_STACK_FRAME_BYTECODE]
      by auto
    show ?thesis
    proof (cases "st1 = IREE_STATUS_OK")
      case True
      with r(3) obtain f where "entered s f s'" "frame_storage f = Some b" "frame_function f = fn" by auto
      with True r b 3(1) show ?thesis unfolding eq by auto
    next
      case False
      with r show ?thesis unfolding eq by auto
    qed
  qed (use wf in \<open>auto simp: iree_vm_bytecode_function_enter_def Let_def simp flip: ic_def rc_def d_def\<close>)
qed

lemma cleanup_refs_ok:
  assumes "heap_ok tbl h (mset rs + F)"
  shows "\<exists>h'. cleanup_refs tbl h rs = Some h' \<and> heap_ok tbl h' F \<and> shrinks {} h h'"
  using assms
proof (induction rs arbitrary: h)
  case Nil
  then show ?case by simp
next
  case (Cons r rs)
  show ?case
  proof (cases "ref_ptr r")
    case None
    then show ?thesis using Cons by (simp add: heap_ok_null)
  next
    case (Some p)
    have "heap_ok tbl h (add_mset r (mset rs + F))" using Cons.prems by simp
    from release_ok [OF this] obtain h1 where
      h1: "iree_vm_ref_release tbl h r = Some (h1, released r)" "heap_ok tbl h1 (mset rs + F)" "shrinks {} h h1"
      by blast
    from Cons.IH [OF h1(2)] show ?thesis
      using h1 Some by (auto intro: shrinks_trans [of _ h h1])
  qed
qed

lemma frame_cleanup_ok:
  assumes "frame_wf f" "heap_ok tbl h (mset (frame_refs f) + F)"
  shows "\<exists>h'. iree_vm_bytecode_stack_frame_cleanup tbl h f = Some h' \<and> heap_ok tbl h' F \<and> shrinks {} h h'"
proof (cases "frame_storage f")
  case None
  then show ?thesis using assms by (simp add: iree_vm_bytecode_stack_frame_cleanup_def frame_refs_def)
next
  case (Some b)
  then have "regs_wf (registers b)" using assms by (simp add: frame_wf_def)
  then have len: "Suc (unat (ref_mask (registers b))) = length (ref_bank (registers b))"
    by (auto simp: regs_wf_def unat_mask_less)
  show ?thesis
    using cleanup_refs_ok [of tbl h "ref_bank (registers b)" F] assms(2) len Some
    by (simp add: iree_vm_bytecode_stack_frame_cleanup_def frame_refs_def Let_def)
qed

text \<open>
  Leaving a function releases every reference its frame holds, and undoes the entry on the frames and
  on the storage size.
\<close>

lemma function_leave_ok:
  assumes wf: "stack_wf s" and fs: "frames s = f # fs" and ok: "heap_ok tbl h (mset (stack_refs s) + F)"
  shows "\<exists>h' s'. iree_vm_stack_function_leave tbl h s = Some (h', IREE_STATUS_OK, s') \<and> stack_wf s'
    \<and> s' = s\<lparr>frames := fs, frame_storage_size := frame_storage_size s - frame_size f\<rparr>
    \<and> heap_ok tbl h' (mset (stack_refs s') + F) \<and> shrinks {} h h'"
proof -
  have "frame_wf f" using wf fs by (simp add: stack_wf_def)
  moreover have "heap_ok tbl h (mset (frame_refs f) + (mset (concat (map frame_refs fs)) + F))"
    using ok fs by (simp add: stack_refs_def add.assoc)
  ultimately obtain h' where h': "iree_vm_bytecode_stack_frame_cleanup tbl h f = Some h'"
      "heap_ok tbl h' (mset (concat (map frame_refs fs)) + F)" "shrinks {} h h'"
    using frame_cleanup_ok by blast
  define s' where "s' = s\<lparr>frames := fs, frame_storage_size := frame_storage_size s - frame_size f\<rparr>"
  have le: "frame_size f \<le> frame_storage_size s"
    using wf fs by (simp add: stack_wf_def word_le_nat_alt)
  then have "unat (frame_storage_size s - frame_size f) = unat (frame_storage_size s) - unat (frame_size f)"
    by (rule unat_sub)
  moreover have "frame_depth (fs ! i) = int (length fs - 1 - i)" if "i < length fs" for i
  proof -
    have "frame_depth (frames s ! Suc i) = int (length (frames s) - 1 - Suc i)"
      using wf that unfolding stack_wf_def fs by (metis Suc_less_eq length_Cons)
    then show ?thesis using fs by simp
  qed
  moreover have "frame_storage_size s - frame_size f \<le> frame_storage_capacity s"
    using wf le by (auto simp: stack_wf_def word_le_nat_alt unat_sub)
  ultimately have "stack_wf s'"
    using wf fs unfolding stack_wf_def by (simp add: s'_def)
  with h' fs show ?thesis
    by (simp add: iree_vm_stack_function_leave_def s'_def stack_refs_def)
qed

lemma leave_all_ok:
  assumes "\<forall>f \<in> set fs. frame_wf f" "heap_ok tbl h (mset (concat (map frame_refs fs)) + F)"
  shows "\<exists>h'. leave_all tbl h fs = Some h' \<and> heap_ok tbl h' F \<and> shrinks {} h h'"
  using assms
proof (induction fs arbitrary: h)
  case Nil
  then show ?case by simp
next
  case (Cons f fs)
  then have "heap_ok tbl h (mset (frame_refs f) + (mset (concat (map frame_refs fs)) + F))"
    by (simp add: add.assoc)
  with Cons.prems(1) obtain h1 where h1: "iree_vm_bytecode_stack_frame_cleanup tbl h f = Some h1"
      "heap_ok tbl h1 (mset (concat (map frame_refs fs)) + F)" "shrinks {} h h1"
    using frame_cleanup_ok [of f tbl h] by auto
  with Cons.IH [OF _ h1(2)] Cons.prems(1) show ?case
    by (auto intro: shrinks_trans [of _ h h1])
qed

end
