(* ===== verification/VM_Module.thy ===== *)
theory VM_Module
  imports VM_Stack
begin

text \<open>
  The calling convention of module functions (\<open>iree/vm/module.h\<close>, \<open>iree/vm/module.c\<close>) and the
  resolution of the imports of a bytecode module (\<open>iree/vm/bytecode_module.c\<close>).

  A calling convention string names the arguments and results of a function, one character per value,
  with a variadic span between \<open>C\<close> and \<open>D\<close>. The argument and result buffers of a call are the list of
  the values stored one after the other; reading a value of another type than the one stored there is
  undefined.
\<close>

section \<open>String views\<close>

text \<open>A string view is the list of its characters; the offset of the separator, if there is one.\<close>

definition iree_string_view_find_char :: "string \<Rightarrow> char \<Rightarrow> nat \<Rightarrow> nat option" where
  "iree_string_view_find_char value c pos =
    (if value = [] \<or> pos \<ge> length value then None
     else if c \<in> set (drop pos value) then Some (pos + length (takeWhile (\<lambda>d. d \<noteq> c) (drop pos value)))
     else None)"

definition iree_string_view_substr :: "string \<Rightarrow> nat \<Rightarrow> nat \<Rightarrow> string" where
  "iree_string_view_substr value pos n =
    (let pos = min pos (length value); n = min n (length value - pos) in take n (drop pos value))"

definition iree_string_view_split :: "string \<Rightarrow> char \<Rightarrow> nat option \<times> string \<times> string" where
  "iree_string_view_split value split_char =
    (if value = [] then (None, [], [])
     else if split_char \<notin> set value then (None, value, [])
     else let offset = length (takeWhile (\<lambda>d. d \<noteq> split_char) value)
          in (Some offset, take offset value, drop (offset + 1) value))"

section \<open>Calling conventions\<close>

definition IREE_VM_CCONV_TYPE_VOID :: char where "IREE_VM_CCONV_TYPE_VOID = CHR ''v''"
definition IREE_VM_CCONV_TYPE_I32 :: char where "IREE_VM_CCONV_TYPE_I32 = CHR ''i''"
definition IREE_VM_CCONV_TYPE_I64 :: char where "IREE_VM_CCONV_TYPE_I64 = CHR ''I''"
definition IREE_VM_CCONV_TYPE_F32 :: char where "IREE_VM_CCONV_TYPE_F32 = CHR ''f''"
definition IREE_VM_CCONV_TYPE_F64 :: char where "IREE_VM_CCONV_TYPE_F64 = CHR ''F''"
definition IREE_VM_CCONV_TYPE_REF :: char where "IREE_VM_CCONV_TYPE_REF = CHR ''r''"
definition IREE_VM_CCONV_TYPE_SPAN_START :: char where "IREE_VM_CCONV_TYPE_SPAN_START = CHR ''C''"
definition IREE_VM_CCONV_TYPE_SPAN_END :: char where "IREE_VM_CCONV_TYPE_SPAN_END = CHR ''D''"

lemmas cconv_types =
  IREE_VM_CCONV_TYPE_VOID_def IREE_VM_CCONV_TYPE_I32_def IREE_VM_CCONV_TYPE_I64_def IREE_VM_CCONV_TYPE_F32_def
  IREE_VM_CCONV_TYPE_F64_def IREE_VM_CCONV_TYPE_REF_def IREE_VM_CCONV_TYPE_SPAN_START_def IREE_VM_CCONV_TYPE_SPAN_END_def

text \<open>The cases the switches over a calling convention character have; \<open>None\<close> is the default case.\<close>

datatype cconv_class = CVoid | C32 | C64 | CRef

definition cconv_class :: "char \<Rightarrow> cconv_class option" where
  "cconv_class c =
    (if c = IREE_VM_CCONV_TYPE_VOID then Some CVoid
     else if c = IREE_VM_CCONV_TYPE_I32 \<or> c = IREE_VM_CCONV_TYPE_F32 then Some C32
     else if c = IREE_VM_CCONV_TYPE_I64 \<or> c = IREE_VM_CCONV_TYPE_F64 then Some C64
     else if c = IREE_VM_CCONV_TYPE_REF then Some CRef
     else None)"

text \<open>
  The characters of a span up to its end, and the characters after it: the loops over a span stop at
  the end marker or at the end of the string, and the outer loop steps over the marker.
\<close>

definition span_body :: "string \<Rightarrow> string" where
  "span_body cs = takeWhile (\<lambda>c. c \<noteq> IREE_VM_CCONV_TYPE_SPAN_END) cs"

definition after_span :: "string \<Rightarrow> string" where
  "after_span cs = drop 1 (dropWhile (\<lambda>c. c \<noteq> IREE_VM_CCONV_TYPE_SPAN_END) cs)"

lemma length_after_span [termination_simp]: "length (after_span cs) < Suc (length cs)"
  by (simp add: after_span_def length_dropWhile_le less_Suc_eq_le le_diff_conv le_SucI)

definition iree_vm_function_call_get_cconv_fragments :: "string \<Rightarrow> iree_status \<times> string \<times> string" where
  "iree_vm_function_call_get_cconv_fragments cconv =
    (if cconv = [] then (IREE_STATUS_OK, [], [])
     else if hd cconv \<noteq> CHR ''0'' then (IREE_STATUS_UNIMPLEMENTED, [], [])
     else let cconv_body = iree_string_view_substr cconv 1 (2 ^ 63 - 1);
              (offset, arguments, results) = iree_string_view_split cconv_body (CHR ''_'')
          in (IREE_STATUS_OK, if offset = None then cconv_body else arguments, results))"

fun count_span_values :: "string \<Rightarrow> nat \<Rightarrow> nat option" where
  "count_span_values [] n = Some n"
| "count_span_values (c # cs) n = (case cconv_class c of
      None \<Rightarrow> None
    | Some CVoid \<Rightarrow> count_span_values cs n
    | Some _ \<Rightarrow> count_span_values cs (n + 1))"

fun iree_vm_function_call_count_fragment_values :: "string \<Rightarrow> nat \<Rightarrow> iree_status \<times> nat" where
  "iree_vm_function_call_count_fragment_values [] n = (IREE_STATUS_OK, n)"
| "iree_vm_function_call_count_fragment_values (c # cs) n = (case cconv_class c of
      Some CVoid \<Rightarrow> iree_vm_function_call_count_fragment_values cs n
    | Some _ \<Rightarrow> iree_vm_function_call_count_fragment_values cs (n + 1)
    | None \<Rightarrow>
        if c = IREE_VM_CCONV_TYPE_SPAN_START
        then (case count_span_values (span_body cs) n of
            None \<Rightarrow> (IREE_STATUS_UNIMPLEMENTED, 0)
          | Some n \<Rightarrow> iree_vm_function_call_count_fragment_values (after_span cs) n)
        else (IREE_STATUS_UNIMPLEMENTED, 0))"

definition iree_vm_function_call_count_arguments_and_results :: "string \<Rightarrow> iree_status \<times> nat \<times> nat" where
  "iree_vm_function_call_count_arguments_and_results cconv =
    (let (st, arguments, results) = iree_vm_function_call_get_cconv_fragments cconv
     in if st \<noteq> IREE_STATUS_OK then (st, 0, 0)
        else let (st, argument_count) = iree_vm_function_call_count_fragment_values arguments 0
             in if st \<noteq> IREE_STATUS_OK then (st, 0, 0)
                else let (st, result_count) = iree_vm_function_call_count_fragment_values results 0
                     in (st, argument_count, if st = IREE_STATUS_OK then result_count else 0))"

definition iree_vm_function_call_is_variadic_cconv :: "string \<Rightarrow> bool" where
  "iree_vm_function_call_is_variadic_cconv cconv \<longleftrightarrow>
    iree_string_view_find_char cconv IREE_VM_CCONV_TYPE_SPAN_START 0 \<noteq> None"

definition class_size :: "cconv_class \<Rightarrow> u64" where
  "class_size k = (case k of CVoid \<Rightarrow> 0 | C32 \<Rightarrow> 4 | C64 \<Rightarrow> 8 | CRef \<Rightarrow> of_nat sizeof_ref)"

fun span_size_of :: "string \<Rightarrow> u64 \<Rightarrow> u64 option" where
  "span_size_of [] span_size = Some span_size"
| "span_size_of (c # cs) span_size = (case cconv_class c of
      None \<Rightarrow> None
    | Some k \<Rightarrow> span_size_of cs (span_size + class_size k))"

fun fragment_size_loop :: "string \<Rightarrow> u16 list option \<Rightarrow> nat \<Rightarrow> u64 \<Rightarrow> iree_status \<times> u64 option" where
  "fragment_size_loop [] segment_size_list seg_i required_size = (IREE_STATUS_OK, Some required_size)"
| "fragment_size_loop (c # cs) segment_size_list seg_i required_size = (case cconv_class c of
      Some k \<Rightarrow> fragment_size_loop cs segment_size_list (seg_i + 1) (required_size + class_size k)
    | None \<Rightarrow>
        if c = IREE_VM_CCONV_TYPE_SPAN_START
        then (case segment_size_list of
            None \<Rightarrow> (IREE_STATUS_INVALID_ARGUMENT, None)
          | Some segs \<Rightarrow>
              if seg_i \<ge> length segs then (IREE_STATUS_INVALID_ARGUMENT, None)
              else (case span_size_of (span_body cs) 0 of
                  None \<Rightarrow> (IREE_STATUS_UNIMPLEMENTED, None)
                | Some span_size \<Rightarrow>
                    fragment_size_loop (after_span cs) segment_size_list (seg_i + 1)
                      (required_size + 4 + span_size * ucast (segs ! seg_i))))
        else (IREE_STATUS_UNIMPLEMENTED, None))"

definition iree_vm_function_call_compute_cconv_fragment_size ::
  "string \<Rightarrow> u16 list option \<Rightarrow> iree_status \<times> u64 option" where
  "iree_vm_function_call_compute_cconv_fragment_size cconv_fragment segment_size_list =
    fragment_size_loop cconv_fragment segment_size_list 0 0"

section \<open>Call buffers\<close>

datatype abi_value = AbiI32 u32 | AbiI64 u64 | AbiRef iree_vm_ref

fun abi_size :: "abi_value \<Rightarrow> nat" where
  "abi_size (AbiI32 _) = 4"
| "abi_size (AbiI64 _) = 8"
| "abi_size (AbiRef _) = sizeof_ref"

definition abi_bytes :: "abi_value list \<Rightarrow> nat" where
  "abi_bytes vs = sum_list (map abi_size vs)"

fun abi_ref :: "abi_value \<Rightarrow> iree_vm_ref list" where
  "abi_ref (AbiRef r) = [r]"
| "abi_ref _ = []"

definition abi_refs :: "abi_value list \<Rightarrow> iree_vm_ref list" where
  "abi_refs vs = concat (map abi_ref vs)"

text \<open>
  The loop of \<open>iree_vm_function_call_release\<close> over the calling convention. \<open>p\<close> walks the buffer that
  \<open>in_results\<close> selects; a span has no case.
\<close>

fun call_release_loop ::
  "type_table \<Rightarrow> vm_heap \<Rightarrow> abi_value list \<Rightarrow> abi_value list \<Rightarrow> bool \<Rightarrow> nat \<Rightarrow> string \<Rightarrow>
   (vm_heap \<times> abi_value list \<times> abi_value list) option" where
  "call_release_loop tbl h arguments results in_results p [] = Some (h, arguments, results)"
| "call_release_loop tbl h arguments results in_results p (c # cs) =
    (if c = CHR ''_'' then call_release_loop tbl h arguments results True 0 cs
     else let buf = (if in_results then results else arguments)
       in case cconv_class c of
        None \<Rightarrow> call_release_loop tbl h arguments results in_results p cs
      | Some CVoid \<Rightarrow> call_release_loop tbl h arguments results in_results p cs
      | Some k \<Rightarrow>
         if p < length buf
         then (case (k, buf ! p) of
            (C32, AbiI32 _) \<Rightarrow> call_release_loop tbl h arguments results in_results (p + 1) cs
          | (C64, AbiI64 _) \<Rightarrow> call_release_loop tbl h arguments results in_results (p + 1) cs
          | (CRef, AbiRef r) \<Rightarrow> do {
              (h1, r1) \<leftarrow> iree_vm_ref_release tbl h r;
              (if in_results
               then call_release_loop tbl h1 arguments (results[p := AbiRef r1]) in_results (p + 1) cs
               else call_release_loop tbl h1 (arguments[p := AbiRef r1]) results in_results (p + 1) cs)
            }
          | _ \<Rightarrow> None)
         else None)"

definition iree_vm_function_call_release ::
  "type_table \<Rightarrow> vm_heap \<Rightarrow> abi_value list \<Rightarrow> abi_value list \<Rightarrow> string \<Rightarrow>
   (vm_heap \<times> abi_value list \<times> abi_value list) option" where
  "iree_vm_function_call_release tbl h arguments results cconv =
    (if arguments = [] \<or> results = [] then Some (h, arguments, results)
     else if cconv = [] \<or> hd cconv \<noteq> CHR ''0'' then Some (h, arguments, results)
     else call_release_loop tbl h arguments results False 0 (tl cconv))"

section \<open>Imports\<close>

record iree_vm_bytecode_import =
  imp_function :: iree_vm_function
  imp_arguments :: string
  imp_results :: string
  imp_argument_buffer_size :: u16
  imp_result_buffer_size :: u16

definition iree_vm_bytecode_module_resolve_import ::
  "iree_vm_bytecode_import list \<Rightarrow> nat \<Rightarrow> iree_vm_function \<Rightarrow> string \<Rightarrow> iree_status \<times> iree_vm_bytecode_import list" where
  "iree_vm_bytecode_module_resolve_import import_table ordinal function calling_convention =
    (if ordinal \<ge> length import_table then (IREE_STATUS_INVALID_ARGUMENT, import_table)
     else let (st, arguments, results) = iree_vm_function_call_get_cconv_fragments calling_convention;
              import = (import_table ! ordinal)\<lparr>imp_function := function, imp_arguments := arguments, imp_results := results\<rparr>;
              table1 = import_table[ordinal := import]
          in if st \<noteq> IREE_STATUS_OK then (st, table1)
             else let (st, argument_buffer_size) =
                    (if \<not> iree_vm_function_call_is_variadic_cconv arguments
                     then iree_vm_function_call_compute_cconv_fragment_size arguments None
                     else (IREE_STATUS_OK, Some 0))
                  in case argument_buffer_size of
                    None \<Rightarrow> (st, table1)
                  | Some argument_size \<Rightarrow>
                      let (st, result_buffer_size) = iree_vm_function_call_compute_cconv_fragment_size results None
                      in case result_buffer_size of
                        None \<Rightarrow> (st, table1)
                      | Some result_size \<Rightarrow>
                          if argument_size > 16 * 1024 \<or> result_size > 16 * 1024
                          then (IREE_STATUS_INVALID_ARGUMENT, table1)
                          else (IREE_STATUS_OK, import_table[ordinal := import
                            \<lparr>imp_argument_buffer_size := ucast argument_size, imp_result_buffer_size := ucast result_size\<rparr>]))"

section \<open>Properties of calling conventions\<close>

text \<open>A calling convention string is split at its separator into the two fragments it was made of.\<close>

lemma substr_tail: "length cs < 2 ^ 63 \<Longrightarrow> iree_string_view_substr (c # cs) 1 9223372036854775807 = cs"
  by (simp add: iree_string_view_substr_def Let_def)

lemma split_at:
  assumes "c \<notin> set xs"
  shows "iree_string_view_split (xs @ c # ys) c = (Some (length xs), xs, ys)"
proof -
  have "takeWhile (\<lambda>d. d \<noteq> c) (xs @ c # ys) = xs"
    using assms by (subst takeWhile_append2) auto
  then show ?thesis by (simp add: iree_string_view_split_def)
qed

lemma split_none: "c \<notin> set xs \<Longrightarrow> fst (iree_string_view_split xs c) = None \<and> snd (snd (iree_string_view_split xs c)) = []"
  by (simp add: iree_string_view_split_def)

lemma fragments_two:
  assumes "CHR ''_'' \<notin> set arguments" "length arguments + length results < 2 ^ 62"
  shows "iree_vm_function_call_get_cconv_fragments (CHR ''0'' # arguments @ CHR ''_'' # results)
    = (IREE_STATUS_OK, arguments, results)"
  using assms by (simp add: iree_vm_function_call_get_cconv_fragments_def substr_tail split_at Let_def del: One_nat_def)

lemma fragments_one:
  assumes "CHR ''_'' \<notin> set arguments" "length arguments < 2 ^ 62"
  shows "iree_vm_function_call_get_cconv_fragments (CHR ''0'' # arguments) = (IREE_STATUS_OK, arguments, [])"
  using assms split_none [OF assms(1)]
  by (simp add: iree_vm_function_call_get_cconv_fragments_def substr_tail split_beta Let_def del: One_nat_def)

lemma not_variadic_iff: "iree_vm_function_call_is_variadic_cconv cs \<longleftrightarrow> IREE_VM_CCONV_TYPE_SPAN_START \<in> set cs"
  by (auto simp: iree_vm_function_call_is_variadic_cconv_def iree_string_view_find_char_def)

text \<open>
  A resolved import has the buffer sizes its calling convention asks for: neither is cut by the
  conversion to 16 bits.
\<close>

definition import_sized :: "iree_vm_bytecode_import \<Rightarrow> bool" where
  "import_sized import \<longleftrightarrow>
    (\<not> iree_vm_function_call_is_variadic_cconv (imp_arguments import) \<longrightarrow>
      iree_vm_function_call_compute_cconv_fragment_size (imp_arguments import) None
        = (IREE_STATUS_OK, Some (ucast (imp_argument_buffer_size import)))) \<and>
    iree_vm_function_call_compute_cconv_fragment_size (imp_results import) None
      = (IREE_STATUS_OK, Some (ucast (imp_result_buffer_size import)))"

lemma ucast_16_64: "x \<le> 16 * 1024 \<Longrightarrow> ucast (ucast (x :: u64) :: u16) = x"
proof -
  assume "x \<le> 16 * 1024"
  then have "unat x < 2 ^ 16" by (simp add: word_le_nat_alt)
  then show ?thesis
    by (intro word_unat_eq_iff [THEN iffD2]) (simp add: unat_ucast)
qed

lemma fragment_size_ok: "fragment_size_loop cs segs seg_i n = (st, m) \<Longrightarrow> st = IREE_STATUS_OK \<longleftrightarrow> m \<noteq> None"
  by (induction cs segs seg_i n rule: fragment_size_loop.induct)
    (auto split: option.splits if_splits)

lemma fragment_size_Some: "fragment_size_loop cs segs seg_i n = (st, Some m) \<Longrightarrow> st = IREE_STATUS_OK"
  using fragment_size_ok by blast

lemma resolve_import_sized:
  assumes "iree_vm_bytecode_module_resolve_import table ordinal f cconv = (IREE_STATUS_OK, table')"
  shows "ordinal < length table \<and> (\<forall>i. i \<noteq> ordinal \<longrightarrow> table' ! i = table ! i) \<and> length table' = length table
    \<and> imp_function (table' ! ordinal) = f \<and> import_sized (table' ! ordinal)
    \<and> iree_vm_function_call_get_cconv_fragments cconv
        = (IREE_STATUS_OK, imp_arguments (table' ! ordinal), imp_results (table' ! ordinal))"
  using assms
  by (auto simp: iree_vm_bytecode_module_resolve_import_def import_sized_def ucast_16_64 not_less
      iree_vm_function_call_compute_cconv_fragment_size_def Let_def
      split: if_splits prod.splits option.splits dest: fragment_size_ok fragment_size_Some)

lemma resolve_import_keeps_others:
  "snd (iree_vm_bytecode_module_resolve_import table ordinal f cconv) ! i = table ! i" if "i \<noteq> ordinal"
  using that by (auto simp: iree_vm_bytecode_module_resolve_import_def Let_def split: if_splits prod.splits option.splits)

section \<open>Release of call buffers\<close>

text \<open>The values of a buffer match a calling convention fragment without spans.\<close>

fun abi_class :: "abi_value \<Rightarrow> cconv_class" where
  "abi_class (AbiI32 _) = C32"
| "abi_class (AbiI64 _) = C64"
| "abi_class (AbiRef _) = CRef"

fun abi_typed :: "string \<Rightarrow> abi_value list \<Rightarrow> bool" where
  "abi_typed [] vs \<longleftrightarrow> vs = []"
| "abi_typed (c # cs) vs \<longleftrightarrow> (case cconv_class c of
      None \<Rightarrow> abi_typed cs vs
    | Some CVoid \<Rightarrow> abi_typed cs vs
    | Some k \<Rightarrow> (case vs of [] \<Rightarrow> False | v # vs \<Rightarrow> abi_class v = k \<and> abi_typed cs vs))"

lemma abi_refs_simps [simp]:
  "abi_refs [] = []" "abi_refs (v # vs) = abi_ref v @ abi_refs vs" "abi_refs (vs @ ws) = abi_refs vs @ abi_refs ws"
  by (simp_all add: abi_refs_def)

lemma abi_bytes_simps [simp]:
  "abi_bytes [] = 0" "abi_bytes (v # vs) = abi_size v + abi_bytes vs" "abi_bytes (vs @ ws) = abi_bytes vs + abi_bytes ws"
  by (simp_all add: abi_bytes_def)

fun released_value :: "abi_value \<Rightarrow> abi_value" where
  "released_value (AbiRef r) = AbiRef (released r)"
| "released_value v = v"

lemma class_underscore [simp]: "cconv_class (CHR ''_'') = None"
  by (simp add: cconv_class_def cconv_types)

lemma update_at_length [simp]: "(xs @ y # ys)[length xs := z] = xs @ z # ys"
  by (simp add: list_update_append)

lemma release_results:
  assumes "abi_typed cs vs" "CHR ''_'' \<notin> set cs" "heap_ok tbl h (mset (abi_refs vs) + F)"
  shows "\<exists>h'. call_release_loop tbl h arguments (ws @ vs) True (length ws) cs
      = Some (h', arguments, ws @ map released_value vs) \<and> heap_ok tbl h' F \<and> shrinks {} h h'"
  using assms
proof (induction cs arbitrary: vs ws h)
  case (Cons c cs)
  show ?case
  proof (cases "cconv_class c = None \<or> cconv_class c = Some CVoid")
    case True
    with Cons.prems Cons.IH [of vs h ws] show ?thesis by (auto split: option.splits)
  next
    case False
    then obtain v vs' k where vs: "vs = v # vs'" "cconv_class c = Some k" "k \<noteq> CVoid" "abi_class v = k" "abi_typed cs vs'"
      using Cons.prems(1) by (auto split: option.splits cconv_class.splits list.splits)
    have IH: "\<exists>h'. call_release_loop tbl h1 arguments ((ws @ [released_value v]) @ vs') True (length (ws @ [released_value v])) cs
        = Some (h', arguments, (ws @ [released_value v]) @ map released_value vs') \<and> heap_ok tbl h' F \<and> shrinks {} h1 h'"
      if "heap_ok tbl h1 (mset (abi_refs vs') + F)" for h1
      using Cons.IH [OF vs(5) _ that, of "ws @ [released_value v]"] Cons.prems(2) by simp
    show ?thesis
    proof (cases v)
      case (AbiRef r)
      then have "heap_ok tbl h (add_mset r (mset (abi_refs vs') + F))" using Cons.prems(3) vs by simp
      from release_ok [OF this] obtain h1 where h1: "iree_vm_ref_release tbl h r = Some (h1, released r)"
          "heap_ok tbl h1 (mset (abi_refs vs') + F)" "shrinks {} h h1" by blast
      from IH [OF h1(2)] show ?thesis
        using vs AbiRef h1 Cons.prems(2) by (auto simp: Let_def intro: shrinks_trans [of _ h h1])
    qed (use IH [of h] vs Cons.prems in \<open>auto simp: Let_def\<close>)
  qed
qed simp

text \<open>
  Releasing a call whose two buffers are not empty releases every reference of both, once.
\<close>

lemma release_arguments:
  assumes "abi_typed cs vs" "CHR ''_'' \<notin> set cs" "heap_ok tbl h (mset (abi_refs vs) + F)"
  shows "\<exists>h'. call_release_loop tbl h (ws @ vs) results False (length ws) (cs @ rest)
      = call_release_loop tbl h' (ws @ map released_value vs) results False (length ws + length vs) rest
    \<and> heap_ok tbl h' F \<and> shrinks {} h h'"
  using assms
proof (induction cs arbitrary: vs ws h)
  case (Cons c cs)
  show ?case
  proof (cases "cconv_class c = None \<or> cconv_class c = Some CVoid")
    case True
    with Cons.prems Cons.IH [of vs h ws] show ?thesis by (auto split: option.splits)
  next
    case False
    then obtain v vs' k where vs: "vs = v # vs'" "cconv_class c = Some k" "k \<noteq> CVoid" "abi_class v = k" "abi_typed cs vs'"
      using Cons.prems(1) by (auto split: option.splits cconv_class.splits list.splits)
    have IH: "\<exists>h'. call_release_loop tbl h1 ((ws @ [released_value v]) @ vs') results False (length (ws @ [released_value v])) (cs @ rest)
        = call_release_loop tbl h' ((ws @ [released_value v]) @ map released_value vs') results False
            (length (ws @ [released_value v]) + length vs') rest \<and> heap_ok tbl h' F \<and> shrinks {} h1 h'"
      if "heap_ok tbl h1 (mset (abi_refs vs') + F)" for h1
      using Cons.IH [OF vs(5) _ that, of "ws @ [released_value v]"] Cons.prems(2) by simp
    show ?thesis
    proof (cases v)
      case (AbiRef r)
      then have "heap_ok tbl h (add_mset r (mset (abi_refs vs') + F))" using Cons.prems(3) vs by simp
      from release_ok [OF this] obtain h1 where h1: "iree_vm_ref_release tbl h r = Some (h1, released r)"
          "heap_ok tbl h1 (mset (abi_refs vs') + F)" "shrinks {} h h1" by blast
      from IH [OF h1(2)] show ?thesis
        using vs AbiRef h1 Cons.prems(2) by (auto simp: Let_def intro: shrinks_trans [of _ h h1])
    qed (use IH [of h] vs Cons.prems in \<open>auto simp: Let_def\<close>)
  qed
qed auto

lemma call_release_ok:
  assumes "abi_typed as arguments" "abi_typed rs results" "CHR ''_'' \<notin> set as \<union> set rs"
    and "heap_ok tbl h (mset (abi_refs arguments) + (mset (abi_refs results) + F))"
    and "arguments \<noteq> []" "results \<noteq> []"
  shows "\<exists>h'. iree_vm_function_call_release tbl h arguments results (CHR ''0'' # as @ CHR ''_'' # rs)
      = Some (h', map released_value arguments, map released_value results) \<and> heap_ok tbl h' F \<and> shrinks {} h h'"
proof -
  obtain h1 where h1: "call_release_loop tbl h arguments results False 0 (as @ CHR ''_'' # rs)
      = call_release_loop tbl h1 (map released_value arguments) results False (length arguments) (CHR ''_'' # rs)"
    "heap_ok tbl h1 (mset (abi_refs results) + F)" "shrinks {} h h1"
    using release_arguments [OF assms(1) _ assms(4), of "[]" results "CHR ''_'' # rs"] assms(3) by auto
  from release_results [OF assms(2) _ h1(2), of "map released_value arguments" "[]"] assms(3) h1 assms(5,6)
  show ?thesis
    by (auto simp: iree_vm_function_call_release_def intro: shrinks_trans [of _ h h1])
qed

end
