(* ===== verification/VM_Ops.thy ===== *)
theory VM_Ops
  imports VM_Types
begin

text \<open>
  The arithmetic of the virtual machine (\<^verbatim>\<open>iree/vm/ops.h\<close>). An \<open>int32_t\<close> is a 32-bit word read as signed
  with \<open>sint\<close> where the C operator is signed. Signed addition, subtraction, multiplication and left
  shift wrap (two's complement); ISO C leaves their overflow open. Division by zero, the quotient of the least integer by
  minus one and shifts by amounts outside of the width are undefined (\<open>None\<close>).

  A \<open>float\<close> is its IEEE 754 bit pattern. Comparison, negation and absolute value are defined on the
  pattern; the arithmetic of the floating point unit and of the C math library is the parameter
  \<open>fp_env\<close>.
\<close>

section \<open>Globals and selection\<close>

definition vm_select_i32 :: "u32 \<Rightarrow> u32 \<Rightarrow> u32 \<Rightarrow> u32" where
  "vm_select_i32 condition true_value false_value = (if condition \<noteq> 0 then true_value else false_value)"

definition vm_select_i64 :: "u32 \<Rightarrow> u64 \<Rightarrow> u64 \<Rightarrow> u64" where
  "vm_select_i64 condition true_value false_value = (if condition \<noteq> 0 then true_value else false_value)"

definition vm_select_f32 :: "u32 \<Rightarrow> u32 \<Rightarrow> u32 \<Rightarrow> u32" where
  "vm_select_f32 condition true_value false_value = (if condition \<noteq> 0 then true_value else false_value)"

section \<open>Integer arithmetic\<close>

text \<open>C division truncates towards zero.\<close>

definition c_div :: "int \<Rightarrow> int \<Rightarrow> int" where
  "c_div a b = sgn a * sgn b * (\<bar>a\<bar> div \<bar>b\<bar>)"

definition c_rem :: "int \<Rightarrow> int \<Rightarrow> int" where
  "c_rem a b = a - c_div a b * b"

definition vm_add_i32 :: "u32 \<Rightarrow> u32 \<Rightarrow> u32" where "vm_add_i32 lhs rhs = lhs + rhs"
definition vm_sub_i32 :: "u32 \<Rightarrow> u32 \<Rightarrow> u32" where "vm_sub_i32 lhs rhs = lhs - rhs"
definition vm_mul_i32 :: "u32 \<Rightarrow> u32 \<Rightarrow> u32" where "vm_mul_i32 lhs rhs = lhs * rhs"

definition vm_div_i32s :: "u32 \<Rightarrow> u32 \<Rightarrow> u32 option" where
  "vm_div_i32s lhs rhs =
    (if rhs = 0 \<or> sint lhs = - (2 ^ 31) \<and> sint rhs = - 1 then None else Some (of_int (c_div (sint lhs) (sint rhs))))"

definition vm_div_i32u :: "u32 \<Rightarrow> u32 \<Rightarrow> u32 option" where
  "vm_div_i32u lhs rhs = (if rhs = 0 then None else Some (lhs div rhs))"

definition vm_rem_i32s :: "u32 \<Rightarrow> u32 \<Rightarrow> u32 option" where
  "vm_rem_i32s lhs rhs =
    (if rhs = 0 \<or> sint lhs = - (2 ^ 31) \<and> sint rhs = - 1 then None else Some (of_int (c_rem (sint lhs) (sint rhs))))"

definition vm_rem_i32u :: "u32 \<Rightarrow> u32 \<Rightarrow> u32 option" where
  "vm_rem_i32u lhs rhs = (if rhs = 0 then None else Some (lhs mod rhs))"

definition vm_not_i32 :: "u32 \<Rightarrow> u32" where "vm_not_i32 operand = NOT operand"
definition vm_and_i32 :: "u32 \<Rightarrow> u32 \<Rightarrow> u32" where "vm_and_i32 lhs rhs = lhs AND rhs"
definition vm_or_i32 :: "u32 \<Rightarrow> u32 \<Rightarrow> u32" where "vm_or_i32 lhs rhs = lhs OR rhs"
definition vm_xor_i32 :: "u32 \<Rightarrow> u32 \<Rightarrow> u32" where "vm_xor_i32 lhs rhs = lhs XOR rhs"

definition vm_add_i64 :: "u64 \<Rightarrow> u64 \<Rightarrow> u64" where "vm_add_i64 lhs rhs = lhs + rhs"
definition vm_sub_i64 :: "u64 \<Rightarrow> u64 \<Rightarrow> u64" where "vm_sub_i64 lhs rhs = lhs - rhs"
definition vm_mul_i64 :: "u64 \<Rightarrow> u64 \<Rightarrow> u64" where "vm_mul_i64 lhs rhs = lhs * rhs"

definition vm_div_i64s :: "u64 \<Rightarrow> u64 \<Rightarrow> u64 option" where
  "vm_div_i64s lhs rhs =
    (if rhs = 0 \<or> sint lhs = - (2 ^ 63) \<and> sint rhs = - 1 then None else Some (of_int (c_div (sint lhs) (sint rhs))))"

definition vm_div_i64u :: "u64 \<Rightarrow> u64 \<Rightarrow> u64 option" where
  "vm_div_i64u lhs rhs = (if rhs = 0 then None else Some (lhs div rhs))"

definition vm_rem_i64s :: "u64 \<Rightarrow> u64 \<Rightarrow> u64 option" where
  "vm_rem_i64s lhs rhs =
    (if rhs = 0 \<or> sint lhs = - (2 ^ 63) \<and> sint rhs = - 1 then None else Some (of_int (c_rem (sint lhs) (sint rhs))))"

definition vm_rem_i64u :: "u64 \<Rightarrow> u64 \<Rightarrow> u64 option" where
  "vm_rem_i64u lhs rhs = (if rhs = 0 then None else Some (lhs mod rhs))"

definition vm_not_i64 :: "u64 \<Rightarrow> u64" where "vm_not_i64 operand = NOT operand"
definition vm_and_i64 :: "u64 \<Rightarrow> u64 \<Rightarrow> u64" where "vm_and_i64 lhs rhs = lhs AND rhs"
definition vm_or_i64 :: "u64 \<Rightarrow> u64 \<Rightarrow> u64" where "vm_or_i64 lhs rhs = lhs OR rhs"
definition vm_xor_i64 :: "u64 \<Rightarrow> u64 \<Rightarrow> u64" where "vm_xor_i64 lhs rhs = lhs XOR rhs"

section \<open>Conversions and shifts\<close>

definition vm_trunc_i32i8 :: "u32 \<Rightarrow> u32" where "vm_trunc_i32i8 operand = ucast (ucast operand :: u8)"
definition vm_trunc_i32i16 :: "u32 \<Rightarrow> u32" where "vm_trunc_i32i16 operand = ucast (ucast operand :: u16)"
definition vm_ext_i8i32s :: "u32 \<Rightarrow> u32" where "vm_ext_i8i32s operand = scast (ucast operand :: u8)"
definition vm_ext_i8i32u :: "u32 \<Rightarrow> u32" where "vm_ext_i8i32u operand = ucast (ucast operand :: u8)"
definition vm_ext_i16i32s :: "u32 \<Rightarrow> u32" where "vm_ext_i16i32s operand = scast (ucast operand :: u16)"
definition vm_ext_i16i32u :: "u32 \<Rightarrow> u32" where "vm_ext_i16i32u operand = ucast (ucast operand :: u16)"
definition vm_trunc_i64i32 :: "u64 \<Rightarrow> u32" where "vm_trunc_i64i32 operand = ucast operand"
definition vm_ext_i32i64s :: "u32 \<Rightarrow> u64" where "vm_ext_i32i64s operand = scast operand"
definition vm_ext_i32i64u :: "u32 \<Rightarrow> u64" where "vm_ext_i32i64u operand = ucast operand"

text \<open>The amount is an \<open>int8_t\<close>; negative amounts and amounts of the width or more are undefined.\<close>

definition shift_amount :: "nat \<Rightarrow> u8 \<Rightarrow> nat option" where
  "shift_amount width amount = (if sint amount < 0 \<or> nat (sint amount) \<ge> width then None else Some (nat (sint amount)))"

definition vm_shl_i32 :: "u32 \<Rightarrow> u8 \<Rightarrow> u32 option" where
  "vm_shl_i32 operand amount = map_option (\<lambda>n. push_bit n operand) (shift_amount 32 amount)"
definition vm_shr_i32s :: "u32 \<Rightarrow> u8 \<Rightarrow> u32 option" where
  "vm_shr_i32s operand amount = map_option (\<lambda>n. signed_drop_bit n operand) (shift_amount 32 amount)"
definition vm_shr_i32u :: "u32 \<Rightarrow> u8 \<Rightarrow> u32 option" where
  "vm_shr_i32u operand amount = map_option (\<lambda>n. drop_bit n operand) (shift_amount 32 amount)"
definition vm_shl_i64 :: "u64 \<Rightarrow> u8 \<Rightarrow> u64 option" where
  "vm_shl_i64 operand amount = map_option (\<lambda>n. push_bit n operand) (shift_amount 64 amount)"
definition vm_shr_i64s :: "u64 \<Rightarrow> u8 \<Rightarrow> u64 option" where
  "vm_shr_i64s operand amount = map_option (\<lambda>n. signed_drop_bit n operand) (shift_amount 64 amount)"
definition vm_shr_i64u :: "u64 \<Rightarrow> u8 \<Rightarrow> u64 option" where
  "vm_shr_i64u operand amount = map_option (\<lambda>n. drop_bit n operand) (shift_amount 64 amount)"

section \<open>Comparisons\<close>

definition bool_i32 :: "bool \<Rightarrow> u32" where "bool_i32 b = (if b then 1 else 0)"

definition vm_cmp_eq_i32 :: "u32 \<Rightarrow> u32 \<Rightarrow> u32" where "vm_cmp_eq_i32 lhs rhs = bool_i32 (lhs = rhs)"
definition vm_cmp_ne_i32 :: "u32 \<Rightarrow> u32 \<Rightarrow> u32" where "vm_cmp_ne_i32 lhs rhs = bool_i32 (lhs \<noteq> rhs)"
definition vm_cmp_lt_i32s :: "u32 \<Rightarrow> u32 \<Rightarrow> u32" where "vm_cmp_lt_i32s lhs rhs = bool_i32 (sint lhs < sint rhs)"
definition vm_cmp_lt_i32u :: "u32 \<Rightarrow> u32 \<Rightarrow> u32" where "vm_cmp_lt_i32u lhs rhs = bool_i32 (lhs < rhs)"
definition vm_cmp_nz_i32 :: "u32 \<Rightarrow> u32" where "vm_cmp_nz_i32 operand = bool_i32 (operand \<noteq> 0)"
definition vm_cmp_eq_i64 :: "u64 \<Rightarrow> u64 \<Rightarrow> u32" where "vm_cmp_eq_i64 lhs rhs = bool_i32 (lhs = rhs)"
definition vm_cmp_ne_i64 :: "u64 \<Rightarrow> u64 \<Rightarrow> u32" where "vm_cmp_ne_i64 lhs rhs = bool_i32 (lhs \<noteq> rhs)"
definition vm_cmp_lt_i64s :: "u64 \<Rightarrow> u64 \<Rightarrow> u32" where "vm_cmp_lt_i64s lhs rhs = bool_i32 (sint lhs < sint rhs)"
definition vm_cmp_lt_i64u :: "u64 \<Rightarrow> u64 \<Rightarrow> u32" where "vm_cmp_lt_i64u lhs rhs = bool_i32 (lhs < rhs)"
definition vm_cmp_nz_i64 :: "u64 \<Rightarrow> u32" where "vm_cmp_nz_i64 operand = bool_i32 (operand \<noteq> 0)"

section \<open>Floating point\<close>

text \<open>IEEE 754 single precision on bit patterns: \<open>f32_key\<close> orders the patterns that are not NaN.\<close>

definition f32_is_nan :: "u32 \<Rightarrow> bool" where
  "f32_is_nan x \<longleftrightarrow> x AND 0x7FFFFFFF > 0x7F800000"

definition f32_key :: "u32 \<Rightarrow> int" where
  "f32_key x = (if bit x 31 then - uint (x AND 0x7FFFFFFF) else uint (x AND 0x7FFFFFFF))"

definition f32_unordered :: "u32 \<Rightarrow> u32 \<Rightarrow> bool" where
  "f32_unordered l r \<longleftrightarrow> f32_is_nan l \<or> f32_is_nan r"

definition f32_eq :: "u32 \<Rightarrow> u32 \<Rightarrow> bool" where
  "f32_eq l r \<longleftrightarrow> \<not> f32_unordered l r \<and> f32_key l = f32_key r"

definition f32_less :: "u32 \<Rightarrow> u32 \<Rightarrow> bool" where
  "f32_less l r \<longleftrightarrow> \<not> f32_unordered l r \<and> f32_key l < f32_key r"

definition f32_lessequal :: "u32 \<Rightarrow> u32 \<Rightarrow> bool" where
  "f32_lessequal l r \<longleftrightarrow> \<not> f32_unordered l r \<and> f32_key l \<le> f32_key r"

definition vm_cmp_eq_f32o :: "u32 \<Rightarrow> u32 \<Rightarrow> u32" where "vm_cmp_eq_f32o lhs rhs = bool_i32 (f32_eq lhs rhs)"
definition vm_cmp_eq_f32u :: "u32 \<Rightarrow> u32 \<Rightarrow> u32" where
  "vm_cmp_eq_f32u lhs rhs = bool_i32 (f32_unordered lhs rhs \<or> f32_eq lhs rhs)"
definition vm_cmp_ne_f32o :: "u32 \<Rightarrow> u32 \<Rightarrow> u32" where "vm_cmp_ne_f32o lhs rhs = bool_i32 (\<not> f32_eq lhs rhs)"
definition vm_cmp_ne_f32u :: "u32 \<Rightarrow> u32 \<Rightarrow> u32" where
  "vm_cmp_ne_f32u lhs rhs = bool_i32 (f32_unordered lhs rhs \<or> \<not> f32_eq lhs rhs)"
definition vm_cmp_lt_f32o :: "u32 \<Rightarrow> u32 \<Rightarrow> u32" where "vm_cmp_lt_f32o lhs rhs = bool_i32 (f32_less lhs rhs)"
definition vm_cmp_lt_f32u :: "u32 \<Rightarrow> u32 \<Rightarrow> u32" where
  "vm_cmp_lt_f32u lhs rhs = bool_i32 (f32_unordered lhs rhs \<or> f32_less lhs rhs)"
definition vm_cmp_lte_f32o :: "u32 \<Rightarrow> u32 \<Rightarrow> u32" where "vm_cmp_lte_f32o lhs rhs = bool_i32 (f32_lessequal lhs rhs)"
definition vm_cmp_lte_f32u :: "u32 \<Rightarrow> u32 \<Rightarrow> u32" where
  "vm_cmp_lte_f32u lhs rhs = bool_i32 (f32_unordered lhs rhs \<or> f32_lessequal lhs rhs)"
definition vm_cmp_nan_f32 :: "u32 \<Rightarrow> u32" where "vm_cmp_nan_f32 operand = bool_i32 (f32_is_nan operand)"

definition vm_abs_f32 :: "u32 \<Rightarrow> u32" where "vm_abs_f32 operand = operand AND 0x7FFFFFFF"
definition vm_neg_f32 :: "u32 \<Rightarrow> u32" where "vm_neg_f32 operand = operand XOR 0x80000000"

text \<open>
  The operations of the floating point unit and of \<^verbatim>\<open>math.h\<close>, by the opcode that uses them, and the
  conversions of C between \<open>float\<close> and \<open>int32_t\<close>, which are undefined when the value does not fit.
\<close>

record fp_env =
  fp_unary :: "u8 \<Rightarrow> u32 \<Rightarrow> u32"
  fp_binary :: "u8 \<Rightarrow> u32 \<Rightarrow> u32 \<Rightarrow> u32"
  fp_round_to_int :: "u8 \<Rightarrow> u32 \<Rightarrow> u32 option"
  fp_truncate_to_int :: "u32 \<Rightarrow> u32 option"
  fp_of_int :: "u32 \<Rightarrow> u32"

text \<open>The parameter of the constructor is an \<open>int32_t\<close>: the argument is converted to it and back.\<close>

definition iree_vm_value_make_f32 :: "fp_env \<Rightarrow> u64 \<Rightarrow> u32 \<Rightarrow> iree_vm_value option" where
  "iree_vm_value_make_f32 fp rest v = map_option
    (\<lambda>i. \<lparr>val_type = IREE_VM_VALUE_TYPE_F32, val_bits = ucast (fp_of_int fp i) OR (rest AND NOT (mask 32))\<rparr>)
    (fp_truncate_to_int fp v)"

definition vm_fail_or_ok :: "u32 \<Rightarrow> iree_status" where
  "vm_fail_or_ok status_code = (if status_code \<noteq> 0 then IREE_STATUS_FAILED_PRECONDITION else IREE_STATUS_OK)"

section \<open>Laws\<close>

lemma c_div_rem: "c_div a b * b + c_rem a b = a"
  by (simp add: c_rem_def)

lemma c_rem_bound: "b \<noteq> 0 \<Longrightarrow> \<bar>c_rem a b\<bar> < \<bar>b\<bar> \<and> (c_rem a b = 0 \<or> sgn (c_rem a b) = sgn a)"
proof -
  assume b: "b \<noteq> 0"
  have "\<bar>a\<bar> mod \<bar>b\<bar> = \<bar>a\<bar> - \<bar>a\<bar> div \<bar>b\<bar> * \<bar>b\<bar>" by (simp add: minus_div_mult_eq_mod)
  then have "sgn a * (\<bar>a\<bar> mod \<bar>b\<bar>) = sgn a * \<bar>a\<bar> - sgn a * (\<bar>a\<bar> div \<bar>b\<bar>) * \<bar>b\<bar>"
    by (simp add: right_diff_distrib)
  moreover have "sgn a * \<bar>a\<bar> = a" by (rule sgn_mult_abs)
  moreover have "\<bar>b\<bar> = sgn b * b" by (simp add: sgn_if)
  ultimately have "c_rem a b = sgn a * (\<bar>a\<bar> mod \<bar>b\<bar>)"
    by (simp add: c_rem_def c_div_def mult_ac)
  moreover have "0 \<le> \<bar>a\<bar> mod \<bar>b\<bar>" "\<bar>a\<bar> mod \<bar>b\<bar> < \<bar>b\<bar>" using b by simp_all
  ultimately show ?thesis
    by (auto simp: abs_mult sgn_mult sgn_if)
qed

end
