(* ===== verification/VM_Handlers.thy ===== *)
theory VM_Handlers
  imports VM_Stack VM_Ops
begin

text \<open>
  The handlers of the bytecode dispatcher that stay within the current function
  (\<^verbatim>\<open>iree/vm/bytecode_dispatch.c\<close>: globals, constants, buffers, lists, conditional assignment, arithmetic,
  conversions and comparisons of the core table and of the i64 and f32 extensions).

  A handler is given the program counter after the opcode and returns the advanced counter, the new
  state and a status; any status but \<open>IREE_STATUS_OK\<close> leaves the dispatch loop. The tables at the end
  are the dispatch tables of the generated \<^verbatim>\<open>bytecode_op_table.h\<close>.
\<close>

section \<open>State\<close>

text \<open>
  What a handler only reads: the registered reference types, the module's type table, its allocator,
  the addresses of its rodata buffers, the floating point operations, and the bytes of a local
  variable that is not initialised.
\<close>

record vm_env =
  ref_types :: type_table
  list_type_id :: nat
  buffer_type_id :: nat
  module_types :: "iree_vm_type_def list"
  ms_allocator :: iree_allocator
  rodata_refs :: "nat list"
  fp_ops :: fp_env
  uninitialized :: u64

text \<open>What a handler changes: the store, the registers of the current frame and the globals.\<close>

record vm_local =
  l_heap :: vm_heap
  l_regs :: iree_vm_registers
  l_rwdata :: "u8 list"
  l_globals :: "iree_vm_ref list"

type_synonym handler_result = "(int \<times> vm_local \<times> iree_status) option"
type_synonym handler = "vm_env \<Rightarrow> bytecode \<Rightarrow> int \<Rightarrow> vm_local \<Rightarrow> handler_result"

definition put_i32 :: "vm_local \<Rightarrow> int \<Rightarrow> nat \<Rightarrow> u32 \<Rightarrow> handler_result" where
  "put_i32 l pc k v = do { regs \<leftarrow> store_i32 (l_regs l) k v; Some (pc, l\<lparr>l_regs := regs\<rparr>, IREE_STATUS_OK) }"

definition put_i64 :: "vm_local \<Rightarrow> int \<Rightarrow> nat \<Rightarrow> u64 \<Rightarrow> handler_result" where
  "put_i64 l pc k v = do { regs \<leftarrow> store_i64 (l_regs l) k v; Some (pc, l\<lparr>l_regs := regs\<rparr>, IREE_STATUS_OK) }"

section \<open>Globals\<close>

text \<open>Loads and stores of globals test the first byte only; the bytes after the storage are undefined.\<close>

definition vm_global_load_i32 :: "u8 list \<Rightarrow> u32 \<Rightarrow> u32 option" where
  "vm_global_load_i32 base byte_offset = map_option from_le (read_bytes base (ucast byte_offset) 4)"

definition vm_global_store_i32 :: "u8 list \<Rightarrow> u32 \<Rightarrow> u32 \<Rightarrow> u8 list option" where
  "vm_global_store_i32 base byte_offset value = write_bytes base (ucast byte_offset) (to_le 4 value)"

definition vm_global_load_i64 :: "u8 list \<Rightarrow> u32 \<Rightarrow> u64 option" where
  "vm_global_load_i64 base byte_offset = map_option from_le (read_bytes base (ucast byte_offset) 8)"

definition vm_global_store_i64 :: "u8 list \<Rightarrow> u32 \<Rightarrow> u64 \<Rightarrow> u8 list option" where
  "vm_global_store_i64 base byte_offset value = write_bytes base (ucast byte_offset) (to_le 8 value)"

definition global_in_range :: "vm_local \<Rightarrow> u32 \<Rightarrow> bool" where
  "global_in_range l byte_offset \<longleftrightarrow> unat byte_offset < length (l_rwdata l)"

definition load_global_i32 :: "u32 \<Rightarrow> handler" where
  "load_global_i32 byte_offset env code pc l =
    (if \<not> global_in_range l byte_offset then Some (pc, l, IREE_STATUS_OUT_OF_RANGE)
     else do {
       (k, pc) \<leftarrow> VM_DecResultRegI32 (l_regs l) code pc;
       v \<leftarrow> vm_global_load_i32 (l_rwdata l) byte_offset;
       put_i32 l pc k v
     })"

definition store_global_i32 :: "u32 \<Rightarrow> handler" where
  "store_global_i32 byte_offset env code pc l =
    (if \<not> global_in_range l byte_offset then Some (pc, l, IREE_STATUS_OUT_OF_RANGE)
     else do {
       (v, pc) \<leftarrow> VM_DecOperandRegI32 (l_regs l) code pc;
       d \<leftarrow> vm_global_store_i32 (l_rwdata l) byte_offset v;
       Some (pc, l\<lparr>l_rwdata := d\<rparr>, IREE_STATUS_OK)
     })"

definition load_global_i64 :: "u32 \<Rightarrow> handler" where
  "load_global_i64 byte_offset env code pc l =
    (if \<not> global_in_range l byte_offset then Some (pc, l, IREE_STATUS_OUT_OF_RANGE)
     else do {
       (k, pc) \<leftarrow> VM_DecResultRegI64 (l_regs l) code pc;
       v \<leftarrow> vm_global_load_i64 (l_rwdata l) byte_offset;
       put_i64 l pc k v
     })"

definition store_global_i64 :: "u32 \<Rightarrow> handler" where
  "store_global_i64 byte_offset env code pc l =
    (if \<not> global_in_range l byte_offset then Some (pc, l, IREE_STATUS_OUT_OF_RANGE)
     else do {
       (v, pc) \<leftarrow> VM_DecOperandRegI64 (l_regs l) code pc;
       d \<leftarrow> vm_global_store_i64 (l_rwdata l) byte_offset v;
       Some (pc, l\<lparr>l_rwdata := d\<rparr>, IREE_STATUS_OK)
     })"

text \<open>The byte offset is an attribute, or the value of a register for the indirect forms.\<close>

definition with_global_attr :: "(u32 \<Rightarrow> handler) \<Rightarrow> handler" where
  "with_global_attr acc env code pc l = do { (g, pc) \<leftarrow> VM_DecConstI32 code pc; acc g env code pc l }"

definition with_global_reg :: "(u32 \<Rightarrow> handler) \<Rightarrow> handler" where
  "with_global_reg acc env code pc l = do { (g, pc) \<leftarrow> VM_DecOperandRegI32 (l_regs l) code pc; acc g env code pc l }"

definition op_GlobalLoadI32 :: handler where "op_GlobalLoadI32 = with_global_attr load_global_i32"
definition op_GlobalStoreI32 :: handler where "op_GlobalStoreI32 = with_global_attr store_global_i32"
definition op_GlobalLoadIndirectI32 :: handler where "op_GlobalLoadIndirectI32 = with_global_reg load_global_i32"
definition op_GlobalStoreIndirectI32 :: handler where "op_GlobalStoreIndirectI32 = with_global_reg store_global_i32"
definition op_GlobalLoadI64 :: handler where "op_GlobalLoadI64 = with_global_attr load_global_i64"
definition op_GlobalStoreI64 :: handler where "op_GlobalStoreI64 = with_global_attr store_global_i64"
definition op_GlobalLoadIndirectI64 :: handler where "op_GlobalLoadIndirectI64 = with_global_reg load_global_i64"
definition op_GlobalStoreIndirectI64 :: handler where "op_GlobalStoreIndirectI64 = with_global_reg store_global_i64"

text \<open>
  Reference globals: the registers and the globals are two arrays; the reference moves from a slot of
  one to a slot of the other. The indirect forms decode the same attribute as the direct ones.
\<close>

definition move_global_ref :: "bool \<Rightarrow> handler" where
  "move_global_ref is_store env code pc l = do {
     (g, pc) \<leftarrow> VM_DecConstI32 code pc;
     if unat g \<ge> length (l_globals l) then Some (pc, l, IREE_STATUS_OUT_OF_RANGE)
     else do {
       (t, pc) \<leftarrow> VM_DecTypeOf (module_types env) code pc;
       ((k, is_move), pc) \<leftarrow> VM_DecResultRegRef (l_regs l) code pc;
       let n = length (ref_bank (l_regs l));
       let gi = n + unat g;
       (h, st, rs) \<leftarrow> retain_or_move_checked_at (ref_types env) is_move (l_heap l) (ref_bank (l_regs l) @ l_globals l)
         (if is_store then k else gi) (def_ref_type t) (if is_store then gi else k);
       Some (pc, l\<lparr>l_heap := h, l_regs := (l_regs l)\<lparr>ref_bank := take n rs\<rparr>, l_globals := drop n rs\<rparr>, st)
     }
   }"

definition op_GlobalLoadRef :: handler where "op_GlobalLoadRef = move_global_ref False"
definition op_GlobalStoreRef :: handler where "op_GlobalStoreRef = move_global_ref True"
definition op_GlobalLoadIndirectRef :: handler where "op_GlobalLoadIndirectRef = move_global_ref False"
definition op_GlobalStoreIndirectRef :: handler where "op_GlobalStoreIndirectRef = move_global_ref True"

section \<open>Constants\<close>

definition op_ConstI32 :: handler where
  "op_ConstI32 env code pc l = do {
     (v, pc) \<leftarrow> VM_DecConstI32 code pc; (k, pc) \<leftarrow> VM_DecResultRegI32 (l_regs l) code pc; put_i32 l pc k v }"

definition op_ConstI32Zero :: handler where
  "op_ConstI32Zero env code pc l = do { (k, pc) \<leftarrow> VM_DecResultRegI32 (l_regs l) code pc; put_i32 l pc k 0 }"

definition op_ConstI64 :: handler where
  "op_ConstI64 env code pc l = do {
     (v, pc) \<leftarrow> VM_DecConstI64 code pc; (k, pc) \<leftarrow> VM_DecResultRegI64 (l_regs l) code pc; put_i64 l pc k v }"

definition op_ConstI64Zero :: handler where
  "op_ConstI64Zero env code pc l = do { (k, pc) \<leftarrow> VM_DecResultRegI64 (l_regs l) code pc; put_i64 l pc k 0 }"

definition op_ConstRefZero :: handler where
  "op_ConstRefZero env code pc l = do {
     ((k, _), pc) \<leftarrow> VM_DecResultRegRef (l_regs l) code pc;
     (h, rs) \<leftarrow> release_at (ref_types env) (l_heap l) (ref_bank (l_regs l)) k;
     Some (pc, l\<lparr>l_heap := h, l_regs := (l_regs l)\<lparr>ref_bank := rs\<rparr>\<rparr>, IREE_STATUS_OK)
   }"

definition op_ConstRefRodata :: handler where
  "op_ConstRefRodata env code pc l = do {
     (rodata_ordinal, pc) \<leftarrow> VM_DecConstI32 code pc;
     if unat rodata_ordinal \<ge> length (rodata_refs env) then Some (pc, l, IREE_STATUS_OUT_OF_RANGE)
     else do {
       ((k, _), pc) \<leftarrow> VM_DecResultRegRef (l_regs l) code pc;
       out \<leftarrow> load_ref (l_regs l) k;
       (h, st, out) \<leftarrow> iree_vm_ref_wrap_retain (ref_types env) (l_heap l) (Some (rodata_refs env ! unat rodata_ordinal)) (buffer_type_id env) out;
       regs \<leftarrow> store_ref (l_regs l) k out;
       Some (pc, l\<lparr>l_heap := h, l_regs := regs\<rparr>, st)
     }
   }"

section \<open>Buffers\<close>

text \<open>The object of a reference of the given type, or null; and the contents of the object.\<close>

definition iree_vm_buffer_deref :: "vm_env \<Rightarrow> iree_vm_ref \<Rightarrow> nat option" where
  "iree_vm_buffer_deref env r =
    (if iree_vm_ref_check r (buffer_type_id env) \<noteq> IREE_STATUS_OK then None else ref_ptr r)"

definition iree_vm_list_deref :: "vm_env \<Rightarrow> iree_vm_ref \<Rightarrow> nat option" where
  "iree_vm_list_deref env r =
    (if iree_vm_ref_check r (list_type_id env) \<noteq> IREE_STATUS_OK then None else ref_ptr r)"

definition buffer_at :: "vm_heap \<Rightarrow> nat \<Rightarrow> iree_vm_buffer option" where
  "buffer_at h p = (case obj_at h p of Some ob \<Rightarrow> (case body ob of BBuffer b \<Rightarrow> Some b | _ \<Rightarrow> None) | None \<Rightarrow> None)"

definition put_buffer :: "vm_heap \<Rightarrow> nat \<Rightarrow> iree_vm_buffer \<Rightarrow> vm_heap option" where
  "put_buffer h p b = (case obj_at h p of
      Some ob \<Rightarrow> (case body ob of BBuffer _ \<Rightarrow> Some (put_obj h p (ob\<lparr>body := BBuffer b\<rparr>)) | _ \<Rightarrow> None)
    | None \<Rightarrow> None)"

text \<open>A handler whose next operand is a buffer or list register that must not be null.\<close>

definition with_buffer :: "(nat \<Rightarrow> handler) \<Rightarrow> handler" where
  "with_buffer act env code pc l = do {
     ((k, _), pc) \<leftarrow> VM_DecOperandRegRef (l_regs l) code pc;
     r \<leftarrow> load_ref (l_regs l) k;
     (case iree_vm_buffer_deref env r of
        None \<Rightarrow> Some (pc, l, IREE_STATUS_INVALID_ARGUMENT)
      | Some p \<Rightarrow> act p env code pc l)
   }"

definition with_list :: "(nat \<Rightarrow> handler) \<Rightarrow> handler" where
  "with_list act env code pc l = do {
     ((k, _), pc) \<leftarrow> VM_DecOperandRegRef (l_regs l) code pc;
     r \<leftarrow> load_ref (l_regs l) k;
     (case iree_vm_list_deref env r of
        None \<Rightarrow> Some (pc, l, IREE_STATUS_INVALID_ARGUMENT)
      | Some p \<Rightarrow> act p env code pc l)
   }"

text \<open>Wrapping a new object into the result register.\<close>

definition wrap_result :: "nat \<Rightarrow> nat \<Rightarrow> vm_env \<Rightarrow> int \<Rightarrow> vm_local \<Rightarrow> (vm_heap \<times> iree_status \<times> nat option) option \<Rightarrow> handler_result" where
  "wrap_result t k env pc l created = do {
     (h, st, p) \<leftarrow> created;
     if st \<noteq> IREE_STATUS_OK then Some (pc, l\<lparr>l_heap := h\<rparr>, st)
     else do {
       out \<leftarrow> load_ref (l_regs l) k;
       (h, st, out) \<leftarrow> iree_vm_ref_wrap_assign (ref_types env) h p t out;
       regs \<leftarrow> store_ref (l_regs l) k out;
       Some (pc, l\<lparr>l_heap := h, l_regs := regs\<rparr>, st)
     }
   }"

definition guest_access :: u32 where
  "guest_access = IREE_VM_BUFFER_ACCESS_MUTABLE OR IREE_VM_BUFFER_ACCESS_ORIGIN_GUEST"

definition op_BufferAlloc :: handler where
  "op_BufferAlloc env code pc l = do {
     (len, pc) \<leftarrow> VM_DecOperandRegI32 (l_regs l) code pc;
     ((k, _), pc) \<leftarrow> VM_DecResultRegRef (l_regs l) code pc;
     wrap_result (buffer_type_id env) k env pc l
       (iree_vm_buffer_create (ms_allocator env) (l_heap l) guest_access (ucast len))
   }"

definition op_BufferClone :: handler where
  "op_BufferClone = with_buffer (\<lambda>p env code pc l. do {
     (off, pc) \<leftarrow> VM_DecOperandRegI32 (l_regs l) code pc;
     (len, pc) \<leftarrow> VM_DecOperandRegI32 (l_regs l) code pc;
     ((k, _), pc) \<leftarrow> VM_DecResultRegRef (l_regs l) code pc;
     b \<leftarrow> buffer_at (l_heap l) p;
     wrap_result (buffer_type_id env) k env pc l
       (iree_vm_buffer_clone (ms_allocator env) (l_heap l) guest_access b (ucast off) (ucast len))
   })"

definition op_BufferLength :: handler where
  "op_BufferLength = with_buffer (\<lambda>p env code pc l. do {
     (k, pc) \<leftarrow> VM_DecResultRegI32 (l_regs l) code pc;
     b \<leftarrow> buffer_at (l_heap l) p;
     put_i32 l pc k (ucast (iree_vm_buffer_length b))
   })"

definition put_result_buffer :: "vm_local \<Rightarrow> int \<Rightarrow> nat \<Rightarrow> (iree_status \<times> iree_vm_buffer) option \<Rightarrow> handler_result" where
  "put_result_buffer l pc p res = do {
     (st, b) \<leftarrow> res;
     h \<leftarrow> put_buffer (l_heap l) p b;
     Some (pc, l\<lparr>l_heap := h\<rparr>, st)
   }"

definition op_BufferCopy :: handler where
  "op_BufferCopy = with_buffer (\<lambda>source env code pc l. do {
     (source_offset, pc) \<leftarrow> VM_DecOperandRegI32 (l_regs l) code pc;
     with_buffer (\<lambda>target env code pc l. do {
       (target_offset, pc) \<leftarrow> VM_DecOperandRegI32 (l_regs l) code pc;
       (len, pc) \<leftarrow> VM_DecOperandRegI32 (l_regs l) code pc;
       source_buffer \<leftarrow> buffer_at (l_heap l) source;
       target_buffer \<leftarrow> buffer_at (l_heap l) target;
       put_result_buffer l pc target
         (iree_vm_buffer_copy_bytes (source = target) source_buffer (ucast source_offset) target_buffer (ucast target_offset) (ucast len))
     }) env code pc l
   })"

definition op_BufferCompare :: handler where
  "op_BufferCompare = with_buffer (\<lambda>lhs env code pc l. do {
     (lhs_offset, pc) \<leftarrow> VM_DecOperandRegI32 (l_regs l) code pc;
     with_buffer (\<lambda>rhs env code pc l. do {
       (rhs_offset, pc) \<leftarrow> VM_DecOperandRegI32 (l_regs l) code pc;
       (len, pc) \<leftarrow> VM_DecOperandRegI32 (l_regs l) code pc;
       (k, pc) \<leftarrow> VM_DecResultRegI32 (l_regs l) code pc;
       lhs_buffer \<leftarrow> buffer_at (l_heap l) lhs;
       rhs_buffer \<leftarrow> buffer_at (l_heap l) rhs;
       (st, result) \<leftarrow> iree_vm_buffer_compare_bytes lhs_buffer (ucast lhs_offset) rhs_buffer (ucast rhs_offset) (ucast len) False;
       if st \<noteq> IREE_STATUS_OK then Some (pc, l, st) else put_i32 l pc k (if result then 1 else 0)
     }) env code pc l
   })"

text \<open>
  Fill, load and store at the element sizes 1, 2, 4 and 8. The element count of a fill is the length
  divided by the element size, a 64-bit division of the 32-bit length.
\<close>

definition dec_element :: "nat \<Rightarrow> iree_vm_registers \<Rightarrow> bytecode \<Rightarrow> int \<Rightarrow> (u8 list \<times> int) option" where
  "dec_element n regs code pc =
    (if n = 8 then map_option (\<lambda>(v, pc). (to_le 8 v, pc)) (VM_DecOperandRegI64 regs code pc)
     else map_option (\<lambda>(v, pc). (to_le n v, pc)) (VM_DecOperandRegI32 regs code pc))"

definition buffer_fill :: "nat \<Rightarrow> handler" where
  "buffer_fill n = with_buffer (\<lambda>p env code pc l. do {
     (off, pc) \<leftarrow> VM_DecOperandRegI32 (l_regs l) code pc;
     (len, pc) \<leftarrow> VM_DecOperandRegI32 (l_regs l) code pc;
     (val, pc) \<leftarrow> dec_element n (l_regs l) code pc;
     b \<leftarrow> buffer_at (l_heap l) p;
     put_result_buffer l pc p
       (iree_vm_buffer_fill_elements b (ucast off) (ucast len div of_nat n) (of_nat n) val)
   })"

definition buffer_store :: "nat \<Rightarrow> handler" where
  "buffer_store n = with_buffer (\<lambda>p env code pc l. do {
     (off, pc) \<leftarrow> VM_DecOperandRegI32 (l_regs l) code pc;
     (val, pc) \<leftarrow> dec_element n (l_regs l) code pc;
     b \<leftarrow> buffer_at (l_heap l) p;
     put_result_buffer l pc p (iree_vm_buffer_write_elements val b (ucast off) 1 (of_nat n))
   })"

definition buffer_load_i32 :: "nat \<Rightarrow> (u32 \<Rightarrow> u32) \<Rightarrow> handler" where
  "buffer_load_i32 n ext = with_buffer (\<lambda>p env code pc l. do {
     (off, pc) \<leftarrow> VM_DecOperandRegI32 (l_regs l) code pc;
     (k, pc) \<leftarrow> VM_DecResultRegI32 (l_regs l) code pc;
     b \<leftarrow> buffer_at (l_heap l) p;
     (st, bytes) \<leftarrow> iree_vm_buffer_read_elements b (ucast off) 1 (of_nat n);
     if st \<noteq> IREE_STATUS_OK then Some (pc, l, st) else put_i32 l pc k (ext (from_le bytes))
   })"

definition op_BufferLoadI64 :: handler where
  "op_BufferLoadI64 = with_buffer (\<lambda>p env code pc l. do {
     (off, pc) \<leftarrow> VM_DecOperandRegI32 (l_regs l) code pc;
     (k, pc) \<leftarrow> VM_DecResultRegI64 (l_regs l) code pc;
     b \<leftarrow> buffer_at (l_heap l) p;
     (st, bytes) \<leftarrow> iree_vm_buffer_read_elements b (ucast off) 1 8;
     if st \<noteq> IREE_STATUS_OK then Some (pc, l, st) else put_i64 l pc k (from_le bytes)
   })"

definition op_BufferFillI8 :: handler where "op_BufferFillI8 = buffer_fill 1"
definition op_BufferFillI16 :: handler where "op_BufferFillI16 = buffer_fill 2"
definition op_BufferFillI32 :: handler where "op_BufferFillI32 = buffer_fill 4"
definition op_BufferFillI64 :: handler where "op_BufferFillI64 = buffer_fill 8"
definition op_BufferLoadI8U :: handler where "op_BufferLoadI8U = buffer_load_i32 1 vm_ext_i8i32u"
definition op_BufferLoadI8S :: handler where "op_BufferLoadI8S = buffer_load_i32 1 vm_ext_i8i32s"
definition op_BufferLoadI16U :: handler where "op_BufferLoadI16U = buffer_load_i32 2 vm_ext_i16i32u"
definition op_BufferLoadI16S :: handler where "op_BufferLoadI16S = buffer_load_i32 2 vm_ext_i16i32s"
definition op_BufferLoadI32 :: handler where "op_BufferLoadI32 = buffer_load_i32 4 id"
definition op_BufferStoreI8 :: handler where "op_BufferStoreI8 = buffer_store 1"
definition op_BufferStoreI16 :: handler where "op_BufferStoreI16 = buffer_store 2"
definition op_BufferStoreI32 :: handler where "op_BufferStoreI32 = buffer_store 4"
definition op_BufferStoreI64 :: handler where "op_BufferStoreI64 = buffer_store 8"

section \<open>Lists\<close>

definition op_ListAlloc :: handler where
  "op_ListAlloc env code pc l = do {
     (et, pc) \<leftarrow> VM_DecTypeOf (module_types env) code pc;
     (initial_capacity, pc) \<leftarrow> VM_DecOperandRegI32 (l_regs l) code pc;
     ((k, _), pc) \<leftarrow> VM_DecResultRegRef (l_regs l) code pc;
     wrap_result (list_type_id env) k env pc l
       (iree_vm_list_create (ms_allocator env) (l_heap l) (Some et) (ucast initial_capacity))
   }"

definition op_ListReserve :: handler where
  "op_ListReserve = with_list (\<lambda>p env code pc l. do {
     (minimum_capacity, pc) \<leftarrow> VM_DecOperandRegI32 (l_regs l) code pc;
     lst \<leftarrow> list_at (l_heap l) p;
     (st, lst) \<leftarrow> iree_vm_list_reserve (ms_allocator env) lst (ucast minimum_capacity);
     h \<leftarrow> put_list (l_heap l) p lst;
     Some (pc, l\<lparr>l_heap := h\<rparr>, st)
   })"

definition op_ListSize :: handler where
  "op_ListSize = with_list (\<lambda>p env code pc l. do {
     (k, pc) \<leftarrow> VM_DecResultRegI32 (l_regs l) code pc;
     lst \<leftarrow> list_at (l_heap l) p;
     put_i32 l pc k (ucast (iree_vm_list_size lst))
   })"

definition op_ListResize :: handler where
  "op_ListResize = with_list (\<lambda>p env code pc l. do {
     (new_size, pc) \<leftarrow> VM_DecOperandRegI32 (l_regs l) code pc;
     (h, st) \<leftarrow> iree_vm_list_resize (ref_types env) (ms_allocator env) (l_heap l) p (ucast new_size);
     Some (pc, l\<lparr>l_heap := h\<rparr>, st)
   })"

definition list_get_value_as :: "iree_vm_value_type \<Rightarrow> vm_env \<Rightarrow> vm_local \<Rightarrow> nat \<Rightarrow> u32 \<Rightarrow> (iree_status \<times> iree_vm_value) option" where
  "list_get_value_as t env l p i = do {
     lst \<leftarrow> list_at (l_heap l) p;
     iree_vm_list_get_value_as lst (ucast i) t \<lparr>val_type = t, val_bits = uninitialized env\<rparr>
   }"

definition op_ListGetI32 :: handler where
  "op_ListGetI32 = with_list (\<lambda>p env code pc l. do {
     (i, pc) \<leftarrow> VM_DecOperandRegI32 (l_regs l) code pc;
     (k, pc) \<leftarrow> VM_DecResultRegI32 (l_regs l) code pc;
     (st, v) \<leftarrow> list_get_value_as IREE_VM_VALUE_TYPE_I32 env l p i;
     if st \<noteq> IREE_STATUS_OK then Some (pc, l, st) else put_i32 l pc k (iree_vm_value_get_i32 v)
   })"

definition op_ListGetI64 :: handler where
  "op_ListGetI64 = with_list (\<lambda>p env code pc l. do {
     (i, pc) \<leftarrow> VM_DecOperandRegI32 (l_regs l) code pc;
     (k, pc) \<leftarrow> VM_DecResultRegI64 (l_regs l) code pc;
     (st, v) \<leftarrow> list_get_value_as IREE_VM_VALUE_TYPE_I64 env l p i;
     if st \<noteq> IREE_STATUS_OK then Some (pc, l, st) else put_i64 l pc k (iree_vm_value_get_i64 v)
   })"

definition op_ListGetF32 :: handler where
  "op_ListGetF32 = with_list (\<lambda>p env code pc l. do {
     (i, pc) \<leftarrow> VM_DecOperandRegI32 (l_regs l) code pc;
     (k, pc) \<leftarrow> VM_DecResultRegI32 (l_regs l) code pc;
     (st, v) \<leftarrow> list_get_value_as IREE_VM_VALUE_TYPE_F32 env l p i;
     if st \<noteq> IREE_STATUS_OK then Some (pc, l, st) else put_i32 l pc k (iree_vm_value_get_f32 v)
   })"

definition list_set_value :: "vm_env \<Rightarrow> vm_local \<Rightarrow> int \<Rightarrow> nat \<Rightarrow> u32 \<Rightarrow> iree_vm_value \<Rightarrow> handler_result" where
  "list_set_value env l pc p i v = do {
     (h, st) \<leftarrow> iree_vm_list_set_value (ref_types env) (l_heap l) p (ucast i) v;
     Some (pc, l\<lparr>l_heap := h\<rparr>, st)
   }"

definition op_ListSetI32 :: handler where
  "op_ListSetI32 = with_list (\<lambda>p env code pc l. do {
     (i, pc) \<leftarrow> VM_DecOperandRegI32 (l_regs l) code pc;
     (v, pc) \<leftarrow> VM_DecOperandRegI32 (l_regs l) code pc;
     list_set_value env l pc p i (iree_vm_value_make_i32 (uninitialized env) v)
   })"

definition op_ListSetI64 :: handler where
  "op_ListSetI64 = with_list (\<lambda>p env code pc l. do {
     (i, pc) \<leftarrow> VM_DecOperandRegI32 (l_regs l) code pc;
     (v, pc) \<leftarrow> VM_DecOperandRegI64 (l_regs l) code pc;
     list_set_value env l pc p i (iree_vm_value_make_i64 v)
   })"

definition op_ListSetF32 :: handler where
  "op_ListSetF32 = with_list (\<lambda>p env code pc l. do {
     (i, pc) \<leftarrow> VM_DecOperandRegI32 (l_regs l) code pc;
     (v, pc) \<leftarrow> VM_DecOperandRegI32 (l_regs l) code pc;
     value \<leftarrow> iree_vm_value_make_f32 (fp_ops env) (uninitialized env) v;
     list_set_value env l pc p i value
   })"

text \<open>
  The result register is passed as the output of the lookup, so a result register that is the list
  register is released while the list is read.
\<close>

definition op_ListGetRef :: handler where
  "op_ListGetRef = with_list (\<lambda>p env code pc l. do {
     (i, pc) \<leftarrow> VM_DecOperandRegI32 (l_regs l) code pc;
     (t, pc) \<leftarrow> VM_DecTypeOf (module_types env) code pc;
     ((k, _), pc) \<leftarrow> VM_DecResultRegRef (l_regs l) code pc;
     out \<leftarrow> load_ref (l_regs l) k;
     (h, st, out) \<leftarrow> iree_vm_list_get_ref_retain (ref_types env) (l_heap l) p (ucast i) out;
     if st \<noteq> IREE_STATUS_OK then do {
       regs \<leftarrow> store_ref (l_regs l) k out;
       Some (pc, l\<lparr>l_heap := h, l_regs := regs\<rparr>, st)
     }
     else if ref_type out \<noteq> IREE_VM_REF_TYPE_NULL \<and> (iree_vm_type_def_is_value t \<or> ref_type out \<noteq> def_ref_type t)
     then do {
       (h, out) \<leftarrow> iree_vm_ref_release (ref_types env) h out;
       regs \<leftarrow> store_ref (l_regs l) k out;
       Some (pc, l\<lparr>l_heap := h, l_regs := regs\<rparr>, IREE_STATUS_OK)
     }
     else do {
       regs \<leftarrow> store_ref (l_regs l) k out;
       Some (pc, l\<lparr>l_heap := h, l_regs := regs\<rparr>, IREE_STATUS_OK)
     }
   })"

definition op_ListSetRef :: handler where
  "op_ListSetRef = with_list (\<lambda>p env code pc l. do {
     (i, pc) \<leftarrow> VM_DecOperandRegI32 (l_regs l) code pc;
     ((k, operand_is_move), pc) \<leftarrow> VM_DecOperandRegRef (l_regs l) code pc;
     operand \<leftarrow> load_ref (l_regs l) k;
     (h, st, operand) \<leftarrow>
       (if operand_is_move then iree_vm_list_set_ref_move (ref_types env) (l_heap l) p (ucast i) operand
        else iree_vm_list_set_ref_retain (ref_types env) (l_heap l) p (ucast i) operand);
     regs \<leftarrow> store_ref (l_regs l) k operand;
     Some (pc, l\<lparr>l_heap := h, l_regs := regs\<rparr>, st)
   })"

section \<open>Conditional assignment\<close>

definition op_SelectI32 :: handler where
  "op_SelectI32 env code pc l = do {
     (condition, pc) \<leftarrow> VM_DecOperandRegI32 (l_regs l) code pc;
     (true_value, pc) \<leftarrow> VM_DecOperandRegI32 (l_regs l) code pc;
     (false_value, pc) \<leftarrow> VM_DecOperandRegI32 (l_regs l) code pc;
     (k, pc) \<leftarrow> VM_DecResultRegI32 (l_regs l) code pc;
     put_i32 l pc k (vm_select_i32 condition true_value false_value)
   }"

definition op_SelectF32 :: handler where
  "op_SelectF32 env code pc l = do {
     (condition, pc) \<leftarrow> VM_DecOperandRegI32 (l_regs l) code pc;
     (true_value, pc) \<leftarrow> VM_DecOperandRegI32 (l_regs l) code pc;
     (false_value, pc) \<leftarrow> VM_DecOperandRegI32 (l_regs l) code pc;
     (k, pc) \<leftarrow> VM_DecResultRegI32 (l_regs l) code pc;
     put_i32 l pc k (vm_select_f32 condition true_value false_value)
   }"

definition op_SelectI64 :: handler where
  "op_SelectI64 env code pc l = do {
     (condition, pc) \<leftarrow> VM_DecOperandRegI32 (l_regs l) code pc;
     (true_value, pc) \<leftarrow> VM_DecOperandRegI64 (l_regs l) code pc;
     (false_value, pc) \<leftarrow> VM_DecOperandRegI64 (l_regs l) code pc;
     (k, pc) \<leftarrow> VM_DecResultRegI64 (l_regs l) code pc;
     put_i64 l pc k (vm_select_i64 condition true_value false_value)
   }"

text \<open>Assigning one reference register to another, with the type check of the instruction.\<close>

definition assign_ref :: "bool \<Rightarrow> nat \<Rightarrow> nat \<Rightarrow> nat \<Rightarrow> vm_env \<Rightarrow> vm_local \<Rightarrow> (iree_status \<times> vm_local) option" where
  "assign_ref is_move i t j env l = do {
     (h, st, rs) \<leftarrow> retain_or_move_checked_at (ref_types env) is_move (l_heap l) (ref_bank (l_regs l)) i t j;
     Some (st, l\<lparr>l_heap := h, l_regs := (l_regs l)\<lparr>ref_bank := rs\<rparr>\<rparr>)
   }"

definition release_if :: "bool \<Rightarrow> nat \<Rightarrow> vm_env \<Rightarrow> vm_local \<Rightarrow> vm_local option" where
  "release_if is_move k env l =
    (if is_move then do {
       (h, rs) \<leftarrow> release_at (ref_types env) (l_heap l) (ref_bank (l_regs l)) k;
       Some (l\<lparr>l_heap := h, l_regs := (l_regs l)\<lparr>ref_bank := rs\<rparr>\<rparr>)
     } else Some l)"

definition op_SelectRef :: handler where
  "op_SelectRef env code pc l = do {
     (condition, pc) \<leftarrow> VM_DecOperandRegI32 (l_regs l) code pc;
     (t, pc) \<leftarrow> VM_DecTypeOf (module_types env) code pc;
     ((true_value, true_value_is_move), pc) \<leftarrow> VM_DecOperandRegRef (l_regs l) code pc;
     ((false_value, false_value_is_move), pc) \<leftarrow> VM_DecOperandRegRef (l_regs l) code pc;
     ((k, _), pc) \<leftarrow> VM_DecResultRegRef (l_regs l) code pc;
     if condition \<noteq> 0 then do {
       (st, l) \<leftarrow> assign_ref true_value_is_move true_value (def_ref_type t) k env l;
       if st \<noteq> IREE_STATUS_OK then Some (pc, l, st)
       else do { l \<leftarrow> release_if false_value_is_move false_value env l; Some (pc, l, IREE_STATUS_OK) }
     } else do {
       (st, l) \<leftarrow> assign_ref false_value_is_move false_value (def_ref_type t) k env l;
       if st \<noteq> IREE_STATUS_OK then Some (pc, l, st)
       else do { l \<leftarrow> release_if true_value_is_move true_value env l; Some (pc, l, IREE_STATUS_OK) }
     }
   }"

text \<open>The entry of a register list that an index selects; the list's size is 16 bits wide.\<close>

definition switch_entry :: "u32 \<Rightarrow> u16 list \<Rightarrow> u16 option" where
  "switch_entry index value_reg_list =
    (if sint index \<ge> 0 \<and> sint index < int (length value_reg_list) then Some (value_reg_list ! nat (sint index)) else None)"

definition op_SwitchI32 :: handler where
  "op_SwitchI32 env code pc l = do {
     (index, pc) \<leftarrow> VM_DecOperandRegI32 (l_regs l) code pc;
     (default_value, pc) \<leftarrow> VM_DecConstI32 code pc;
     (value_reg_list, pc) \<leftarrow> VM_DecVariadicOperands code pc;
     (k, pc) \<leftarrow> VM_DecResultRegI32 (l_regs l) code pc;
     (case switch_entry index value_reg_list of
        Some reg \<Rightarrow> do { v \<leftarrow> load_i32 (l_regs l) (i32_index (l_regs l) reg); put_i32 l pc k v }
      | None \<Rightarrow> put_i32 l pc k default_value)
   }"

text \<open>Reads the \<^verbatim>\<open>int32_t\<close> entry at the aligned index and widens it with its sign.\<close>

definition op_SwitchI64 :: handler where
  "op_SwitchI64 env code pc l = do {
     (index, pc) \<leftarrow> VM_DecOperandRegI32 (l_regs l) code pc;
     (default_value, pc) \<leftarrow> VM_DecConstI64 code pc;
     (value_reg_list, pc) \<leftarrow> VM_DecVariadicOperands code pc;
     (k, pc) \<leftarrow> VM_DecResultRegI64 (l_regs l) code pc;
     (case switch_entry index value_reg_list of
        Some reg \<Rightarrow> do { v \<leftarrow> load_i32 (l_regs l) (i64_index (l_regs l) reg); put_i64 l pc k (scast v) }
      | None \<Rightarrow> put_i64 l pc k default_value)
   }"

definition op_SwitchF32 :: handler where
  "op_SwitchF32 env code pc l = do {
     (index, pc) \<leftarrow> VM_DecOperandRegI32 (l_regs l) code pc;
     (default_value, pc) \<leftarrow> VM_DecConstI32 code pc;
     (value_reg_list, pc) \<leftarrow> VM_DecVariadicOperands code pc;
     (k, pc) \<leftarrow> VM_DecResultRegI32 (l_regs l) code pc;
     (case switch_entry index value_reg_list of
        Some reg \<Rightarrow> do { v \<leftarrow> load_i32 (l_regs l) (i64_index (l_regs l) reg); put_i32 l pc k v }
      | None \<Rightarrow> put_i32 l pc k default_value)
   }"

definition op_SwitchRef :: handler where
  "op_SwitchRef env code pc l = do {
     (index, pc) \<leftarrow> VM_DecOperandRegI32 (l_regs l) code pc;
     (t, pc) \<leftarrow> VM_DecTypeOf (module_types env) code pc;
     ((default_value, default_is_move), pc) \<leftarrow> VM_DecOperandRegRef (l_regs l) code pc;
     (value_reg_list, pc) \<leftarrow> VM_DecVariadicOperands code pc;
     ((k, _), pc) \<leftarrow> VM_DecResultRegRef (l_regs l) code pc;
     (st, l) \<leftarrow> (case switch_entry index value_reg_list of
        Some reg \<Rightarrow> assign_ref (is_move_reg reg) (ref_index (l_regs l) reg) (def_ref_type t) k env l
      | None \<Rightarrow> assign_ref default_is_move default_value (def_ref_type t) k env l);
     Some (pc, l, st)
   }"

section \<open>Arithmetic, conversions and comparisons\<close>

text \<open>The operator macros; an operator that is undefined for its operands is \<open>None\<close>.\<close>

definition core_unary_i32 :: "(u32 \<Rightarrow> u32) \<Rightarrow> handler" where
  "core_unary_i32 op_func env code pc l = do {
     (operand, pc) \<leftarrow> VM_DecOperandRegI32 (l_regs l) code pc;
     (k, pc) \<leftarrow> VM_DecResultRegI32 (l_regs l) code pc;
     put_i32 l pc k (op_func operand)
   }"

definition core_binary_i32 :: "(u32 \<Rightarrow> u32 \<Rightarrow> u32 option) \<Rightarrow> handler" where
  "core_binary_i32 op_func env code pc l = do {
     (lhs, pc) \<leftarrow> VM_DecOperandRegI32 (l_regs l) code pc;
     (rhs, pc) \<leftarrow> VM_DecOperandRegI32 (l_regs l) code pc;
     (k, pc) \<leftarrow> VM_DecResultRegI32 (l_regs l) code pc;
     v \<leftarrow> op_func lhs rhs;
     put_i32 l pc k v
   }"

definition core_shift_i32 :: "(u32 \<Rightarrow> u8 \<Rightarrow> u32 option) \<Rightarrow> handler" where
  "core_shift_i32 op_func env code pc l = do {
     (operand, pc) \<leftarrow> VM_DecOperandRegI32 (l_regs l) code pc;
     (amount, pc) \<leftarrow> VM_DecConstI8 code pc;
     (k, pc) \<leftarrow> VM_DecResultRegI32 (l_regs l) code pc;
     v \<leftarrow> op_func operand amount;
     put_i32 l pc k v
   }"

definition ext_unary_i64 :: "(u64 \<Rightarrow> u64) \<Rightarrow> handler" where
  "ext_unary_i64 op_func env code pc l = do {
     (operand, pc) \<leftarrow> VM_DecOperandRegI64 (l_regs l) code pc;
     (k, pc) \<leftarrow> VM_DecResultRegI64 (l_regs l) code pc;
     put_i64 l pc k (op_func operand)
   }"

definition ext_binary_i64 :: "(u64 \<Rightarrow> u64 \<Rightarrow> u64 option) \<Rightarrow> handler" where
  "ext_binary_i64 op_func env code pc l = do {
     (lhs, pc) \<leftarrow> VM_DecOperandRegI64 (l_regs l) code pc;
     (rhs, pc) \<leftarrow> VM_DecOperandRegI64 (l_regs l) code pc;
     (k, pc) \<leftarrow> VM_DecResultRegI64 (l_regs l) code pc;
     v \<leftarrow> op_func lhs rhs;
     put_i64 l pc k v
   }"

definition ext_shift_i64 :: "(u64 \<Rightarrow> u8 \<Rightarrow> u64 option) \<Rightarrow> handler" where
  "ext_shift_i64 op_func env code pc l = do {
     (operand, pc) \<leftarrow> VM_DecOperandRegI64 (l_regs l) code pc;
     (amount, pc) \<leftarrow> VM_DecConstI8 code pc;
     (k, pc) \<leftarrow> VM_DecResultRegI64 (l_regs l) code pc;
     v \<leftarrow> op_func operand amount;
     put_i64 l pc k v
   }"

definition ext_cmp_i64 :: "(u64 \<Rightarrow> u64 \<Rightarrow> u32) \<Rightarrow> handler" where
  "ext_cmp_i64 op_func env code pc l = do {
     (lhs, pc) \<leftarrow> VM_DecOperandRegI64 (l_regs l) code pc;
     (rhs, pc) \<leftarrow> VM_DecOperandRegI64 (l_regs l) code pc;
     (k, pc) \<leftarrow> VM_DecResultRegI32 (l_regs l) code pc;
     put_i32 l pc k (op_func lhs rhs)
   }"

definition op_TruncI64I32 :: handler where
  "op_TruncI64I32 env code pc l = do {
     (operand, pc) \<leftarrow> VM_DecOperandRegI64 (l_regs l) code pc;
     (k, pc) \<leftarrow> VM_DecResultRegI32 (l_regs l) code pc;
     put_i32 l pc k (vm_trunc_i64i32 operand)
   }"

definition ext_i32_i64 :: "(u32 \<Rightarrow> u64) \<Rightarrow> handler" where
  "ext_i32_i64 op_func env code pc l = do {
     (operand, pc) \<leftarrow> VM_DecOperandRegI32 (l_regs l) code pc;
     (k, pc) \<leftarrow> VM_DecResultRegI64 (l_regs l) code pc;
     put_i64 l pc k (op_func operand)
   }"

definition op_ExtI32I64S :: handler where "op_ExtI32I64S = ext_i32_i64 vm_ext_i32i64s"
definition op_ExtI32I64U :: handler where "op_ExtI32I64U = ext_i32_i64 vm_ext_i32i64u"

definition op_CmpNZI64 :: handler where
  "op_CmpNZI64 env code pc l = do {
     (operand, pc) \<leftarrow> VM_DecOperandRegI64 (l_regs l) code pc;
     (k, pc) \<leftarrow> VM_DecResultRegI32 (l_regs l) code pc;
     put_i32 l pc k (vm_cmp_nz_i64 operand)
   }"

text \<open>A \<open>float\<close> register is the 32-bit register with the same ordinal.\<close>

definition ext_unary_f32 :: "(fp_env \<Rightarrow> u32 \<Rightarrow> u32) \<Rightarrow> handler" where
  "ext_unary_f32 op_func env code pc l = do {
     (operand, pc) \<leftarrow> VM_DecOperandRegI32 (l_regs l) code pc;
     (k, pc) \<leftarrow> VM_DecResultRegI32 (l_regs l) code pc;
     put_i32 l pc k (op_func (fp_ops env) operand)
   }"

definition ext_binary_f32 :: "(fp_env \<Rightarrow> u32 \<Rightarrow> u32 \<Rightarrow> u32) \<Rightarrow> handler" where
  "ext_binary_f32 op_func env code pc l = do {
     (lhs, pc) \<leftarrow> VM_DecOperandRegI32 (l_regs l) code pc;
     (rhs, pc) \<leftarrow> VM_DecOperandRegI32 (l_regs l) code pc;
     (k, pc) \<leftarrow> VM_DecResultRegI32 (l_regs l) code pc;
     put_i32 l pc k (op_func (fp_ops env) lhs rhs)
   }"

definition ext_cmp_f32 :: "(u32 \<Rightarrow> u32 \<Rightarrow> u32) \<Rightarrow> handler" where
  "ext_cmp_f32 op_func env code pc l = do {
     (lhs, pc) \<leftarrow> VM_DecOperandRegI32 (l_regs l) code pc;
     (rhs, pc) \<leftarrow> VM_DecOperandRegI32 (l_regs l) code pc;
     (k, pc) \<leftarrow> VM_DecResultRegI32 (l_regs l) code pc;
     put_i32 l pc k (op_func lhs rhs)
   }"

definition ext_round_f32 :: "u8 \<Rightarrow> handler" where
  "ext_round_f32 opcode env code pc l = do {
     (operand, pc) \<leftarrow> VM_DecOperandRegI32 (l_regs l) code pc;
     (k, pc) \<leftarrow> VM_DecResultRegI32 (l_regs l) code pc;
     v \<leftarrow> fp_round_to_int (fp_ops env) opcode operand;
     put_i32 l pc k v
   }"

definition op_CmpNaNF32 :: handler where "op_CmpNaNF32 = core_unary_i32 vm_cmp_nan_f32"
definition op_GlobalLoadF32 :: handler where "op_GlobalLoadF32 = with_global_attr load_global_i32"
definition op_GlobalStoreF32 :: handler where "op_GlobalStoreF32 = with_global_attr store_global_i32"
definition op_GlobalLoadIndirectF32 :: handler where "op_GlobalLoadIndirectF32 = with_global_reg load_global_i32"
definition op_GlobalStoreIndirectF32 :: handler where "op_GlobalStoreIndirectF32 = with_global_reg store_global_i32"
definition op_ConstF32 :: handler where "op_ConstF32 = op_ConstI32"
definition op_ConstF32Zero :: handler where "op_ConstF32Zero = op_ConstI32Zero"
definition op_BufferFillF32 :: handler where "op_BufferFillF32 = buffer_fill 4"
definition op_BufferLoadF32 :: handler where "op_BufferLoadF32 = buffer_load_i32 4 id"
definition op_BufferStoreF32 :: handler where "op_BufferStoreF32 = buffer_store 4"

text \<open>Comparisons of references; operands that are moved are released after the comparison.\<close>

definition cmp_refs :: "(bool \<Rightarrow> bool) \<Rightarrow> handler" where
  "cmp_refs f env code pc l = do {
     ((lhs, lhs_is_move), pc) \<leftarrow> VM_DecOperandRegRef (l_regs l) code pc;
     ((rhs, rhs_is_move), pc) \<leftarrow> VM_DecOperandRegRef (l_regs l) code pc;
     (k, pc) \<leftarrow> VM_DecResultRegI32 (l_regs l) code pc;
     a \<leftarrow> load_ref (l_regs l) lhs;
     b \<leftarrow> load_ref (l_regs l) rhs;
     regs \<leftarrow> store_i32 (l_regs l) k (if f (iree_vm_ref_equal a b) then 1 else 0);
     l \<leftarrow> release_if lhs_is_move lhs env (l\<lparr>l_regs := regs\<rparr>);
     l \<leftarrow> release_if rhs_is_move rhs env l;
     Some (pc, l, IREE_STATUS_OK)
   }"

definition op_CmpEQRef :: handler where "op_CmpEQRef = cmp_refs (\<lambda>b. b)"
definition op_CmpNERef :: handler where "op_CmpNERef = cmp_refs (\<lambda>b. \<not> b)"

definition op_CmpNZRef :: handler where
  "op_CmpNZRef env code pc l = do {
     ((operand, operand_is_move), pc) \<leftarrow> VM_DecOperandRegRef (l_regs l) code pc;
     (k, pc) \<leftarrow> VM_DecResultRegI32 (l_regs l) code pc;
     a \<leftarrow> load_ref (l_regs l) operand;
     regs \<leftarrow> store_i32 (l_regs l) k (if ref_ptr a \<noteq> None then 1 else 0);
     l \<leftarrow> release_if operand_is_move operand env (l\<lparr>l_regs := regs\<rparr>);
     Some (pc, l, IREE_STATUS_OK)
   }"

section \<open>Dispatch tables\<close>

text \<open>
  The entries of the three tables for the handlers above; control flow is in the dispatch loop. An
  opcode with no entry is answered with \<open>IREE_STATUS_UNIMPLEMENTED\<close>.
\<close>

definition core_table :: "(u8 \<times> handler) list" where
  "core_table = [
     (0x00, op_GlobalLoadI32),
     (0x01, op_GlobalStoreI32),
     (0x02, op_GlobalLoadIndirectI32),
     (0x03, op_GlobalStoreIndirectI32),
     (0x04, op_GlobalLoadRef),
     (0x05, op_GlobalStoreRef),
     (0x06, op_GlobalLoadIndirectRef),
     (0x07, op_GlobalStoreIndirectRef),
     (0x08, op_ConstI32Zero),
     (0x09, op_ConstI32),
     (0x0A, op_ConstRefZero),
     (0x0B, op_ConstRefRodata),
     (0x10, op_ListAlloc),
     (0x11, op_ListReserve),
     (0x12, op_ListSize),
     (0x13, op_ListResize),
     (0x14, op_ListGetI32),
     (0x15, op_ListSetI32),
     (0x16, op_ListGetRef),
     (0x17, op_ListSetRef),
     (0x1E, op_SelectI32),
     (0x1F, op_SelectRef),
     (0x20, op_SwitchI32),
     (0x21, op_SwitchRef),
     (0x22, core_binary_i32 (\<lambda>a b. Some (vm_add_i32 a b))),
     (0x23, core_binary_i32 (\<lambda>a b. Some (vm_sub_i32 a b))),
     (0x24, core_binary_i32 (\<lambda>a b. Some (vm_mul_i32 a b))),
     (0x25, core_binary_i32 vm_div_i32s),
     (0x26, core_binary_i32 vm_div_i32u),
     (0x27, core_binary_i32 vm_rem_i32s),
     (0x28, core_binary_i32 vm_rem_i32u),
     (0x29, core_unary_i32 vm_not_i32),
     (0x2A, core_binary_i32 (\<lambda>a b. Some (vm_and_i32 a b))),
     (0x2B, core_binary_i32 (\<lambda>a b. Some (vm_or_i32 a b))),
     (0x2C, core_binary_i32 (\<lambda>a b. Some (vm_xor_i32 a b))),
     (0x2D, core_shift_i32 vm_shl_i32),
     (0x2E, core_shift_i32 vm_shr_i32s),
     (0x2F, core_shift_i32 vm_shr_i32u),
     (0x31, core_unary_i32 vm_trunc_i32i8),
     (0x32, core_unary_i32 vm_trunc_i32i16),
     (0x33, core_unary_i32 vm_ext_i8i32s),
     (0x34, core_unary_i32 vm_ext_i8i32u),
     (0x35, core_unary_i32 vm_ext_i16i32s),
     (0x36, core_unary_i32 vm_ext_i16i32u),
     (0x40, core_binary_i32 (\<lambda>a b. Some (vm_cmp_eq_i32 a b))),
     (0x41, core_binary_i32 (\<lambda>a b. Some (vm_cmp_ne_i32 a b))),
     (0x42, core_binary_i32 (\<lambda>a b. Some (vm_cmp_lt_i32s a b))),
     (0x43, core_binary_i32 (\<lambda>a b. Some (vm_cmp_lt_i32u a b))),
     (0x4A, op_CmpEQRef),
     (0x4B, op_CmpNERef),
     (0x4C, op_CmpNZRef),
     (0x4D, core_unary_i32 vm_cmp_nz_i32),
     (0xB0, op_BufferLoadI8U),
     (0xB1, op_BufferLoadI16U),
     (0xB3, op_BufferLoadI32),
     (0xB4, op_BufferLoadI8S),
     (0xB5, op_BufferLoadI16S),
     (0xB8, op_BufferStoreI8),
     (0xB9, op_BufferStoreI16),
     (0xBB, op_BufferStoreI32),
     (0xC0, op_BufferAlloc),
     (0xC1, op_BufferClone),
     (0xC2, op_BufferLength),
     (0xC6, op_BufferCopy),
     (0xC7, op_BufferCompare),
     (0xCC, op_BufferFillI8),
     (0xCD, op_BufferFillI16),
     (0xCF, op_BufferFillI32)]"

definition ext_i64_table :: "(u8 \<times> handler) list" where
  "ext_i64_table = [
     (0x00, op_GlobalLoadI64),
     (0x01, op_GlobalStoreI64),
     (0x02, op_GlobalLoadIndirectI64),
     (0x03, op_GlobalStoreIndirectI64),
     (0x08, op_ConstI64Zero),
     (0x09, op_ConstI64),
     (0x14, op_ListGetI64),
     (0x15, op_ListSetI64),
     (0x1E, op_SelectI64),
     (0x20, op_SwitchI64),
     (0x22, ext_binary_i64 (\<lambda>a b. Some (vm_add_i64 a b))),
     (0x23, ext_binary_i64 (\<lambda>a b. Some (vm_sub_i64 a b))),
     (0x24, ext_binary_i64 (\<lambda>a b. Some (vm_mul_i64 a b))),
     (0x25, ext_binary_i64 vm_div_i64s),
     (0x26, ext_binary_i64 vm_div_i64u),
     (0x27, ext_binary_i64 vm_rem_i64s),
     (0x28, ext_binary_i64 vm_rem_i64u),
     (0x29, ext_unary_i64 vm_not_i64),
     (0x2A, ext_binary_i64 (\<lambda>a b. Some (vm_and_i64 a b))),
     (0x2B, ext_binary_i64 (\<lambda>a b. Some (vm_or_i64 a b))),
     (0x2C, ext_binary_i64 (\<lambda>a b. Some (vm_xor_i64 a b))),
     (0x2D, ext_shift_i64 vm_shl_i64),
     (0x2E, ext_shift_i64 vm_shr_i64s),
     (0x2F, ext_shift_i64 vm_shr_i64u),
     (0x32, op_TruncI64I32),
     (0x37, op_ExtI32I64S),
     (0x38, op_ExtI32I64U),
     (0x40, ext_cmp_i64 vm_cmp_eq_i64),
     (0x41, ext_cmp_i64 vm_cmp_ne_i64),
     (0x42, ext_cmp_i64 vm_cmp_lt_i64s),
     (0x43, ext_cmp_i64 vm_cmp_lt_i64u),
     (0x4D, op_CmpNZI64),
     (0xB0, op_BufferLoadI64),
     (0xB1, op_BufferStoreI64),
     (0xC0, op_BufferFillI64)]"

definition ext_f32_table :: "(u8 \<times> handler) list" where
  "ext_f32_table = [
     (0x00, op_GlobalLoadF32),
     (0x01, op_GlobalStoreF32),
     (0x02, op_GlobalLoadIndirectF32),
     (0x03, op_GlobalStoreIndirectF32),
     (0x08, op_ConstF32Zero),
     (0x09, op_ConstF32),
     (0x14, op_ListGetF32),
     (0x15, op_ListSetF32),
     (0x1E, op_SelectF32),
     (0x20, op_SwitchF32),
     (0x22, ext_binary_f32 (\<lambda>fp. fp_binary fp 0x22)),
     (0x23, ext_binary_f32 (\<lambda>fp. fp_binary fp 0x23)),
     (0x24, ext_binary_f32 (\<lambda>fp. fp_binary fp 0x24)),
     (0x25, ext_binary_f32 (\<lambda>fp. fp_binary fp 0x25)),
     (0x26, ext_binary_f32 (\<lambda>fp. fp_binary fp 0x26)),
     (0x27, ext_unary_f32 (\<lambda>_. vm_abs_f32)),
     (0x28, ext_unary_f32 (\<lambda>_. vm_neg_f32)),
     (0x29, ext_unary_f32 (\<lambda>fp. fp_unary fp 0x29)),
     (0x2A, ext_unary_f32 (\<lambda>fp. fp_unary fp 0x2A)),
     (0x30, ext_unary_f32 (\<lambda>fp. fp_unary fp 0x30)),
     (0x31, ext_unary_f32 (\<lambda>fp. fp_unary fp 0x31)),
     (0x32, ext_round_f32 0x32),
     (0x33, ext_round_f32 0x33),
     (0x40, ext_unary_f32 (\<lambda>fp. fp_unary fp 0x40)),
     (0x41, ext_binary_f32 (\<lambda>fp. fp_binary fp 0x41)),
     (0x42, ext_unary_f32 (\<lambda>fp. fp_unary fp 0x42)),
     (0x43, ext_unary_f32 (\<lambda>fp. fp_unary fp 0x43)),
     (0x44, ext_unary_f32 (\<lambda>fp. fp_unary fp 0x44)),
     (0x45, ext_unary_f32 (\<lambda>fp. fp_unary fp 0x45)),
     (0x46, ext_unary_f32 (\<lambda>fp. fp_unary fp 0x46)),
     (0x47, ext_unary_f32 (\<lambda>fp. fp_unary fp 0x47)),
     (0x48, ext_unary_f32 (\<lambda>fp. fp_unary fp 0x48)),
     (0x49, ext_unary_f32 (\<lambda>fp. fp_unary fp 0x49)),
     (0x4A, ext_unary_f32 (\<lambda>fp. fp_unary fp 0x4A)),
     (0x4B, ext_binary_f32 (\<lambda>fp. fp_binary fp 0x4B)),
     (0x4C, ext_unary_f32 (\<lambda>fp. fp_unary fp 0x4C)),
     (0x4D, ext_unary_f32 (\<lambda>fp. fp_unary fp 0x4D)),
     (0x4E, ext_unary_f32 (\<lambda>fp. fp_unary fp 0x4E)),
     (0x60, ext_cmp_f32 vm_cmp_eq_f32o),
     (0x61, ext_cmp_f32 vm_cmp_eq_f32u),
     (0x62, ext_cmp_f32 vm_cmp_ne_f32o),
     (0x63, ext_cmp_f32 vm_cmp_ne_f32u),
     (0x64, ext_cmp_f32 vm_cmp_lt_f32o),
     (0x65, ext_cmp_f32 vm_cmp_lt_f32u),
     (0x66, ext_cmp_f32 vm_cmp_lte_f32o),
     (0x67, ext_cmp_f32 vm_cmp_lte_f32u),
     (0x70, op_CmpNaNF32),
     (0xB0, op_BufferLoadF32),
     (0xB1, op_BufferStoreF32),
     (0xC0, op_BufferFillF32)]"


definition run_handler :: "(u8 \<times> handler) list \<Rightarrow> u8 \<Rightarrow> handler" where
  "run_handler table opcode env code pc l = (case map_of table opcode of
      Some hdl \<Rightarrow> hdl env code pc l
    | None \<Rightarrow> Some (pc, l, IREE_STATUS_UNIMPLEMENTED))"

end
