(* ===== verification/VM_Safety.thy ===== *)
theory VM_Safety
  imports VM_Handlers
begin

text \<open>
  Memory safety of the handlers. Every handler of the dispatch tables keeps the accounting of the
  reference counters and the shape of the register file, for any bytecode; and every handler but a
  few named ones is defined in every state that satisfies the invariant, so no bytecode makes it
  touch memory it does not own.
\<close>

section \<open>Weakest preconditions\<close>

text \<open>
  \<open>wp U m Q\<close>: the computation \<open>m\<close> either has undefined behaviour and \<open>U\<close> allows it, or its result
  satisfies \<open>Q\<close>.
\<close>

named_theorems wp_intros \<open>rules that step through a handler\<close>

definition wp :: "bool \<Rightarrow> 'a option \<Rightarrow> ('a \<Rightarrow> bool) \<Rightarrow> bool" where
  "wp U m Q \<longleftrightarrow> (case m of None \<Rightarrow> U | Some x \<Rightarrow> Q x)"

lemma wp_Some [simp]: "wp U (Some x) Q \<longleftrightarrow> Q x"
  by (simp add: wp_def)

lemma wp_bind [wp_intros]: "wp U m (\<lambda>x. wp U (f x) Q) \<Longrightarrow> wp U (Option.bind m f) Q"
  by (cases m) (simp_all add: wp_def)

lemma wp_map_option [wp_intros]: "wp U m (\<lambda>x. Q (f x)) \<Longrightarrow> wp U (map_option f m) Q"
  by (cases m) (simp_all add: wp_def)

lemma wp_if [wp_intros]: "(b \<Longrightarrow> wp U m Q) \<Longrightarrow> (\<not> b \<Longrightarrow> wp U n Q) \<Longrightarrow> wp U (if b then m else n) Q"
  by simp

lemma wp_case_option [wp_intros]:
  "(x = None \<Longrightarrow> wp U m Q) \<Longrightarrow> (\<And>y. x = Some y \<Longrightarrow> wp U (n y) Q) \<Longrightarrow> wp U (case x of None \<Rightarrow> m | Some y \<Rightarrow> n y) Q"
  by (cases x) simp_all

lemma wp_mono: "wp U m Q \<Longrightarrow> (\<And>x. Q x \<Longrightarrow> Q' x) \<Longrightarrow> wp U m Q'"
  by (cases m) (simp_all add: wp_def)

lemma wp_weaken: "wp U m Q \<Longrightarrow> (U \<Longrightarrow> U') \<Longrightarrow> wp U' m Q"
  by (cases m) (simp_all add: wp_def)

lemma wpI: "m = Some x \<Longrightarrow> Q x \<Longrightarrow> wp U m Q"
  by (simp add: wp_def)

lemma wp_undefined: "(\<And>x. m = Some x \<Longrightarrow> Q x) \<Longrightarrow> U \<Longrightarrow> wp U m Q"
  by (cases m) (simp_all add: wp_def)

section \<open>Decoding\<close>

text \<open>Reading an operand is undefined only where the bytecode ends.\<close>

definition code_ends :: "bytecode \<Rightarrow> bool" where "code_ends code \<longleftrightarrow> (\<exists>i. code i = None)"

lemma read_code_ends: "read_code code pc n = None \<Longrightarrow> code_ends code"
  by (induction n arbitrary: pc) (auto simp: code_ends_def bind_eq_None_conv)

lemma OP_I16_ends: "OP_I16 code pc = None \<Longrightarrow> code_ends code"
  by (auto simp: OP_I16_def intro: read_code_ends)

lemma read_regs_ends: "read_regs code pc n = None \<Longrightarrow> code_ends code"
  by (induction n arbitrary: pc) (auto dest: OP_I16_ends simp: bind_eq_None_conv)

lemma read_pairs_ends: "read_pairs code pc n = None \<Longrightarrow> code_ends code"
  by (induction n arbitrary: pc) (auto dest: OP_I16_ends simp: bind_eq_None_conv)

lemma wp_ends: "(m = None \<Longrightarrow> code_ends code) \<Longrightarrow> (code_ends code \<Longrightarrow> U) \<Longrightarrow> (\<And>x. m = Some x \<Longrightarrow> Q x) \<Longrightarrow> wp U m Q"
  by (cases m) (simp_all add: wp_def)

lemma wp_DecConstI8 [wp_intros]:
  "(\<And>v pc. Q (v, pc)) \<Longrightarrow> (code_ends code \<Longrightarrow> U) \<Longrightarrow> wp U (VM_DecConstI8 code pc) Q"
  by (rule wp_ends [of _ code]) (auto simp: VM_DecConstI8_def OP_I8_def code_ends_def)

lemma wp_DecConstI32 [wp_intros]:
  "(\<And>v pc. Q (v, pc)) \<Longrightarrow> (code_ends code \<Longrightarrow> U) \<Longrightarrow> wp U (VM_DecConstI32 code pc) Q"
  by (rule wp_ends [of _ code]) (auto simp: VM_DecConstI32_def OP_I32_def intro: read_code_ends)

lemma wp_DecConstI64 [wp_intros]:
  "(\<And>v pc. Q (v, pc)) \<Longrightarrow> (code_ends code \<Longrightarrow> U) \<Longrightarrow> wp U (VM_DecConstI64 code pc) Q"
  by (rule wp_ends [of _ code]) (auto simp: VM_DecConstI64_def OP_I64_def intro: read_code_ends)

lemma wp_DecReg [wp_intros]:
  "(\<And>v pc. Q (v, pc)) \<Longrightarrow> (code_ends code \<Longrightarrow> U) \<Longrightarrow> wp U (VM_DecReg code pc) Q"
  by (rule wp_ends [of _ code]) (auto simp: VM_DecReg_def intro: OP_I16_ends)

lemma wp_DecOperandRegI32 [wp_intros]:
  "regs_wf regs \<Longrightarrow> (\<And>v pc. Q (v, pc)) \<Longrightarrow> (code_ends code \<Longrightarrow> U) \<Longrightarrow> wp U (VM_DecOperandRegI32 regs code pc) Q"
  unfolding VM_DecOperandRegI32_def by (intro wp_bind wp_DecReg) (simp_all add: load_store_simps)

lemma wp_load_i64 [wp_intros]: "Suc k < length (i32_bank regs) \<Longrightarrow> (\<And>v. Q v) \<Longrightarrow> wp U (load_i64 regs k) Q"
  by (simp add: load_i64_def)

lemma wp_DecOperandRegI64 [wp_intros]:
  "regs_wf regs \<Longrightarrow> (\<And>v pc. Q (v, pc)) \<Longrightarrow> (code_ends code \<Longrightarrow> U) \<Longrightarrow> wp U (VM_DecOperandRegI64 regs code pc) Q"
  unfolding VM_DecOperandRegI64_def
  by (intro wp_bind wp_DecReg) (auto intro!: wp_bind wp_load_i64 simp: i64_index_bound)

lemma wp_DecResultRegI32 [wp_intros]:
  "regs_wf regs \<Longrightarrow> (\<And>k pc. k < length (i32_bank regs) \<Longrightarrow> Q (k, pc)) \<Longrightarrow> (code_ends code \<Longrightarrow> U) \<Longrightarrow>
    wp U (VM_DecResultRegI32 regs code pc) Q"
  unfolding VM_DecResultRegI32_def by (intro wp_intros) (simp_all add: i32_index_bound)

lemma wp_DecResultRegI64 [wp_intros]:
  "regs_wf regs \<Longrightarrow> (\<And>k pc. Suc k < length (i32_bank regs) \<Longrightarrow> Q (k, pc)) \<Longrightarrow> (code_ends code \<Longrightarrow> U) \<Longrightarrow>
    wp U (VM_DecResultRegI64 regs code pc) Q"
  unfolding VM_DecResultRegI64_def by (intro wp_intros) (simp_all add: i64_index_bound)

lemma wp_DecOperandRegRef [wp_intros]:
  "regs_wf regs \<Longrightarrow> (\<And>k mv pc. k < length (ref_bank regs) \<Longrightarrow> Q ((k, mv), pc)) \<Longrightarrow> (code_ends code \<Longrightarrow> U) \<Longrightarrow>
    wp U (VM_DecOperandRegRef regs code pc) Q"
  unfolding VM_DecOperandRegRef_def by (intro wp_intros) (simp_all add: ref_index_bound)

lemma wp_DecResultRegRef [wp_intros]:
  "regs_wf regs \<Longrightarrow> (\<And>k mv pc. k < length (ref_bank regs) \<Longrightarrow> Q ((k, mv), pc)) \<Longrightarrow> (code_ends code \<Longrightarrow> U) \<Longrightarrow>
    wp U (VM_DecResultRegRef regs code pc) Q"
  unfolding VM_DecResultRegRef_def by (intro wp_intros) (simp_all add: ref_index_bound)

lemma wp_DecVariadicOperands [wp_intros]:
  "(\<And>v pc. Q (v, pc)) \<Longrightarrow> (code_ends code \<Longrightarrow> U) \<Longrightarrow> wp U (VM_DecVariadicOperands code pc) Q"
  by (rule wp_ends [of _ code])
    (auto simp: VM_DecVariadicOperands_def bind_eq_None_conv bind_eq_Some_conv intro: OP_I16_ends read_regs_ends)

lemma wp_DecBranchOperands [wp_intros]:
  "(\<And>v pc. Q (v, pc)) \<Longrightarrow> (code_ends code \<Longrightarrow> U) \<Longrightarrow> wp U (VM_DecBranchOperands code pc) Q"
  by (rule wp_ends [of _ code])
    (auto simp: VM_DecBranchOperands_def bind_eq_None_conv bind_eq_Some_conv intro: OP_I16_ends read_pairs_ends)

lemma wp_DecStrAttr [wp_intros]:
  "(\<And>pc. Q pc) \<Longrightarrow> (code_ends code \<Longrightarrow> U) \<Longrightarrow> wp U (VM_DecStrAttr code pc) Q"
  by (rule wp_ends [of _ code]) (auto simp: VM_DecStrAttr_def intro: OP_I16_ends)

lemma wp_DecTypeOf [wp_intros]:
  "types \<noteq> [] \<Longrightarrow> (\<And>t pc. Q (t, pc)) \<Longrightarrow> (code_ends code \<Longrightarrow> U) \<Longrightarrow> wp U (VM_DecTypeOf types code pc) Q"
  by (rule wp_ends [of _ code])
    (auto simp: VM_DecTypeOf_def OP_I32_def iree_vm_map_type_def bind_eq_None_conv Let_def split: if_splits intro: read_code_ends)

lemma wp_put_i32 [wp_intros]:
  "k < length (i32_bank (l_regs l)) \<Longrightarrow> Q (pc, l\<lparr>l_regs := (l_regs l)\<lparr>i32_bank := (i32_bank (l_regs l))[k := v]\<rparr>\<rparr>, IREE_STATUS_OK) \<Longrightarrow>
    wp U (put_i32 l pc k v) Q"
  by (simp add: put_i32_def store_i32_def)

lemma wp_put_i64 [wp_intros]:
  "Suc k < length (i32_bank (l_regs l)) \<Longrightarrow>
    Q (pc, l\<lparr>l_regs := (l_regs l)\<lparr>i32_bank := (i32_bank (l_regs l))[k := ucast v, Suc k := ucast (drop_bit 32 v)]\<rparr>\<rparr>, IREE_STATUS_OK) \<Longrightarrow>
    wp U (put_i64 l pc k v) Q"
  by (simp add: put_i64_def store_i64_def)

lemma wp_load_i32 [wp_intros]: "k < length (i32_bank regs) \<Longrightarrow> Q (i32_bank regs ! k) \<Longrightarrow> wp U (load_i32 regs k) Q"
  by (simp add: load_i32_def)

lemma wp_load_ref [wp_intros]: "k < length (ref_bank regs) \<Longrightarrow> Q (ref_bank regs ! k) \<Longrightarrow> wp U (load_ref regs k) Q"
  by (simp add: load_ref_def)

lemma wp_store_ref [wp_intros]:
  "k < length (ref_bank regs) \<Longrightarrow> Q (regs\<lparr>ref_bank := (ref_bank regs)[k := r]\<rparr>) \<Longrightarrow> wp U (store_ref regs k r) Q"
  by (simp add: store_ref_def)

section \<open>The invariant\<close>

text \<open>
  The references held by the registers and the globals, and \<open>F\<close>, those held elsewhere (other frames,
  the module, the host), account for every counter of the store.
\<close>

definition local_ok :: "vm_env \<Rightarrow> iree_vm_ref multiset \<Rightarrow> vm_local \<Rightarrow> bool" where
  "local_ok env F l \<longleftrightarrow> regs_wf (l_regs l) \<and>
    heap_ok (ref_types env) (l_heap l) (mset (ref_bank (l_regs l)) + (mset (l_globals l) + F))"

definition object_ref :: "nat \<Rightarrow> nat \<Rightarrow> iree_vm_ref" where
  "object_ref t p = \<lparr>ref_ptr = Some p, ref_offsetof_counter = 0, ref_type = t\<rparr>"

text \<open>
  The VM's own types are registered, the module has a type, and the module holds a reference to each of
  its rodata buffers.
\<close>

definition env_ok :: "vm_env \<Rightarrow> iree_vm_ref multiset \<Rightarrow> bool" where
  "env_ok env F \<longleftrightarrow>
    module_types env \<noteq> [] \<and>
    (\<exists>td. iree_vm_ref_get_type_descriptor (ref_types env) (buffer_type_id env) = Some td
       \<and> td_destroy td = DestroyBuffer \<and> td_offsetof_counter td = 0) \<and> buffer_type_id env \<noteq> 0 \<and>
    (\<exists>td. iree_vm_ref_get_type_descriptor (ref_types env) (list_type_id env) = Some td
       \<and> td_destroy td = DestroyList \<and> td_offsetof_counter td = 0) \<and> list_type_id env \<noteq> 0 \<and>
    (\<forall>p \<in> set (rodata_refs env). object_ref (buffer_type_id env) p \<in># F)"

text \<open>
  What a handler keeps: the invariant, up to references \<open>L\<close> that it leaks, and the sizes of the
  arrays.
\<close>

definition kept :: "vm_env \<Rightarrow> iree_vm_ref multiset \<Rightarrow> vm_local \<Rightarrow> vm_local \<Rightarrow> bool" where
  "kept env F l l' \<longleftrightarrow> (\<exists>L. local_ok env (L + F) l')
    \<and> length (i32_bank (l_regs l')) = length (i32_bank (l_regs l))
    \<and> length (ref_bank (l_regs l')) = length (ref_bank (l_regs l))
    \<and> length (l_globals l') = length (l_globals l) \<and> length (l_rwdata l') = length (l_rwdata l)"

text \<open>
  A handler that is \<open>handler_ok False\<close> is defined in every state that satisfies the invariant, for
  every bytecode that does not end; one that is \<open>handler_ok True\<close> keeps the invariant when it is
  defined.
\<close>

definition handler_ok :: "bool \<Rightarrow> handler \<Rightarrow> bool" where
  "handler_ok may_fail hdl \<longleftrightarrow> (\<forall>env code pc l F. env_ok env F \<longrightarrow> local_ok env F l \<longrightarrow>
    wp (may_fail \<or> code_ends code) (hdl env code pc l) (\<lambda>(pc', l', st). kept env F l l'))"

lemma env_ok_types: "env_ok env F \<Longrightarrow> module_types env \<noteq> []"
  by (simp add: env_ok_def)

lemma handler_okI:
  "(\<And>env code pc l F. env_ok env F \<Longrightarrow> local_ok env F l \<Longrightarrow>
    wp (may_fail \<or> code_ends code) (hdl env code pc l) (\<lambda>(pc', l', st). kept env F l l')) \<Longrightarrow> handler_ok may_fail hdl"
  by (simp add: handler_ok_def)

lemma handler_ok_weaken: "handler_ok False hdl \<Longrightarrow> handler_ok b hdl"
  unfolding handler_ok_def by (blast intro: wp_weaken)

lemma local_ok_regs: "local_ok env F l \<Longrightarrow> regs_wf (l_regs l)"
  by (simp add: local_ok_def)

lemma kept_refl [simp]: "local_ok env F l \<Longrightarrow> kept env F l l"
  by (auto simp: kept_def intro: exI [of _ "{#}"])

lemma kept_i32 [simp]:
  "local_ok env F l \<Longrightarrow> length vs = length (i32_bank (l_regs l)) \<Longrightarrow> kept env F l (l\<lparr>l_regs := (l_regs l)\<lparr>i32_bank := vs\<rparr>\<rparr>)"
  by (auto simp: kept_def local_ok_def intro!: exI [of _ "{#}"])

lemma kept_rwdata [simp]:
  "local_ok env F l \<Longrightarrow> length d = length (l_rwdata l) \<Longrightarrow> kept env F l (l\<lparr>l_rwdata := d\<rparr>)"
  by (auto simp: kept_def local_ok_def intro!: exI [of _ "{#}"])

subsection \<open>Arithmetic\<close>

text \<open>Arithmetic is undefined only where the operator is.\<close>

lemma wp_operator: "(\<And>v. Q v) \<Longrightarrow> (\<not> U \<Longrightarrow> m \<noteq> None) \<Longrightarrow> wp U m Q"
  by (cases m) (auto simp: wp_def)

lemma arithmetic_ok:
  "handler_ok b (core_unary_i32 f)" "handler_ok b (ext_unary_i64 f6)" "handler_ok b (ext_cmp_i64 c6)"
  "handler_ok b op_TruncI64I32" "handler_ok b (ext_i32_i64 w)" "handler_ok b op_CmpNZI64"
  "handler_ok b (ext_unary_f32 f3)" "handler_ok b (ext_binary_f32 g3)" "handler_ok b (ext_cmp_f32 c3)"
  by (rule handler_okI, auto simp: core_unary_i32_def ext_unary_i64_def ext_cmp_i64_def op_TruncI64I32_def
      ext_i32_i64_def op_CmpNZI64_def ext_unary_f32_def ext_binary_f32_def ext_cmp_f32_def
      dest: local_ok_regs intro!: wp_intros)+

lemma operator_ok:
  "(\<And>x y. b \<or> g x y \<noteq> None) \<Longrightarrow> handler_ok b (core_binary_i32 g)"
  "(\<And>x y. b \<or> s x y \<noteq> None) \<Longrightarrow> handler_ok b (core_shift_i32 s)"
  "(\<And>x y. b \<or> g6 x y \<noteq> None) \<Longrightarrow> handler_ok b (ext_binary_i64 g6)"
  "(\<And>x y. b \<or> s6 x y \<noteq> None) \<Longrightarrow> handler_ok b (ext_shift_i64 s6)"
  "handler_ok True (ext_round_f32 r3)"
  by (rule handler_okI, auto simp: core_binary_i32_def core_shift_i32_def ext_binary_i64_def ext_shift_i64_def ext_round_f32_def
      dest: local_ok_regs
      intro!: wp_intros wp_operator [where m = "g x y" for x y] wp_operator [where m = "s x y" for x y]
        wp_operator [where m = "g6 x y" for x y] wp_operator [where m = "s6 x y" for x y]
        wp_operator [where m = "fp_round_to_int fp x y" for fp x y])+

lemma select_switch_ok:
  "handler_ok b op_SelectI32" "handler_ok b op_SelectF32" "handler_ok b op_SelectI64"
  "handler_ok b op_SwitchI32" "handler_ok b op_SwitchF32" "handler_ok b op_SwitchI64"
  by (rule handler_okI, auto simp: op_SelectI32_def op_SelectF32_def op_SelectI64_def op_SwitchI32_def op_SwitchF32_def op_SwitchI64_def
      i32_index_bound Suc_lessD [OF i64_index_bound(1)] dest: local_ok_regs intro!: wp_intros)+

lemma const_ok:
  "handler_ok b op_ConstI32" "handler_ok b op_ConstI32Zero" "handler_ok b op_ConstI64" "handler_ok b op_ConstI64Zero"
  by (rule handler_okI, auto simp: op_ConstI32_def op_ConstI32Zero_def op_ConstI64_def op_ConstI64Zero_def
      dest: local_ok_regs intro!: wp_intros)+

subsection \<open>Globals\<close>

lemma global_access_ok:
  assumes "\<And>g. handler_ok b (acc g)"
  shows "handler_ok b (with_global_attr acc)" "handler_ok b (with_global_reg acc)"
  using assms by (auto simp: handler_ok_def with_global_attr_def with_global_reg_def dest: local_ok_regs intro!: wp_intros)

lemma load_store_global_ok:
  "handler_ok True (load_global_i32 g)" "handler_ok True (store_global_i32 g)"
  "handler_ok True (load_global_i64 g)" "handler_ok True (store_global_i64 g)"
  by (rule handler_okI, auto simp: load_global_i32_def store_global_i32_def load_global_i64_def store_global_i64_def
      vm_global_store_i32_def vm_global_store_i64_def
      dest: local_ok_regs length_write_bytes
      intro!: wp_intros wp_operator [where m = "vm_global_load_i32 d x" for d x] wp_operator [where m = "vm_global_load_i64 d x" for d x]
        wp_undefined [where m = "write_bytes d x y" for d x y])+

subsection \<open>References\<close>

text \<open>Steps from a state \<open>l\<close> that a handler has reached from \<open>l0\<close>.\<close>

lemma keptE:
  assumes "kept env F l0 l"
  obtains L where "local_ok env (L + F) l" "length (ref_bank (l_regs l)) = length (ref_bank (l_regs l0))"
    "length (i32_bank (l_regs l)) = length (i32_bank (l_regs l0))"
    "length (l_globals l) = length (l_globals l0)" "length (l_rwdata l) = length (l_rwdata l0)"
  using assms by (auto simp: kept_def)

lemma kept_i32_step:
  assumes "kept env F l0 l" "length vs = length (i32_bank (l_regs l))"
  shows "kept env F l0 (l\<lparr>l_regs := (l_regs l)\<lparr>i32_bank := vs\<rparr>\<rparr>)"
  using assms by (auto simp: kept_def local_ok_def)

lemma wp_assign_ref [wp_intros]:
  assumes kept: "kept env F l0 l" and i: "i < length (ref_bank (l_regs l0))" and j: "j < length (ref_bank (l_regs l0))"
    and Q: "\<And>st l'. kept env F l0 l' \<Longrightarrow> Q (st, l')"
  shows "wp U (assign_ref mv i t j env l) Q"
proof -
  obtain L where L: "local_ok env (L + F) l" and len: "length (ref_bank (l_regs l)) = length (ref_bank (l_regs l0))"
    using kept by (rule keptE)
  then obtain h st rs L' where r: "retain_or_move_checked_at (ref_types env) mv (l_heap l) (ref_bank (l_regs l)) i t j = Some (h, st, rs)"
      "length rs = length (ref_bank (l_regs l))" "heap_ok (ref_types env) h (mset rs + (L' + (mset (l_globals l) + (L + F))))"
    using retain_or_move_checked_at_ok [of "ref_types env" "l_heap l" "ref_bank (l_regs l)" "mset (l_globals l) + (L + F)" i j mv t] i j
    by (auto simp: local_ok_def)
  let ?l' = "l\<lparr>l_heap := h, l_regs := (l_regs l)\<lparr>ref_bank := rs\<rparr>\<rparr>"
  have "local_ok env ((L' + L) + F) ?l'"
    using r L by (simp add: local_ok_def ac_simps)
  then have "kept env F l0 ?l'"
    using kept r unfolding kept_def by auto
  with r Q show ?thesis by (simp add: assign_ref_def)
qed

lemma wp_release_if [wp_intros]:
  assumes kept: "kept env F l0 l" and k: "k < length (ref_bank (l_regs l0))"
    and Q: "\<And>l'. kept env F l0 l' \<Longrightarrow> Q l'"
  shows "wp U (release_if b k env l) Q"
proof (cases b)
  case True
  obtain L where L: "local_ok env (L + F) l" and len: "length (ref_bank (l_regs l)) = length (ref_bank (l_regs l0))"
    using kept by (rule keptE)
  then obtain h rs where r: "release_at (ref_types env) (l_heap l) (ref_bank (l_regs l)) k = Some (h, rs)"
      "length rs = length (ref_bank (l_regs l))" "heap_ok (ref_types env) h (mset rs + (mset (l_globals l) + (L + F)))"
    using release_at_ok [of "ref_types env" "l_heap l" "ref_bank (l_regs l)" "mset (l_globals l) + (L + F)" k] k
    by (auto simp: local_ok_def)
  let ?l' = "l\<lparr>l_heap := h, l_regs := (l_regs l)\<lparr>ref_bank := rs\<rparr>\<rparr>"
  have "local_ok env (L + F) ?l'" using r L by (simp add: local_ok_def)
  then have "kept env F l0 ?l'" using kept r unfolding kept_def by auto
  with r Q True show ?thesis by (simp add: release_if_def)
next
  case False
  with kept Q show ?thesis by (simp add: release_if_def)
qed

lemma wp_move_globals:
  assumes ok: "local_ok env F l" and ij: "i < n + length (l_globals l)" "j < n + length (l_globals l)"
    and n: "n = length (ref_bank (l_regs l))"
    and Q: "\<And>h st rs. kept env F l (l\<lparr>l_heap := h, l_regs := (l_regs l)\<lparr>ref_bank := take n rs\<rparr>, l_globals := drop n rs\<rparr>) \<Longrightarrow> Q (h, st, rs)"
  shows "wp U (retain_or_move_checked_at (ref_types env) mv (l_heap l) (ref_bank (l_regs l) @ l_globals l) i t j) Q"
proof -
  have "heap_ok (ref_types env) (l_heap l) (mset (ref_bank (l_regs l) @ l_globals l) + F)"
    using ok by (simp add: local_ok_def add.assoc)
  from retain_or_move_checked_at_ok [OF this, of i j mv t] ij n
  obtain h st rs L where r: "retain_or_move_checked_at (ref_types env) mv (l_heap l) (ref_bank (l_regs l) @ l_globals l) i t j = Some (h, st, rs)"
      "length rs = n + length (l_globals l)" "heap_ok (ref_types env) h (mset rs + (L + F))"
    by auto
  have "mset rs = mset (take n rs) + mset (drop n rs)" by (simp flip: mset_append)
  then have "local_ok env (L + F) (l\<lparr>l_heap := h, l_regs := (l_regs l)\<lparr>ref_bank := take n rs\<rparr>, l_globals := drop n rs\<rparr>)"
    using r ok n by (simp add: local_ok_def add.assoc)
  then have "kept env F l (l\<lparr>l_heap := h, l_regs := (l_regs l)\<lparr>ref_bank := take n rs\<rparr>, l_globals := drop n rs\<rparr>)"
    using r n unfolding kept_def by auto
  with r Q show ?thesis by simp
qed

lemma move_global_ref_ok: "handler_ok b (move_global_ref is_store)"
  by (rule handler_okI)
    (auto simp: move_global_ref_def Let_def env_ok_types dest: local_ok_regs intro!: wp_intros wp_move_globals, simp_all)

lemma ref_select_ok: "handler_ok b op_SelectRef" "handler_ok b op_SwitchRef" "handler_ok b (cmp_refs f)" "handler_ok b op_CmpNZRef"
  by (rule handler_okI, auto simp: op_SelectRef_def op_SwitchRef_def cmp_refs_def op_CmpNZRef_def env_ok_types store_i32_def
      dest: local_ok_regs intro!: wp_intros kept_i32_step ref_index_bound, (simp_all)?)+

text \<open>Replacing the contents of one reference register.\<close>

lemma kept_ref_slot:
  assumes ok: "local_ok env F l" and k: "k < length (ref_bank (l_regs l))"
    and M: "mset (ref_bank (l_regs l)) = add_mset (ref_bank (l_regs l) ! k) M"
    and h: "heap_ok (ref_types env) h (add_mset r (M + (mset (l_globals l) + F)))"
  shows "kept env F l (l\<lparr>l_heap := h, l_regs := (l_regs l)\<lparr>ref_bank := (ref_bank (l_regs l))[k := r]\<rparr>\<rparr>)"
proof -
  have "mset ((ref_bank (l_regs l))[k := r]) = add_mset r M"
    using k M by (simp add: mset_update)
  then show ?thesis
    using ok h unfolding kept_def local_ok_def by (auto intro!: exI [of _ "{#}"])
qed

lemma kept_heap:
  assumes ok: "local_ok env F l" and h: "heap_ok (ref_types env) h (mset (ref_bank (l_regs l)) + (mset (l_globals l) + F))"
  shows "kept env F l (l\<lparr>l_heap := h\<rparr>)"
  using ok h unfolding kept_def local_ok_def by (auto intro!: exI [of _ "{#}"])

lemma local_ok_slot:
  assumes "local_ok env F l" "k < length (ref_bank (l_regs l))"
  obtains M where "mset (ref_bank (l_regs l)) = add_mset (ref_bank (l_regs l) ! k) M"
    "heap_ok (ref_types env) (l_heap l) (add_mset (ref_bank (l_regs l) ! k) (M + (mset (l_globals l) + F)))"
proof -
  obtain M where "mset (ref_bank (l_regs l)) = add_mset (ref_bank (l_regs l) ! k) M"
    using mset_one_slot [OF assms(2)] by blast
  with assms(1) that show thesis by (auto simp: local_ok_def)
qed

lemma wp_release_at:
  assumes ok: "local_ok env F l" and k: "k < length (ref_bank (l_regs l))"
    and Q: "\<And>h rs. kept env F l (l\<lparr>l_heap := h, l_regs := (l_regs l)\<lparr>ref_bank := rs\<rparr>\<rparr>) \<Longrightarrow> Q (h, rs)"
  shows "wp U (release_at (ref_types env) (l_heap l) (ref_bank (l_regs l)) k) Q"
proof -
  from release_at_ok [of "ref_types env" "l_heap l" "ref_bank (l_regs l)" "mset (l_globals l) + F" k] ok k
  obtain h rs where r: "release_at (ref_types env) (l_heap l) (ref_bank (l_regs l)) k = Some (h, rs)"
    "length rs = length (ref_bank (l_regs l))" "heap_ok (ref_types env) h (mset rs + (mset (l_globals l) + F))"
    by (auto simp: local_ok_def)
  then have "kept env F l (l\<lparr>l_heap := h, l_regs := (l_regs l)\<lparr>ref_bank := rs\<rparr>\<rparr>)"
    using ok unfolding kept_def local_ok_def by (auto intro!: exI [of _ "{#}"])
  with r Q show ?thesis by simp
qed

lemma const_ref_zero_ok: "handler_ok b op_ConstRefZero"
  by (rule handler_okI)
    (auto simp: op_ConstRefZero_def dest: local_ok_regs intro!: wp_intros wp_release_at)

lemma env_ok_buffer:
  assumes "env_ok env F"
  obtains td where "iree_vm_ref_get_type_descriptor (ref_types env) (buffer_type_id env) = Some td"
    "td_destroy td = DestroyBuffer" "td_offsetof_counter td = 0" "buffer_type_id env \<noteq> 0"
  using assms by (auto simp: env_ok_def)

lemma env_ok_list:
  assumes "env_ok env F"
  obtains td where "iree_vm_ref_get_type_descriptor (ref_types env) (list_type_id env) = Some td"
    "td_destroy td = DestroyList" "td_offsetof_counter td = 0" "list_type_id env \<noteq> 0"
  using assms by (auto simp: env_ok_def)

text \<open>A rodata buffer is retained into the result register; its own reference stays with the module.\<close>

lemma wp_wrap_retain:
  assumes env: "env_ok env F" and ok: "local_ok env F l" and k: "k < length (ref_bank (l_regs l))"
    and p: "p \<in> set (rodata_refs env)"
    and Q: "\<And>h st out. kept env F l (l\<lparr>l_heap := h, l_regs := (l_regs l)\<lparr>ref_bank := (ref_bank (l_regs l))[k := out]\<rparr>\<rparr>) \<Longrightarrow> Q (h, st, out)"
  shows "wp U (iree_vm_ref_wrap_retain (ref_types env) (l_heap l) (Some p) (buffer_type_id env) (ref_bank (l_regs l) ! k)) Q"
proof -
  obtain M where M: "mset (ref_bank (l_regs l)) = add_mset (ref_bank (l_regs l) ! k) M"
    "heap_ok (ref_types env) (l_heap l) (add_mset (ref_bank (l_regs l) ! k) (M + (mset (l_globals l) + F)))"
    using ok k by (rule local_ok_slot)
  obtain td where td: "iree_vm_ref_get_type_descriptor (ref_types env) (buffer_type_id env) = Some td" "td_offsetof_counter td = 0"
    using env by (rule env_ok_buffer)
  let ?r = "object_ref (buffer_type_id env) p"
  have "?r \<in># F" using env p by (simp add: env_ok_def)
  then obtain F' where F: "F = add_mset ?r F'" by (metis multi_member_split)
  from wrap_assign_ok [OF td(1) M(2), of "Some p"] obtain h where
    h: "iree_vm_ref_wrap_assign (ref_types env) (l_heap l) (Some p) (buffer_type_id env) (ref_bank (l_regs l) ! k) = Some (h, IREE_STATUS_OK, ?r)"
    "heap_ok (ref_types env) h (M + (mset (l_globals l) + F))"
    by (auto simp: td object_ref_def)
  from inc_ref_ok [of "ref_types env" h ?r "M + (mset (l_globals l) + F')"] h(2) F obtain h2 where
    h2: "inc_ref h ?r = Some h2" "heap_ok (ref_types env) h2 (add_mset ?r (M + (mset (l_globals l) + F)))"
    by auto
  with h Q kept_ref_slot [OF ok k M(1) h2(2)] show ?thesis
    by (simp add: iree_vm_ref_wrap_retain_def)
qed

lemma const_ref_rodata_ok: "handler_ok b op_ConstRefRodata"
  by (rule handler_okI)
    (auto simp: op_ConstRefRodata_def store_ref_def dest: local_ok_regs intro!: wp_intros wp_wrap_retain, (simp_all)?)

subsection \<open>Allocation\<close>

text \<open>
  A creation that failed leaves the store alone; one that succeeded appends an object with one
  reference, of the kind the destroy function of the type expects.
\<close>

definition created_object :: "iree_vm_ref_destroy \<Rightarrow> vm_heap \<Rightarrow> (vm_heap \<times> iree_status \<times> nat option) option \<Rightarrow> bool" where
  "created_object d h res \<longleftrightarrow>
    (\<exists>st. st \<noteq> IREE_STATUS_OK \<and> res = Some (h, st, None)) \<or>
    (\<exists>ob. res = Some (h @ [Some ob], IREE_STATUS_OK, Some (length h)) \<and> counter ob = 1 \<and> obj_offset ob = 0 \<and> kind_ok d (body ob)
      \<and> (\<forall>l. body ob = BList l \<longrightarrow> list_wf l \<and> (\<forall>r \<in> set (list_refs l). r = null_ref)))"

lemma created_buffer_object: "created_buffer h res \<Longrightarrow> created_object DestroyBuffer h res"
  by (auto simp: created_buffer_def created_object_def kind_ok_def iree_vm_buffer_initialize_def)

lemma created_list_object: "created_list h res \<Longrightarrow> created_object DestroyList h res"
  by (auto simp: created_list_def created_object_def kind_ok_def)

lemma wp_wrap_result:
  assumes ok: "local_ok env F l" and k: "k < length (ref_bank (l_regs l))"
    and td: "iree_vm_ref_get_type_descriptor (ref_types env) t = Some td" "td_offsetof_counter td = 0" "t \<noteq> 0"
    and res: "created_object (td_destroy td) (l_heap l) res"
    and Q: "\<And>l' st. kept env F l l' \<Longrightarrow> Q (pc, l', st)"
  shows "wp U (wrap_result t k env pc l res) Q"
proof -
  from res consider st where "st \<noteq> IREE_STATUS_OK" "res = Some (l_heap l, st, None)"
    | ob where "res = Some (l_heap l @ [Some ob], IREE_STATUS_OK, Some (length (l_heap l)))" "counter ob = 1" "obj_offset ob = 0"
      "kind_ok (td_destroy td) (body ob)" "\<forall>l. body ob = BList l \<longrightarrow> list_wf l \<and> (\<forall>r \<in> set (list_refs l). r = null_ref)"
    unfolding created_object_def by blast
  then show ?thesis
  proof cases
    case 1
    with ok Q show ?thesis by (simp add: wrap_result_def)
  next
    case 2
    obtain M where M: "mset (ref_bank (l_regs l)) = add_mset (ref_bank (l_regs l) ! k) M"
      "heap_ok (ref_types env) (l_heap l) (add_mset (ref_bank (l_regs l) ! k) (M + (mset (l_globals l) + F)))"
      using ok k by (rule local_ok_slot)
    let ?r = "object_ref t (length (l_heap l))"
    have "heap_ok (ref_types env) (l_heap l @ [Some ob]) (add_mset (ref_bank (l_regs l) ! k) (add_mset ?r (M + (mset (l_globals l) + F))))"
      using heap_ok_alloc [OF M(2) td(1,3) 2(2) _ 2(4,5)] 2(3) td(2) by (simp add: object_ref_def add_mset_commute)
    from wrap_assign_ok [OF td(1) this, of "Some (length (l_heap l))"] obtain h where
      h: "iree_vm_ref_wrap_assign (ref_types env) (l_heap l @ [Some ob]) (Some (length (l_heap l))) t (ref_bank (l_regs l) ! k)
          = Some (h, IREE_STATUS_OK, ?r)" "heap_ok (ref_types env) h (add_mset ?r (M + (mset (l_globals l) + F)))"
      by (auto simp: td object_ref_def)
    from kept_ref_slot [OF ok k M(1) h(2)] Q show ?thesis
      using 2(1) h(1) k by (simp add: wrap_result_def load_ref_def store_ref_def)
  qed
qed

lemma wp_wrap_buffer:
  assumes "env_ok env F" "local_ok env F l" "k < length (ref_bank (l_regs l))" "created_buffer (l_heap l) res"
    "\<And>l' st. kept env F l l' \<Longrightarrow> Q (pc, l', st)"
  shows "wp U (wrap_result (buffer_type_id env) k env pc l res) Q"
proof -
  obtain td where "iree_vm_ref_get_type_descriptor (ref_types env) (buffer_type_id env) = Some td"
    "td_destroy td = DestroyBuffer" "td_offsetof_counter td = 0" "buffer_type_id env \<noteq> 0"
    using assms(1) by (rule env_ok_buffer)
  with assms show ?thesis by (intro wp_wrap_result [of env F l k _ td]) (auto intro: created_buffer_object)
qed

lemma wp_wrap_list:
  assumes "env_ok env F" "local_ok env F l" "k < length (ref_bank (l_regs l))" "created_list (l_heap l) res"
    "\<And>l' st. kept env F l l' \<Longrightarrow> Q (pc, l', st)"
  shows "wp U (wrap_result (list_type_id env) k env pc l res) Q"
proof -
  obtain td where "iree_vm_ref_get_type_descriptor (ref_types env) (list_type_id env) = Some td"
    "td_destroy td = DestroyList" "td_offsetof_counter td = 0" "list_type_id env \<noteq> 0"
    using assms(1) by (rule env_ok_list)
  with assms show ?thesis by (intro wp_wrap_result [of env F l k _ td]) (auto intro: created_list_object)
qed

lemma unat_u32_less: "2 ^ 32 \<le> n \<Longrightarrow> unat (x :: u32) < n"
proof -
  assume "2 ^ 32 \<le> n"
  moreover have "unat x < 2 ^ LENGTH(32)" by (rule unsigned_less)
  ultimately show ?thesis by simp
qed

lemma unat_ucast_u32_u64 [simp]: "unat (ucast (x :: u32) :: u64) = unat x"
  by (simp add: unat_ucast unat_u32_less)

lemma alloc_ok: "handler_ok b op_BufferAlloc" "handler_ok b op_ListAlloc"
  by (rule handler_okI, auto simp: op_BufferAlloc_def op_ListAlloc_def env_ok_types dest: local_ok_regs
      intro!: wp_intros wp_wrap_buffer wp_wrap_list buffer_create_ok list_create_ok intro: unat_u32_less less_imp_le,
      (simp_all add: unat_u32_less less_imp_le)?)+

subsection \<open>Buffers\<close>

text \<open>The buffer behind a register that is not null.\<close>

lemma deref_buffer:
  assumes env: "env_ok env F" and ok: "local_ok env F l" and k: "k < length (ref_bank (l_regs l))"
    and p: "iree_vm_buffer_deref env (ref_bank (l_regs l) ! k) = Some p"
  shows "\<exists>b. buffer_at (l_heap l) p = Some b"
proof -
  let ?r = "ref_bank (l_regs l) ! k"
  have r: "ref_ptr ?r = Some p" "ref_type ?r = buffer_type_id env"
    using p by (auto simp: iree_vm_buffer_deref_def iree_vm_ref_check_def split: if_splits)
  have mem: "?r \<in># mset (ref_bank (l_regs l)) + (mset (l_globals l) + F)" using k by simp
  have h: "heap_ok (ref_types env) (l_heap l) (mset (ref_bank (l_regs l)) + (mset (l_globals l) + F))"
    using ok by (simp add: local_ok_def)
  obtain td where td: "iree_vm_ref_get_type_descriptor (ref_types env) (buffer_type_id env) = Some td" "td_destroy td = DestroyBuffer"
    using env by (rule env_ok_buffer)
  obtain ob where ob: "obj_at (l_heap l) p = Some ob" using heap_ok_live [OF h mem r(1)] by blast
  from heap_ok_kind [OF h mem r(1) ob] td r(2) show ?thesis
    by (auto simp: kind_ok_def buffer_at_def ob)
qed

lemma wp_with_buffer [wp_intros]:
  assumes "env_ok env F" "local_ok env F l"
    and "\<And>p b pc. buffer_at (l_heap l) p = Some b \<Longrightarrow> wp U (act p env code pc l) Q"
    and "\<And>pc. Q (pc, l, IREE_STATUS_INVALID_ARGUMENT)" "code_ends code \<Longrightarrow> U"
  shows "wp U (with_buffer act env code pc l) Q"
  using assms by (auto simp: with_buffer_def dest: local_ok_regs deref_buffer [OF assms(1,2)] intro!: wp_intros)

lemma wp_put_result_buffer:
  assumes ok: "local_ok env F l" and b: "buffer_at (l_heap l) p = Some b" and res: "U \<or> res \<noteq> None"
    and Q: "\<And>l' st. kept env F l l' \<Longrightarrow> Q (pc, l', st)"
  shows "wp U (put_result_buffer l pc p res) Q"
proof (cases res)
  case None
  with res show ?thesis by (simp add: put_result_buffer_def wp_def)
next
  case (Some x)
  obtain st b' where x: "x = (st, b')" by (cases x)
  obtain ob where ob: "obj_at (l_heap l) p = Some ob" "body ob = BBuffer b"
    using b by (auto simp: buffer_at_def split: option.splits vm_body.splits)
  have "kept env F l (l\<lparr>l_heap := put_obj (l_heap l) p (ob\<lparr>body := BBuffer b'\<rparr>)\<rparr>)"
    using ok heap_ok_put_buffer [OF _ ob] by (intro kept_heap) (simp_all add: local_ok_def)
  with Q Some x ob show ?thesis by (simp add: put_result_buffer_def put_buffer_def)
qed

lemma wp_dec_element [wp_intros]:
  "regs_wf regs \<Longrightarrow> (\<And>v pc. length v = n \<Longrightarrow> Q (v, pc)) \<Longrightarrow> (code_ends code \<Longrightarrow> U) \<Longrightarrow> wp U (dec_element n regs code pc) Q"
  unfolding dec_element_def by (intro wp_intros) auto

lemma wp_buffer_at: "buffer_at h p = Some b \<Longrightarrow> Q b \<Longrightarrow> wp U (buffer_at h p) Q"
  by simp

lemma of_nat_pow2: "(of_nat (2 ^ k) :: u64) = 2 ^ k"
  by simp

lemma div_pow2_small: "unat (ucast (len :: u32) div (2 ^ k :: u64)) * 2 ^ k < 2 ^ 63" if "k \<le> 3"
proof -
  have k: "unat (2 ^ k :: u64) = 2 ^ k" using that by (intro unat_power_of_two) simp
  have "unat (ucast len div (2 ^ k :: u64)) * 2 ^ k \<le> unat len"
    using k by (simp add: unat_div_distrib)
  then show ?thesis using unat_u32_less [of "2 ^ 63" len] by simp
qed

lemma buffer_fill_ok:
  assumes "k \<le> 3"
  shows "handler_ok b (buffer_fill (2 ^ k))"
proof -
  have "iree_vm_buffer_fill_elements bf (ucast off) (ucast len div 2 ^ k) (2 ^ k) v \<noteq> None" if "length v = 2 ^ k" for bf v and off len :: u32
    using assms that div_pow2_small [OF assms, of len] unat_u32_less [of "2 ^ 63" off]
    by (intro fill_elements_defined) (simp_all)
  then show ?thesis
    by (intro handler_okI)
      (auto simp: buffer_fill_def dest: local_ok_regs intro!: wp_intros wp_buffer_at wp_put_result_buffer)
qed

lemma buffer_store_ok:
  assumes "k \<le> 3"
  shows "handler_ok b (buffer_store (2 ^ k))"
proof -
  have k: "(2 :: nat) ^ k \<le> 2 ^ 3" using assms by (intro power_increasing) simp_all
  have "iree_vm_buffer_write_elements v bf (ucast off) 1 (2 ^ k) \<noteq> None" if "length v = 2 ^ k" for bf v and off :: u32
    using assms that k unat_u32_less [of "2 ^ 63" off] by (intro write_elements_defined) (simp_all)
  then show ?thesis
    by (intro handler_okI)
      (auto simp: buffer_store_def dest: local_ok_regs intro!: wp_intros wp_buffer_at wp_put_result_buffer)
qed

lemma wp_read_elements:
  assumes "k \<le> 3" "\<And>st v. Q (st, v)"
  shows "wp U (iree_vm_buffer_read_elements bf (ucast (off :: u32)) 1 (2 ^ k)) Q"
proof -
  have k: "(2 :: nat) ^ k \<le> 2 ^ 3" using assms(1) by (intro power_increasing) simp_all
  have "iree_vm_buffer_read_elements bf (ucast off) 1 (2 ^ k) \<noteq> None"
    using assms(1) k unat_u32_less [of "2 ^ 63" off] by (intro read_elements_defined) (simp_all)
  with assms(2) show ?thesis by (auto simp: wp_def)
qed

lemma buffer_load_ok:
  assumes "k \<le> 3"
  shows "handler_ok b (buffer_load_i32 (2 ^ k) ext)"
  using assms by (intro handler_okI)
      (auto simp: buffer_load_i32_def dest: local_ok_regs intro!: wp_intros wp_buffer_at wp_read_elements)

lemma buffer_load_i64_ok: "handler_ok b op_BufferLoadI64"
  by (intro handler_okI)
    (auto simp: op_BufferLoadI64_def dest: local_ok_regs intro!: wp_intros wp_buffer_at wp_read_elements [where k = 3, simplified])

lemma buffer_query_ok: "handler_ok b op_BufferLength" "handler_ok b op_BufferCompare" "handler_ok b op_BufferClone"
proof -
  have "iree_vm_buffer_compare_bytes lb (ucast loff) rb (ucast roff) (ucast len) res \<noteq> None" for lb rb res and loff roff len :: u32
    using unat_u32_less [of "2 ^ 63" loff] unat_u32_less [of "2 ^ 63" roff] unat_u32_less [of "2 ^ 63" len]
    by (intro compare_bytes_defined) simp_all
  then show "handler_ok b op_BufferLength" "handler_ok b op_BufferCompare" "handler_ok b op_BufferClone"
    by (intro handler_okI,
      auto simp: op_BufferLength_def op_BufferCompare_def op_BufferClone_def unat_u32_less dest: local_ok_regs
        intro!: wp_intros wp_buffer_at wp_wrap_buffer buffer_clone_ok
          wp_operator [where m = "iree_vm_buffer_compare_bytes lb loff rb roff len res" for lb loff rb roff len res])+
qed

lemma buffer_copy_ok: "handler_ok True op_BufferCopy"
  by (intro handler_okI)
    (auto simp: op_BufferCopy_def dest: local_ok_regs intro!: wp_intros wp_buffer_at wp_put_result_buffer)

end
