(* ===== verification/VM_Calls.thy ===== *)
theory VM_Calls
  imports VM_Module VM_Safety
begin

text \<open>
  Function calls of the bytecode dispatcher (\<open>iree/vm/bytecode_dispatch.c\<close>): entering a function from
  outside and returning to outside, calls and returns between bytecode functions, and calls of imported
  functions.

  A frame is named by its distance from the top of the stack, so the current frame is 0 and its caller 1.
\<close>

section \<open>Frames and their registers\<close>

definition IREE_VM_FUNCTION_LINKAGE_INTERNAL :: u16 where "IREE_VM_FUNCTION_LINKAGE_INTERNAL = 0"

text \<open>The registers of a frame; a frame that is not a bytecode frame has none.\<close>

definition frame_regs :: "nat \<Rightarrow> iree_vm_stack \<Rightarrow> iree_vm_registers option" where
  "frame_regs i s = (if i < length (frames s) then map_option registers (frame_storage (frames s ! i)) else None)"

definition set_frame_regs :: "nat \<Rightarrow> iree_vm_registers \<Rightarrow> iree_vm_stack \<Rightarrow> iree_vm_stack" where
  "set_frame_regs i regs s = s\<lparr>frames := (frames s)[i := (frames s ! i)
    \<lparr>frame_storage := map_option (\<lambda>b. b\<lparr>registers := regs\<rparr>) (frame_storage (frames s ! i))\<rparr>]\<rparr>"

definition set_return_registers :: "u16 list \<Rightarrow> iree_vm_stack \<Rightarrow> iree_vm_stack" where
  "set_return_registers dst_reg_list s = s\<lparr>frames := (frames s)[0 := (frames s ! 0)
    \<lparr>frame_storage := map_option (\<lambda>b. b\<lparr>return_registers := Some dst_reg_list\<rparr>) (frame_storage (frames s ! 0))\<rparr>]\<rparr>"

definition set_frame_pc :: "int \<Rightarrow> iree_vm_stack \<Rightarrow> iree_vm_stack" where
  "set_frame_pc pc s = s\<lparr>frames := (frames s)[0 := (frames s ! 0)\<lparr>frame_pc := pc\<rparr>]\<rparr>"

section \<open>Entering from and leaving to an external caller\<close>

text \<open>
  Arguments go from the argument buffer to the registers in order. A 64-bit argument is stored at the
  next 32-bit register, whatever its parity; where it does not fit in the bank the copy is out of range.
  References are moved out of the argument buffer.
\<close>

fun marshal_arguments ::
  "type_table \<Rightarrow> vm_heap \<Rightarrow> iree_vm_registers \<Rightarrow> u16 \<Rightarrow> u16 \<Rightarrow> string \<Rightarrow> abi_value list \<Rightarrow>
   (vm_heap \<times> iree_vm_registers \<times> abi_value list) option" where
  "marshal_arguments tbl h regs i32_reg ref_reg [] arguments = Some (h, regs, arguments)"
| "marshal_arguments tbl h regs i32_reg ref_reg (c # cs) arguments =
    (case cconv_class c of
       Some C32 \<Rightarrow> (case arguments of
           AbiI32 v # arguments \<Rightarrow> do {
             regs \<leftarrow> store_i32 regs (i32_index regs i32_reg) v;
             (h, regs, arguments) \<leftarrow> marshal_arguments tbl h regs (i32_reg + 1) ref_reg cs arguments;
             Some (h, regs, AbiI32 v # arguments)
           }
         | _ \<Rightarrow> None)
     | Some C64 \<Rightarrow> (case arguments of
           AbiI64 v # arguments \<Rightarrow> do {
             regs \<leftarrow> store_i64 regs (i32_index regs i32_reg) v;
             (h, regs, arguments) \<leftarrow> marshal_arguments tbl h regs (i32_reg + 2) ref_reg cs arguments;
             Some (h, regs, AbiI64 v # arguments)
           }
         | _ \<Rightarrow> None)
     | Some CRef \<Rightarrow> (case arguments of
           AbiRef r # arguments \<Rightarrow> do {
             out_ref \<leftarrow> load_ref regs (ref_index regs ref_reg);
             (h, r, out_ref) \<leftarrow> iree_vm_ref_move tbl False h r out_ref;
             regs \<leftarrow> store_ref regs (ref_index regs ref_reg) out_ref;
             (h, regs, arguments) \<leftarrow> marshal_arguments tbl h regs i32_reg (ref_reg + 1) cs arguments;
             Some (h, regs, AbiRef r # arguments)
           }
         | _ \<Rightarrow> None)
     | _ \<Rightarrow> marshal_arguments tbl h regs i32_reg ref_reg cs arguments)"

definition iree_vm_bytecode_external_enter ::
  "type_table \<Rightarrow> iree_allocator option \<Rightarrow> state_resolver \<Rightarrow> iree_vm_FunctionDescriptor list \<Rightarrow> vm_heap \<Rightarrow> iree_vm_stack \<Rightarrow>
   iree_vm_function \<Rightarrow> string \<Rightarrow> abi_value list \<Rightarrow> (iree_status \<times> vm_heap \<times> iree_vm_stack \<times> abi_value list) option" where
  "iree_vm_bytecode_external_enter tbl allocator query_module_state fdt h s f cconv_arguments arguments = do {
     (st, s) \<leftarrow> iree_vm_bytecode_function_enter allocator query_module_state fdt s f;
     if st \<noteq> IREE_STATUS_OK then Some (st, h, s, arguments)
     else do {
       regs \<leftarrow> frame_regs 0 s;
       (h, regs, arguments) \<leftarrow> marshal_arguments tbl h regs 0 0 cconv_arguments arguments;
       Some (IREE_STATUS_OK, h, set_frame_regs 0 regs s, arguments)
     }
   }"

text \<open>
  Results go from the registers of the list to the cleared result buffer. The list is read at the
  position of the character; a position after the end of the list is out of range where it is used.
\<close>

fun marshal_results ::
  "type_table \<Rightarrow> vm_heap \<Rightarrow> iree_vm_registers \<Rightarrow> u16 list \<Rightarrow> nat \<Rightarrow> string \<Rightarrow>
   (vm_heap \<times> iree_vm_registers \<times> abi_value list) option" where
  "marshal_results tbl h regs src_reg_list i [] = Some (h, regs, [])"
| "marshal_results tbl h regs src_reg_list i (c # cs) =
    (case cconv_class c of
       None \<Rightarrow> marshal_results tbl h regs src_reg_list (i + 1) cs
     | Some CVoid \<Rightarrow> marshal_results tbl h regs src_reg_list (i + 1) cs
     | Some k \<Rightarrow>
        if i < length src_reg_list
        then let src_reg = src_reg_list ! i in (case k of
            C32 \<Rightarrow> do {
              v \<leftarrow> load_i32 regs (i32_index regs src_reg);
              (h, regs, results) \<leftarrow> marshal_results tbl h regs src_reg_list (i + 1) cs;
              Some (h, regs, AbiI32 v # results)
            }
          | C64 \<Rightarrow> do {
              v \<leftarrow> load_i64 regs (i64_index regs src_reg);
              (h, regs, results) \<leftarrow> marshal_results tbl h regs src_reg_list (i + 1) cs;
              Some (h, regs, AbiI64 v # results)
            }
          | _ \<Rightarrow> do {
              r \<leftarrow> load_ref regs (ref_index regs src_reg);
              (h, r, out_ref) \<leftarrow> iree_vm_ref_move tbl False h r null_ref;
              regs \<leftarrow> store_ref regs (ref_index regs src_reg) r;
              (h, regs, results) \<leftarrow> marshal_results tbl h regs src_reg_list (i + 1) cs;
              Some (h, regs, AbiRef out_ref # results)
            })
        else None)"

definition iree_vm_bytecode_external_leave ::
  "type_table \<Rightarrow> vm_heap \<Rightarrow> iree_vm_stack \<Rightarrow> u16 list \<Rightarrow> string \<Rightarrow>
   (iree_status \<times> vm_heap \<times> iree_vm_stack \<times> abi_value list) option" where
  "iree_vm_bytecode_external_leave tbl h s src_reg_list cconv_results = do {
     regs \<leftarrow> frame_regs 0 s;
     (h, regs, results) \<leftarrow> marshal_results tbl h regs src_reg_list 0 cconv_results;
     (h, st, s) \<leftarrow> iree_vm_stack_function_leave tbl h (set_frame_regs 0 regs s);
     Some (st, h, s, results)
   }"

section \<open>Calls between bytecode functions\<close>

text \<open>
  Argument registers go to the registers of the callee from 0 on, per bank. The destination reference
  is cleared without a release before the reference is retained or moved. Values that are not
  references are copied as 32-bit registers.
\<close>

fun copy_arguments ::
  "type_table \<Rightarrow> vm_heap \<Rightarrow> iree_vm_registers \<Rightarrow> iree_vm_registers \<Rightarrow> nat \<Rightarrow> nat \<Rightarrow> u16 list \<Rightarrow>
   (vm_heap \<times> iree_vm_registers \<times> iree_vm_registers) option" where
  "copy_arguments tbl h src_regs dst_regs i32_reg_offset ref_reg_offset [] = Some (h, src_regs, dst_regs)"
| "copy_arguments tbl h src_regs dst_regs i32_reg_offset ref_reg_offset (src_reg # src_reg_list) =
    (if is_ref_reg src_reg
     then let k = ref_index dst_regs (of_nat ref_reg_offset); i = ref_index src_regs src_reg in do {
       dst_regs \<leftarrow> store_ref dst_regs k null_ref;
       r \<leftarrow> load_ref src_regs i;
       out_ref \<leftarrow> load_ref dst_regs k;
       (h, r, out_ref) \<leftarrow> iree_vm_ref_retain_or_move tbl False (is_move_reg src_reg) h r out_ref;
       src_regs \<leftarrow> store_ref src_regs i r;
       dst_regs \<leftarrow> store_ref dst_regs k out_ref;
       copy_arguments tbl h src_regs dst_regs i32_reg_offset (ref_reg_offset + 1) src_reg_list
     }
     else do {
       v \<leftarrow> load_i32 src_regs (i32_index src_regs src_reg);
       dst_regs \<leftarrow> store_i32 dst_regs (i32_index dst_regs (of_nat i32_reg_offset)) v;
       copy_arguments tbl h src_regs dst_regs (i32_reg_offset + 1) ref_reg_offset src_reg_list
     })"

definition iree_vm_bytecode_internal_enter ::
  "type_table \<Rightarrow> iree_allocator option \<Rightarrow> state_resolver \<Rightarrow> iree_vm_FunctionDescriptor list \<Rightarrow> vm_heap \<Rightarrow> iree_vm_stack \<Rightarrow>
   nat option \<Rightarrow> u32 \<Rightarrow> u16 list \<Rightarrow> u16 list \<Rightarrow> (iree_status \<times> vm_heap \<times> iree_vm_stack) option" where
  "iree_vm_bytecode_internal_enter tbl allocator query_module_state fdt h s module function_ordinal src_reg_list dst_reg_list = do {
     _ \<leftarrow> frame_regs 0 s;
     (st, s) \<leftarrow> iree_vm_bytecode_function_enter allocator query_module_state fdt (set_return_registers dst_reg_list s)
       \<lparr>fn_module = module, fn_linkage = IREE_VM_FUNCTION_LINKAGE_INTERNAL, fn_ordinal = ucast function_ordinal\<rparr>;
     if st \<noteq> IREE_STATUS_OK then Some (st, h, s)
     else do {
       src_regs \<leftarrow> frame_regs 1 s;
       dst_regs \<leftarrow> frame_regs 0 s;
       (h, src_regs, dst_regs) \<leftarrow> copy_arguments tbl h src_regs dst_regs 0 0 src_reg_list;
       Some (IREE_STATUS_OK, h, set_frame_regs 0 dst_regs (set_frame_regs 1 src_regs s))
     }
   }"

fun copy_results ::
  "type_table \<Rightarrow> vm_heap \<Rightarrow> iree_vm_registers \<Rightarrow> iree_vm_registers \<Rightarrow> (u16 \<times> u16) list \<Rightarrow>
   (vm_heap \<times> iree_vm_registers \<times> iree_vm_registers) option" where
  "copy_results tbl h callee_regs caller_regs [] = Some (h, callee_regs, caller_regs)"
| "copy_results tbl h callee_regs caller_regs ((src_reg, dst_reg) # pairs) =
    (if is_ref_reg src_reg
     then do {
       r \<leftarrow> load_ref callee_regs (ref_index callee_regs src_reg);
       out_ref \<leftarrow> load_ref caller_regs (ref_index caller_regs dst_reg);
       (h, r, out_ref) \<leftarrow> iree_vm_ref_retain_or_move tbl False (is_move_reg src_reg) h r out_ref;
       callee_regs \<leftarrow> store_ref callee_regs (ref_index callee_regs src_reg) r;
       caller_regs \<leftarrow> store_ref caller_regs (ref_index caller_regs dst_reg) out_ref;
       copy_results tbl h callee_regs caller_regs pairs
     }
     else do {
       v \<leftarrow> load_i32 callee_regs (i32_index callee_regs src_reg);
       caller_regs \<leftarrow> store_i32 caller_regs (i32_index caller_regs dst_reg) v;
       copy_results tbl h callee_regs caller_regs pairs
     })"

definition iree_vm_bytecode_internal_leave ::
  "type_table \<Rightarrow> vm_heap \<Rightarrow> iree_vm_stack \<Rightarrow> u16 list \<Rightarrow> (iree_status \<times> vm_heap \<times> iree_vm_stack) option" where
  "iree_vm_bytecode_internal_leave tbl h s src_reg_list = do {
     caller_frame \<leftarrow> iree_vm_stack_parent_frame s;
     caller_storage \<leftarrow> frame_storage caller_frame;
     dst_reg_list \<leftarrow> return_registers caller_storage;
     if length src_reg_list > length dst_reg_list then Some (IREE_STATUS_FAILED_PRECONDITION, h, s)
     else do {
       callee_regs \<leftarrow> frame_regs 0 s;
       caller_regs \<leftarrow> frame_regs 1 s;
       (h, callee_regs, caller_regs) \<leftarrow> copy_results tbl h callee_regs caller_regs (zip src_reg_list dst_reg_list);
       (h, st, s) \<leftarrow> iree_vm_stack_function_leave tbl h (set_frame_regs 0 callee_regs (set_frame_regs 1 caller_regs s));
       Some (st, h, s)
     }
   }"

section \<open>Calls of imported functions\<close>

text \<open>
  Arguments go to the argument buffer; a reference is copied there without being retained. \<open>None\<close> as the
  list of segment sizes is the null pointer of calls that are not variadic.
\<close>

fun populate_values :: "iree_vm_registers \<Rightarrow> string \<Rightarrow> u16 list \<Rightarrow> (abi_value list \<times> u16 list) option" where
  "populate_values regs [] srcs = Some ([], srcs)"
| "populate_values regs (c # cs) srcs = (case cconv_class c of
      None \<Rightarrow> populate_values regs cs srcs
    | Some CVoid \<Rightarrow> populate_values regs cs srcs
    | Some k \<Rightarrow> (case srcs of
          [] \<Rightarrow> None
        | src_reg # srcs \<Rightarrow> do {
            v \<leftarrow> (case k of
                C32 \<Rightarrow> map_option AbiI32 (load_i32 regs (i32_index regs src_reg))
              | C64 \<Rightarrow> map_option AbiI64 (load_i64 regs (i64_index regs src_reg))
              | _ \<Rightarrow> map_option AbiRef (load_ref regs (ref_index regs src_reg)));
            (vs, srcs) \<leftarrow> populate_values regs cs srcs;
            Some (v # vs, srcs)
          }))"

primrec populate_span :: "iree_vm_registers \<Rightarrow> string \<Rightarrow> nat \<Rightarrow> u16 list \<Rightarrow> (abi_value list \<times> u16 list) option" where
  "populate_span regs span 0 srcs = Some ([], srcs)"
| "populate_span regs span (Suc n) srcs = do {
     (vs, srcs) \<leftarrow> populate_values regs span srcs;
     (ws, srcs) \<leftarrow> populate_span regs span n srcs;
     Some (vs @ ws, srcs)
   }"

fun populate_arguments ::
  "iree_vm_registers \<Rightarrow> u16 list option \<Rightarrow> string \<Rightarrow> nat \<Rightarrow> u16 list \<Rightarrow> abi_value list option" where
  "populate_arguments regs segment_size_list [] seg_i srcs = Some []"
| "populate_arguments regs segment_size_list (c # cs) seg_i srcs =
    (if c = IREE_VM_CCONV_TYPE_SPAN_START
     then (case segment_size_list of
         None \<Rightarrow> None
       | Some segs \<Rightarrow>
           if seg_i < length segs
           then do {
             let span_count = segs ! seg_i;
             (vs, srcs) \<leftarrow> populate_span regs (span_body cs) (unat span_count) srcs;
             ws \<leftarrow> populate_arguments regs segment_size_list (after_span cs) (seg_i + 1) srcs;
             Some (AbiI32 (ucast span_count) # vs @ ws)
           }
           else None)
     else do {
       (vs, srcs) \<leftarrow> populate_values regs [c] srcs;
       ws \<leftarrow> populate_arguments regs segment_size_list cs (seg_i + 1) srcs;
       Some (vs @ ws)
     })"

definition iree_vm_bytecode_populate_import_cconv_arguments ::
  "string \<Rightarrow> iree_vm_registers \<Rightarrow> u16 list option \<Rightarrow> u16 list \<Rightarrow> nat \<Rightarrow> abi_value list option" where
  "iree_vm_bytecode_populate_import_cconv_arguments cconv_arguments caller_registers segment_size_list src_reg_list storage_length = do {
     vs \<leftarrow> populate_arguments caller_registers segment_size_list cconv_arguments 0 src_reg_list;
     if abi_bytes vs \<le> storage_length then Some vs else None
   }"

text \<open>
  What a call of another module can change. The \<open>begin_call\<close> of the callee's module takes the argument
  buffer and returns the result buffer.
\<close>

record vm_state =
  s_heap :: vm_heap
  s_stack :: iree_vm_stack
  s_rwdata :: "u8 list"
  s_globals :: "iree_vm_ref list"

type_synonym begin_call = "iree_vm_function \<Rightarrow> abi_value list \<Rightarrow> vm_state \<Rightarrow> (iree_status \<times> vm_state \<times> abi_value list) option"

fun store_results ::
  "type_table \<Rightarrow> vm_heap \<Rightarrow> iree_vm_registers \<Rightarrow> string \<Rightarrow> u16 list \<Rightarrow> abi_value list \<Rightarrow> (vm_heap \<times> iree_vm_registers) option" where
  "store_results tbl h regs (c # cs) (dst_reg # dsts) results =
    (case cconv_class c of
       Some C32 \<Rightarrow> (case results of
           AbiI32 v # results \<Rightarrow> do {
             regs \<leftarrow> store_i32 regs (i32_index regs dst_reg) v;
             store_results tbl h regs cs dsts results
           }
         | _ \<Rightarrow> None)
     | Some C64 \<Rightarrow> (case results of
           AbiI64 v # results \<Rightarrow> do {
             regs \<leftarrow> store_i64 regs (i64_index regs dst_reg) v;
             store_results tbl h regs cs dsts results
           }
         | _ \<Rightarrow> None)
     | Some CRef \<Rightarrow> (case results of
           AbiRef r # results \<Rightarrow> do {
             out_ref \<leftarrow> load_ref regs (ref_index regs dst_reg);
             (h, _, out_ref) \<leftarrow> iree_vm_ref_move tbl False h r out_ref;
             regs \<leftarrow> store_ref regs (ref_index regs dst_reg) out_ref;
             store_results tbl h regs cs dsts results
           }
         | _ \<Rightarrow> None)
     | _ \<Rightarrow> store_results tbl h regs cs dsts results)"
| "store_results tbl h regs _ _ results = Some (h, regs)"

definition iree_vm_bytecode_issue_import_call ::
  "type_table \<Rightarrow> begin_call \<Rightarrow> vm_state \<Rightarrow> iree_vm_function \<Rightarrow> abi_value list \<Rightarrow> string \<Rightarrow> u16 list \<Rightarrow>
   (iree_status \<times> vm_state) option" where
  "iree_vm_bytecode_issue_import_call tbl begin_call st f arguments cconv_results dst_reg_list = do {
     (call_status, st, results) \<leftarrow> begin_call f arguments st;
     if call_status \<noteq> IREE_STATUS_OK then Some (call_status, st)
     else do {
       regs \<leftarrow> frame_regs 0 (s_stack st);
       (h, regs) \<leftarrow> store_results tbl (s_heap st) regs cconv_results dst_reg_list results;
       Some (IREE_STATUS_OK, st\<lparr>s_heap := h, s_stack := set_frame_regs 0 regs (s_stack st)\<rparr>)
     }
   }"

definition iree_vm_bytecode_call_import ::
  "type_table \<Rightarrow> begin_call \<Rightarrow> iree_vm_bytecode_import list \<Rightarrow> vm_state \<Rightarrow> u32 \<Rightarrow> u16 list \<Rightarrow> u16 list \<Rightarrow>
   (iree_status \<times> vm_state) option" where
  "iree_vm_bytecode_call_import tbl begin_call import_table st import_ordinal src_reg_list dst_reg_list =
    (let ordinal = unat (import_ordinal AND 0x7FFFFFFF)
     in if ordinal \<ge> length import_table then Some (IREE_STATUS_INVALID_ARGUMENT, st)
        else let import = import_table ! ordinal in do {
          regs \<leftarrow> frame_regs 0 (s_stack st);
          arguments \<leftarrow> iree_vm_bytecode_populate_import_cconv_arguments (imp_arguments import) regs None src_reg_list
            (unat (imp_argument_buffer_size import));
          iree_vm_bytecode_issue_import_call tbl begin_call st (imp_function import) arguments (imp_results import) dst_reg_list
        })"

definition iree_vm_bytecode_call_import_variadic ::
  "type_table \<Rightarrow> begin_call \<Rightarrow> iree_vm_bytecode_import list \<Rightarrow> vm_state \<Rightarrow> u32 \<Rightarrow> u16 list \<Rightarrow> u16 list \<Rightarrow> u16 list \<Rightarrow>
   (iree_status \<times> vm_state) option" where
  "iree_vm_bytecode_call_import_variadic tbl begin_call import_table st import_ordinal segment_size_list src_reg_list dst_reg_list =
    (let ordinal = unat (import_ordinal AND 0x7FFFFFFF)
     in if ordinal \<ge> length import_table then Some (IREE_STATUS_INVALID_ARGUMENT, st)
        else let import = import_table ! ordinal;
                 (size_status, data_length) =
                   iree_vm_function_call_compute_cconv_fragment_size (imp_arguments import) (Some segment_size_list)
          in case data_length of
            None \<Rightarrow> Some (size_status, st)
          | Some data_length \<Rightarrow> do {
              regs \<leftarrow> frame_regs 0 (s_stack st);
              arguments \<leftarrow> iree_vm_bytecode_populate_import_cconv_arguments (imp_arguments import) regs
                (Some segment_size_list) src_reg_list (unat data_length);
              iree_vm_bytecode_issue_import_call tbl begin_call st (imp_function import) arguments (imp_results import) dst_reg_list
            })"

section \<open>References between two banks\<close>

lemma retain_or_move_banks:
  assumes ok: "heap_ok tbl h (mset rs + (mset ds + F))" and i: "i < length rs" and k: "k < length ds"
  shows "\<exists>h' r. iree_vm_ref_retain_or_move tbl False is_move h (rs ! i) (ds ! k) = Some (h', r, rs ! i)
    \<and> heap_ok tbl h' (mset (rs[i := r]) + (mset (ds[k := rs ! i]) + F))"
proof -
  obtain R where R: "mset rs = add_mset (rs ! i) R" "\<And>y. mset (rs[i := y]) = add_mset y R"
    using mset_one_slot [OF i] by blast
  obtain D where D: "mset ds = add_mset (ds ! k) D" "\<And>y. mset (ds[k := y]) = add_mset y D"
    using mset_one_slot [OF k] by blast
  have "heap_ok tbl h (add_mset (rs ! i) (add_mset (ds ! k) (R + (D + F))))"
    using ok R(1) D(1) by (simp add: add_mset_commute)
  from retain_or_move_ok [OF this, of is_move] show ?thesis
    using R(2) D(2) by (auto simp: add_mset_commute [of _ null_ref])
qed

lemma move_out_ok:
  assumes ok: "heap_ok tbl h (mset rs + F)" and i: "i < length rs"
  shows "\<exists>h'. iree_vm_ref_move tbl False h (rs ! i) null_ref = Some (h', null_ref, rs ! i)
    \<and> heap_ok tbl h' (mset (rs[i := null_ref]) + add_mset (rs ! i) F)"
proof -
  obtain R where R: "mset rs = add_mset (rs ! i) R" "\<And>y. mset (rs[i := y]) = add_mset y R"
    using mset_one_slot [OF i] by blast
  have "heap_ok tbl h (add_mset (rs ! i) (add_mset null_ref (R + F)))" using ok R(1) by (simp add: add_mset_commute [of _ null_ref])
  from move_ok [OF this] show ?thesis using R(2) by (auto simp: add_mset_commute [of _ null_ref])
qed

lemma move_in_ok:
  assumes ok: "heap_ok tbl h (mset rs + add_mset r F)" and i: "i < length rs"
  shows "\<exists>h'. iree_vm_ref_move tbl False h r (rs ! i) = Some (h', null_ref, r)
    \<and> heap_ok tbl h' (mset (rs[i := r]) + F)"
proof -
  obtain R where R: "mset rs = add_mset (rs ! i) R" "\<And>y. mset (rs[i := y]) = add_mset y R"
    using mset_one_slot [OF i] by blast
  have "heap_ok tbl h (add_mset r (add_mset (rs ! i) (R + F)))" using ok R(1) by simp
  from move_ok [OF this] show ?thesis using R(2) by auto
qed

section \<open>Marshalling\<close>

text \<open>
  The loops over registers never leave the register files, whatever the registers of the lists are,
  and they keep the accounting.
\<close>

lemma copy_arguments_ok:
  assumes "regs_wf src" "regs_wf dst" "heap_ok tbl h (mset (ref_bank src) + (mset (ref_bank dst) + F))"
  shows "\<exists>h' src' dst' L. copy_arguments tbl h src dst i k regs = Some (h', src', dst') \<and> regs_wf src' \<and> regs_wf dst'
    \<and> heap_ok tbl h' (mset (ref_bank src') + (mset (ref_bank dst') + (L + F)))"
  using assms
proof (induction regs arbitrary: h src dst i k F)
  case Nil
  then show ?case by (auto intro: exI [of _ "{#}"])
next
  case (Cons reg regs)
  show ?case
  proof (cases "is_ref_reg reg")
    case True
    let ?k = "ref_index dst (of_nat k)" and ?i = "ref_index src reg"
    have b: "?k < length (ref_bank dst)" "?i < length (ref_bank src)"
      using Cons.prems by (simp_all add: ref_index_bound)
    obtain D where D: "mset (ref_bank dst) = add_mset (ref_bank dst ! ?k) D" "\<And>y. mset ((ref_bank dst)[?k := y]) = add_mset y D"
      using mset_one_slot [OF b(1)] by blast
    let ?F = "{#ref_bank dst ! ?k#} + F"
    have "heap_ok tbl h (mset (ref_bank src) + (mset ((ref_bank dst)[?k := null_ref]) + ?F))"
      using Cons.prems(3) D by (simp add: add_mset_commute [of _ null_ref])
    from retain_or_move_banks [OF this b(2), of ?k "is_move_reg reg"] b obtain h1 r where
      h1: "iree_vm_ref_retain_or_move tbl False (is_move_reg reg) h (ref_bank src ! ?i) null_ref = Some (h1, r, ref_bank src ! ?i)"
        "heap_ok tbl h1 (mset ((ref_bank src)[?i := r]) + (mset ((ref_bank dst)[?k := ref_bank src ! ?i]) + ?F))"
      by auto
    define src1 where "src1 = src\<lparr>ref_bank := (ref_bank src)[?i := r]\<rparr>"
    define dst1 where "dst1 = dst\<lparr>ref_bank := (ref_bank dst)[?k := ref_bank src ! ?i]\<rparr>"
    have "regs_wf src1" "regs_wf dst1" "heap_ok tbl h1 (mset (ref_bank src1) + (mset (ref_bank dst1) + ?F))"
      using h1 Cons.prems by (simp_all add: src1_def dst1_def)
    from Cons.IH [OF this, of i "Suc k"] obtain h' src' dst' L where
      "copy_arguments tbl h1 src1 dst1 i (Suc k) regs = Some (h', src', dst')" "regs_wf src'" "regs_wf dst'"
      "heap_ok tbl h' (mset (ref_bank src') + (mset (ref_bank dst') + (L + ?F)))" by blast
    then show ?thesis
      using True b h1(1) by (auto simp: Let_def store_ref_def load_ref_def src1_def dst1_def
        intro!: exI [of _ "L + {#ref_bank dst ! ?k#}"])
  next
    case False
    define dst1 where "dst1 = dst\<lparr>i32_bank := (i32_bank dst)[i32_index dst (of_nat i) := i32_bank src ! i32_index src reg]\<rparr>"
    have "regs_wf dst1" "heap_ok tbl h (mset (ref_bank src) + (mset (ref_bank dst1) + F))"
      using Cons.prems by (simp_all add: dst1_def)
    from Cons.IH [OF Cons.prems(1) this, of "Suc i" k] show ?thesis
      using False Cons.prems by (auto simp: load_store_simps dst1_def)
  qed
qed

lemma copy_results_ok:
  assumes "regs_wf src" "regs_wf dst" "heap_ok tbl h (mset (ref_bank src) + (mset (ref_bank dst) + F))"
  shows "\<exists>h' src' dst'. copy_results tbl h src dst pairs = Some (h', src', dst') \<and> regs_wf src' \<and> regs_wf dst'
    \<and> heap_ok tbl h' (mset (ref_bank src') + (mset (ref_bank dst') + F))"
  using assms
proof (induction pairs arbitrary: h src dst)
  case Nil
  then show ?case by simp
next
  case (Cons pair pairs)
  obtain s d where pair: "pair = (s, d)" by force
  show ?case
  proof (cases "is_ref_reg s")
    case True
    let ?i = "ref_index src s" and ?k = "ref_index dst d"
    have b: "?k < length (ref_bank dst)" "?i < length (ref_bank src)"
      using Cons.prems by (simp_all add: ref_index_bound)
    obtain h1 r where h1: "iree_vm_ref_retain_or_move tbl False (is_move_reg s) h (ref_bank src ! ?i) (ref_bank dst ! ?k)
          = Some (h1, r, ref_bank src ! ?i)"
        "heap_ok tbl h1 (mset ((ref_bank src)[?i := r]) + (mset ((ref_bank dst)[?k := ref_bank src ! ?i]) + F))"
      using retain_or_move_banks [OF Cons.prems(3) b(2,1)] by blast
    have "regs_wf (src\<lparr>ref_bank := (ref_bank src)[?i := r]\<rparr>)" "regs_wf (dst\<lparr>ref_bank := (ref_bank dst)[?k := ref_bank src ! ?i]\<rparr>)"
      using Cons.prems by simp_all
    from Cons.IH [OF this] h1(2) show ?thesis
      using True pair b h1(1) by (simp add: load_ref_def store_ref_def)
  next
    case False
    define dst1 where "dst1 = dst\<lparr>i32_bank := (i32_bank dst)[i32_index dst d := i32_bank src ! i32_index src s]\<rparr>"
    have "regs_wf dst1" "heap_ok tbl h (mset (ref_bank src) + (mset (ref_bank dst1) + F))"
      using Cons.prems by (simp_all add: dst1_def)
    from Cons.IH [OF Cons.prems(1) this] show ?thesis
      using False pair Cons.prems by (simp add: load_store_simps dst1_def)
  qed
qed

lemma class_cases:
  obtains "cconv_class c = None \<or> cconv_class c = Some CVoid" | "cconv_class c = Some C32"
    | "cconv_class c = Some C64" | "cconv_class c = Some CRef"
  by (cases "cconv_class c") (auto intro: cconv_class.exhaust)

lemma marshal_results_ok:
  assumes "regs_wf regs" "heap_ok tbl h (mset (ref_bank regs) + F)"
  shows "wp (length src_reg_list < i + length cs) (marshal_results tbl h regs src_reg_list i cs)
    (\<lambda>(h', regs', results). regs_wf regs' \<and> abi_typed cs results
      \<and> heap_ok tbl h' (mset (ref_bank regs') + (mset (abi_refs results) + F)))"
  using assms
proof (induction cs arbitrary: h regs i F)
  case (Cons c cs)
  let ?reg = "src_reg_list ! i"
  note IH = Cons.IH [of _ _ _ "Suc i", simplified]
  show ?case
  proof (cases "cconv_class c = None \<or> cconv_class c = Some CVoid \<or> i < length src_reg_list")
    case False
    then obtain k where "cconv_class c = Some k" "k \<noteq> CVoid" by (cases "cconv_class c") auto
    with False show ?thesis by (cases k) (simp_all add: wp_def)
  next
    case i: True
    show ?thesis
    proof (cases c rule: class_cases)
      case 1
      then have "marshal_results tbl h regs src_reg_list i (c # cs) = marshal_results tbl h regs src_reg_list (Suc i) cs"
          "\<And>vs. abi_typed (c # cs) vs \<longleftrightarrow> abi_typed cs vs"
        by auto
      with IH [OF Cons.prems] show ?thesis by (simp only:) simp
    next
      case 2
      then show ?thesis
        using Cons.prems i by (auto simp: Let_def load_store_simps intro!: wp_bind wp_mono [OF IH])
    next
      case 3
      then show ?thesis
        using Cons.prems i load_i64_wf [OF Cons.prems(1), of ?reg] by (auto simp: Let_def intro!: wp_bind wp_mono [OF IH])
    next
      case 4
      let ?k = "ref_index regs ?reg"
      have b: "?k < length (ref_bank regs)" using Cons.prems(1) by (simp add: ref_index_bound)
      obtain h1 where h1: "iree_vm_ref_move tbl False h (ref_bank regs ! ?k) null_ref = Some (h1, null_ref, ref_bank regs ! ?k)"
          "heap_ok tbl h1 (mset ((ref_bank regs)[?k := null_ref]) + add_mset (ref_bank regs ! ?k) F)"
        using move_out_ok [OF Cons.prems(2) b] by blast
      have "regs_wf (regs\<lparr>ref_bank := (ref_bank regs)[?k := null_ref]\<rparr>)" using Cons.prems(1) by simp
      from IH [OF this, of h1 "add_mset (ref_bank regs ! ?k) F"] h1 4 i b show ?thesis
        by (auto simp: Let_def load_ref_def store_ref_def intro!: wp_bind elim!: wp_mono)
    qed
  qed
qed simp

text \<open>Arguments from outside: the accounting is kept wherever the copy of a 64-bit argument is in range.\<close>

lemma store_i64_wf_refs: "store_i64 regs k v = Some regs' \<Longrightarrow> ref_bank regs' = ref_bank regs"
  by (auto simp: store_i64_def split: if_splits)

lemma marshal_arguments_ok:
  assumes "regs_wf regs" "heap_ok tbl h (mset (ref_bank regs) + (mset (abi_refs arguments) + F))"
    and "marshal_arguments tbl h regs i k cs arguments = Some (h', regs', arguments')"
  shows "regs_wf regs' \<and> heap_ok tbl h' (mset (ref_bank regs') + (mset (abi_refs arguments') + F))"
  using assms
proof (induction cs arbitrary: h regs i k arguments arguments' F)
  case (Cons c cs)
  show ?case
  proof (cases c rule: class_cases)
    case 1
    then have "marshal_arguments tbl h regs i k cs arguments = Some (h', regs', arguments')"
      using Cons.prems(3) by auto
    from Cons.IH [OF Cons.prems(1,2) this] show ?thesis .
  next
    case 2
    then obtain v as as' where a: "arguments = AbiI32 v # as" "arguments' = AbiI32 v # as'"
        "marshal_arguments tbl h (regs\<lparr>i32_bank := (i32_bank regs)[i32_index regs i := v]\<rparr>) (i + 1) k cs as = Some (h', regs', as')"
      using Cons.prems(1,3) by (auto simp: load_store_simps bind_eq_Some_conv split: list.splits abi_value.splits)
    from Cons.IH [OF _ _ a(3)] Cons.prems a show ?thesis by simp
  next
    case 3
    then obtain v as as' regs1 where a: "arguments = AbiI64 v # as" "arguments' = AbiI64 v # as'"
        "store_i64 regs (i32_index regs i) v = Some regs1" "marshal_arguments tbl h regs1 (i + 2) k cs as = Some (h', regs', as')"
      using Cons.prems(1,3) by (auto simp: bind_eq_Some_conv split: list.splits abi_value.splits)
    from Cons.IH [OF _ _ a(4)] Cons.prems a store_i64_wf_refs [OF a(3)] show ?thesis by simp
  next
    case 4
    then obtain r as where a: "arguments = AbiRef r # as" using Cons.prems(3) by (auto split: list.splits abi_value.splits)
    let ?k = "ref_index regs k"
    have b: "?k < length (ref_bank regs)" using Cons.prems(1) by (simp add: ref_index_bound)
    obtain h1 where h1: "iree_vm_ref_move tbl False h r (ref_bank regs ! ?k) = Some (h1, null_ref, r)"
        "heap_ok tbl h1 (mset ((ref_bank regs)[?k := r]) + (mset (abi_refs as) + F))"
      using move_in_ok [OF _ b, of tbl h r "mset (abi_refs as) + F"] Cons.prems(2) a by auto
    define regs1 where "regs1 = regs\<lparr>ref_bank := (ref_bank regs)[?k := r]\<rparr>"
    obtain as' where a': "marshal_arguments tbl h1 regs1 i (k + 1) cs as = Some (h', regs', as')" "arguments' = AbiRef null_ref # as'"
      using Cons.prems(3) 4 a b h1(1) by (auto simp: load_ref_def store_ref_def bind_eq_Some_conv regs1_def)
    have "regs_wf regs1" "heap_ok tbl h1 (mset (ref_bank regs1) + (mset (abi_refs as) + F))"
      using Cons.prems(1) h1(2) by (simp_all add: regs1_def)
    from Cons.IH [OF this a'(1)] a'(2) show ?thesis by simp
  qed
qed simp

lemma store_results_ok:
  assumes "regs_wf regs" "heap_ok tbl h (mset (ref_bank regs) + (mset (abi_refs results) + F))" "abi_typed cs results"
  shows "\<exists>h' regs' L. store_results tbl h regs cs dsts results = Some (h', regs') \<and> regs_wf regs'
    \<and> heap_ok tbl h' (mset (ref_bank regs') + (L + F))"
  using assms
proof (induction cs arbitrary: h regs dsts results F)
  case Nil
  then show ?case by (auto intro: exI [of _ "{#}"])
next
  case (Cons c cs)
  show ?case
  proof (cases dsts)
    case Nil
    with Cons.prems show ?thesis by (auto simp del: abi_typed.simps)
  next
    case dsts: (Cons d ds)
    show ?thesis
    proof (cases c rule: class_cases)
      case 1
      with Cons.prems(3) have "abi_typed cs results" by auto
      from Cons.IH [OF Cons.prems(1,2) this, of ds] 1 dsts show ?thesis by auto
    next
      case 2
      with Cons.prems(3) obtain v rs where r: "results = AbiI32 v # rs" "abi_typed cs rs"
        by (auto split: list.splits elim: abi_class.elims)
      from Cons.IH [of "regs\<lparr>i32_bank := (i32_bank regs)[i32_index regs d := v]\<rparr>" h rs F ds] 2 dsts r Cons.prems
      show ?thesis by (simp add: load_store_simps)
    next
      case 3
      with Cons.prems(3) obtain v rs where r: "results = AbiI64 v # rs" "abi_typed cs rs"
        by (auto split: list.splits elim: abi_class.elims)
      obtain regs1 where s: "store_i64 regs (i64_index regs d) v = Some regs1" using store_i64_wf [OF Cons.prems(1)] by blast
      from Cons.IH [of regs1 h rs F ds] 3 dsts r s store_i64_wf_refs [OF s] Cons.prems
      show ?thesis by simp
    next
      case 4
      with Cons.prems(3) obtain v rs where r: "results = AbiRef v # rs" "abi_typed cs rs"
        by (auto split: list.splits elim: abi_class.elims)
      let ?k = "ref_index regs d"
      have b: "?k < length (ref_bank regs)" using Cons.prems(1) by (simp add: ref_index_bound)
      obtain h1 where h1: "iree_vm_ref_move tbl False h v (ref_bank regs ! ?k) = Some (h1, null_ref, v)"
          "heap_ok tbl h1 (mset ((ref_bank regs)[?k := v]) + (mset (abi_refs rs) + F))"
        using move_in_ok [OF _ b, of tbl h v "mset (abi_refs rs) + F"] Cons.prems(2) r by auto
      from Cons.IH [of "regs\<lparr>ref_bank := (ref_bank regs)[?k := v]\<rparr>" h1 rs F ds] 4 dsts r h1 b Cons.prems(1)
      show ?thesis by (simp add: load_ref_def store_ref_def)
    qed
  qed
qed

section \<open>Argument buffers\<close>

text \<open>
  The arguments of an import take exactly the bytes that \<open>compute_cconv_fragment_size\<close> counts, spans
  included, so the copy never leaves the buffer.
\<close>

lemma populate_values_size:
  "populate_values regs cs srcs = Some (vs, srcs') \<Longrightarrow> span_size_of cs n = Some m \<Longrightarrow> m = n + of_nat (abi_bytes vs)"
proof (induction cs arbitrary: srcs vs n)
  case (Cons c cs)
  show ?case
    by (cases c rule: class_cases)
      (use Cons.prems in \<open>auto simp: bind_eq_Some_conv class_size_def split: list.splits dest!: Cons.IH\<close>)
qed simp

lemma span_size_offset: "span_size_of cs n = map_option (\<lambda>m. n + m) (span_size_of cs 0)"
proof (induction cs arbitrary: n)
  case (Cons c cs)
  show ?case
  proof (cases "cconv_class c")
    case (Some k)
    then show ?thesis
      using Cons [of "n + class_size k"] Cons [of "class_size k"] by (simp add: option.map_comp comp_def add.assoc)
  qed simp
qed simp

lemma populate_span_size:
  "populate_span regs cs n srcs = Some (vs, srcs') \<Longrightarrow> span_size_of cs 0 = Some m \<Longrightarrow> m * of_nat n = of_nat (abi_bytes vs)"
proof (induction n arbitrary: srcs vs)
  case (Suc n)
  then obtain us ws srcs1 where "populate_values regs cs srcs = Some (us, srcs1)" "populate_span regs cs n srcs1 = Some (ws, srcs')"
      "vs = us @ ws" by (auto simp: bind_eq_Some_conv)
  with Suc.IH [of srcs1 ws] Suc.prems(2) populate_values_size [of regs cs srcs us srcs1 0 m] show ?case
    by (simp add: algebra_simps)
qed simp

lemma span_start_class [simp]: "cconv_class IREE_VM_CCONV_TYPE_SPAN_START = None"
  by (simp add: cconv_class_def cconv_types)

lemma populate_arguments_size:
  assumes "populate_arguments regs segs cs seg_i srcs = Some vs" "fragment_size_loop cs segs seg_i n = (st, Some m)"
  shows "m = n + of_nat (abi_bytes vs)"
  using assms
proof (induction regs segs cs seg_i srcs arbitrary: vs n rule: populate_arguments.induct)
  case (2 regs segs c cs seg_i srcs)
  show ?case
  proof (cases "c = IREE_VM_CCONV_TYPE_SPAN_START")
    case True
    with 2(3,4) obtain sg us ws srcs1 k where sg: "segs = Some sg" "seg_i < length sg"
        "populate_span regs (span_body cs) (unat (sg ! seg_i)) srcs = Some (us, srcs1)"
        "populate_arguments regs segs (after_span cs) (Suc seg_i) srcs1 = Some ws"
        "vs = AbiI32 (ucast (sg ! seg_i)) # us @ ws" "span_size_of (span_body cs) 0 = Some k"
        "fragment_size_loop (after_span cs) segs (Suc seg_i) (n + 4 + k * ucast (sg ! seg_i)) = (st, Some m)"
      by (auto simp: bind_eq_Some_conv Let_def split: option.splits if_splits)
    from 2(1) [OF True sg(1,2) refl sg(3) refl] sg have "m = n + 4 + k * ucast (sg ! seg_i) + of_nat (abi_bytes ws)"
      by simp
    moreover have "k * ucast (sg ! seg_i) = of_nat (abi_bytes us)"
      using populate_span_size [OF sg(3,6)] by simp
    ultimately show ?thesis using sg(5) by simp
  next
    case False
    with 2(3) obtain us ws srcs1 where u: "populate_values regs [c] srcs = Some (us, srcs1)"
        "populate_arguments regs segs cs (Suc seg_i) srcs1 = Some ws" "vs = us @ ws"
      by (auto simp: bind_eq_Some_conv simp del: populate_values.simps)
    from False 2(4) obtain k where k: "cconv_class c = Some k" "fragment_size_loop cs segs (Suc seg_i) (n + class_size k) = (st, Some m)"
      by (auto split: option.splits)
    from 2(2) [OF False u(1) refl, of ws "n + class_size k"] u k have "m = n + class_size k + of_nat (abi_bytes ws)"
      by simp
    moreover have "class_size k = of_nat (abi_bytes us)"
      using populate_values_size [OF u(1), of 0] k(1) by simp
    ultimately show ?thesis using u(3) by simp
  qed
qed simp

lemma populate_values_refs:
  "regs_wf regs \<Longrightarrow> populate_values regs cs srcs = Some (vs, srcs') \<Longrightarrow> set (abi_refs vs) \<subseteq> set (ref_bank regs)"
proof (induction cs arbitrary: srcs vs)
  case (Cons c cs)
  show ?case
    by (cases c rule: class_cases)
      (use Cons.prems in \<open>auto simp: bind_eq_Some_conv load_store_simps ref_index_bound split: list.splits dest!: Cons.IH [OF Cons.prems(1)]\<close>)
qed simp

lemma populate_span_refs:
  "regs_wf regs \<Longrightarrow> populate_span regs cs n srcs = Some (vs, srcs') \<Longrightarrow> set (abi_refs vs) \<subseteq> set (ref_bank regs)"
  by (induction n arbitrary: srcs vs) (force simp: bind_eq_Some_conv dest: populate_values_refs)+

lemma populate_arguments_refs:
  "regs_wf regs \<Longrightarrow> populate_arguments regs segs cs seg_i srcs = Some vs \<Longrightarrow> set (abi_refs vs) \<subseteq> set (ref_bank regs)"
proof (induction regs segs cs seg_i srcs arbitrary: vs rule: populate_arguments.induct)
  case (2 regs segs c cs seg_i srcs)
  show ?case
  proof (cases "c = IREE_VM_CCONV_TYPE_SPAN_START")
    case True
    with 2(4) obtain sg us ws srcs1 where sg: "segs = Some sg" "seg_i < length sg"
        "populate_span regs (span_body cs) (unat (sg ! seg_i)) srcs = Some (us, srcs1)"
        "populate_arguments regs segs (after_span cs) (Suc seg_i) srcs1 = Some ws"
        "vs = AbiI32 (ucast (sg ! seg_i)) # us @ ws"
      by (auto simp: bind_eq_Some_conv Let_def split: option.splits if_splits)
    with 2(1) [OF True sg(1,2) refl sg(3) refl 2(3)] populate_span_refs [OF 2(3) sg(3)] show ?thesis by simp
  next
    case False
    with 2(4) obtain us ws srcs1 where u: "populate_values regs [c] srcs = Some (us, srcs1)"
        "populate_arguments regs segs cs (Suc seg_i) srcs1 = Some ws" "vs = us @ ws"
      by (auto simp: bind_eq_Some_conv simp del: populate_values.simps)
    with 2(2) [OF False u(1) refl 2(3)] populate_values_refs [OF 2(3) u(1)] show ?thesis by simp
  qed
qed simp

section \<open>Frames\<close>

lemma frame_regs_top: "frame_regs 0 s = Some regs \<longleftrightarrow> (\<exists>f fs b. frames s = f # fs \<and> frame_storage f = Some b \<and> registers b = regs)"
  by (cases "frames s") (auto simp: frame_regs_def)

lemma frame_regs_second:
  "frames s = f # g # fs \<Longrightarrow> frame_regs 1 s = map_option registers (frame_storage g)"
  by (simp add: frame_regs_def)

lemma set_regs_simps:
  assumes "frames s = f # fs" "frame_storage f = Some b"
  shows "set_frame_regs 0 regs s = s\<lparr>frames := f\<lparr>frame_storage := Some (b\<lparr>registers := regs\<rparr>)\<rparr> # fs\<rparr>"
    "set_return_registers rs s = s\<lparr>frames := f\<lparr>frame_storage := Some (b\<lparr>return_registers := Some rs\<rparr>)\<rparr> # fs\<rparr>"
  using assms by (simp_all add: set_frame_regs_def set_return_registers_def)

lemma set_regs_second:
  assumes "frames s = f # g # fs" "frame_storage g = Some b"
  shows "set_frame_regs 1 regs s = s\<lparr>frames := f # g\<lparr>frame_storage := Some (b\<lparr>registers := regs\<rparr>)\<rparr> # fs\<rparr>"
  using assms by (simp add: set_frame_regs_def)

lemma stack_refs_simps [simp]:
  "stack_refs (s\<lparr>frames := f # fs\<rparr>) = frame_refs f @ concat (map frame_refs fs)"
  by (simp add: stack_refs_def)

lemma frame_refs_Some: "frame_storage f = Some b \<Longrightarrow> frame_refs f = ref_bank (registers b)"
  by (simp add: frame_refs_def)

text \<open>A frame may change its registers, its return registers and its pc: the stack stays well formed.\<close>

definition same_frame :: "iree_vm_stack_frame \<Rightarrow> iree_vm_stack_frame \<Rightarrow> bool" where
  "same_frame f f' \<longleftrightarrow> frame_size f' = frame_size f \<and> frame_depth f' = frame_depth f \<and> frame_function f' = frame_function f"

lemma stack_wf_change:
  assumes "stack_wf s" "list_all2 same_frame (frames s) fs" "\<forall>f \<in> set fs. frame_wf f"
  shows "stack_wf (s\<lparr>frames := fs\<rparr>)"
proof -
  have "map frame_size fs = map frame_size (frames s)"
    using assms(2) by (induction rule: list_all2_induct) (auto simp: same_frame_def)
  then have "(\<Sum>f \<leftarrow> fs. unat (frame_size f)) = (\<Sum>f \<leftarrow> frames s. unat (frame_size f))"
    by (metis (mono_tags, lifting) list.map_comp map_eq_conv comp_def)
  moreover have "length fs = length (frames s)" using list_all2_lengthD [OF assms(2)] by simp
  moreover have "frame_depth (fs ! i) = frame_depth (frames s ! i)" if "i < length fs" for i
    using list_all2_nthD2 [OF assms(2) that] by (simp add: same_frame_def)
  ultimately show ?thesis using assms(1,3) by (simp add: stack_wf_def)
qed

lemma same_frame_simps [simp]: "same_frame f f" "same_frame f (f\<lparr>frame_storage := x\<rparr>)" "same_frame f (f\<lparr>frame_pc := p\<rparr>)"
  by (simp_all add: same_frame_def)

lemma frame_wf_simps [simp]:
  "frame_wf (f\<lparr>frame_storage := Some b\<rparr>) \<longleftrightarrow> regs_wf (registers b)" "frame_wf (f\<lparr>frame_pc := p\<rparr>) \<longleftrightarrow> frame_wf f"
  by (simp_all add: frame_wf_def)

lemma stack_wf_frame: "stack_wf s \<Longrightarrow> f \<in> set (frames s) \<Longrightarrow> frame_wf f"
  by (simp add: stack_wf_def)

lemma stack_wf_regs: "stack_wf s \<Longrightarrow> f \<in> set (frames s) \<Longrightarrow> frame_storage f = Some b \<Longrightarrow> regs_wf (registers b)"
  by (auto simp: stack_wf_def frame_wf_def)

lemma same_frames_refl [simp]: "list_all2 same_frame fs fs"
  by (simp add: list_all2_same)

section \<open>Calls keep the accounting\<close>

text \<open>
  Entering a function from outside takes over the references of the argument buffer, and leaving it
  hands the results over to the result buffer and releases the registers of the frame.
\<close>

lemma null_bank_ok: "\<forall>r \<in> set rs. r = null_ref \<Longrightarrow> heap_ok tbl h (mset rs + F) \<longleftrightarrow> heap_ok tbl h F"
  by (induction rs) auto

lemma external_enter_ok:
  assumes wf: "stack_wf s" and ok: "heap_ok tbl h (mset (stack_refs s) + (mset (abi_refs arguments) + F))"
    and run: "iree_vm_bytecode_external_enter tbl allocator resolver fdt h s f cs arguments = Some (st, h', s', arguments')"
  shows "stack_wf s' \<and> heap_ok tbl h' (mset (stack_refs s') + (mset (abi_refs arguments') + F))
    \<and> (if st = IREE_STATUS_OK
       then \<exists>f' b. frames s' = f' # frames s \<and> frame_storage f' = Some b \<and> frame_function f' = f \<and> frame_pc f' = 0
         \<and> unat (fn_ordinal f) < length fdt
       else frames s' = frames s)"
proof -
  obtain st1 s1 where e: "iree_vm_bytecode_function_enter allocator resolver fdt s f = Some (st1, s1)" "stack_wf s1"
      "if st1 = IREE_STATUS_OK then unat (fn_ordinal f) < length fdt \<and>
          (\<exists>f' b. entered s f' s1 \<and> frame_storage f' = Some b \<and> frame_function f' = f
            \<and> regs_wf (registers b) \<and> (\<forall>r \<in> set (ref_bank (registers b)). r = null_ref))
        else frames s1 = frames s \<and> frame_storage_size s1 = frame_storage_size s"
    using bytecode_function_enter_ok [OF wf, of allocator resolver fdt f] by (elim exE conjE) (rule that)
  show ?thesis
  proof (cases "st1 = IREE_STATUS_OK")
    case False
    with run e ok show ?thesis by (auto simp: iree_vm_bytecode_external_enter_def stack_refs_def)
  next
    case True
    with e(3) obtain f' b where f': "frames s1 = f' # frames s" "frame_storage f' = Some b" "frame_function f' = f"
        "frame_pc f' = 0" "regs_wf (registers b)" "\<forall>r \<in> set (ref_bank (registers b)). r = null_ref" "unat (fn_ordinal f) < length fdt"
      by (auto simp: entered_def)
    from f' True run e(1) obtain regs where m:
        "marshal_arguments tbl h (registers b) 0 0 cs arguments = Some (h', regs, arguments')"
        "s' = s1\<lparr>frames := f'\<lparr>frame_storage := Some (b\<lparr>registers := regs\<rparr>)\<rparr> # frames s\<rparr>" "st = IREE_STATUS_OK"
      by (auto simp: iree_vm_bytecode_external_enter_def frame_regs_def set_regs_simps [OF f'(1,2)] bind_eq_Some_conv)
    have "heap_ok tbl h (mset (ref_bank (registers b)) + (mset (abi_refs arguments) + (mset (stack_refs s) + F)))"
      using ok by (subst null_bank_ok [OF f'(6)]) (simp add: ac_simps)
    from marshal_arguments_ok [OF f'(5) this m(1)]
    have "regs_wf regs" "heap_ok tbl h' (mset (ref_bank regs) + (mset (abi_refs arguments') + (mset (stack_refs s) + F)))"
      by auto
    moreover have "stack_wf s'"
      unfolding m(2) using \<open>regs_wf regs\<close> f'(1) stack_wf_frame [OF e(2)]
      by (intro stack_wf_change [OF e(2)]) auto
    moreover have "stack_refs s' = ref_bank regs @ stack_refs s"
      by (simp add: m(2) frame_refs_Some stack_refs_def [of s])
    moreover have "\<exists>f' b. frames s' = f' # frames s \<and> frame_storage f' = Some b \<and> frame_function f' = f \<and> frame_pc f' = 0"
      using f'(3,4) by (simp add: m(2))
    ultimately show ?thesis
      using f'(7) m(3) by (simp add: ac_simps)
  qed
qed

lemma external_leave_ok:
  assumes wf: "stack_wf s" and fs: "frames s = f # fs" "frame_storage f = Some b"
    and ok: "heap_ok tbl h (mset (stack_refs s) + F)"
  shows "wp (length src_reg_list < length cs) (iree_vm_bytecode_external_leave tbl h s src_reg_list cs)
    (\<lambda>(st, h', s', results). st = IREE_STATUS_OK \<and> stack_wf s' \<and> frames s' = fs \<and> abi_typed cs results
      \<and> heap_ok tbl h' (mset (stack_refs s') + (mset (abi_refs results) + F)))"
proof -
  have rw: "regs_wf (registers b)" using stack_wf_regs [OF wf _ fs(2)] fs(1) by simp
  have "heap_ok tbl h (mset (ref_bank (registers b)) + (mset (concat (map frame_refs fs)) + F))"
    using ok fs by (simp add: stack_refs_def frame_refs_Some ac_simps)
  note m = marshal_results_ok [OF rw this, of src_reg_list 0 cs, simplified]
  have leave: "wp U (iree_vm_stack_function_leave tbl h1 (set_frame_regs 0 regs s))
      (\<lambda>(h', st, s'). st = IREE_STATUS_OK \<and> stack_wf s' \<and> frames s' = fs
        \<and> heap_ok tbl h' (mset (stack_refs s') + (mset (abi_refs results) + F)))"
    if "regs_wf regs" "heap_ok tbl h1 (mset (ref_bank regs) + (mset (abi_refs results) + (mset (concat (map frame_refs fs)) + F)))"
    for U h1 regs results
  proof -
    define f' where "f' = f\<lparr>frame_storage := Some (b\<lparr>registers := regs\<rparr>)\<rparr>"
    define s1 where "s1 = s\<lparr>frames := f' # fs\<rparr>"
    have s1: "stack_wf s1"
      unfolding s1_def using that(1) fs stack_wf_frame [OF wf] by (intro stack_wf_change [OF wf]) (auto simp: f'_def)
    have "heap_ok tbl h1 (mset (stack_refs s1) + (mset (abi_refs results) + F))"
      using that(2) by (simp add: s1_def f'_def frame_refs_Some ac_simps)
    from function_leave_ok [OF s1 _ this, of f' fs] show ?thesis
      by (auto simp: set_regs_simps [OF fs] s1_def f'_def)
  qed
  show ?thesis
    unfolding iree_vm_bytecode_external_leave_def using fs
    by (auto simp: frame_regs_def intro!: wp_bind wp_mono [OF m] wp_mono [OF leave])
qed

text \<open>
  A call of another bytecode function is always defined, for any argument list. It is entered with its
  caller below it, which has the list of registers for the results; the references of all frames are
  accounted for, up to leaks.
\<close>

lemma internal_enter_ok:
  assumes wf: "stack_wf s" and fs: "frames s = f # fs" "frame_storage f = Some b"
    and ok: "heap_ok tbl h (mset (stack_refs s) + F)"
  shows "\<exists>st h' s' L. iree_vm_bytecode_internal_enter tbl allocator resolver fdt h s m ordinal src_reg_list dst_reg_list = Some (st, h', s')
    \<and> stack_wf s' \<and> heap_ok tbl h' (mset (stack_refs s') + (L + F))
    \<and> (if st = IREE_STATUS_OK
       then \<exists>g c f' b'. frames s' = g # f' # fs \<and> frame_storage g = Some c \<and> frame_pc g = 0
         \<and> fn_ordinal (frame_function g) = ucast ordinal \<and> unat (ucast ordinal :: u16) < length fdt
         \<and> same_frame f f' \<and> frame_pc f' = frame_pc f \<and> frame_storage f' = Some b' \<and> return_registers b' = Some dst_reg_list
       else \<exists>f' b'. frames s' = f' # fs \<and> same_frame f f' \<and> frame_storage f' = Some b')"
proof -
  define f1 where "f1 = f\<lparr>frame_storage := Some (b\<lparr>return_registers := Some dst_reg_list\<rparr>)\<rparr>"
  define s0 where "s0 = s\<lparr>frames := f1 # fs\<rparr>"
  have rw: "regs_wf (registers b)" using stack_wf_regs [OF wf _ fs(2)] fs(1) by simp
  have wf0: "stack_wf s0"
    unfolding s0_def f1_def using rw fs stack_wf_frame [OF wf] by (intro stack_wf_change [OF wf]) auto
  have refs0: "stack_refs s0 = ref_bank (registers b) @ concat (map frame_refs fs)" "stack_refs s = stack_refs s0"
    using fs by (simp_all add: s0_def f1_def frame_refs_Some stack_refs_def)
  let ?fn = "\<lparr>fn_module = m, fn_linkage = IREE_VM_FUNCTION_LINKAGE_INTERNAL, fn_ordinal = ucast ordinal\<rparr>"
  obtain st s1 where e: "iree_vm_bytecode_function_enter allocator resolver fdt s0 ?fn = Some (st, s1)" "stack_wf s1"
      "if st = IREE_STATUS_OK then unat (fn_ordinal ?fn) < length fdt \<and>
          (\<exists>g c. entered s0 g s1 \<and> frame_storage g = Some c \<and> frame_function g = ?fn
            \<and> regs_wf (registers c) \<and> (\<forall>r \<in> set (ref_bank (registers c)). r = null_ref))
        else frames s1 = frames s0 \<and> frame_storage_size s1 = frame_storage_size s0"
    using bytecode_function_enter_ok [OF wf0, of allocator resolver fdt ?fn] by (elim exE conjE) (rule that)
  have top: "frame_regs 0 s = Some (registers b)" "set_return_registers dst_reg_list s = s0"
    using fs by (simp_all add: frame_regs_def set_regs_simps s0_def f1_def)
  show ?thesis
  proof (cases "st = IREE_STATUS_OK")
    case False
    with e have "frames s1 = f1 # fs" by (simp add: s0_def)
    moreover have "heap_ok tbl h (mset (stack_refs s1) + ({#} + F))"
      using ok refs0 calculation by (simp add: stack_refs_def s0_def)
    moreover have "iree_vm_bytecode_internal_enter tbl allocator resolver fdt h s m ordinal src_reg_list dst_reg_list = Some (st, h, s1)"
      using False e(1) top by (simp add: iree_vm_bytecode_internal_enter_def)
    moreover have "same_frame f f1" "frame_storage f1 = Some (b\<lparr>return_registers := Some dst_reg_list\<rparr>)" by (simp_all add: f1_def)
    ultimately show ?thesis
      using False e(2) by (intro exI [of _ st] exI [of _ h] exI [of _ s1] exI [of _ "{#}"]) simp
  next
    case True
    with e(3) obtain g c where g: "frames s1 = g # f1 # fs" "frame_storage g = Some c" "frame_function g = ?fn" "frame_pc g = 0"
        "regs_wf (registers c)" "\<forall>r \<in> set (ref_bank (registers c)). r = null_ref" "unat (ucast ordinal :: u16) < length fdt"
      by (auto simp: entered_def s0_def)
    have "heap_ok tbl h (mset (ref_bank (registers b)) + (mset (ref_bank (registers c)) + (mset (concat (map frame_refs fs)) + F)))"
      using ok refs0 by (subst add.left_commute, subst null_bank_ok [OF g(6)]) (simp add: ac_simps)
    from copy_arguments_ok [OF rw g(5) this, of 0 0 src_reg_list] obtain h' src dst L where
      c: "copy_arguments tbl h (registers b) (registers c) 0 0 src_reg_list = Some (h', src, dst)" "regs_wf src" "regs_wf dst"
        "heap_ok tbl h' (mset (ref_bank src) + (mset (ref_bank dst) + (L + (mset (concat (map frame_refs fs)) + F))))"
      by auto
    define g' where "g' = g\<lparr>frame_storage := Some (c\<lparr>registers := dst\<rparr>)\<rparr>"
    define f2 where "f2 = f1\<lparr>frame_storage := Some (b\<lparr>return_registers := Some dst_reg_list, registers := src\<rparr>)\<rparr>"
    define s2 where "s2 = s1\<lparr>frames := g' # f2 # fs\<rparr>"
    have sf: "same_frame g g'" "same_frame f1 f2" "same_frame f f2" by (simp_all add: same_frame_def g'_def f2_def f1_def)
    have "stack_wf s2"
      unfolding s2_def using c g(1) sf stack_wf_frame [OF e(2)] by (intro stack_wf_change [OF e(2)]) (auto simp: g'_def f2_def)
    moreover have "heap_ok tbl h' (mset (stack_refs s2) + (L + F))"
      using c(4) by (simp add: s2_def g'_def f2_def frame_refs_Some ac_simps)
    moreover have "set_frame_regs 0 dst (set_frame_regs 1 src s1) = s2"
      using g(1,2) by (simp add: set_frame_regs_def s2_def g'_def f2_def f1_def)
    moreover have "frame_regs 1 s1 = Some (registers b)" "frame_regs 0 s1 = Some (registers c)"
      using g(1,2) by (simp_all add: frame_regs_def f1_def)
    ultimately have "iree_vm_bytecode_internal_enter tbl allocator resolver fdt h s m ordinal src_reg_list dst_reg_list
        = Some (IREE_STATUS_OK, h', s2)"
      using True e(1) top c(1) by (simp add: iree_vm_bytecode_internal_enter_def)
    moreover have "\<exists>g c f' b'. frames s2 = g # f' # fs \<and> frame_storage g = Some c \<and> frame_pc g = 0
         \<and> fn_ordinal (frame_function g) = ucast ordinal \<and> unat (ucast ordinal :: u16) < length fdt
         \<and> same_frame f f' \<and> frame_pc f' = frame_pc f \<and> frame_storage f' = Some b' \<and> return_registers b' = Some dst_reg_list"
      using g(3,4,7) sf(3)
      by (intro exI [of _ g'] exI [of _ "c\<lparr>registers := dst\<rparr>"] exI [of _ f2]
          exI [of _ "b\<lparr>return_registers := Some dst_reg_list, registers := src\<rparr>"])
        (simp add: s2_def g'_def f2_def f1_def)
    ultimately show ?thesis
      using \<open>stack_wf s2\<close> \<open>heap_ok tbl h' (mset (stack_refs s2) + (L + F))\<close>
      by (intro exI [of _ IREE_STATUS_OK] exI [of _ h'] exI [of _ s2] exI [of _ L]) simp
  qed
qed

lemma internal_leave_ok:
  assumes wf: "stack_wf s" and fs: "frames s = g # f # fs" "frame_storage g = Some c" "frame_storage f = Some b"
    and ret: "return_registers b = Some dst_reg_list" and ok: "heap_ok tbl h (mset (stack_refs s) + F)"
  shows "\<exists>st h' s'. iree_vm_bytecode_internal_leave tbl h s src_reg_list = Some (st, h', s') \<and> stack_wf s'
    \<and> heap_ok tbl h' (mset (stack_refs s') + F)
    \<and> (if length src_reg_list \<le> length dst_reg_list
       then st = IREE_STATUS_OK \<and> (\<exists>f' b'. frames s' = f' # fs \<and> same_frame f f' \<and> frame_pc f' = frame_pc f \<and> frame_storage f' = Some b'
         \<and> return_registers b' = return_registers b)
       else st = IREE_STATUS_FAILED_PRECONDITION \<and> s' = s)"
proof (cases "length src_reg_list \<le> length dst_reg_list")
  case False
  then show ?thesis
    using assms by (simp add: iree_vm_bytecode_internal_leave_def iree_vm_stack_parent_frame_def)
next
  case True
  have rw: "regs_wf (registers b)" "regs_wf (registers c)"
    using stack_wf_regs [OF wf _ fs(2)] stack_wf_regs [OF wf _ fs(3)] fs(1) by simp_all
  have "heap_ok tbl h (mset (ref_bank (registers c)) + (mset (ref_bank (registers b)) + (mset (concat (map frame_refs fs)) + F)))"
    using ok fs by (simp add: stack_refs_def frame_refs_Some ac_simps)
  from copy_results_ok [OF rw(2,1) this, of "zip src_reg_list dst_reg_list"] obtain h1 src dst where
    c: "copy_results tbl h (registers c) (registers b) (zip src_reg_list dst_reg_list) = Some (h1, src, dst)" "regs_wf src" "regs_wf dst"
      "heap_ok tbl h1 (mset (ref_bank src) + (mset (ref_bank dst) + (mset (concat (map frame_refs fs)) + F)))" by auto
  define g' where "g' = g\<lparr>frame_storage := Some (c\<lparr>registers := src\<rparr>)\<rparr>"
  define f' where "f' = f\<lparr>frame_storage := Some (b\<lparr>registers := dst\<rparr>)\<rparr>"
  define s1 where "s1 = s\<lparr>frames := g' # f' # fs\<rparr>"
  have "stack_wf s1"
    unfolding s1_def using c fs(1) stack_wf_frame [OF wf] by (intro stack_wf_change [OF wf]) (auto simp: g'_def f'_def)
  moreover have fs1: "frames s1 = g' # f' # fs" by (simp add: s1_def)
  moreover have "heap_ok tbl h1 (mset (stack_refs s1) + F)"
    using c(4) by (simp add: s1_def g'_def f'_def frame_refs_Some ac_simps)
  ultimately obtain h' s' where l: "iree_vm_stack_function_leave tbl h1 s1 = Some (h', IREE_STATUS_OK, s')" "stack_wf s'"
      "frames s' = f' # fs" "heap_ok tbl h' (mset (stack_refs s') + F)"
    using function_leave_ok [of s1 g' "f' # fs" tbl h1 F] by auto
  have "set_frame_regs 0 src (set_frame_regs 1 dst s) = s1"
    using fs by (simp add: set_frame_regs_def s1_def g'_def f'_def)
  then have "iree_vm_bytecode_internal_leave tbl h s src_reg_list = Some (IREE_STATUS_OK, h', s')"
    using True fs ret c(1) l(1)
    by (simp add: iree_vm_bytecode_internal_leave_def iree_vm_stack_parent_frame_def frame_regs_def)
  moreover have "same_frame f f'" "frame_pc f' = frame_pc f" "frame_storage f' = Some (b\<lparr>registers := dst\<rparr>)" by (simp_all add: f'_def)
  ultimately show ?thesis
    using True l(2-4) by simp
qed

section \<open>Imported functions\<close>

text \<open>
  What the dispatcher relies on of the module an import comes from (\<open>iree_vm_function_call_t\<close>): the
  references of the arguments stay retained by the caller, the references of the results are handed
  over, and a call that succeeds leaves the stack as it found it and fills the result buffer according
  to the calling convention of the import. \<open>L\<close> is what the callee keeps.
\<close>

definition state_ok :: "type_table \<Rightarrow> iree_vm_ref multiset \<Rightarrow> vm_state \<Rightarrow> bool" where
  "state_ok tbl F st \<longleftrightarrow> stack_wf (s_stack st) \<and>
    heap_ok tbl (s_heap st) (mset (stack_refs (s_stack st)) + (mset (s_globals st) + F))"

definition import_call_ok :: "type_table \<Rightarrow> begin_call \<Rightarrow> iree_vm_bytecode_import \<Rightarrow> bool" where
  "import_call_ok tbl begin_call import \<longleftrightarrow>
    (\<forall>arguments st F. state_ok tbl F st \<longrightarrow> set (abi_refs arguments) \<subseteq> set (stack_refs (s_stack st)) \<longrightarrow>
      (\<exists>call_status st' results L. begin_call (imp_function import) arguments st = Some (call_status, st', results)
        \<and> state_ok tbl (mset (abi_refs results) + (L + F)) st' \<and> length (s_globals st') = length (s_globals st)
        \<and> (\<exists>fs. frames (s_stack st') = fs @ frames (s_stack st))
        \<and> (call_status = IREE_STATUS_OK \<longrightarrow>
             frames (s_stack st') = frames (s_stack st) \<and> abi_typed (imp_results import) results)))"

text \<open>What a step may do to the frames below the top: nothing.\<close>

definition top_changed :: "iree_vm_stack \<Rightarrow> iree_vm_stack \<Rightarrow> bool" where
  "top_changed s s' \<longleftrightarrow> (\<exists>f fs f' b'. frames s = f # fs \<and> frames s' = f' # fs \<and> same_frame f f' \<and> frame_pc f' = frame_pc f
    \<and> frame_storage f' = Some b')"

lemma issue_import_call_ok:
  assumes bc: "import_call_ok tbl begin_call import" and ok: "state_ok tbl F st"
    and fs: "frames (s_stack st) = f # fs" "frame_storage f = Some b"
    and args: "set (abi_refs arguments) \<subseteq> set (ref_bank (registers b))"
  shows "\<exists>call_status st' L. iree_vm_bytecode_issue_import_call tbl begin_call st (imp_function import) arguments
        (imp_results import) dst_reg_list = Some (call_status, st')
    \<and> state_ok tbl (L + F) st' \<and> length (s_globals st') = length (s_globals st)
    \<and> (\<exists>gs. frames (s_stack st') = gs @ fs)
    \<and> (call_status = IREE_STATUS_OK \<longrightarrow> top_changed (s_stack st) (s_stack st'))"
proof -
  have "set (abi_refs arguments) \<subseteq> set (stack_refs (s_stack st))"
    using args fs by (auto simp: stack_refs_def frame_refs_Some)
  with bc ok obtain call_status st1 results L where
    c: "begin_call (imp_function import) arguments st = Some (call_status, st1, results)"
      "state_ok tbl (mset (abi_refs results) + (L + F)) st1" "length (s_globals st1) = length (s_globals st)"
      "\<exists>gs. frames (s_stack st1) = gs @ frames (s_stack st)"
      "call_status = IREE_STATUS_OK \<longrightarrow> frames (s_stack st1) = frames (s_stack st) \<and> abi_typed (imp_results import) results"
    unfolding import_call_ok_def by meson
  obtain gs where gs: "frames (s_stack st1) = (gs @ [f]) @ fs" using c(4) fs(1) by auto
  show ?thesis
  proof (cases "call_status = IREE_STATUS_OK")
    case False
    have "state_ok tbl ((mset (abi_refs results) + L) + F) st1" using c(2) by (simp add: add.assoc)
    with False c(1,3) gs show ?thesis
      by (auto simp: iree_vm_bytecode_issue_import_call_def)
  next
    case True
    with c(5) fs have f1: "frames (s_stack st1) = f # fs" "abi_typed (imp_results import) results" by simp_all
    have wf: "stack_wf (s_stack st1)" using c(2) by (simp add: state_ok_def)
    have rw: "regs_wf (registers b)" using stack_wf_regs [OF wf _ fs(2)] f1 by simp
    have "heap_ok tbl (s_heap st1) (mset (ref_bank (registers b)) + (mset (abi_refs results)
        + (mset (concat (map frame_refs fs)) + (mset (s_globals st1) + (L + F)))))"
      using c(2) f1 fs by (simp add: state_ok_def stack_refs_def frame_refs_Some ac_simps)
    from store_results_ok [OF rw this f1(2), of dst_reg_list] obtain h' regs L' where
      r: "store_results tbl (s_heap st1) (registers b) (imp_results import) dst_reg_list results = Some (h', regs)" "regs_wf regs"
        "heap_ok tbl h' (mset (ref_bank regs) + (L' + (mset (concat (map frame_refs fs)) + (mset (s_globals st1) + (L + F)))))"
      by blast
    define f2 where "f2 = f\<lparr>frame_storage := Some (b\<lparr>registers := regs\<rparr>)\<rparr>"
    define s2 where "s2 = (s_stack st1)\<lparr>frames := f2 # fs\<rparr>"
    have "stack_wf s2"
      unfolding s2_def using r(2) f1 stack_wf_frame [OF wf] by (intro stack_wf_change [OF wf]) (auto simp: f2_def)
    moreover have "heap_ok tbl h' (mset (stack_refs s2) + (mset (s_globals st1) + ((L' + L) + F)))"
      using r(3) by (simp add: s2_def f2_def frame_refs_Some ac_simps)
    moreover have "top_changed (s_stack st) s2"
      unfolding top_changed_def using fs by (intro exI [of _ f] exI [of _ fs] exI [of _ f2] exI) (auto simp: s2_def f2_def)
    moreover have "iree_vm_bytecode_issue_import_call tbl begin_call st (imp_function import) arguments (imp_results import) dst_reg_list
        = Some (IREE_STATUS_OK, st1\<lparr>s_heap := h', s_stack := s2\<rparr>)"
      using True c(1) r(1) f1 fs(2)
      by (simp add: iree_vm_bytecode_issue_import_call_def frame_regs_def set_regs_simps [OF f1(1) fs(2)] s2_def f2_def)
    moreover have "\<exists>gs. frames s2 = gs @ fs" by (intro exI [of _ "[f2]"]) (simp add: s2_def)
    ultimately show ?thesis
      using c(3) by (intro exI [of _ IREE_STATUS_OK] exI [of _ "st1\<lparr>s_heap := h', s_stack := s2\<rparr>"] exI [of _ "L' + L"])
        (simp add: state_ok_def)
  qed
qed

text \<open>The number of operands the arguments of an import take: one for each value, spans repeated.\<close>

definition value_count :: "string \<Rightarrow> nat" where
  "value_count cs = length (filter (\<lambda>c. cconv_class c \<noteq> None \<and> cconv_class c \<noteq> Some CVoid) cs)"

fun operand_count :: "u16 list option \<Rightarrow> string \<Rightarrow> nat \<Rightarrow> nat option" where
  "operand_count segs [] seg_i = Some 0"
| "operand_count segs (c # cs) seg_i =
    (if c = IREE_VM_CCONV_TYPE_SPAN_START
     then (case segs of
         None \<Rightarrow> None
       | Some sg \<Rightarrow>
           if seg_i < length sg
           then map_option (\<lambda>n. unat (sg ! seg_i) * value_count (span_body cs) + n) (operand_count segs (after_span cs) (seg_i + 1))
           else None)
     else map_option (\<lambda>n. value_count [c] + n) (operand_count segs cs (seg_i + 1)))"

definition operands_fit :: "u16 list option \<Rightarrow> string \<Rightarrow> u16 list \<Rightarrow> bool" where
  "operands_fit segs cs srcs \<longleftrightarrow> (case operand_count segs cs 0 of None \<Rightarrow> False | Some n \<Rightarrow> n \<le> length srcs)"

lemma populate_values_defined:
  assumes "regs_wf regs" "value_count cs \<le> length srcs"
  shows "\<exists>vs. populate_values regs cs srcs = Some (vs, drop (value_count cs) srcs)"
  using assms(2)
proof (induction cs arbitrary: srcs)
  case (Cons c cs)
  show ?case
  proof (cases c rule: class_cases)
    case 1
    with Cons show ?thesis by (auto simp: value_count_def)
  next
    case 2
    then obtain r srcs' where "srcs = r # srcs'" using Cons.prems by (cases srcs) (auto simp: value_count_def)
    with 2 Cons.IH [of srcs'] Cons.prems assms(1) show ?thesis by (auto simp: value_count_def load_store_simps)
  next
    case 3
    then obtain r srcs' where "srcs = r # srcs'" using Cons.prems by (cases srcs) (auto simp: value_count_def)
    with 3 Cons.IH [of srcs'] Cons.prems load_i64_wf [OF assms(1), of r] show ?thesis by (auto simp: value_count_def)
  next
    case 4
    then obtain r srcs' where "srcs = r # srcs'" using Cons.prems by (cases srcs) (auto simp: value_count_def)
    with 4 Cons.IH [of srcs'] Cons.prems assms(1) show ?thesis by (auto simp: value_count_def load_store_simps)
  qed
qed (simp add: value_count_def)

lemma populate_span_defined:
  assumes "regs_wf regs" "n * value_count cs \<le> length srcs"
  shows "\<exists>vs. populate_span regs cs n srcs = Some (vs, drop (n * value_count cs) srcs)"
  using assms(2)
proof (induction n arbitrary: srcs)
  case (Suc n)
  then obtain vs where "populate_values regs cs srcs = Some (vs, drop (value_count cs) srcs)"
    using populate_values_defined [OF assms(1), of cs srcs] by auto
  moreover have "n * value_count cs \<le> length (drop (value_count cs) srcs)" using Suc.prems by simp
  from Suc.IH [OF this] obtain ws where
    "populate_span regs cs n (drop (value_count cs) srcs) = Some (ws, drop (n * value_count cs) (drop (value_count cs) srcs))" ..
  ultimately show ?case by (simp add: add.commute)
qed simp

lemma populate_arguments_defined:
  assumes "regs_wf regs" "operand_count segs cs seg_i = Some n" "n \<le> length srcs"
  shows "\<exists>vs. populate_arguments regs segs cs seg_i srcs = Some vs"
  using assms
proof (induction segs cs seg_i arbitrary: srcs n rule: operand_count.induct)
  case (2 segs c cs seg_i)
  show ?case
  proof (cases "c = IREE_VM_CCONV_TYPE_SPAN_START")
    case True
    with 2(4) obtain sg k where sg: "segs = Some sg" "seg_i < length sg" "operand_count segs (after_span cs) (Suc seg_i) = Some k"
        "n = unat (sg ! seg_i) * value_count (span_body cs) + k"
      by (auto split: option.splits if_splits)
    let ?m = "unat (sg ! seg_i) * value_count (span_body cs)"
    obtain vs where "populate_span regs (span_body cs) (unat (sg ! seg_i)) srcs = Some (vs, drop ?m srcs)"
      using populate_span_defined [OF 2(3), of "unat (sg ! seg_i)" "span_body cs" srcs] sg(4) 2(5) by auto
    moreover obtain ws where "populate_arguments regs segs (after_span cs) (Suc seg_i) (drop ?m srcs) = Some ws"
      using 2(1) [OF True sg(1,2) 2(3), of k "drop ?m srcs"] sg(3,4) 2(5) by (auto simp: le_diff_conv2)
    ultimately show ?thesis using True sg by simp
  next
    case False
    with 2(4) obtain k where k: "operand_count segs cs (Suc seg_i) = Some k" "n = value_count [c] + k" by auto
    obtain vs where "populate_values regs [c] srcs = Some (vs, drop (value_count [c]) srcs)"
      using populate_values_defined [OF 2(3), of "[c]" srcs] k 2(5) by auto
    moreover obtain ws where "populate_arguments regs segs cs (Suc seg_i) (drop (value_count [c]) srcs) = Some ws"
      using 2(2) [OF False 2(3), of k "drop (value_count [c]) srcs"] k 2(5) by (auto simp: le_diff_conv2)
    ultimately show ?thesis using False by (simp del: populate_values.simps)
  qed
qed simp

lemma abi_size_le: "abi_size v \<le> 16"
  by (cases v) (simp_all add: sizeof_ref_def)

lemma populate_values_bytes:
  "populate_values regs cs srcs = Some (vs, srcs') \<Longrightarrow> abi_bytes vs + 16 * length srcs' \<le> 16 * length srcs"
proof (induction cs arbitrary: srcs vs)
  case (Cons c cs)
  show ?case
    by (cases c rule: class_cases)
      (use Cons.prems in \<open>auto simp: bind_eq_Some_conv sizeof_ref_def split: list.splits dest!: Cons.IH\<close>)
qed simp

lemma populate_span_bytes:
  "populate_span regs cs n srcs = Some (vs, srcs') \<Longrightarrow> abi_bytes vs + 16 * length srcs' \<le> 16 * length srcs"
proof (induction n arbitrary: srcs vs)
  case (Suc n)
  then obtain us ws srcs1 where u: "populate_values regs cs srcs = Some (us, srcs1)" "populate_span regs cs n srcs1 = Some (ws, srcs')"
      "vs = us @ ws" by (auto simp: bind_eq_Some_conv)
  from populate_values_bytes [OF u(1)] Suc.IH [OF u(2)] u(3) show ?case by simp
qed simp

lemma populate_arguments_bytes:
  "populate_arguments regs segs cs seg_i srcs = Some vs \<Longrightarrow> abi_bytes vs \<le> 16 * length srcs + 4 * length cs"
proof (induction regs segs cs seg_i srcs arbitrary: vs rule: populate_arguments.induct)
  case (2 regs segs c cs seg_i srcs)
  show ?case
  proof (cases "c = IREE_VM_CCONV_TYPE_SPAN_START")
    case True
    with 2(3) obtain sg us ws srcs1 where sg: "segs = Some sg" "seg_i < length sg"
        "populate_span regs (span_body cs) (unat (sg ! seg_i)) srcs = Some (us, srcs1)"
        "populate_arguments regs segs (after_span cs) (Suc seg_i) srcs1 = Some ws"
        "vs = AbiI32 (ucast (sg ! seg_i)) # us @ ws"
      by (auto simp: bind_eq_Some_conv Let_def split: option.splits if_splits)
    with 2(1) [OF True sg(1,2) refl sg(3) refl, of ws] populate_span_bytes [OF sg(3)] length_after_span [of cs] show ?thesis by simp
  next
    case False
    with 2(3) obtain us ws srcs1 where u: "populate_values regs [c] srcs = Some (us, srcs1)"
        "populate_arguments regs segs cs (Suc seg_i) srcs1 = Some ws" "vs = us @ ws"
      by (auto simp: bind_eq_Some_conv simp del: populate_values.simps)
    with 2(2) [OF False u(1) refl, of ws] populate_values_bytes [OF u(1)] show ?thesis by simp
  qed
qed simp

lemma populate_fills_buffer:
  assumes "populate_arguments regs segs cs 0 srcs = Some vs" "length srcs < 2 ^ 16" "length cs < 2 ^ 32"
    and "iree_vm_function_call_compute_cconv_fragment_size cs segs = (st, Some m)"
  shows "abi_bytes vs = unat m"
proof -
  have "abi_bytes vs < 2 ^ 64" using populate_arguments_bytes [OF assms(1)] assms(2,3) by simp
  moreover have "m = of_nat (abi_bytes vs)"
    using populate_arguments_size [OF assms(1), of 0 st m] assms(4)
    by (simp add: iree_vm_function_call_compute_cconv_fragment_size_def)
  ultimately show ?thesis by (simp add: unat_of_nat)
qed

lemma operand_count_variadic: "operand_count None cs seg_i = Some n \<Longrightarrow> IREE_VM_CCONV_TYPE_SPAN_START \<notin> set cs"
  by (induction cs arbitrary: seg_i n) (auto split: if_splits)

text \<open>The imports of a module: resolved, and their modules keep to the calling convention.\<close>

definition imports_ok :: "type_table \<Rightarrow> begin_call \<Rightarrow> iree_vm_bytecode_import list \<Rightarrow> bool" where
  "imports_ok tbl begin_call table \<longleftrightarrow>
    (\<forall>import \<in> set table. import_call_ok tbl begin_call import \<and> import_sized import \<and> length (imp_arguments import) < 2 ^ 32)"

definition import_post :: "type_table \<Rightarrow> iree_vm_ref multiset \<Rightarrow> vm_state \<Rightarrow> iree_status \<times> vm_state \<Rightarrow> bool" where
  "import_post tbl F st r \<longleftrightarrow> (\<exists>L. state_ok tbl (L + F) (snd r)) \<and> length (s_globals (snd r)) = length (s_globals st)
    \<and> (\<exists>gs. frames (s_stack (snd r)) = gs @ tl (frames (s_stack st)))
    \<and> (fst r = IREE_STATUS_OK \<longrightarrow> top_changed (s_stack st) (s_stack (snd r)))"

lemma import_post_refl:
  assumes "state_ok tbl F st" "frames (s_stack st) = f # fs" "status \<noteq> IREE_STATUS_OK"
  shows "import_post tbl F st (status, st)"
  using assms by (auto simp: import_post_def intro: exI [of _ "{#}"] exI [of _ "[f]"])

lemma populate_import_ok:
  assumes imp: "import_call_ok tbl begin_call import" "length (imp_arguments import) < 2 ^ 32" and ok: "state_ok tbl F st"
    and fs: "frames (s_stack st) = f # fs" "frame_storage f = Some b" and n: "length src_reg_list < 2 ^ 16"
    and size: "iree_vm_function_call_compute_cconv_fragment_size (imp_arguments import) segs = (size_status, Some m)"
  shows "wp (\<not> operands_fit segs (imp_arguments import) src_reg_list)
    (do {
      arguments \<leftarrow> iree_vm_bytecode_populate_import_cconv_arguments (imp_arguments import) (registers b) segs src_reg_list (unat m);
      iree_vm_bytecode_issue_import_call tbl begin_call st (imp_function import) arguments (imp_results import) dst_reg_list
    }) (import_post tbl F st)"
proof -
  have rw: "regs_wf (registers b)" using ok stack_wf_regs [OF _ _ fs(2), of "s_stack st"] fs(1) by (simp add: state_ok_def)
  show ?thesis
  proof (cases "populate_arguments (registers b) segs (imp_arguments import) 0 src_reg_list")
    case None
    then have "\<not> operands_fit segs (imp_arguments import) src_reg_list"
      using populate_arguments_defined [OF rw, of segs "imp_arguments import" 0 _ src_reg_list]
      by (auto simp: operands_fit_def split: option.splits)
    with None show ?thesis by (simp add: iree_vm_bytecode_populate_import_cconv_arguments_def wp_def)
  next
    case (Some vs)
    have "abi_bytes vs = unat m" by (rule populate_fills_buffer [OF Some n imp(2) size])
    moreover have "set (abi_refs vs) \<subseteq> set (ref_bank (registers b))" by (rule populate_arguments_refs [OF rw Some])
    ultimately show ?thesis
      using issue_import_call_ok [OF imp(1) ok fs, of vs dst_reg_list] Some fs(1)
      by (auto simp: iree_vm_bytecode_populate_import_cconv_arguments_def import_post_def)
  qed
qed

definition import_fits :: "iree_vm_bytecode_import list \<Rightarrow> u32 \<Rightarrow> u16 list option \<Rightarrow> u16 list \<Rightarrow> bool" where
  "import_fits table ordinal segs srcs \<longleftrightarrow>
    (let i = unat (ordinal AND 0x7FFFFFFF) in i < length table \<longrightarrow> operands_fit segs (imp_arguments (table ! i)) srcs)"

lemma unat_ucast_u16_u64: "unat (ucast (x :: u16) :: u64) = unat x"
proof -
  have "unat x < 2 ^ LENGTH(16)" by (rule unsigned_less)
  then show ?thesis by (simp add: unat_ucast)
qed

lemma call_import_ok:
  assumes imp: "imports_ok tbl begin_call table" and ok: "state_ok tbl F st"
    and fs: "frames (s_stack st) = f # fs" "frame_storage f = Some b" and n: "length src_reg_list < 2 ^ 16"
  shows "wp (\<not> import_fits table ordinal None src_reg_list)
    (iree_vm_bytecode_call_import tbl begin_call table st ordinal src_reg_list dst_reg_list) (import_post tbl F st)"
proof (cases "unat (ordinal AND 0x7FFFFFFF) < length table")
  case False
  then show ?thesis
    using import_post_refl [OF ok fs(1)] by (simp add: iree_vm_bytecode_call_import_def)
next
  case True
  let ?import = "table ! unat (ordinal AND 0x7FFFFFFF)"
  have i: "import_call_ok tbl begin_call ?import" "import_sized ?import" "length (imp_arguments ?import) < 2 ^ 32" "?import \<in> set table"
    using imp True by (auto simp: imports_ok_def)
  have regs: "frame_regs 0 (s_stack st) = Some (registers b)" using fs by (simp add: frame_regs_def)
  show ?thesis
  proof (cases "operands_fit None (imp_arguments ?import) src_reg_list")
    case fit: True
    then have "\<not> iree_vm_function_call_is_variadic_cconv (imp_arguments ?import)"
      by (auto simp: operands_fit_def not_variadic_iff split: option.splits dest: operand_count_variadic)
    then have size: "iree_vm_function_call_compute_cconv_fragment_size (imp_arguments ?import) None
        = (IREE_STATUS_OK, Some (ucast (imp_argument_buffer_size ?import)))"
      using i(2) by (simp add: import_sized_def)
    have "unat (ucast (imp_argument_buffer_size ?import) :: u64) = unat (imp_argument_buffer_size ?import)"
      by (rule unat_ucast_u16_u64)
    with populate_import_ok [OF i(1,3) ok fs n size, of dst_reg_list] fit True regs show ?thesis
      by (simp add: iree_vm_bytecode_call_import_def Let_def wp_weaken)
  next
    case False
    show ?thesis
    proof (rule wp_undefined)
      show "\<not> import_fits table ordinal None src_reg_list" using False True by (simp add: import_fits_def)
    next
      fix r
      assume r: "iree_vm_bytecode_call_import tbl begin_call table st ordinal src_reg_list dst_reg_list = Some r"
      then obtain vs where vs: "populate_arguments (registers b) None (imp_arguments ?import) 0 src_reg_list = Some vs"
          "iree_vm_bytecode_issue_import_call tbl begin_call st (imp_function ?import) vs (imp_results ?import) dst_reg_list = Some r"
        using True regs by (auto simp: iree_vm_bytecode_call_import_def Let_def bind_eq_Some_conv
          iree_vm_bytecode_populate_import_cconv_arguments_def split: if_splits)
      have "regs_wf (registers b)" using ok stack_wf_regs [OF _ _ fs(2), of "s_stack st"] fs(1) by (simp add: state_ok_def)
      then have "set (abi_refs vs) \<subseteq> set (ref_bank (registers b))" by (rule populate_arguments_refs [OF _ vs(1)])
      from issue_import_call_ok [OF i(1) ok fs this, of dst_reg_list] vs(2) fs(1) show "import_post tbl F st r"
        by (auto simp: import_post_def)
    qed
  qed
qed

lemma call_import_variadic_ok:
  assumes imp: "imports_ok tbl begin_call table" and ok: "state_ok tbl F st"
    and fs: "frames (s_stack st) = f # fs" "frame_storage f = Some b" and n: "length src_reg_list < 2 ^ 16"
  shows "wp (\<not> import_fits table ordinal (Some segs) src_reg_list)
    (iree_vm_bytecode_call_import_variadic tbl begin_call table st ordinal segs src_reg_list dst_reg_list) (import_post tbl F st)"
proof (cases "unat (ordinal AND 0x7FFFFFFF) < length table")
  case False
  then show ?thesis
    using import_post_refl [OF ok fs(1)] by (simp add: iree_vm_bytecode_call_import_variadic_def)
next
  case True
  let ?import = "table ! unat (ordinal AND 0x7FFFFFFF)"
  have i: "import_call_ok tbl begin_call ?import" "length (imp_arguments ?import) < 2 ^ 32" "?import \<in> set table"
    using imp True by (auto simp: imports_ok_def)
  have regs: "frame_regs 0 (s_stack st) = Some (registers b)" using fs by (simp add: frame_regs_def)
  obtain size_status data_length where
    size: "iree_vm_function_call_compute_cconv_fragment_size (imp_arguments ?import) (Some segs) = (size_status, data_length)"
    by force
  show ?thesis
  proof (cases data_length)
    case None
    then have "size_status \<noteq> IREE_STATUS_OK"
      using fragment_size_ok size by (simp add: iree_vm_function_call_compute_cconv_fragment_size_def)
    moreover have "iree_vm_bytecode_call_import_variadic tbl begin_call table st ordinal segs src_reg_list dst_reg_list = Some (size_status, st)"
      using True by (simp add: iree_vm_bytecode_call_import_variadic_def Let_def size None)
    ultimately show ?thesis using import_post_refl [OF ok fs(1)] by simp
  next
    case (Some m)
    have eq: "iree_vm_bytecode_call_import_variadic tbl begin_call table st ordinal segs src_reg_list dst_reg_list
      = do {
          arguments \<leftarrow> iree_vm_bytecode_populate_import_cconv_arguments (imp_arguments ?import) (registers b) (Some segs) src_reg_list (unat m);
          iree_vm_bytecode_issue_import_call tbl begin_call st (imp_function ?import) arguments (imp_results ?import) dst_reg_list
        }"
      using True by (simp add: iree_vm_bytecode_call_import_variadic_def Let_def size Some regs)
    show ?thesis
      unfolding eq
      by (rule wp_weaken [OF populate_import_ok [OF i(1,2) ok fs n size [unfolded Some]]]) (use True in \<open>simp add: import_fits_def\<close>)
  qed
qed

end
