(* ===== verification/VM_CallProperties.thy ===== *)
theory VM_CallProperties
  imports VM_Calls VM_Builtin
begin

text \<open>
  The properties of the call stack, the registers of its frames, calling conventions and calls.
\<close>

section \<open>Sample stacks\<close>

definition sample_stack :: iree_vm_stack where
  "sample_stack = \<lparr>frames = [], frame_storage_capacity = 8112, frame_storage_size = 0, owns_frame_storage = False\<rparr>"

lemma sample_stack_initialize: "iree_vm_stack_initialize 8192 = (IREE_STATUS_OK, Some sample_stack)"
  by (simp add: iree_vm_stack_initialize_def IREE_VM_STACK_MIN_SIZE_def sample_stack_def iree_host_align_def sizeof_stack_def)

lemma sample_stack_wf: "stack_wf sample_stack" "stack_refs sample_stack = []"
  using stack_initialize_wf [OF sample_stack_initialize] by (simp_all add: stack_refs_def)

definition sample_function :: iree_vm_function where
  "sample_function = \<lparr>fn_module = Some 0, fn_linkage = IREE_VM_FUNCTION_LINKAGE_INTERNAL, fn_ordinal = 0\<rparr>"

definition sample_functions :: "iree_vm_FunctionDescriptor list" where
  "sample_functions = [\<lparr>bytecode_offset = 0, bytecode_length = 16, i32_register_count = 2, ref_register_count = 1\<rparr>]"

definition sample_regs :: iree_vm_registers where
  "sample_regs = \<lparr>i32_mask = 1, i32_bank = [0, 0, 0, 0], ref_mask = 0, ref_bank = [null_ref]\<rparr>"

definition sample_frame :: iree_vm_stack_frame where
  "sample_frame = \<lparr>frame_size = 160, frame_type = IREE_VM_STACK_FRAME_BYTECODE, frame_function = sample_function,
    frame_depth = 0, frame_state = Some 0, frame_pc = 0, frame_storage = Some \<lparr>return_registers = None, registers = sample_regs\<rparr>\<rparr>"

definition sample_entered :: iree_vm_stack where
  "sample_entered = \<lparr>frames = [sample_frame], frame_storage_capacity = 8112, frame_storage_size = 160, owns_frame_storage = False\<rparr>"

lemma sample_enter:
  "iree_vm_bytecode_function_enter None (\<lambda>m. (IREE_STATUS_OK, m)) sample_functions sample_stack sample_function
    = Some (IREE_STATUS_OK, sample_entered)"
  by code_simp

lemma sample_entered_wf: "stack_wf sample_entered" "stack_refs sample_entered = [null_ref]"
  using bytecode_function_enter_ok [OF sample_stack_wf(1), of None "\<lambda>m. (IREE_STATUS_OK, m)" sample_functions sample_function] sample_enter
  by (auto simp: sample_entered_def stack_refs_def frame_refs_def sample_frame_def sample_regs_def)

lemma sample_regs_wf: "regs_wf sample_regs"
  using stack_wf_regs [OF sample_entered_wf(1), of sample_frame] by (simp add: sample_entered_def sample_frame_def)

section \<open>Stack\<close>

text \<open>
  Growing the stack always returns. On success there is room for the request within the maximum
  size of a stack; on failure nothing changes; the frames are kept either way.
\<close>

theorem stack_grow_terminates:
  assumes "stack_wf s" "unat m \<le> 2 ^ 62"
  shows "\<exists>st s'. iree_vm_stack_grow allocator s m = Some (st, s') \<and> stack_wf s' \<and> frames s' = frames s
    \<and> (if st = IREE_STATUS_OK
       then m \<le> frame_storage_capacity s' \<and> frame_storage_capacity s \<le> frame_storage_capacity s'
         \<and> frame_storage_capacity s' \<le> IREE_VM_STACK_MAX_SIZE
       else frame_storage_size s' = frame_storage_size s)"
  using stack_grow_ok [OF assms, of allocator] by (elim exE) (auto split: if_splits)

theorem stack_grow_terminates_witness:
  "\<exists>st s'. iree_vm_stack_grow (Some (\<lambda>_. IREE_STATUS_OK)) sample_stack 100000 = Some (st, s')
    \<and> (if st = IREE_STATUS_OK then 100000 \<le> frame_storage_capacity s' else frames s' = [])"
  using stack_grow_terminates [OF sample_stack_wf(1), of 100000 "Some (\<lambda>_. IREE_STATUS_OK)"]
  by (force simp: sample_stack_def)

text \<open>
  Leaving a function right after entering it gives back the stack as it was: its frames, the size of
  the storage in use, and the balance of the references.
\<close>

theorem enter_leave_roundtrip:
  assumes wf: "stack_wf s" and ok: "heap_ok tbl h (mset (stack_refs s) + F)"
    and enter: "iree_vm_bytecode_function_enter allocator resolver fdt s fn = Some (IREE_STATUS_OK, s1)"
  shows "\<exists>h' s2. iree_vm_stack_function_leave tbl h s1 = Some (h', IREE_STATUS_OK, s2) \<and> stack_wf s2 \<and> frames s2 = frames s
    \<and> frame_storage_size s2 = frame_storage_size s \<and> heap_ok tbl h' (mset (stack_refs s2) + F)"
proof -
  obtain f b where e: "stack_wf s1" "entered s f s1" "frame_storage f = Some b" "\<forall>r \<in> set (ref_bank (registers b)). r = null_ref"
    using bytecode_function_enter_ok [OF wf, of allocator resolver fdt fn] enter by auto
  then have fs: "frames s1 = f # frames s" "frame_storage_size s1 = frame_storage_size s + frame_size f" by (simp_all add: entered_def)
  have "heap_ok tbl h (mset (ref_bank (registers b)) + (mset (stack_refs s) + F))"
    using ok by (subst null_bank_ok [OF e(4)])
  then have "heap_ok tbl h (mset (stack_refs s1) + F)"
    using fs(1) e(3) by (simp add: stack_refs_def frame_refs_Some ac_simps)
  from function_leave_ok [OF e(1) fs(1) this] show ?thesis using fs(2) by auto
qed

theorem enter_leave_roundtrip_witness:
  "\<exists>h' s2. iree_vm_stack_function_leave sample_types [] sample_entered = Some (h', IREE_STATUS_OK, s2)
    \<and> frames s2 = [] \<and> frame_storage_size s2 = 0"
  using enter_leave_roundtrip [OF sample_stack_wf(1) _ sample_enter, of sample_types "[]" "{#}"] heap_ok_empty [of sample_types]
  by (auto simp: stack_refs_def sample_stack_def)

text \<open>Tearing a stack down releases every reference of its frames, each once.\<close>

theorem deinitialize_releases_all:
  assumes "stack_wf s" "heap_ok tbl h (mset (stack_refs s) + F)"
  shows "\<exists>h'. iree_vm_stack_deinitialize tbl h s = Some h' \<and> heap_ok tbl h' F"
  unfolding iree_vm_stack_deinitialize_def
  using leave_all_ok [of "frames s" tbl h F] assms by (auto simp: stack_wf_def stack_refs_def)

theorem deinitialize_releases_all_witness:
  "\<exists>h'. iree_vm_stack_deinitialize sample_types [] sample_entered = Some h' \<and> heap_ok sample_types h' {#}"
  by (rule deinitialize_releases_all [OF sample_entered_wf(1)]) (simp add: sample_entered_wf(2) heap_ok_empty)

section \<open>Registers\<close>

text \<open>
  No register ordinal of the bytecode leaves the register file of a frame. Whatever 16-bit ordinal an
  instruction has, the 32-bit register, the pair of registers of a 64-bit value and the reference
  register it names exist.
\<close>

theorem register_ordinals_in_bounds:
  assumes "stack_wf s" "iree_vm_bytecode_function_enter allocator resolver fdt s fn = Some (IREE_STATUS_OK, s1)"
  shows "\<exists>regs. frame_regs 0 s1 = Some regs
    \<and> (\<forall>reg. i32_index regs reg < length (i32_bank regs) \<and> i64_index regs reg + 1 < length (i32_bank regs)
        \<and> even (i64_index regs reg) \<and> ref_index regs reg < length (ref_bank regs))"
proof -
  obtain f b where e: "entered s f s1" "frame_storage f = Some b" "regs_wf (registers b)"
    using bytecode_function_enter_ok [OF assms(1), of allocator resolver fdt fn] assms(2) by auto
  then have "frame_regs 0 s1 = Some (registers b)" by (simp add: frame_regs_def entered_def)
  then show ?thesis using e(3) by (simp add: i32_index_bound i64_index_bound ref_index_bound)
qed

theorem register_ordinals_in_bounds_witness:
  "\<exists>regs. frame_regs 0 sample_entered = Some regs \<and> i32_index regs 0xFFFF < length (i32_bank regs)
    \<and> ref_index regs 0xFFFF < length (ref_bank regs)"
  using register_ordinals_in_bounds [OF sample_stack_wf(1) sample_enter] by auto







section \<open>Calling conventions\<close>

lemma count_fragment_values:
  "list_all (\<lambda>c. cconv_class c \<noteq> None) cs \<Longrightarrow>
    iree_vm_function_call_count_fragment_values cs n = (IREE_STATUS_OK, n + value_count cs)"
  by (induction cs arbitrary: n) (auto simp: value_count_def split: option.splits cconv_class.splits)

lemma class_no_underscore: "list_all (\<lambda>c. cconv_class c \<noteq> None) cs \<Longrightarrow> CHR ''_'' \<notin> set cs"
  by (auto simp: list_all_iff)

text \<open>
  A calling convention composed of argument and result types comes apart into the same types, and
  the numbers of arguments and results counted are those of the types that are not void.
\<close>

theorem cconv_roundtrip:
  assumes "list_all (\<lambda>c. cconv_class c \<noteq> None) arguments" "list_all (\<lambda>c. cconv_class c \<noteq> None) results"
    and "length arguments + length results < 2 ^ 62"
  shows "iree_vm_function_call_get_cconv_fragments (CHR ''0'' # arguments @ CHR ''_'' # results) = (IREE_STATUS_OK, arguments, results)
    \<and> iree_vm_function_call_count_arguments_and_results (CHR ''0'' # arguments @ CHR ''_'' # results)
      = (IREE_STATUS_OK, value_count arguments, value_count results)"
  using fragments_two [OF class_no_underscore [OF assms(1)] assms(3)] count_fragment_values [OF assms(1), of 0] count_fragment_values [OF assms(2), of 0]
  by (simp add: iree_vm_function_call_count_arguments_and_results_def)

theorem cconv_roundtrip_witness:
  "iree_vm_function_call_get_cconv_fragments ''0iIr_vf'' = (IREE_STATUS_OK, ''iIr'', ''vf'')
    \<and> iree_vm_function_call_count_arguments_and_results ''0iIr_vf'' = (IREE_STATUS_OK, 3, 1)"
  using cconv_roundtrip [of "''iIr''" "''vf''"]
  by (simp add: cconv_class_def cconv_types value_count_def)

text \<open>
  Releasing a call's buffers releases every reference of the arguments and the results once and
  leaves null references, when both buffers hold values.
\<close>

theorem call_release_balanced:
  assumes "abi_typed as arguments" "abi_typed rs results" "CHR ''_'' \<notin> set as \<union> set rs"
    and "heap_ok tbl h (mset (abi_refs arguments) + (mset (abi_refs results) + F))" "arguments \<noteq> []" "results \<noteq> []"
  shows "\<exists>h'. iree_vm_function_call_release tbl h arguments results (CHR ''0'' # as @ CHR ''_'' # rs)
      = Some (h', map released_value arguments, map released_value results) \<and> heap_ok tbl h' F"
  using call_release_ok [OF assms] by blast

theorem call_release_balanced_witness:
  "\<exists>h'. iree_vm_function_call_release sample_types [] [AbiI32 1] [AbiRef null_ref] ''0i_r''
      = Some (h', [AbiI32 1], [AbiRef (released null_ref)]) \<and> heap_ok sample_types h' {#}"
  using call_release_balanced [of "''i''" "[AbiI32 1]" "''r''" "[AbiRef null_ref]" sample_types "[]" "{#}"] heap_ok_empty [of sample_types]
  by (simp add: cconv_class_def cconv_types heap_ok_null_ref)

section \<open>Imports\<close>

text \<open>
  Once an import is resolved, marshaling the operands of a call that has enough of them never runs
  past the argument buffer that was measured at resolution, and fills it.
\<close>

theorem import_arguments_fill_buffer:
  assumes "iree_vm_bytecode_module_resolve_import table ordinal f cconv = (IREE_STATUS_OK, table')"
    and "import = table' ! ordinal" "regs_wf regs" "operands_fit None (imp_arguments import) srcs"
    and "length srcs < 2 ^ 16" "length (imp_arguments import) < 2 ^ 32"
  shows "\<exists>vs. iree_vm_bytecode_populate_import_cconv_arguments (imp_arguments import) regs None srcs
      (unat (imp_argument_buffer_size import)) = Some vs \<and> abi_bytes vs = unat (imp_argument_buffer_size import)"
proof -
  obtain n where n: "operand_count None (imp_arguments import) 0 = Some n" "n \<le> length srcs"
    using assms(4) by (auto simp: operands_fit_def split: option.splits)
  obtain vs where vs: "populate_arguments regs None (imp_arguments import) 0 srcs = Some vs"
    using populate_arguments_defined [OF assms(3) n] by blast
  have "import_sized import" using resolve_import_sized [OF assms(1)] assms(2) by blast
  then have "iree_vm_function_call_compute_cconv_fragment_size (imp_arguments import) None
      = (IREE_STATUS_OK, Some (ucast (imp_argument_buffer_size import)))"
    using operand_count_variadic [OF n(1)] by (simp add: import_sized_def not_variadic_iff)
  then have "abi_bytes vs = unat (imp_argument_buffer_size import)"
    using populate_fills_buffer [OF vs assms(5,6)] by (simp add: unat_ucast_u16_u64)
  with vs show ?thesis by (simp add: iree_vm_bytecode_populate_import_cconv_arguments_def)
qed

definition sample_import :: iree_vm_bytecode_import where
  "sample_import = \<lparr>imp_function = sample_function, imp_arguments = ''ir'', imp_results = ''i'',
    imp_argument_buffer_size = 20, imp_result_buffer_size = 4\<rparr>"

theorem import_arguments_fill_buffer_witness:
  "\<exists>vs. iree_vm_bytecode_populate_import_cconv_arguments ''ir'' sample_regs None [0, 0x8000] 20 = Some vs \<and> abi_bytes vs = 20"
proof -
  have "iree_vm_function_call_compute_cconv_fragment_size ''ir'' None = (IREE_STATUS_OK, Some 20)"
    "iree_vm_function_call_compute_cconv_fragment_size ''i'' None = (IREE_STATUS_OK, Some 4)"
    "\<not> iree_vm_function_call_is_variadic_cconv ''ir''" by code_simp+
  then have "iree_vm_bytecode_module_resolve_import [sample_import\<lparr>imp_arguments := []\<rparr>] 0 sample_function ''0ir_i'' = (IREE_STATUS_OK, [sample_import])"
    using fragments_two [of "''ir''" "''i''"]
    by (simp add: iree_vm_bytecode_module_resolve_import_def sample_import_def)
  moreover have "operands_fit None ''ir'' [0, 0x8000]" by code_simp
  ultimately show ?thesis
    using import_arguments_fill_buffer [of "[sample_import\<lparr>imp_arguments := []\<rparr>]" 0 sample_function "''0ir_i''" "[sample_import]" sample_import sample_regs "[0, 0x8000]"]
      sample_regs_wf by (simp add: sample_import_def)
qed







section \<open>Calls between bytecode functions\<close>


definition sample_called :: "(iree_status \<times> vm_heap \<times> iree_vm_stack) option" where
  "sample_called = iree_vm_bytecode_internal_enter sample_types None (\<lambda>m. (IREE_STATUS_OK, m)) sample_functions [] sample_entered (Some 0) 0 [0] [1]"

lemma sample_called_ok: "\<exists>h s. sample_called = Some (IREE_STATUS_OK, h, s)"
proof -
  have "map_option fst sample_called = Some IREE_STATUS_OK" by code_simp
  then show ?thesis by auto
qed


text \<open>Arguments that are not references, seen from the callee.\<close>

lemma i32_index_counted:
  assumes "regs_wf regs" "n \<le> unat (i32_mask regs)"
  shows "i32_index regs (of_nat n) = n"
proof -
  obtain k where k: "k < 15" "i32_mask regs = mask k" using assms(1) by (auto simp: regs_wf_def)
  have "unat (mask k :: u16) < 2 ^ k" using unat_and_mask [of "mask k :: u16" k] mod_less_divisor [of "2 ^ k" "unat (mask k :: u16)"] by simp
  then have "n < 2 ^ k" using assms(2) k(2) by simp
  moreover have "(2 :: nat) ^ k \<le> 2 ^ 16" using k(1) by (intro power_increasing) simp_all
  ultimately show ?thesis using k by (simp add: i32_index_def unat_and_mask unat_of_nat)
qed

lemma copy_arguments_values:
  assumes "regs_wf src" "regs_wf dst" "list_all (\<lambda>r. \<not> is_ref_reg r) srcs" "n + length srcs \<le> Suc (unat (i32_mask dst))"
  shows "\<exists>dst'. copy_arguments tbl h src dst n k srcs = Some (h, src, dst') \<and> regs_wf dst' \<and> i32_mask dst' = i32_mask dst
    \<and> (\<forall>j < n. i32_bank dst' ! j = i32_bank dst ! j)
    \<and> (\<forall>j < length srcs. i32_bank dst' ! (n + j) = i32_bank src ! i32_index src (srcs ! j))"
  using assms(2-)
proof (induction srcs arbitrary: dst n)
  case (Cons r srcs)
  define dst1 where "dst1 = dst\<lparr>i32_bank := (i32_bank dst)[n := i32_bank src ! i32_index src r]\<rparr>"
  have n: "i32_index dst (of_nat n) = n" using Cons.prems by (intro i32_index_counted) simp_all
  then have len: "n < length (i32_bank dst)" using i32_index_bound [OF Cons.prems(1), of "of_nat n"] by simp
  have "regs_wf dst1" using Cons.prems(1) by (simp add: dst1_def)
  then obtain dst' where d: "copy_arguments tbl h src dst1 (Suc n) k srcs = Some (h, src, dst')" "regs_wf dst'" "i32_mask dst' = i32_mask dst"
      "\<forall>j < Suc n. i32_bank dst' ! j = i32_bank dst1 ! j"
      "\<forall>j < length srcs. i32_bank dst' ! (Suc n + j) = i32_bank src ! i32_index src (srcs ! j)"
    using Cons.IH [of dst1 "Suc n"] Cons.prems by (auto simp: dst1_def)
  have "copy_arguments tbl h src dst n k (r # srcs) = Some (h, src, dst')"
    using Cons.prems(2) d(1) n len i32_index_bound [OF assms(1), of r] by (simp add: load_i32_def store_i32_def dst1_def)
  moreover have "i32_bank dst' ! j = i32_bank dst ! j" if "j < n" for j
    using d(4) that by (simp add: dst1_def)
  moreover have "i32_bank dst' ! (n + j) = i32_bank src ! i32_index src ((r # srcs) ! j)" if "j < length (r # srcs)" for j
    using that d(4,5) len by (cases j) (auto simp: dst1_def)
  ultimately show ?case using d(2,3) by auto
qed simp

lemma copy_arguments_mask:
  "copy_arguments tbl h src dst n k srcs = Some (h', src', dst') \<Longrightarrow> i32_mask dst' = i32_mask dst"
proof (induction srcs arbitrary: h src dst n k)
  case (Cons r srcs)
  from Cons.prems show ?case
    by (auto simp: Let_def store_ref_def store_i32_def bind_eq_Some_conv split: if_splits dest!: Cons.IH)
qed simp

text \<open>
  The arguments of a call arrive: the first registers of the callee hold, in order, what the caller's
  operand registers held, when the call passes no references and no more values than the callee has
  registers.
\<close>

theorem internal_call_arguments:
  assumes wf: "stack_wf s" and fs: "frames s = f # fs" "frame_storage f = Some b"
    and enter: "iree_vm_bytecode_internal_enter tbl allocator resolver fdt h s m ordinal srcs dsts = Some (IREE_STATUS_OK, h1, s1)"
    and regs1: "frame_regs 0 s1 = Some regs1" and srcs: "list_all (\<lambda>r. \<not> is_ref_reg r) srcs" "length srcs \<le> Suc (unat (i32_mask regs1))"
    and j: "j < length srcs"
  shows "i32_bank regs1 ! j = i32_bank (registers b) ! i32_index (registers b) (srcs ! j)"
proof -
  define s0 where "s0 = s\<lparr>frames := f\<lparr>frame_storage := Some (b\<lparr>return_registers := Some dsts\<rparr>)\<rparr> # fs\<rparr>"
  have rw: "regs_wf (registers b)" using stack_wf_regs [OF wf _ fs(2)] fs(1) by simp
  have wf0: "stack_wf s0"
    unfolding s0_def using rw fs stack_wf_frame [OF wf] by (intro stack_wf_change [OF wf]) auto
  have top: "frame_regs 0 s = Some (registers b)" "set_return_registers dsts s = s0"
    using fs by (simp_all add: frame_regs_def set_regs_simps s0_def)
  let ?fn = "\<lparr>fn_module = m, fn_linkage = IREE_VM_FUNCTION_LINKAGE_INTERNAL, fn_ordinal = ucast ordinal\<rparr>"
  obtain s2 where e: "iree_vm_bytecode_function_enter allocator resolver fdt s0 ?fn = Some (IREE_STATUS_OK, s2)"
    using enter top by (auto simp: iree_vm_bytecode_internal_enter_def bind_eq_Some_conv split: if_splits)
  then obtain g c where g: "frames s2 = g # frames s0" "frame_storage g = Some c" "regs_wf (registers c)"
    using bytecode_function_enter_ok [OF wf0, of allocator resolver fdt ?fn] by (auto simp: entered_def)
  then have regs: "frame_regs 0 s2 = Some (registers c)" "frame_regs 1 s2 = Some (registers b)"
    by (simp_all add: frame_regs_def s0_def)
  obtain src' dst' where c: "copy_arguments tbl h (registers b) (registers c) 0 0 srcs = Some (h1, src', dst')"
      "s1 = set_frame_regs 0 dst' (set_frame_regs 1 src' s2)"
    using enter top e regs by (auto simp: iree_vm_bytecode_internal_enter_def bind_eq_Some_conv)
  have "regs1 = dst'" using regs1 c(2) g by (simp add: frame_regs_def set_frame_regs_def s0_def)
  then show ?thesis
    using copy_arguments_values [OF rw g(3) srcs(1), of 0 tbl h 0] copy_arguments_mask [OF c(1)] c(1) srcs(2) j by auto
qed

theorem internal_call_arguments_witness:
  "\<exists>h1 s1 regs1. sample_called = Some (IREE_STATUS_OK, h1, s1) \<and> frame_regs 0 s1 = Some regs1
    \<and> i32_bank regs1 ! 0 = i32_bank sample_regs ! i32_index sample_regs 0"
proof -
  obtain h1 s1 where c: "sample_called = Some (IREE_STATUS_OK, h1, s1)" using sample_called_ok by blast
  have "map_option (\<lambda>(st, h, s). map_option i32_mask (frame_regs 0 s)) sample_called = Some (Some 1)" by code_simp
  then obtain regs1 where r: "frame_regs 0 s1 = Some regs1" "i32_mask regs1 = 1" by (auto simp: c)
  have "frames sample_entered = sample_frame # []" by (simp add: sample_entered_def)
  moreover have "frame_storage sample_frame = Some \<lparr>return_registers = None, registers = sample_regs\<rparr>" by (simp add: sample_frame_def)
  moreover have "\<not> is_ref_reg 0" by code_simp
  ultimately show ?thesis
    using internal_call_arguments [OF sample_entered_wf(1) _ _ c [unfolded sample_called_def] r(1), of sample_frame "[]"
        "\<lparr>return_registers = None, registers = sample_regs\<rparr>" 0] c r by auto
qed

section \<open>Where the code departs from its contract\<close>






end
