(* ===== verification/VM_SafetyLists.thy ===== *)
theory VM_SafetyLists
  imports VM_Safety
begin

text \<open>
  Memory safety of the list handlers, and of the dispatch tables as a whole.
\<close>

section \<open>An element retained after the release of the list\<close>

text \<open>
  A lookup whose output is the variable that holds the list releases the list before it retains the
  element. The counter of an element that is still there is sound; an element that was freed with
  the list is a use after free.
\<close>

lemma heap_inv_inc_native:
  assumes inv: "heap_inv tbl \<Gamma> h F" and ob: "obj_at h p = Some ob" "counter ob = 0" "body ob = BNative"
  shows "heap_inv tbl \<Gamma> (put_obj h p (ob\<lparr>counter := 1\<rparr>)) (add_mset p F)"
proof -
  let ?ob' = "ob\<lparr>counter := 1\<rparr>"
  have p: "p < length h" using ob(1) by (rule obj_at_length)
  have b: "balanced h F" using inv by (simp add: heap_inv_def)
  have "held (put_obj h p ?ob') = held h"
    using held_put_obj [OF ob(1), of ?ob'] ob(2,3) by (simp add: held_obj_def)
  moreover have "obj_wf tbl \<Gamma> p ob" using inv ob by (simp add: heap_inv_def)
  then have "obj_wf tbl \<Gamma> p ?ob'" using ob by (simp add: obj_wf_def)
  ultimately show ?thesis
    using inv b p balancedD [OF b ob(1)] ob(2) by (auto simp: heap_inv_def balanced_def cnt_def split: if_splits)
qed

lemma release_then_inc:
  assumes root: "list_root tbl h lr p l R" and r: "r \<in> set (list_refs l)" and M: "add_mset lr R = add_mset out M"
    and rel: "iree_vm_ref_release tbl h out = Some (h1, x)" and inc: "inc_ref h1 r = Some h2"
  shows "heap_ok tbl h2 (add_mset r M)"
proof -
  have ok: "heap_ok tbl h (add_mset out M)" using root M by (simp add: list_root_def)
  then obtain \<Gamma> where \<Gamma>: "\<forall>r \<in># M. ref_wf tbl \<Gamma> r" "ref_wf tbl \<Gamma> out" "heap_inv tbl \<Gamma> h (ref_addrs out + root_addrs M)"
    by (auto simp: heap_ok_def)
  obtain ob where ob: "obj_at h p = Some ob" "counter ob \<ge> 1" "body ob = BList l" using root by (rule list_root_obj)
  have wf: "ref_wf tbl \<Gamma> r" using \<Gamma>(3) ob r by (auto simp: heap_inv_def obj_wf_def)
  have "card (live_set h) < Suc (length h)" using card_live_set [of h] by simp
  with \<Gamma> rel have h1: "heap_inv tbl \<Gamma> h1 (root_addrs M)" "shrinks {} h h1"
    unfolding iree_vm_ref_release_def by (metis release_contractE [OF release_fuel_contract] option.inject prod.inject)+
  show ?thesis
  proof (cases "ref_ptr r")
    case None
    then have "h2 = h1" using inc by (simp add: inc_ref_def)
    moreover have "heap_ok tbl h1 M" using \<Gamma>(1) h1(1) by (auto simp: heap_ok_def)
    ultimately show ?thesis using None by (simp add: heap_ok_null)
  next
    case (Some q)
    with wf have a: "ref_addrs r = {#q#}" by (auto simp: ref_wf_def ref_addrs_def)
    obtain oq where oq: "obj_at h1 q = Some oq" and h2: "h2 = put_obj h1 q (oq\<lparr>counter := counter oq + 1\<rparr>)"
      using inc Some by (auto simp: inc_ref_def iree_atomic_ref_count_inc_def split: option.splits if_splits)
    have "counter oq = int (count (held h1 + root_addrs M) q)"
      using balancedD [OF _ oq] h1(1) by (simp add: heap_inv_def)
    moreover have "body oq = BNative" if zero: "counter oq = 0"
    proof (rule ccontr)
      assume "body oq \<noteq> BNative"
      then have "obj_at h q = Some oq" using shrinksD(4) [OF h1(2) _ oq zero] by simp
      moreover have "q \<in># held h" using held_mem [OF ob addrs_of_mem [OF r]] a by simp
      then have "int (count (held h) q) > 0" by (simp only: of_nat_0_less_iff count_greater_zero_iff)
      ultimately show False
        using zero balancedD [of h "ref_addrs out + root_addrs M" q oq] \<Gamma>(3) unfolding heap_inv_def count_union of_nat_add by linarith
    qed
    ultimately have "counter oq \<ge> 1 \<or> counter oq = 0 \<and> body oq = BNative" by linarith
    then have "heap_inv tbl \<Gamma> h2 (add_mset q (root_addrs M))"
      using heap_inv_inc [OF h1(1) oq] heap_inv_inc_native [OF h1(1) oq] h2 by (elim disjE conjE) simp_all
    then show ?thesis using \<Gamma>(1) wf a by (auto simp: heap_ok_def)
  qed
qed

text \<open>A lookup when the output variable may be the one that holds the list.\<close>

lemma assign_then_inc:
  assumes root: "list_root tbl h lr p l R" and M: "add_mset lr R = add_mset out M" and r: "r \<in> set (list_refs l)"
    and asg: "iree_vm_ref_assign tbl False h r out = Some (h1, r1)" and inc: "inc_ref h1 r1 = Some h2"
  shows "heap_ok tbl h2 (add_mset r1 M)"
proof (cases "ref_ptr out")
  case None
  have "iree_vm_ref_release tbl h out = Some (h, out)"
    using None by (cases h) (simp_all add: iree_vm_ref_release_def)
  with asg inc None release_then_inc [OF root r M] show ?thesis by (simp add: iree_vm_ref_assign_def)
next
  case (Some q)
  with asg inc release_then_inc [OF root r M] show ?thesis by (auto simp: iree_vm_ref_assign_def)
qed

lemma get_ref_retain_any:
  assumes root: "list_root tbl h lr p l R" and M: "add_mset lr R = add_mset out M"
    and res: "iree_vm_list_get_ref_retain tbl h p i out = Some (h', st, r)"
  shows "if st = IREE_STATUS_OK then heap_ok tbl h' (add_mset r M) else h' = h \<and> r = out"
proof -
  have at: "list_at h p = Some l" using root by (simp add: list_root_def)
  show ?thesis
  proof (cases "i < list_count l")
    case True
    then have i: "\<not> list_count l \<le> i" by simp
    have len: "unat i < length (list_refs l)" using list_wf_length [OF list_root_wf [OF root] True] .
    note inc = assign_then_inc [OF root M nth_mem [OF len]]
    show ?thesis
    proof (cases "storage l")
      case (StValue vs)
      with res at i show ?thesis by (auto simp: iree_vm_list_get_ref_retain_def iree_vm_list_get_ref_assign_def)
    next
      case (StRef rs)
      then have eq: "list_refs l ! unat i = rs ! unat i" by (simp add: list_refs_def)
      show ?thesis using StRef res at i inc [unfolded eq]
        by (auto simp: iree_vm_list_get_ref_retain_def iree_vm_list_get_ref_assign_def iree_vm_ref_retain_def
          split: if_splits option.splits)
    next
      case (StVariant vs)
      then have eq: "list_refs l ! unat i = variant_ref (vs ! unat i)" using len by (simp add: list_refs_def)
      show ?thesis using StVariant res at i inc [unfolded eq]
        by (auto simp: iree_vm_list_get_ref_retain_def iree_vm_list_get_ref_assign_def iree_vm_ref_retain_def
          split: if_splits option.splits)
    qed
  next
    case False
    then have "list_count l \<le> i" by simp
    with res at show ?thesis by (auto simp: iree_vm_list_get_ref_retain_def iree_vm_list_get_ref_assign_def)
  qed
qed

section \<open>List handlers\<close>

lemma deref_list:
  assumes env: "env_ok env F" and ok: "local_ok env F l" and k: "k < length (ref_bank (l_regs l))"
    and p: "iree_vm_list_deref env (ref_bank (l_regs l) ! k) = Some p"
  shows "\<exists>lr lst R. list_root (ref_types env) (l_heap l) lr p lst R
    \<and> add_mset lr R = mset (ref_bank (l_regs l)) + (mset (l_globals l) + F) \<and> lr = ref_bank (l_regs l) ! k"
proof -
  let ?r = "ref_bank (l_regs l) ! k"
  have r: "ref_ptr ?r = Some p" "ref_type ?r = list_type_id env"
    using p by (auto simp: iree_vm_list_deref_def iree_vm_ref_check_def split: if_splits)
  obtain M where M: "mset (ref_bank (l_regs l)) = add_mset ?r M"
    "heap_ok (ref_types env) (l_heap l) (add_mset ?r (M + (mset (l_globals l) + F)))"
    using ok k by (rule local_ok_slot)
  obtain td where td: "iree_vm_ref_get_type_descriptor (ref_types env) (list_type_id env) = Some td" "td_destroy td = DestroyList"
    using env by (rule env_ok_list)
  obtain ob where ob: "obj_at (l_heap l) p = Some ob" using heap_ok_live [OF M(2) _ r(1)] by auto
  from heap_ok_kind [OF M(2) _ r(1) ob] td r(2) obtain lst where "body ob = BList lst"
    by (auto simp: kind_ok_def)
  with M r ob show ?thesis by (auto simp: list_root_def list_at_Some)
qed

text \<open>The roots of the invariant, with the reference of the list register first.\<close>

abbreviation local_roots :: "iree_vm_ref multiset \<Rightarrow> vm_local \<Rightarrow> iree_vm_ref multiset" where
  "local_roots F l \<equiv> mset (ref_bank (l_regs l)) + (mset (l_globals l) + F)"

lemma wp_with_list [wp_intros]:
  assumes "env_ok env F" "local_ok env F l"
    and "\<And>k lr p lst R pc. list_root (ref_types env) (l_heap l) lr p lst R \<Longrightarrow> add_mset lr R = local_roots F l \<Longrightarrow>
      k < length (ref_bank (l_regs l)) \<Longrightarrow> lr = ref_bank (l_regs l) ! k \<Longrightarrow> wp U (act p env code pc l) Q"
    and "\<And>pc. Q (pc, l, IREE_STATUS_INVALID_ARGUMENT)" "code_ends code \<Longrightarrow> U"
  shows "wp U (with_list act env code pc l) Q"
proof -
  have "wp U (act p env code pc' l) Q"
    if "k < length (ref_bank (l_regs l))" "iree_vm_list_deref env (ref_bank (l_regs l) ! k) = Some p" for k p pc'
    using deref_list [OF assms(1,2) that] assms(3) that(1) by blast
  then show ?thesis
    using assms(2,4,5) by (auto simp: with_list_def dest: local_ok_regs intro!: wp_intros)
qed

lemma kept_list_root:
  assumes "local_ok env F l" "add_mset lr R = local_roots F l" "list_root (ref_types env) h lr p lst R"
  shows "kept env F l (l\<lparr>l_heap := h\<rparr>)"
  using assms by (intro kept_heap) (auto simp: list_root_def)

lemma wp_list_at: "list_root tbl h lr p lst R \<Longrightarrow> Q lst \<Longrightarrow> wp U (list_at h p) Q"
  by (simp add: list_root_def)

lemma list_size_ok: "handler_ok b op_ListSize"
  by (intro handler_okI) (auto simp: op_ListSize_def dest: local_ok_regs intro!: wp_intros wp_list_at)

lemma get_value_as_defined:
  assumes "list_wf l"
  shows "iree_vm_list_get_value_as l i t v \<noteq> None"
proof (cases "i < list_count l")
  case True
  then have i: "\<not> list_count l \<le> i" by simp
  have len: "unat i < length (list_refs l)" using list_wf_length [OF assms True] .
  show ?thesis
  proof (cases "storage l")
    case (StVariant vs)
    then have "variant_wf (vs ! unat i)" "unat i < length vs"
      using list_wf_variants [OF assms] len by (auto simp: list_refs_def)
    with StVariant i show ?thesis
      by (auto simp: iree_vm_list_get_value_as_def variant_wf_def iree_vm_type_def_is_value_def Let_def split: if_splits)
  qed (use i len in \<open>auto simp: iree_vm_list_get_value_as_def list_refs_def\<close>)
qed (simp add: iree_vm_list_get_value_as_def not_less)

lemma wp_list_get_value_as:
  assumes "list_root (ref_types env) (l_heap l) lr p lst R" "\<And>st v. Q (st, v)"
  shows "wp U (list_get_value_as t env l p i) Q"
  using assms get_value_as_defined [OF list_root_wf [OF assms(1)]]
  by (auto simp: list_get_value_as_def list_root_def intro!: wp_operator)

lemma list_get_value_ok: "handler_ok b op_ListGetI32" "handler_ok b op_ListGetI64" "handler_ok b op_ListGetF32"
  by (intro handler_okI, auto simp: op_ListGetI32_def op_ListGetI64_def op_ListGetF32_def dest: local_ok_regs
      intro!: wp_intros wp_list_get_value_as)+

lemma wp_list_set_value:
  assumes ok: "local_ok env F l" and root: "list_root (ref_types env) (l_heap l) lr p lst R" and R: "add_mset lr R = local_roots F l"
    and Q: "\<And>l' st. kept env F l l' \<Longrightarrow> Q (pc, l', st)"
  shows "wp U (list_set_value env l pc p i v) Q"
proof -
  have at: "list_at (l_heap l) p = Some lst" using root by (simp add: list_root_def)
  have "\<exists>h st lst'. iree_vm_list_set_value (ref_types env) (l_heap l) p (ucast i) v = Some (h, st)
    \<and> list_root (ref_types env) h lr p lst' R"
  proof (cases "ucast i < list_count lst")
    case True
    show ?thesis
    proof (cases "storage lst")
      case (StValue vs)
      with set_value_StValue [OF root this True] show ?thesis by blast
    next
      case (StRef rs)
      from True have "\<not> list_count lst \<le> ucast i" by simp
      with StRef at root show ?thesis by (auto simp: iree_vm_list_set_value_def)
    next
      case (StVariant vs)
      with set_value_StVariant [OF root this True] show ?thesis by blast
    qed
  next
    case False
    then have "list_count lst \<le> ucast i" by simp
    with at root show ?thesis by (auto simp: iree_vm_list_set_value_def)
  qed
  with Q kept_list_root [OF ok R] show ?thesis by (auto simp: list_set_value_def)
qed

lemma list_set_value_ok: "handler_ok b op_ListSetI32" "handler_ok b op_ListSetI64" "handler_ok True op_ListSetF32"
  by (intro handler_okI, auto simp: op_ListSetI32_def op_ListSetI64_def op_ListSetF32_def dest: local_ok_regs
      intro!: wp_intros wp_list_set_value wp_operator [where m = "iree_vm_value_make_f32 fp r v" for fp r v])+

text \<open>Reserve and resize take 32-bit sizes, so the size computation does not wrap.\<close>

lemma wp_list_reserve:
  assumes ok: "local_ok env F l" and root: "list_root (ref_types env) (l_heap l) lr p lst R" and R: "add_mset lr R = local_roots F l"
    and Q: "\<And>st lst'. wp U (put_list (l_heap l) p lst') (\<lambda>h. kept env F l (l\<lparr>l_heap := h\<rparr>)) \<Longrightarrow> Q (st, lst')"
  shows "wp U (iree_vm_list_reserve alloc lst (ucast (m :: u32))) Q"
proof -
  have wf: "list_wf lst" using root by (rule list_root_wf)
  have small: "unat (ucast m :: u64) \<le> 2 ^ 58" using unat_u32_less [of "2 ^ 58" m] by simp
  have put: "wp U (put_list (l_heap l) p lst') (\<lambda>h. kept env F l (l\<lparr>l_heap := h\<rparr>))"
    if "list_wf lst'" "set (list_refs lst') \<subseteq> {r. ref_ptr r = None} \<union> set (list_refs lst)" "addrs_of (list_refs lst') = addrs_of (list_refs lst)" for lst'
    using list_root_put [OF root that] kept_list_root [OF ok R] by auto
  show ?thesis
  proof (cases "capacity lst \<ge> ucast m")
    case True
    with reserve_ok [OF wf small] put [OF wf] Q show ?thesis by simp
  next
    case False
    let ?c = "iree_host_align (ucast m) 64 :: u64"
    let ?g = "lst\<lparr>storage := grow_storage (unat ?c) (storage lst), capacity := ?c\<rparr>"
    have g: "ucast m \<le> ?c" "list_wf ?g" using reserve_ok [OF wf small] False by simp_all
    have "length (list_refs lst) \<le> unat ?c"
      using wf False g(1) by (simp add: list_wf_def word_le_nat_alt)
    then have "list_refs ?g = list_refs lst @ replicate (unat ?c - length (list_refs lst)) null_ref" by (rule list_refs_grow)
    then have "wp U (put_list (l_heap l) p ?g) (\<lambda>h. kept env F l (l\<lparr>l_heap := h\<rparr>))"
      by (intro put g(2)) auto
    with reserve_ok [OF wf small] False put [OF wf] Q show ?thesis by (simp add: Let_def)
  qed
qed

lemma list_reserve_ok: "handler_ok b op_ListReserve"
  by (intro handler_okI) (auto simp: op_ListReserve_def dest: local_ok_regs intro!: wp_intros wp_list_at wp_list_reserve)

lemma wp_list_resize:
  assumes ok: "local_ok env F l" and root: "list_root (ref_types env) (l_heap l) lr p lst R" and R: "add_mset lr R = local_roots F l"
    and Q: "\<And>h st. kept env F l (l\<lparr>l_heap := h\<rparr>) \<Longrightarrow> Q (h, st)"
  shows "wp U (iree_vm_list_resize (ref_types env) alloc (l_heap l) p (ucast (n :: u32))) Q"
proof -
  have "unat (ucast n :: u64) \<le> 2 ^ 57" using unat_u32_less [of "2 ^ 57" n] by simp
  from resize_ok [OF root this, of alloc] Q kept_list_root [OF ok R] show ?thesis by fastforce
qed

lemma list_resize_ok: "handler_ok b op_ListResize"
  by (intro handler_okI) (auto simp: op_ListResize_def dest: local_ok_regs intro!: wp_intros wp_list_resize)

text \<open>The operand of a store may be the register that holds the list itself.\<close>

lemma set_ref_any:
  assumes root: "list_root tbl h lr p l R" and v: "add_mset lr R = add_mset v M"
  shows "\<exists>h' st v'. iree_vm_list_set_ref tbl h p i is_move v = Some (h', st, v') \<and> heap_ok tbl h' (add_mset v' M)"
proof -
  have at: "list_at h p = Some l" and wf: "list_wf l" using root list_root_wf by (auto simp: list_root_def)
  have ok: "heap_ok tbl h (add_mset v M)" using root v by (simp add: list_root_def)
  consider (refused) "i \<ge> list_count l \<or> (\<exists>vs. storage l = StValue vs)
       \<or> (\<exists>rs. storage l = StRef rs) \<and> ref_type v \<noteq> 0 \<and> ref_type v \<noteq> def_ref_type (element_type l)"
    | (ref) rs where "i < list_count l" "storage l = StRef rs" "ref_type v = 0 \<or> ref_type v = def_ref_type (element_type l)"
    | (var) vs where "i < list_count l" "storage l = StVariant vs"
    by (cases "storage l"; cases "i < list_count l";
      cases "ref_type v = 0 \<or> ref_type v = def_ref_type (element_type l)") (auto simp: not_less)
  then show ?thesis
  proof cases
    case refused
    with set_ref_refused [OF at wf] ok show ?thesis by fastforce
  next
    case ref
    with set_ref_StRef_any [OF root v ref(2,1,3)] show ?thesis by blast
  next
    case var
    with set_ref_StVariant_any [OF root v var(2,1)] show ?thesis by blast
  qed
qed

lemma local_roots_slot:
  assumes "k < length (ref_bank (l_regs l))"
  obtains M where "mset (ref_bank (l_regs l)) = add_mset (ref_bank (l_regs l) ! k) M"
    "local_roots F l = add_mset (ref_bank (l_regs l) ! k) (M + (mset (l_globals l) + F))"
  using mset_one_slot [OF assms] by (metis union_mset_add_mset_left)

lemma wp_list_set_ref:
  assumes ok: "local_ok env F l" and root: "list_root (ref_types env) (l_heap l) lr p lst R" and R: "add_mset lr R = local_roots F l"
    and k: "k < length (ref_bank (l_regs l))"
    and Q: "\<And>h st v. kept env F l (l\<lparr>l_heap := h, l_regs := (l_regs l)\<lparr>ref_bank := (ref_bank (l_regs l))[k := v]\<rparr>\<rparr>) \<Longrightarrow> Q (h, st, v)"
  shows "wp U (iree_vm_list_set_ref (ref_types env) (l_heap l) p i is_move (ref_bank (l_regs l) ! k)) Q"
proof -
  obtain M where M: "mset (ref_bank (l_regs l)) = add_mset (ref_bank (l_regs l) ! k) M"
    "local_roots F l = add_mset (ref_bank (l_regs l) ! k) (M + (mset (l_globals l) + F))"
    using k by (rule local_roots_slot)
  from set_ref_any [OF root, of "ref_bank (l_regs l) ! k" "M + (mset (l_globals l) + F)" i is_move] R M(2)
  obtain h st v where "iree_vm_list_set_ref (ref_types env) (l_heap l) p i is_move (ref_bank (l_regs l) ! k) = Some (h, st, v)"
    "heap_ok (ref_types env) h (add_mset v (M + (mset (l_globals l) + F)))" by auto
  with Q kept_ref_slot [OF ok k M(1)] show ?thesis by auto
qed

lemma list_set_ref_ok: "handler_ok b op_ListSetRef"
  by (intro handler_okI)
    (auto simp: op_ListSetRef_def iree_vm_list_set_ref_move_def iree_vm_list_set_ref_retain_def store_ref_def
      dest: local_ok_regs intro!: wp_intros wp_list_set_ref, (simp_all)?)

text \<open>The accounting when register \<open>k\<close> is about to be overwritten with \<open>r\<close>.\<close>

definition slot_ok :: "vm_env \<Rightarrow> iree_vm_ref multiset \<Rightarrow> vm_local \<Rightarrow> nat \<Rightarrow> vm_heap \<Rightarrow> iree_vm_ref \<Rightarrow> bool" where
  "slot_ok env F l k h r \<longleftrightarrow> k < length (ref_bank (l_regs l)) \<and>
    (\<exists>M. mset (ref_bank (l_regs l)) = add_mset (ref_bank (l_regs l) ! k) M
       \<and> heap_ok (ref_types env) h (add_mset r (M + (mset (l_globals l) + F))))"

lemma kept_slot:
  "slot_ok env F l k h r \<Longrightarrow> local_ok env F l \<Longrightarrow>
    kept env F l (l\<lparr>l_heap := h, l_regs := (l_regs l)\<lparr>ref_bank := (ref_bank (l_regs l))[k := r]\<rparr>\<rparr>)"
  by (auto simp: slot_ok_def intro: kept_ref_slot)

lemma wp_list_get_ref:
  assumes ok: "local_ok env F l" and root: "list_root (ref_types env) (l_heap l) lr p lst R" and R: "add_mset lr R = local_roots F l"
    and k: "k < length (ref_bank (l_regs l))" and Q: "\<And>h st r. slot_ok env F l k h r \<Longrightarrow> Q (h, st, r)"
  shows "wp True (iree_vm_list_get_ref_retain (ref_types env) (l_heap l) p i (ref_bank (l_regs l) ! k)) Q"
proof (rule wp_undefined)
  fix x assume "iree_vm_list_get_ref_retain (ref_types env) (l_heap l) p i (ref_bank (l_regs l) ! k) = Some x"
  moreover obtain h st r where x: "x = (h, st, r)" by (cases x)
  moreover obtain M where M: "mset (ref_bank (l_regs l)) = add_mset (ref_bank (l_regs l) ! k) M"
    "local_roots F l = add_mset (ref_bank (l_regs l) ! k) (M + (mset (l_globals l) + F))"
    using k by (rule local_roots_slot)
  ultimately have "if st = IREE_STATUS_OK then heap_ok (ref_types env) h (add_mset r (M + (mset (l_globals l) + F)))
      else h = l_heap l \<and> r = ref_bank (l_regs l) ! k"
    using get_ref_retain_any [OF root] R by metis
  then have "heap_ok (ref_types env) h (add_mset r (M + (mset (l_globals l) + F)))"
    using ok M by (auto simp: local_ok_def split: if_splits)
  with Q M(1) x k show "Q x" by (auto simp: slot_ok_def)
qed simp

lemma wp_release_slot:
  assumes slot: "slot_ok env F l k h r"
    and Q: "\<And>h r'. slot_ok env F l k h r' \<Longrightarrow> Q (h, r')"
  shows "wp U (iree_vm_ref_release (ref_types env) h r) Q"
proof -
  from slot obtain M where M: "k < length (ref_bank (l_regs l))" "mset (ref_bank (l_regs l)) = add_mset (ref_bank (l_regs l) ! k) M"
    and h: "heap_ok (ref_types env) h (add_mset r (M + (mset (l_globals l) + F)))"
    by (auto simp: slot_ok_def)
  from release_ok [OF h] obtain h' where
    h': "iree_vm_ref_release (ref_types env) h r = Some (h', released r)" "heap_ok (ref_types env) h' (M + (mset (l_globals l) + F))"
    by blast
  then have "heap_ok (ref_types env) h' (add_mset (released r) (M + (mset (l_globals l) + F)))"
    using heap_ok_released [OF h] by simp
  with M h'(1) Q show ?thesis by (auto simp: slot_ok_def)
qed

lemma list_get_ref_ok: "handler_ok True op_ListGetRef"
  by (intro handler_okI)
    (auto simp: op_ListGetRef_def store_ref_def env_ok_types dest: local_ok_regs
      intro!: wp_intros wp_list_get_ref wp_release_slot kept_slot, (simp_all)?)

section \<open>The dispatch tables\<close>

text \<open>
  The opcodes whose handlers may be undefined: loads and stores of scalar globals (the bounds check
  covers one byte of the access), division, remainder and shifts (undefined operands), conversions
  from floating point, \<^verbatim>\<open>ListGetRef\<close> (a result register that is the list register) and
  \<^verbatim>\<open>BufferCopy\<close> (overlapping ranges of one buffer).
\<close>

definition core_partial :: "u8 list" where
  "core_partial = [0x00, 0x01, 0x02, 0x03, 0x16, 0x25, 0x26, 0x27, 0x28, 0x2D, 0x2E, 0x2F, 0xC6]"

definition ext_i64_partial :: "u8 list" where
  "ext_i64_partial = [0x00, 0x01, 0x02, 0x03, 0x25, 0x26, 0x27, 0x28, 0x2D, 0x2E, 0x2F]"

definition ext_f32_partial :: "u8 list" where
  "ext_f32_partial = [0x00, 0x01, 0x02, 0x03, 0x15, 0x32, 0x33]"

lemmas buffer_element_ok =
  buffer_fill_ok [of 0, simplified] buffer_fill_ok [of 1, simplified] buffer_fill_ok [of 2, simplified] buffer_fill_ok [of 3, simplified]
  buffer_store_ok [of 0, simplified] buffer_store_ok [of 1, simplified] buffer_store_ok [of 2, simplified] buffer_store_ok [of 3, simplified]
  buffer_load_ok [of 0, simplified] buffer_load_ok [of 1, simplified] buffer_load_ok [of 2, simplified]

lemmas defined_handler_ok =
  arithmetic_ok operator_ok select_switch_ok const_ok move_global_ref_ok ref_select_ok const_ref_zero_ok const_ref_rodata_ok
  alloc_ok buffer_element_ok buffer_load_i64_ok buffer_query_ok list_size_ok list_get_value_ok list_set_value_ok list_reserve_ok
  list_resize_ok list_set_ref_ok

lemmas partial_handler_ok =
  global_access_ok [OF load_store_global_ok(1)] global_access_ok [OF load_store_global_ok(2)]
  global_access_ok [OF load_store_global_ok(3)] global_access_ok [OF load_store_global_ok(4)]
  buffer_copy_ok list_get_ref_ok

lemmas handler_abbreviations =
  op_GlobalLoadI32_def op_GlobalStoreI32_def op_GlobalLoadIndirectI32_def op_GlobalStoreIndirectI32_def
  op_GlobalLoadI64_def op_GlobalStoreI64_def op_GlobalLoadIndirectI64_def op_GlobalStoreIndirectI64_def
  op_GlobalLoadF32_def op_GlobalStoreF32_def op_GlobalLoadIndirectF32_def op_GlobalStoreIndirectF32_def
  op_GlobalLoadRef_def op_GlobalStoreRef_def op_GlobalLoadIndirectRef_def op_GlobalStoreIndirectRef_def
  op_BufferFillI8_def op_BufferFillI16_def op_BufferFillI32_def op_BufferFillI64_def op_BufferFillF32_def
  op_BufferLoadI8U_def op_BufferLoadI8S_def op_BufferLoadI16U_def op_BufferLoadI16S_def op_BufferLoadI32_def op_BufferLoadF32_def
  op_BufferStoreI8_def op_BufferStoreI16_def op_BufferStoreI32_def op_BufferStoreI64_def op_BufferStoreF32_def
  op_ExtI32I64S_def op_ExtI32I64U_def op_CmpEQRef_def op_CmpNERef_def op_CmpNaNF32_def op_ConstF32_def op_ConstF32Zero_def

lemma table_keeps:
  "list_all (\<lambda>(op, hdl). handler_ok True hdl) core_table"
  "list_all (\<lambda>(op, hdl). handler_ok True hdl) ext_i64_table"
  "list_all (\<lambda>(op, hdl). handler_ok True hdl) ext_f32_table"
  by (simp_all add: core_table_def ext_i64_table_def ext_f32_table_def handler_abbreviations defined_handler_ok partial_handler_ok)

lemma table_defined:
  "list_all (\<lambda>(op, hdl). op \<in> set core_partial \<or> handler_ok False hdl) core_table"
  "list_all (\<lambda>(op, hdl). op \<in> set ext_i64_partial \<or> handler_ok False hdl) ext_i64_table"
  "list_all (\<lambda>(op, hdl). op \<in> set ext_f32_partial \<or> handler_ok False hdl) ext_f32_table"
  by (simp_all add: core_table_def ext_i64_table_def ext_f32_table_def core_partial_def ext_i64_partial_def ext_f32_partial_def
    handler_abbreviations defined_handler_ok)

end
