(* ===== verification/VM_Dispatch.thy ===== *)
theory VM_Dispatch
  imports VM_Calls VM_SafetyLists
begin

text \<open>
  The dispatch loop (\<open>iree_vm_bytecode_dispatch\<close> in \<open>iree/vm/bytecode_dispatch.c\<close>): the control flow
  instructions, one step of the interpreter, and runs of it. The loop may not end, so a run is a number
  of steps; the relation \<open>dispatch_reaches\<close> holds of the states the loop passes through.
\<close>

section \<open>State of the interpreter\<close>

text \<open>
  The module and its environment: \<open>d_code\<close> is the byte at an offset from the start of the bytecode of
  the module, and \<open>d_begin_call\<close> calls a function of another module.
\<close>

record dispatch_env =
  d_env :: vm_env
  d_code :: bytecode
  d_functions :: "iree_vm_FunctionDescriptor list"
  d_imports :: "iree_vm_bytecode_import list"
  d_stack_allocator :: "iree_allocator option"
  d_resolver :: state_resolver
  d_begin_call :: begin_call

text \<open>
  The local variables of the loop: \<open>x_base\<close> is the offset that \<open>bytecode_data\<close> points to and \<open>x_results\<close>
  the result buffer of the call.
\<close>

record vm_exec =
  x_state :: vm_state
  x_base :: int
  x_pc :: int
  x_results :: "abi_value list"

datatype dispatch_status = Status iree_status | StatusCode u32
datatype step_result = Next vm_exec | Done vm_exec dispatch_status

type_synonym control_handler = "dispatch_env \<Rightarrow> bytecode \<Rightarrow> int \<Rightarrow> vm_exec \<Rightarrow> step_result option"

abbreviation d_types :: "dispatch_env \<Rightarrow> type_table" where "d_types d \<equiv> ref_types (d_env d)"
abbreviation x_heap :: "vm_exec \<Rightarrow> vm_heap" where "x_heap x \<equiv> s_heap (x_state x)"
abbreviation x_stack :: "vm_exec \<Rightarrow> iree_vm_stack" where "x_stack x \<equiv> s_stack (x_state x)"

definition put_state :: "vm_heap \<Rightarrow> iree_vm_stack \<Rightarrow> vm_exec \<Rightarrow> vm_exec" where
  "put_state h s x = x\<lparr>x_state := (x_state x)\<lparr>s_heap := h, s_stack := s\<rparr>\<rparr>"

definition function_base :: "dispatch_env \<Rightarrow> nat \<Rightarrow> int option" where
  "function_base d i = (if i < length (d_functions d) then Some (sint (bytecode_offset (d_functions d ! i))) else None)"

section \<open>Control flow\<close>

definition branch_to :: "u32 \<Rightarrow> (u16 \<times> u16) list \<Rightarrow> dispatch_env \<Rightarrow> vm_exec \<Rightarrow> step_result option" where
  "branch_to block_pc remap_list d x = do {
     regs \<leftarrow> frame_regs 0 (x_stack x);
     (h, regs) \<leftarrow> iree_vm_bytecode_dispatch_remap_branch_registers (d_types d) (x_heap x) regs remap_list;
     Some (Next ((put_state h (set_frame_regs 0 regs (x_stack x)) x)\<lparr>x_pc := sint block_pc\<rparr>))
   }"

definition op_Branch :: control_handler where
  "op_Branch d code pc x = do {
     (block_pc, pc) \<leftarrow> VM_DecConstI32 code pc;
     (remap_list, pc) \<leftarrow> VM_DecBranchOperands code pc;
     branch_to block_pc remap_list d x
   }"

definition op_CondBranch :: control_handler where
  "op_CondBranch d code pc x = do {
     regs \<leftarrow> frame_regs 0 (x_stack x);
     (condition, pc) \<leftarrow> VM_DecOperandRegI32 regs code pc;
     (true_block_pc, pc) \<leftarrow> VM_DecConstI32 code pc;
     (true_remap_list, pc) \<leftarrow> VM_DecBranchOperands code pc;
     (false_block_pc, pc) \<leftarrow> VM_DecConstI32 code pc;
     (false_remap_list, pc) \<leftarrow> VM_DecBranchOperands code pc;
     if condition \<noteq> 0 then branch_to true_block_pc true_remap_list d x
     else branch_to false_block_pc false_remap_list d x
   }"

text \<open>
  A call decodes the callee and the two register lists. The high bit of the callee selects the imports.
  The descriptor of the callee is found by the callee's 32 bits, its frame by the low 16.
\<close>

definition dec_call :: "bytecode \<Rightarrow> int \<Rightarrow> ((u32 \<times> u16 list \<times> u16 list) \<times> int) option" where
  "dec_call code pc = do {
     (function_ordinal, pc) \<leftarrow> VM_DecConstI32 code pc;
     (src_reg_list, pc) \<leftarrow> VM_DecVariadicOperands code pc;
     (dst_reg_list, pc) \<leftarrow> VM_DecVariadicOperands code pc;
     Some ((function_ordinal, src_reg_list, dst_reg_list), pc)
   }"

definition is_import :: "u32 \<Rightarrow> bool" where
  "is_import function_ordinal \<longleftrightarrow> function_ordinal AND 0x80000000 \<noteq> 0"

definition after_import :: "vm_exec \<Rightarrow> int \<Rightarrow> (iree_status \<times> vm_state) option \<Rightarrow> step_result option" where
  "after_import x pc r = do {
     (st, state) \<leftarrow> r;
     let x = x\<lparr>x_state := state, x_pc := pc\<rparr>;
     Some (if st \<noteq> IREE_STATUS_OK then Done x (Status st) else Next x)
   }"

definition op_Call :: control_handler where
  "op_Call d code pc x = do {
     ((function_ordinal, src_reg_list, dst_reg_list), pc) \<leftarrow> dec_call code pc;
     current_frame \<leftarrow> iree_vm_stack_current_frame (x_stack x);
     let s = set_frame_pc pc (x_stack x);
     if is_import function_ordinal
     then after_import x pc (iree_vm_bytecode_call_import (d_types d) (d_begin_call d) (d_imports d)
       ((x_state x)\<lparr>s_stack := s\<rparr>) function_ordinal src_reg_list dst_reg_list)
     else do {
       (st, h, s) \<leftarrow> iree_vm_bytecode_internal_enter (d_types d) (d_stack_allocator d) (d_resolver d) (d_functions d)
         (x_heap x) s (fn_module (frame_function current_frame)) function_ordinal src_reg_list dst_reg_list;
       let x = put_state h s x;
       if st \<noteq> IREE_STATUS_OK then Some (Done x (Status st))
       else do {
         base \<leftarrow> function_base d (unat function_ordinal);
         current_frame \<leftarrow> iree_vm_stack_current_frame s;
         Some (Next (x\<lparr>x_base := base, x_pc := frame_pc current_frame\<rparr>))
       }
     }
   }"

definition dec_call_variadic :: "bytecode \<Rightarrow> int \<Rightarrow> ((u32 \<times> u16 list \<times> u16 list \<times> u16 list) \<times> int) option" where
  "dec_call_variadic code pc = do {
     (function_ordinal, pc) \<leftarrow> VM_DecConstI32 code pc;
     (segment_size_list, pc) \<leftarrow> VM_DecVariadicOperands code pc;
     (src_reg_list, pc) \<leftarrow> VM_DecVariadicOperands code pc;
     (dst_reg_list, pc) \<leftarrow> VM_DecVariadicOperands code pc;
     Some ((function_ordinal, segment_size_list, src_reg_list, dst_reg_list), pc)
   }"

definition op_CallVariadic :: control_handler where
  "op_CallVariadic d code pc x = do {
     ((function_ordinal, segment_size_list, src_reg_list, dst_reg_list), pc) \<leftarrow> dec_call_variadic code pc;
     current_frame \<leftarrow> iree_vm_stack_current_frame (x_stack x);
     let s = set_frame_pc pc (x_stack x);
     if \<not> is_import function_ordinal then Some (Done (put_state (x_heap x) s x) (Status IREE_STATUS_FAILED_PRECONDITION))
     else after_import x pc (iree_vm_bytecode_call_import_variadic (d_types d) (d_begin_call d) (d_imports d)
       ((x_state x)\<lparr>s_stack := s\<rparr>) function_ordinal segment_size_list src_reg_list dst_reg_list)
   }"

definition op_Return :: "int \<Rightarrow> string \<Rightarrow> control_handler" where
  "op_Return entry_frame_depth cconv_results d code pc x = do {
     (src_reg_list, pc) \<leftarrow> VM_DecVariadicOperands code pc;
     current_frame \<leftarrow> iree_vm_stack_current_frame (x_stack x);
     let s = set_frame_pc pc (x_stack x);
     if frame_depth current_frame \<le> entry_frame_depth
     then do {
       (st, h, s, results) \<leftarrow> iree_vm_bytecode_external_leave (d_types d) (x_heap x) s src_reg_list cconv_results;
       Some (Done ((put_state h s x)\<lparr>x_results := results\<rparr>) (Status st))
     }
     else do {
       (st, h, s) \<leftarrow> iree_vm_bytecode_internal_leave (d_types d) (x_heap x) s src_reg_list;
       let x = put_state h s x;
       if st \<noteq> IREE_STATUS_OK then Some (Done x (Status st))
       else do {
         current_frame \<leftarrow> iree_vm_stack_current_frame s;
         base \<leftarrow> function_base d (unat (fn_ordinal (frame_function current_frame)));
         Some (Next (x\<lparr>x_base := base, x_pc := frame_pc current_frame\<rparr>))
       }
     }
   }"

definition op_Fail :: control_handler where
  "op_Fail d code pc x = do {
     regs \<leftarrow> frame_regs 0 (x_stack x);
     (status_code, pc) \<leftarrow> VM_DecOperandRegI32 regs code pc;
     pc \<leftarrow> VM_DecStrAttr code pc;
     Some (if status_code \<noteq> 0 then Done x (StatusCode status_code) else Next (x\<lparr>x_pc := pc\<rparr>))
   }"

definition op_Yield :: control_handler where
  "op_Yield d code pc x = Some (Done x (Status IREE_STATUS_OK))"

definition op_Trace :: control_handler where
  "op_Trace d code pc x = do {
     pc \<leftarrow> VM_DecStrAttr code pc;
     (src_reg_list, pc) \<leftarrow> VM_DecVariadicOperands code pc;
     regs \<leftarrow> frame_regs 0 (x_stack x);
     (h, regs) \<leftarrow> iree_vm_bytecode_dispatch_discard_registers (d_types d) (x_heap x) regs src_reg_list;
     Some (Next ((put_state h (set_frame_regs 0 regs (x_stack x)) x)\<lparr>x_pc := pc\<rparr>))
   }"

definition op_Print :: control_handler where "op_Print = op_Trace"

definition op_Break :: control_handler where
  "op_Break d code pc x = do {
     (block_pc, pc) \<leftarrow> VM_DecConstI32 code pc;
     (remap_list, pc) \<leftarrow> VM_DecBranchOperands code pc;
     branch_to block_pc remap_list d x
   }"

definition op_CondBreak :: control_handler where
  "op_CondBreak d code pc x = do {
     regs \<leftarrow> frame_regs 0 (x_stack x);
     (condition, pc) \<leftarrow> VM_DecOperandRegI32 regs code pc;
     (block_pc, pc) \<leftarrow> VM_DecConstI32 code pc;
     (remap_list, pc) \<leftarrow> VM_DecBranchOperands code pc;
     branch_to block_pc remap_list d x
   }"

section \<open>One step\<close>

text \<open>An instruction of one of the handler tables runs on the registers of the current frame.\<close>

definition local_of :: "vm_state \<Rightarrow> iree_vm_registers \<Rightarrow> vm_local" where
  "local_of st regs = \<lparr>l_heap = s_heap st, l_regs = regs, l_rwdata = s_rwdata st, l_globals = s_globals st\<rparr>"

definition of_local :: "vm_local \<Rightarrow> vm_state \<Rightarrow> vm_state" where
  "of_local l st = \<lparr>s_heap = l_heap l, s_stack = set_frame_regs 0 (l_regs l) (s_stack st), s_rwdata = l_rwdata l, s_globals = l_globals l\<rparr>"

definition dispatch_table :: "(u8 \<times> handler) list \<Rightarrow> u8 \<Rightarrow> control_handler" where
  "dispatch_table table opcode d code pc x = do {
     regs \<leftarrow> frame_regs 0 (x_stack x);
     (pc, l, st) \<leftarrow> run_handler table opcode (d_env d) code pc (local_of (x_state x) regs);
     let x = x\<lparr>x_state := of_local l (x_state x), x_pc := pc\<rparr>;
     Some (if st \<noteq> IREE_STATUS_OK then Done x (Status st) else Next x)
   }"

definition control_table :: "int \<Rightarrow> string \<Rightarrow> (u8 \<times> control_handler) list" where
  "control_table entry_frame_depth cconv_results =
    [(0x50, op_Branch), (0x51, op_CondBranch), (0x52, op_Call), (0x53, op_CallVariadic),
     (0x54, op_Return entry_frame_depth cconv_results), (0x55, op_Fail), (0x60, op_Yield),
     (0x7C, op_Trace), (0x7D, op_Print), (0x7E, op_CondBreak), (0x7F, op_Break)]"

definition dispatch_step :: "dispatch_env \<Rightarrow> int \<Rightarrow> string \<Rightarrow> vm_exec \<Rightarrow> step_result option" where
  "dispatch_step d entry_frame_depth cconv_results x =
    (let code = (\<lambda>i. d_code d (x_base x + i)) in do {
       opcode \<leftarrow> code (x_pc x);
       let pc = x_pc x + 1;
       case map_of (control_table entry_frame_depth cconv_results) opcode of
         Some hdl \<Rightarrow> hdl d code pc x
       | None \<Rightarrow>
           if opcode = 0xE0 then do { opcode \<leftarrow> code pc; dispatch_table ext_i64_table opcode d code (pc + 1) x }
           else if opcode = 0xE1 then do { opcode \<leftarrow> code pc; dispatch_table ext_f32_table opcode d code (pc + 1) x }
           else if opcode = 0xE2 then Some (Done x (Status IREE_STATUS_UNIMPLEMENTED))
           else dispatch_table core_table opcode d code pc x
     })"

section \<open>Runs\<close>

primrec dispatch_run :: "dispatch_env \<Rightarrow> int \<Rightarrow> string \<Rightarrow> nat \<Rightarrow> vm_exec \<Rightarrow> step_result option" where
  "dispatch_run d entry cconv_results 0 x = Some (Next x)"
| "dispatch_run d entry cconv_results (Suc n) x = do {
     r \<leftarrow> dispatch_step d entry cconv_results x;
     case r of Next x \<Rightarrow> dispatch_run d entry cconv_results n x | Done x st \<Rightarrow> Some (Done x st)
   }"

definition iree_vm_bytecode_dispatch ::
  "dispatch_env \<Rightarrow> nat \<Rightarrow> iree_vm_function \<Rightarrow> string \<Rightarrow> string \<Rightarrow> abi_value list \<Rightarrow> vm_state \<Rightarrow>
   (step_result \<times> abi_value list) option" where
  "iree_vm_bytecode_dispatch d steps function cconv_arguments cconv_results arguments state = do {
     (st, h, s, arguments) \<leftarrow> iree_vm_bytecode_external_enter (d_types d) (d_stack_allocator d) (d_resolver d) (d_functions d)
       (s_heap state) (s_stack state) function cconv_arguments arguments;
     let state = state\<lparr>s_heap := h, s_stack := s\<rparr>;
     if st \<noteq> IREE_STATUS_OK
     then Some (Done \<lparr>x_state = state, x_base = 0, x_pc = 0, x_results = []\<rparr> (Status st), arguments)
     else do {
       current_frame \<leftarrow> iree_vm_stack_current_frame s;
       base \<leftarrow> function_base d (unat (fn_ordinal (frame_function current_frame)));
       r \<leftarrow> dispatch_run d (frame_depth current_frame) cconv_results steps
         \<lparr>x_state = state, x_base = base, x_pc = frame_pc current_frame, x_results = []\<rparr>;
       Some (r, arguments)
     }
   }"

text \<open>The states the loop passes through.\<close>

inductive dispatch_reaches :: "dispatch_env \<Rightarrow> int \<Rightarrow> string \<Rightarrow> vm_exec \<Rightarrow> step_result \<Rightarrow> bool" for d entry cconv_results where
  start: "dispatch_reaches d entry cconv_results x (Next x)"
| step: "dispatch_reaches d entry cconv_results x (Next y) \<Longrightarrow> dispatch_step d entry cconv_results y = Some r \<Longrightarrow>
    dispatch_reaches d entry cconv_results x r"

section \<open>The invariant of the loop\<close>

text \<open>
  \<open>below\<close> are the frames of the callers of the dispatcher, which it never touches. Every frame above
  them runs a function of the module, and every frame but the current one waits for the results of its
  callee. The references of the frames, the globals and the result buffer are accounted for, with the
  references \<open>F\<close> of the environment and what has leaked.
\<close>

definition frame_ready :: "dispatch_env \<Rightarrow> iree_vm_stack_frame \<Rightarrow> bool" where
  "frame_ready d f \<longleftrightarrow> frame_storage f \<noteq> None \<and> unat (fn_ordinal (frame_function f)) < length (d_functions d)"

definition frame_waits :: "iree_vm_stack_frame \<Rightarrow> bool" where
  "frame_waits f \<longleftrightarrow> (\<exists>b. frame_storage f = Some b \<and> return_registers b \<noteq> None)"

definition frames_ok :: "dispatch_env \<Rightarrow> iree_vm_stack_frame list \<Rightarrow> iree_vm_stack_frame list \<Rightarrow> bool" where
  "frames_ok d below fs \<longleftrightarrow> (\<exists>g gs. fs = g # gs @ below \<and> frame_ready d g \<and> (\<forall>f \<in> set gs. frame_ready d f \<and> frame_waits f))"

definition accounted :: "dispatch_env \<Rightarrow> iree_vm_ref multiset \<Rightarrow> vm_exec \<Rightarrow> bool" where
  "accounted d F x \<longleftrightarrow> (\<exists>L. state_ok (d_types d) (mset (abi_refs (x_results x)) + (L + F)) (x_state x))"

definition exec_ok :: "dispatch_env \<Rightarrow> iree_vm_stack_frame list \<Rightarrow> iree_vm_ref multiset \<Rightarrow> vm_exec \<Rightarrow> bool" where
  "exec_ok d below F x \<longleftrightarrow> frames_ok d below (frames (x_stack x)) \<and> accounted d F x"

fun step_ok :: "dispatch_env \<Rightarrow> iree_vm_stack_frame list \<Rightarrow> iree_vm_ref multiset \<Rightarrow> step_result \<Rightarrow> bool" where
  "step_ok d below F (Next x) \<longleftrightarrow> exec_ok d below F x"
| "step_ok d below F (Done x st) \<longleftrightarrow> (\<exists>fs. frames (x_stack x) = fs @ below) \<and> accounted d F x"

lemma exec_ok_done: "exec_ok d below F x \<Longrightarrow> step_ok d below F (Done x st)"
  by (auto simp: exec_ok_def frames_ok_def intro: exI [of _ "_ # _"])

lemma exec_ok_pc [simp]: "exec_ok d below F (x\<lparr>x_pc := pc\<rparr>) \<longleftrightarrow> exec_ok d below F x"
  "exec_ok d below F (x\<lparr>x_base := base\<rparr>) \<longleftrightarrow> exec_ok d below F x"
  by (simp_all add: exec_ok_def accounted_def)

lemma accounted_pc [simp]: "accounted d F (x\<lparr>x_pc := pc\<rparr>) \<longleftrightarrow> accounted d F x"
  by (simp add: accounted_def)

lemma accounted_leak: "state_ok (d_types d) (mset (abi_refs (x_results x)) + (L + (L' + F))) (x_state x) \<Longrightarrow> accounted d F x"
  unfolding accounted_def by (rule exI [of _ "L + L'"]) (simp add: add.assoc)

lemma env_ok_more: "env_ok env F \<Longrightarrow> env_ok env (G + F)"
  by (auto simp: env_ok_def)

text \<open>The current frame, and the references outside its registers.\<close>

definition other_refs :: "vm_exec \<Rightarrow> iree_vm_ref multiset" where
  "other_refs x = mset (concat (map frame_refs (tl (frames (x_stack x))))) + mset (abi_refs (x_results x))"

lemma exec_ok_current:
  assumes "exec_ok d below F x"
  obtains f fs b L where "frames (x_stack x) = f # fs" "frame_storage f = Some b" "frame_regs 0 (x_stack x) = Some (registers b)"
    "regs_wf (registers b)" "stack_wf (x_stack x)" "frames_ok d below (f # fs)"
    "state_ok (d_types d) (mset (abi_refs (x_results x)) + (L + F)) (x_state x)"
    "heap_ok (d_types d) (x_heap x) (mset (ref_bank (registers b)) + (mset (s_globals (x_state x)) + (other_refs x + (L + F))))"
proof -
  obtain L where L: "state_ok (d_types d) (mset (abi_refs (x_results x)) + (L + F)) (x_state x)"
    using assms by (auto simp: exec_ok_def accounted_def)
  obtain f fs where f: "frames (x_stack x) = f # fs" "frame_ready d f" "frames_ok d below (f # fs)"
    using assms by (auto simp: exec_ok_def frames_ok_def)
  then obtain b where b: "frame_storage f = Some b" by (auto simp: frame_ready_def)
  have wf: "stack_wf (x_stack x)" using L by (simp add: state_ok_def)
  show ?thesis
  proof (rule that [OF f(1) b _ _ wf f(3) L])
    show "frame_regs 0 (x_stack x) = Some (registers b)" using f b by (simp add: frame_regs_def)
    show "regs_wf (registers b)" using stack_wf_regs [OF wf _ b] f(1) by simp
    show "heap_ok (d_types d) (x_heap x) (mset (ref_bank (registers b)) + (mset (s_globals (x_state x)) + (other_refs x + (L + F))))"
      using L f(1) b by (simp add: state_ok_def other_refs_def stack_refs_def frame_refs_Some ac_simps)
  qed
qed

lemma frames_ok_top:
  assumes "frames_ok d below (f # fs)" "same_frame f f'" "frame_storage f' \<noteq> None"
  shows "frames_ok d below (f' # fs)"
  using assms by (auto simp: frames_ok_def frame_ready_def same_frame_def)

text \<open>A step that changes the registers of the current frame, the store and the globals.\<close>

lemma put_regs_ok:
  assumes fs: "frames (x_stack x) = f # fs" "frame_storage f = Some b" and wf: "stack_wf (x_stack x)" and fo: "frames_ok d below (f # fs)"
    and regs: "regs_wf regs" and ok: "heap_ok (d_types d) h (mset (ref_bank regs) + (mset globals + (other_refs x + (L + (L' + F)))))"
  shows "exec_ok d below F (x\<lparr>x_state := \<lparr>s_heap = h, s_stack = set_frame_regs 0 regs (x_stack x), s_rwdata = rw, s_globals = globals\<rparr>\<rparr>)"
proof -
  define f' where "f' = f\<lparr>frame_storage := Some (b\<lparr>registers := regs\<rparr>)\<rparr>"
  have s: "set_frame_regs 0 regs (x_stack x) = (x_stack x)\<lparr>frames := f' # fs\<rparr>"
    by (simp add: set_regs_simps [OF fs] f'_def)
  have "stack_wf ((x_stack x)\<lparr>frames := f' # fs\<rparr>)"
    using regs fs(1) stack_wf_frame [OF wf] by (intro stack_wf_change [OF wf]) (auto simp: f'_def)
  moreover have "frames_ok d below (f' # fs)"
    by (rule frames_ok_top [OF fo]) (simp_all add: f'_def)
  moreover have "heap_ok (d_types d) h (mset (frame_refs f') + (mset (concat (map frame_refs fs)) + (mset globals + (mset (abi_refs (x_results x)) + (L + (L' + F))))))"
    using ok fs(1) by (simp add: f'_def frame_refs_Some other_refs_def ac_simps)
  ultimately show ?thesis
    unfolding exec_ok_def s
    by (auto intro!: accounted_leak [of _ _ L L'] simp: state_ok_def add.assoc)
qed

lemma put_state_regs:
  "put_state h (set_frame_regs 0 regs (x_stack x)) x
    = x\<lparr>x_state := \<lparr>s_heap = h, s_stack = set_frame_regs 0 regs (x_stack x), s_rwdata = s_rwdata (x_state x), s_globals = s_globals (x_state x)\<rparr>\<rparr>"
  by (simp add: put_state_def)

section \<open>The instructions keep the invariant\<close>

lemma branch_to_ok:
  assumes "exec_ok d below F x"
  shows "wp U (branch_to block_pc remap_list d x) (step_ok d below F)"
proof -
  obtain f fs b L where c: "frames (x_stack x) = f # fs" "frame_storage f = Some b" "frame_regs 0 (x_stack x) = Some (registers b)"
    "regs_wf (registers b)" "stack_wf (x_stack x)" "frames_ok d below (f # fs)"
    "heap_ok (d_types d) (x_heap x) (mset (ref_bank (registers b)) + (mset (s_globals (x_state x)) + (other_refs x + (L + F))))"
    using exec_ok_current [OF assms] by metis
  obtain h regs L' where r: "iree_vm_bytecode_dispatch_remap_branch_registers (d_types d) (x_heap x) (registers b) remap_list = Some (h, regs)"
      "regs_wf regs" "heap_ok (d_types d) h (mset (ref_bank regs) + (L' + (mset (s_globals (x_state x)) + (other_refs x + (L + F)))))"
    using remap_branch_registers_ok [OF c(4,7)] by blast
  have "heap_ok (d_types d) h (mset (ref_bank regs) + (mset (s_globals (x_state x)) + (other_refs x + (L' + (L + F)))))"
    using r(3) by (simp add: ac_simps)
  from put_regs_ok [OF c(1,2,5,6) r(2) this, of "s_rwdata (x_state x)"] show ?thesis
    by (simp add: branch_to_def c(3) r(1) put_state_regs)
qed

lemma trace_ok:
  assumes "exec_ok d below F x"
  shows "wp (code_ends code) (op_Trace d code pc x) (step_ok d below F)"
proof -
  obtain f fs b L where c: "frames (x_stack x) = f # fs" "frame_storage f = Some b" "frame_regs 0 (x_stack x) = Some (registers b)"
    "regs_wf (registers b)" "stack_wf (x_stack x)" "frames_ok d below (f # fs)"
    "heap_ok (d_types d) (x_heap x) (mset (ref_bank (registers b)) + (mset (s_globals (x_state x)) + (other_refs x + (L + F))))"
    using exec_ok_current [OF assms] by metis
  have "wp (code_ends code) (iree_vm_bytecode_dispatch_discard_registers (d_types d) (x_heap x) (registers b) src_reg_list)
      (\<lambda>(h, regs). exec_ok d below F (put_state h (set_frame_regs 0 regs (x_stack x)) x))" for src_reg_list
  proof -
    obtain h regs where r: "iree_vm_bytecode_dispatch_discard_registers (d_types d) (x_heap x) (registers b) src_reg_list = Some (h, regs)"
        "regs_wf regs" "heap_ok (d_types d) h (mset (ref_bank regs) + (mset (s_globals (x_state x)) + (other_refs x + (L + F))))"
      using discard_registers_ok [OF c(4,7), of src_reg_list] by blast
    have "heap_ok (d_types d) h (mset (ref_bank regs) + (mset (s_globals (x_state x)) + (other_refs x + (L + ({#} + F)))))"
      using r(3) by simp
    from put_regs_ok [OF c(1,2,5,6) r(2) this, of "s_rwdata (x_state x)"] show ?thesis
      by (simp add: r(1) put_state_regs)
  qed
  note discard = this
  show ?thesis
    by (auto simp: op_Trace_def c(3) intro!: wp_intros wp_mono [OF discard])
qed

lemma branches_ok:
  assumes "exec_ok d below F x"
  shows "wp (code_ends code) (op_Branch d code pc x) (step_ok d below F)"
    "wp (code_ends code) (op_Break d code pc x) (step_ok d below F)"
    "wp (code_ends code) (op_CondBranch d code pc x) (step_ok d below F)"
    "wp (code_ends code) (op_CondBreak d code pc x) (step_ok d below F)"
    "wp (code_ends code) (op_Fail d code pc x) (step_ok d below F)"
    "wp U (op_Yield d code pc x) (step_ok d below F)"
proof -
  obtain f fs b L where c: "frame_regs 0 (x_stack x) = Some (registers b)" "regs_wf (registers b)"
      "frames (x_stack x) = f # fs" "frame_storage f = Some b"
    using exec_ok_current [OF assms] by metis
  note br = branch_to_ok [OF assms]
  show "wp (code_ends code) (op_Branch d code pc x) (step_ok d below F)" "wp (code_ends code) (op_Break d code pc x) (step_ok d below F)"
    unfolding op_Branch_def op_Break_def by (auto intro!: wp_intros br)
  show "wp (code_ends code) (op_CondBranch d code pc x) (step_ok d below F)" "wp (code_ends code) (op_CondBreak d code pc x) (step_ok d below F)"
    unfolding op_CondBranch_def op_CondBreak_def c(1) by (auto intro!: wp_intros br c(2))
  show "wp (code_ends code) (op_Fail d code pc x) (step_ok d below F)"
    unfolding op_Fail_def c(1) using assms exec_ok_done [OF assms] by (auto intro!: wp_intros c(2))
  show "wp U (op_Yield d code pc x) (step_ok d below F)"
    unfolding op_Yield_def using exec_ok_done [OF assms] by simp
qed

lemma run_handler_ok:
  assumes "list_all (\<lambda>(op, hdl). handler_ok True hdl) table" "list_all (\<lambda>(op, hdl). op \<in> set partial \<or> handler_ok False hdl) table"
    and "env_ok env F" "local_ok env F l"
  shows "wp (opcode \<in> set partial \<or> code_ends code) (run_handler table opcode env code pc l) (\<lambda>(pc', l', st). kept env F l l')"
proof (cases "map_of table opcode")
  case None
  have "kept env F l l" using assms(4) by (auto simp: kept_def intro!: exI [of _ "{#}"])
  with None show ?thesis by (simp add: run_handler_def)
next
  case (Some hdl)
  then have m: "(opcode, hdl) \<in> set table" by (rule map_of_SomeD)
  have k: "handler_ok (opcode \<in> set partial) hdl"
    using assms(1,2) m by (cases "opcode \<in> set partial") (auto simp: list_all_iff)
  then show ?thesis
    using assms(3,4) Some by (simp add: run_handler_def handler_ok_def)
qed

lemma dispatch_table_ok:
  assumes "list_all (\<lambda>(op, hdl). handler_ok True hdl) table" "list_all (\<lambda>(op, hdl). op \<in> set partial \<or> handler_ok False hdl) table"
    and env: "env_ok (d_env d) F" and x: "exec_ok d below F x"
  shows "wp (opcode \<in> set partial \<or> code_ends code) (dispatch_table table opcode d code pc x) (step_ok d below F)"
proof -
  obtain f fs b L where c: "frames (x_stack x) = f # fs" "frame_storage f = Some b" "frame_regs 0 (x_stack x) = Some (registers b)"
    "regs_wf (registers b)" "stack_wf (x_stack x)" "frames_ok d below (f # fs)"
    "heap_ok (d_types d) (x_heap x) (mset (ref_bank (registers b)) + (mset (s_globals (x_state x)) + (other_refs x + (L + F))))"
    using exec_ok_current [OF x] by metis
  let ?F = "other_refs x + (L + F)" and ?l = "local_of (x_state x) (registers b)"
  have e: "env_ok (d_env d) ?F"
    using env_ok_more [OF env, of "other_refs x + L"] by (simp add: add.assoc)
  have l: "local_ok (d_env d) ?F ?l"
    using c(4,7) by (simp add: local_ok_def local_of_def)
  have step: "exec_ok d below F (x\<lparr>x_state := of_local l' (x_state x)\<rparr>)" if kept: "kept (d_env d) ?F ?l l'" for l'
  proof -
    obtain L' where "local_ok (d_env d) (L' + ?F) l'" using kept by (auto simp: kept_def)
    then have "regs_wf (l_regs l')"
        "heap_ok (d_types d) (l_heap l') (mset (ref_bank (l_regs l')) + (mset (l_globals l') + (other_refs x + (L' + (L + F)))))"
      by (simp_all add: local_ok_def ac_simps)
    from put_regs_ok [OF c(1,2,5,6) this, of "l_rwdata l'"] show ?thesis
      by (simp add: of_local_def)
  qed
  show ?thesis
    unfolding dispatch_table_def c(3) Let_def
    using step exec_ok_done [OF step]
    by (auto intro!: wp_bind wp_mono [OF run_handler_ok [OF assms(1,2) e l]] simp: exec_ok_done)
qed

section \<open>Calls and returns keep the invariant\<close>

lemma dec_lists_short:
  assumes "VM_DecVariadicOperands code pc = Some (regs, pc')"
  shows "length regs < 2 ^ 16"
proof -
  have len: "read_regs code pc n = Some rs \<Longrightarrow> length rs = n" for pc n rs
    by (induction n arbitrary: pc rs) (auto simp: bind_eq_Some_conv)
  obtain n where "regs \<in> set_option (read_regs code (pc + 2) (unat (n :: u16)))"
    using assms by (auto simp: VM_DecVariadicOperands_def bind_eq_Some_conv)
  moreover have "unat n < 2 ^ LENGTH(16)" by (rule unsigned_less)
  ultimately show ?thesis by (auto dest: len)
qed

text \<open>
  Where the three call instructions may be undefined although the bytecode does not end: a callee whose
  low 16 bits name a function but whose 32 bits do not, an import with fewer operands than its calling
  convention has values, and a return to outside with fewer registers than results.
\<close>

definition call_safe :: "dispatch_env \<Rightarrow> bytecode \<Rightarrow> int \<Rightarrow> bool" where
  "call_safe d code pc \<longleftrightarrow> (case dec_call code pc of
      None \<Rightarrow> True
    | Some ((function_ordinal, src_reg_list, dst_reg_list), pc) \<Rightarrow>
        if is_import function_ordinal then import_fits (d_imports d) function_ordinal None src_reg_list
        else unat function_ordinal < length (d_functions d) \<or> unat (ucast function_ordinal :: u16) \<ge> length (d_functions d))"

definition call_variadic_safe :: "dispatch_env \<Rightarrow> bytecode \<Rightarrow> int \<Rightarrow> bool" where
  "call_variadic_safe d code pc \<longleftrightarrow> (case dec_call_variadic code pc of
      None \<Rightarrow> True
    | Some ((function_ordinal, segment_size_list, src_reg_list, dst_reg_list), pc) \<Rightarrow>
        is_import function_ordinal \<longrightarrow> import_fits (d_imports d) function_ordinal (Some segment_size_list) src_reg_list)"

definition return_safe :: "int \<Rightarrow> string \<Rightarrow> bytecode \<Rightarrow> int \<Rightarrow> vm_exec \<Rightarrow> bool" where
  "return_safe entry cconv_results code pc x \<longleftrightarrow> (case (VM_DecVariadicOperands code pc, iree_vm_stack_current_frame (x_stack x)) of
      (Some (src_reg_list, pc), Some f) \<Rightarrow> frame_depth f \<le> entry \<longrightarrow> length cconv_results \<le> length src_reg_list
    | _ \<Rightarrow> True)"

lemma dec_call_None: "dec_call code pc = None \<Longrightarrow> code_ends code"
proof -
  have "wp (code_ends code) (dec_call code pc) (\<lambda>_. True)"
    unfolding dec_call_def by (auto intro!: wp_intros)
  then show "dec_call code pc = None \<Longrightarrow> code_ends code" by (simp add: wp_def)
qed

lemma dec_call_variadic_None: "dec_call_variadic code pc = None \<Longrightarrow> code_ends code"
proof -
  have "wp (code_ends code) (dec_call_variadic code pc) (\<lambda>_. True)"
    unfolding dec_call_variadic_def by (auto intro!: wp_intros)
  then show "dec_call_variadic code pc = None \<Longrightarrow> code_ends code" by (simp add: wp_def)
qed

lemma save_pc_ok:
  assumes "state_ok tbl G st" "frames (s_stack st) = f # fs"
  shows "state_ok tbl G (st\<lparr>s_stack := set_frame_pc pc (s_stack st)\<rparr>)"
    and "set_frame_pc pc (s_stack st) = (s_stack st)\<lparr>frames := f\<lparr>frame_pc := pc\<rparr> # fs\<rparr>"
proof -
  show s: "set_frame_pc pc (s_stack st) = (s_stack st)\<lparr>frames := f\<lparr>frame_pc := pc\<rparr> # fs\<rparr>"
    using assms(2) by (simp add: set_frame_pc_def)
  have wf: "stack_wf (s_stack st)" using assms(1) by (simp add: state_ok_def)
  have "stack_wf ((s_stack st)\<lparr>frames := f\<lparr>frame_pc := pc\<rparr> # fs\<rparr>)"
    using assms(2) stack_wf_frame [OF wf] by (intro stack_wf_change [OF wf]) auto
  moreover have "frame_refs (f\<lparr>frame_pc := pc\<rparr>) = frame_refs f" by (simp add: frame_refs_def)
  ultimately show "state_ok tbl G (st\<lparr>s_stack := set_frame_pc pc (s_stack st)\<rparr>)"
    using assms unfolding s by (simp add: state_ok_def stack_refs_def)
qed

lemma after_import_ok:
  assumes post: "wp U r (import_post (d_types d) (mset (abi_refs (x_results x)) + (L + F)) ((x_state x)\<lparr>s_stack := s\<rparr>))"
    and s: "frames s = f\<lparr>frame_pc := p\<rparr> # fs" and fo: "frames_ok d below (f # fs)"
  shows "wp U (after_import x pc r) (step_ok d below F)"
proof (cases r)
  case None
  with post show ?thesis by (simp add: after_import_def wp_def)
next
  case (Some a)
  obtain st state' where a: "a = (st, state')" by force
  from post Some a obtain L' where L': "state_ok (d_types d) (L' + (mset (abi_refs (x_results x)) + (L + F))) state'"
      "st = IREE_STATUS_OK \<longrightarrow> top_changed s (s_stack state')" and "\<exists>gs. frames (s_stack state') = gs @ fs"
    using s by (auto simp: import_post_def)
  then have fail: "\<exists>gs. frames (s_stack state') = gs @ below"
    using fo by (auto simp: frames_ok_def)
  have acc: "accounted d F (x\<lparr>x_state := state'\<rparr>)"
    using L'(1) by (intro accounted_leak [of _ _ L' L]) (simp add: ac_simps)
  show ?thesis
  proof (cases "st = IREE_STATUS_OK")
    case False
    with Some a fail acc show ?thesis by (simp add: after_import_def)
  next
    case True
    with L'(2) s obtain f' b' where f': "frames (s_stack state') = f' # fs" "same_frame (f\<lparr>frame_pc := p\<rparr>) f'" "frame_storage f' = Some b'"
      by (auto simp: top_changed_def)
    have "frames_ok d below (f' # fs)"
      by (rule frames_ok_top [OF fo]) (use f' in \<open>simp_all add: same_frame_def\<close>)
    with True Some a acc f'(1) show ?thesis by (simp add: after_import_def exec_ok_def)
  qed
qed

lemma state_ok_stack: "state_ok tbl G st \<Longrightarrow> stack_wf (s_stack st)"
  "state_ok tbl G st \<Longrightarrow> heap_ok tbl (s_heap st) (mset (stack_refs (s_stack st)) + (mset (s_globals st) + G))"
  by (simp_all add: state_ok_def)

lemma put_state_accounted:
  assumes "stack_wf s" "heap_ok (d_types d) h (mset (stack_refs s) + (mset (s_globals (x_state x)) + (mset (abi_refs (x_results x)) + (L + F))))"
  shows "accounted d F (put_state h s x)"
  using assms by (auto simp: accounted_def state_ok_def put_state_def)

lemma frames_ok_push:
  assumes fo: "frames_ok d below (f # fs)" and g: "frame_ready d g" and f': "same_frame f f'" "frame_waits f'"
  shows "frames_ok d below (g # f' # fs)"
proof -
  obtain gs where "fs = gs @ below" "frame_ready d f" "\<forall>f \<in> set gs. frame_ready d f \<and> frame_waits f"
    using fo by (auto simp: frames_ok_def)
  then show ?thesis
    using g f' by (auto simp: frames_ok_def frame_ready_def frame_waits_def same_frame_def intro!: exI [of _ "f' # gs"])
qed

lemma op_Call_ok:
  assumes imp: "imports_ok (d_types d) (d_begin_call d) (d_imports d)" and x: "exec_ok d below F x"
  shows "wp (\<not> call_safe d code pc \<or> code_ends code) (op_Call d code pc x) (step_ok d below F)"
proof (cases "dec_call code pc")
  case None
  then show ?thesis by (simp add: op_Call_def wp_def dec_call_None)
next
  case (Some r)
  obtain ordinal srcs dsts pc' where r: "r = ((ordinal, srcs, dsts), pc')" by (metis prod.collapse)
  obtain f fs b L where c: "frames (x_stack x) = f # fs" "frame_storage f = Some b" "frames_ok d below (f # fs)"
      "state_ok (d_types d) (mset (abi_refs (x_results x)) + (L + F)) (x_state x)"
    using exec_ok_current [OF x] by metis
  define s where "s = set_frame_pc pc' (x_stack x)"
  have s: "state_ok (d_types d) (mset (abi_refs (x_results x)) + (L + F)) ((x_state x)\<lparr>s_stack := s\<rparr>)"
      "frames s = f\<lparr>frame_pc := pc'\<rparr> # fs"
    using save_pc_ok [OF c(4,1), of pc'] by (simp_all add: s_def)
  have short: "length srcs < 2 ^ 16"
    using Some r by (auto simp: dec_call_def bind_eq_Some_conv dest: dec_lists_short)
  have cur: "iree_vm_stack_current_frame (x_stack x) = Some f" using c(1) by (simp add: iree_vm_stack_current_frame_def)
  show ?thesis
  proof (cases "is_import ordinal")
    case True
    have "wp (\<not> import_fits (d_imports d) ordinal None srcs)
        (iree_vm_bytecode_call_import (d_types d) (d_begin_call d) (d_imports d) ((x_state x)\<lparr>s_stack := s\<rparr>) ordinal srcs dsts)
        (import_post (d_types d) (mset (abi_refs (x_results x)) + (L + F)) ((x_state x)\<lparr>s_stack := s\<rparr>))"
      using call_import_ok [OF imp s(1) _ _ short, of "f\<lparr>frame_pc := pc'\<rparr>" fs b] s(2) c(2) by simp
    from after_import_ok [OF this s(2) c(3), of pc'] show ?thesis
      using Some r True cur by (auto simp: op_Call_def s_def [symmetric] call_safe_def intro: wp_weaken)
  next
    case False
    have fb: "frame_storage (f\<lparr>frame_pc := pc'\<rparr>) = Some b" using c(2) by simp
    have hs: "stack_wf s" "heap_ok (d_types d) (x_heap x) (mset (stack_refs s) + (mset (s_globals (x_state x)) + (mset (abi_refs (x_results x)) + (L + F))))"
      using state_ok_stack [OF s(1)] by simp_all
    obtain st h s' L' where e: "iree_vm_bytecode_internal_enter (d_types d) (d_stack_allocator d) (d_resolver d) (d_functions d)
        (x_heap x) s (fn_module (frame_function f)) ordinal srcs dsts = Some (st, h, s')" "stack_wf s'"
      "heap_ok (d_types d) h (mset (stack_refs s') + (L' + (mset (s_globals (x_state x)) + (mset (abi_refs (x_results x)) + (L + F)))))"
      "if st = IREE_STATUS_OK
       then \<exists>g c f' b'. frames s' = g # f' # fs \<and> frame_storage g = Some c \<and> frame_pc g = 0
         \<and> fn_ordinal (frame_function g) = ucast ordinal \<and> unat (ucast ordinal :: u16) < length (d_functions d)
         \<and> same_frame (f\<lparr>frame_pc := pc'\<rparr>) f' \<and> frame_pc f' = frame_pc (f\<lparr>frame_pc := pc'\<rparr>) \<and> frame_storage f' = Some b'
         \<and> return_registers b' = Some dsts
       else \<exists>f' b'. frames s' = f' # fs \<and> same_frame (f\<lparr>frame_pc := pc'\<rparr>) f' \<and> frame_storage f' = Some b'"
      using internal_enter_ok [OF hs(1) s(2) fb hs(2), of "d_stack_allocator d" "d_resolver d" "d_functions d" "fn_module (frame_function f)" ordinal srcs dsts]
      by (elim exE conjE) (rule that)
    have acc: "accounted d F (put_state h s' x)"
      by (rule put_state_accounted [OF e(2), of _ _ _ "L' + L"]) (use e(3) in \<open>simp add: ac_simps\<close>)
    show ?thesis
    proof (cases "st = IREE_STATUS_OK")
      case ok: False
      with e(4) obtain f' where "frames s' = f' # fs" by auto
      then have "\<exists>gs. frames s' = gs @ below" using c(3) by (auto simp: frames_ok_def intro: exI [of _ "_ # _"])
      with ok acc e(1) Some r False cur show ?thesis
        by (simp add: op_Call_def s_def [symmetric] put_state_def)
    next
      case ok: True
      with e(4) obtain g c f' b' where g: "frames s' = g # f' # fs" "frame_storage g = Some c"
          "fn_ordinal (frame_function g) = ucast ordinal" "unat (ucast ordinal :: u16) < length (d_functions d)"
          "same_frame (f\<lparr>frame_pc := pc'\<rparr>) f'" "frame_storage f' = Some b'" "return_registers b' = Some dsts"
        by auto
      have fo: "frames_ok d below (g # f' # fs)"
        by (rule frames_ok_push [OF c(3)]) (use g in \<open>auto simp: frame_ready_def frame_waits_def same_frame_def\<close>)
      show ?thesis
      proof (cases "unat ordinal < length (d_functions d)")
        case base: True
        have "exec_ok d below F (put_state h s' x)"
          using acc fo g(1) by (simp add: exec_ok_def put_state_def)
        with base ok e(1) Some r False cur g(1) show ?thesis
          by (simp add: op_Call_def s_def [symmetric] function_base_def iree_vm_stack_current_frame_def)
      next
        case base: False
        with Some r False g(4) have "\<not> call_safe d code pc" by (simp add: call_safe_def)
        with base ok e(1) Some r False cur show ?thesis
          by (simp add: op_Call_def s_def [symmetric] function_base_def wp_def)
      qed
    qed
  qed
qed

lemma op_CallVariadic_ok:
  assumes imp: "imports_ok (d_types d) (d_begin_call d) (d_imports d)" and x: "exec_ok d below F x"
  shows "wp (\<not> call_variadic_safe d code pc \<or> code_ends code) (op_CallVariadic d code pc x) (step_ok d below F)"
proof (cases "dec_call_variadic code pc")
  case None
  then show ?thesis by (simp add: op_CallVariadic_def wp_def dec_call_variadic_None)
next
  case (Some r)
  obtain ordinal segs srcs dsts pc' where r: "r = ((ordinal, segs, srcs, dsts), pc')" by (metis prod.collapse)
  obtain f fs b L where c: "frames (x_stack x) = f # fs" "frame_storage f = Some b" "frames_ok d below (f # fs)"
      "state_ok (d_types d) (mset (abi_refs (x_results x)) + (L + F)) (x_state x)"
    using exec_ok_current [OF x] by metis
  define s where "s = set_frame_pc pc' (x_stack x)"
  have s: "state_ok (d_types d) (mset (abi_refs (x_results x)) + (L + F)) ((x_state x)\<lparr>s_stack := s\<rparr>)"
      "frames s = f\<lparr>frame_pc := pc'\<rparr> # fs"
    using save_pc_ok [OF c(4,1), of pc'] by (simp_all add: s_def)
  have short: "length srcs < 2 ^ 16"
    using Some r by (auto simp: dec_call_variadic_def bind_eq_Some_conv dest: dec_lists_short)
  have cur: "iree_vm_stack_current_frame (x_stack x) = Some f" using c(1) by (simp add: iree_vm_stack_current_frame_def)
  show ?thesis
  proof (cases "is_import ordinal")
    case True
    have "wp (\<not> import_fits (d_imports d) ordinal (Some segs) srcs)
        (iree_vm_bytecode_call_import_variadic (d_types d) (d_begin_call d) (d_imports d) ((x_state x)\<lparr>s_stack := s\<rparr>) ordinal segs srcs dsts)
        (import_post (d_types d) (mset (abi_refs (x_results x)) + (L + F)) ((x_state x)\<lparr>s_stack := s\<rparr>))"
      using call_import_variadic_ok [OF imp s(1) _ _ short, of "f\<lparr>frame_pc := pc'\<rparr>" fs b] s(2) c(2) by simp
    from after_import_ok [OF this s(2) c(3), of pc'] show ?thesis
      using Some r True cur by (auto simp: op_CallVariadic_def s_def [symmetric] call_variadic_safe_def intro: wp_weaken)
  next
    case False
    have "accounted d F (put_state (x_heap x) s x)"
      using state_ok_stack [OF s(1)] by (intro put_state_accounted [of _ _ _ _ L]) simp_all
    moreover have "\<exists>gs. frames s = gs @ below" using c(3) s(2) by (auto simp: frames_ok_def intro: exI [of _ "_ # _"])
    ultimately show ?thesis
      using Some r False cur by (simp add: op_CallVariadic_def s_def [symmetric] put_state_def)
  qed
qed

lemma op_Return_ok:
  assumes x: "exec_ok d below F x" and entry: "entry = int (length below)"
  shows "wp (\<not> return_safe entry cconv_results code pc x \<or> code_ends code) (op_Return entry cconv_results d code pc x) (step_ok d below F)"
proof (cases "VM_DecVariadicOperands code pc")
  case None
  have "code_ends code"
    using wp_DecVariadicOperands [of "\<lambda>_. True" code "code_ends code" pc] None by (simp add: wp_def)
  with None show ?thesis by (simp add: op_Return_def wp_def)
next
  case (Some r)
  obtain srcs pc' where r: "r = (srcs, pc')" by force
  obtain f fs b L where c: "frames (x_stack x) = f # fs" "frame_storage f = Some b" "frames_ok d below (f # fs)"
      "state_ok (d_types d) (mset (abi_refs (x_results x)) + (L + F)) (x_state x)" "stack_wf (x_stack x)"
    using exec_ok_current [OF x] by metis
  define s where "s = set_frame_pc pc' (x_stack x)"
  have s: "state_ok (d_types d) (mset (abi_refs (x_results x)) + (L + F)) ((x_state x)\<lparr>s_stack := s\<rparr>)"
      "frames s = f\<lparr>frame_pc := pc'\<rparr> # fs"
    using save_pc_ok [OF c(4,1), of pc'] by (simp_all add: s_def)
  have hs: "stack_wf s" "heap_ok (d_types d) (x_heap x) (mset (stack_refs s) + (mset (s_globals (x_state x)) + (mset (abi_refs (x_results x)) + (L + F))))"
    using state_ok_stack [OF s(1)] by simp_all
  have cur: "iree_vm_stack_current_frame (x_stack x) = Some f" using c(1) by (simp add: iree_vm_stack_current_frame_def)
  obtain gs where gs: "fs = gs @ below" "\<forall>f \<in> set gs. frame_ready d f \<and> frame_waits f" using c(3) by (auto simp: frames_ok_def)
  have "frame_depth f = int (length fs)" using c(5,1) by (auto simp: stack_wf_def)
  then have depth: "frame_depth f \<le> entry \<longleftrightarrow> gs = []" using entry gs(1) by simp
  show ?thesis
  proof (cases gs)
    case Nil
    have safe: "length srcs < length cconv_results \<Longrightarrow> \<not> return_safe entry cconv_results code pc x"
      using Some r cur depth Nil by (simp add: return_safe_def)
    have acc: "accounted d F ((put_state h' s' x)\<lparr>x_results := results\<rparr>)"
      if "stack_wf s'" "heap_ok (d_types d) h' (mset (stack_refs s') + (mset (abi_refs results) + (mset (s_globals (x_state x)) + (mset (abi_refs (x_results x)) + (L + F)))))"
      for h' s' results
      unfolding accounted_def using that
      by (intro exI [of _ "mset (abi_refs (x_results x)) + L"]) (simp add: state_ok_def put_state_def ac_simps)
    have "wp (\<not> return_safe entry cconv_results code pc x \<or> code_ends code)
        (iree_vm_bytecode_external_leave (d_types d) (x_heap x) s srcs cconv_results)
        (\<lambda>(st, h', s', results). frames s' = below \<and> accounted d F ((put_state h' s' x)\<lparr>x_results := results\<rparr>))"
      using external_leave_ok [OF hs(1) s(2) _ hs(2), of b srcs cconv_results] c(2) safe gs(1) Nil
      by (auto elim!: wp_mono [OF wp_weaken] intro: acc)
    with Nil Some r cur depth show ?thesis
      by (auto simp: op_Return_def s_def [symmetric] put_state_def intro!: wp_bind elim!: wp_mono)
  next
    case (Cons g gs')
    with gs(2) obtain c' dsts where g: "frame_ready d g" "frame_storage g = Some c'" "return_registers c' = Some dsts"
      by (auto simp: frame_waits_def)
    have fb: "frame_storage (f\<lparr>frame_pc := pc'\<rparr>) = Some b" using c(2) by simp
    have fs2: "frames s = f\<lparr>frame_pc := pc'\<rparr> # g # gs' @ below" using s(2) gs(1) Cons by simp
    obtain st h s' where e: "iree_vm_bytecode_internal_leave (d_types d) (x_heap x) s srcs = Some (st, h, s')" "stack_wf s'"
        "heap_ok (d_types d) h (mset (stack_refs s') + (mset (s_globals (x_state x)) + (mset (abi_refs (x_results x)) + (L + F))))"
        "if length srcs \<le> length dsts
         then st = IREE_STATUS_OK \<and> (\<exists>f' b'. frames s' = f' # gs' @ below \<and> same_frame g f' \<and> frame_pc f' = frame_pc g
           \<and> frame_storage f' = Some b' \<and> return_registers b' = return_registers c')
         else st = IREE_STATUS_FAILED_PRECONDITION \<and> s' = s"
      using internal_leave_ok [OF hs(1) fs2 fb g(2,3) hs(2), of srcs] by (elim exE conjE) (rule that)
    have acc: "accounted d F (put_state h s' x)" by (rule put_state_accounted [OF e(2,3)])
    show ?thesis
    proof (cases "length srcs \<le> length dsts")
      case False
      with e(4) have "st = IREE_STATUS_FAILED_PRECONDITION" "s' = s" by simp_all
      moreover have "\<exists>gs. frames s = gs @ below" using fs2 by (intro exI [of _ "f\<lparr>frame_pc := pc'\<rparr> # g # gs'"]) simp
      ultimately show ?thesis
        using e(1) acc Some r cur depth Cons by (simp add: op_Return_def s_def [symmetric] put_state_def)
    next
      case True
      with e(4) obtain f' b' where f': "st = IREE_STATUS_OK" "frames s' = f' # gs' @ below" "same_frame g f'" "frame_storage f' = Some b'"
        by auto
      have ready: "frame_ready d f'" using g(1) f'(3,4) by (simp add: frame_ready_def same_frame_def)
      then have "frames_ok d below (frames s')" using f'(2) gs(2) Cons by (auto simp: frames_ok_def)
      with acc have "exec_ok d below F (put_state h s' x)" by (simp add: exec_ok_def put_state_def)
      with ready f'(1,2) e(1) Some r cur depth Cons show ?thesis
        by (simp add: op_Return_def s_def [symmetric] function_base_def frame_ready_def iree_vm_stack_current_frame_def)
    qed
  qed
qed

section \<open>Steps and runs\<close>

text \<open>
  A step is safe when it is not one of the instructions that may be undefined in a state that satisfies
  the invariant.
\<close>

definition step_safe :: "dispatch_env \<Rightarrow> int \<Rightarrow> string \<Rightarrow> vm_exec \<Rightarrow> bool" where
  "step_safe d entry cconv_results x \<longleftrightarrow>
    (let code = (\<lambda>i. d_code d (x_base x + i)); pc = x_pc x + 1 in
     case code (x_pc x) of
       None \<Rightarrow> False
     | Some opcode \<Rightarrow>
         if opcode = 0x52 then call_safe d code pc
         else if opcode = 0x53 then call_variadic_safe d code pc
         else if opcode = 0x54 then return_safe entry cconv_results code pc x
         else if opcode = 0xE0 then (case code pc of None \<Rightarrow> False | Some op \<Rightarrow> op \<notin> set ext_i64_partial)
         else if opcode = 0xE1 then (case code pc of None \<Rightarrow> False | Some op \<Rightarrow> op \<notin> set ext_f32_partial)
         else opcode \<notin> set core_partial)"

lemma code_ends_shift [simp]: "code_ends (\<lambda>i. code (base + i)) \<longleftrightarrow> code_ends code"
proof
  assume "code_ends code"
  then obtain i where "code (base + (i - base)) = None" by (auto simp: code_ends_def)
  then show "code_ends (\<lambda>i. code (base + i))" unfolding code_ends_def by blast
qed (auto simp: code_ends_def)

text \<open>The control flow instructions other than calls and returns are defined wherever the bytecode is.\<close>

lemma control_table_ok:
  assumes imp: "imports_ok (d_types d) (d_begin_call d) (d_imports d)"
    and x: "exec_ok d below F x" and entry: "entry = int (length below)"
    and hdl: "map_of (control_table entry cconv_results) opcode = Some hdl"
  shows "wp ((opcode = 0x52 \<and> \<not> call_safe d code pc) \<or> (opcode = 0x53 \<and> \<not> call_variadic_safe d code pc)
      \<or> (opcode = 0x54 \<and> \<not> return_safe entry cconv_results code pc x) \<or> code_ends code) (hdl d code pc x) (step_ok d below F)"
  using hdl op_Call_ok [OF imp x, of code pc] op_CallVariadic_ok [OF imp x, of code pc] op_Return_ok [OF x entry, of cconv_results code pc]
    branches_ok(1-5) [OF x, where code = code and pc = pc] branches_ok(6) [OF x, where code = code and pc = pc] trace_ok [OF x, of code pc]
  by (auto simp: control_table_def op_Print_def split: if_splits)

lemma dispatch_step_ok:
  assumes env: "env_ok (d_env d) F" and imp: "imports_ok (d_types d) (d_begin_call d) (d_imports d)"
    and x: "exec_ok d below F x" and entry: "entry = int (length below)"
  shows "wp (\<not> step_safe d entry cconv_results x \<or> code_ends (d_code d)) (dispatch_step d entry cconv_results x) (step_ok d below F)"
proof -
  define code where "code = (\<lambda>i. d_code d (x_base x + i))"
  have ends: "code_ends (d_code d) \<longleftrightarrow> code_ends code" by (simp add: code_def)
  note tables = dispatch_table_ok [OF table_keeps(1) table_defined(1) env x] dispatch_table_ok [OF table_keeps(2) table_defined(2) env x]
    dispatch_table_ok [OF table_keeps(3) table_defined(3) env x]
  show ?thesis
  proof (cases "code (x_pc x)")
    case None
    then have "\<not> step_safe d entry cconv_results x" "dispatch_step d entry cconv_results x = None"
      by (simp_all add: step_safe_def dispatch_step_def code_def)
    then show ?thesis by (simp add: wp_def)
  next
    case (Some opcode)
    note unf = dispatch_step_def step_safe_def ends code_def [symmetric] Let_def Some
    show ?thesis
    proof (cases "map_of (control_table entry cconv_results) opcode")
      case ctrl: (Some hdl)
      then have op: "opcode \<noteq> 0xE0" "opcode \<noteq> 0xE1" "opcode \<noteq> 0xE2" by (auto simp: control_table_def split: if_splits)
      from control_table_ok [OF imp x entry ctrl, of code "x_pc x + 1"] show ?thesis
        unfolding unf by (auto simp: ctrl op elim: wp_weaken)
    next
      case None
      then have op: "opcode \<noteq> 0x52" "opcode \<noteq> 0x53" "opcode \<noteq> 0x54" by (auto simp: control_table_def split: if_splits)
      show ?thesis
      proof (cases "opcode = 0xE0 \<or> opcode = 0xE1")
        case True
        then show ?thesis
          unfolding unf
          by (cases "code (x_pc x + 1)") (auto simp: None wp_def [of _ None] intro: wp_weaken [OF tables(2)] wp_weaken [OF tables(3)])
      next
        case False
        then show ?thesis
          unfolding unf using exec_ok_done [OF x] by (auto simp: None op intro: wp_weaken [OF tables(1)])
      qed
    qed
  qed
qed

text \<open>The invariant holds in every state the loop passes through, and in the state it stops in.\<close>

lemma dispatch_reaches_ok:
  assumes env: "env_ok (d_env d) F" and imp: "imports_ok (d_types d) (d_begin_call d) (d_imports d)"
    and entry: "entry = int (length below)"
    and "dispatch_reaches d entry cconv_results x r" "exec_ok d below F x"
  shows "step_ok d below F r"
  using assms(4,5)
proof (induction rule: dispatch_reaches.induct)
  case (step x y r)
  then have "exec_ok d below F y" by simp
  from dispatch_step_ok [OF env imp this entry, of cconv_results] step.hyps(2) show ?case by (simp add: wp_def)
qed simp

lemma dispatch_run_reaches:
  assumes "dispatch_reaches d entry cconv_results x (Next y)" "dispatch_run d entry cconv_results n y = Some r"
  shows "dispatch_reaches d entry cconv_results x r"
  using assms
proof (induction n arbitrary: y)
  case (Suc n)
  then obtain r1 where r1: "dispatch_step d entry cconv_results y = Some r1"
    by (auto simp: bind_eq_Some_conv)
  show ?case
    using Suc r1 dispatch_reaches.step [OF Suc.prems(1) r1] by (cases r1) auto
qed simp

text \<open>A run whose states are all safe never has undefined behaviour.\<close>

lemma dispatch_run_defined:
  assumes env: "env_ok (d_env d) F" and imp: "imports_ok (d_types d) (d_begin_call d) (d_imports d)"
    and entry: "entry = int (length below)" and code: "\<not> code_ends (d_code d)"
    and x: "exec_ok d below F x" and safe: "\<And>y. dispatch_reaches d entry cconv_results x (Next y) \<Longrightarrow> step_safe d entry cconv_results y"
    and y: "dispatch_reaches d entry cconv_results x (Next y)"
  shows "\<exists>r. dispatch_run d entry cconv_results n y = Some r"
  using y
proof (induction n arbitrary: y)
  case (Suc n)
  have "exec_ok d below F y" using dispatch_reaches_ok [OF env imp entry Suc.prems x] by simp
  from dispatch_step_ok [OF env imp this entry, of cconv_results] safe [OF Suc.prems] code
  obtain r where r: "dispatch_step d entry cconv_results y = Some r"
    by (cases "dispatch_step d entry cconv_results y") (auto simp: wp_def)
  show ?case
    using r Suc.IH dispatch_reaches.step [OF Suc.prems r] by (cases r) auto
qed simp

text \<open>More steps do not change a run that has stopped, and runs compose.\<close>

lemma dispatch_run_add:
  "dispatch_run d entry cconv_results (m + n) x = do {
     r \<leftarrow> dispatch_run d entry cconv_results m x;
     case r of Next y \<Rightarrow> dispatch_run d entry cconv_results n y | Done y st \<Rightarrow> Some (Done y st)
   }"
proof (induction m arbitrary: x)
  case (Suc m)
  show ?case
    by (cases "dispatch_step d entry cconv_results x") (auto simp: Suc split: step_result.splits)
qed simp

end
