(* ===== verification/VM_Programs.thy ===== *)
theory VM_Programs
  imports VM_Dispatch VM_CallProperties
begin

text \<open>
  A bytecode program run by the dispatcher: a function that adds up the numbers from its argument down to
  zero in a loop. Each of its instructions is one lemma about \<open>dispatch_step\<close>; the loop is an induction
  over the argument.
\<close>

section \<open>The program\<close>

text \<open>
  Register 0 is the counter, register 1 the sum and register 2 the constant one:
  \<^verbatim>\<open>0: cond_br r0, 15, 43; 15: r1 = add r1, r0; 22: r2 = const 1; 29: r0 = sub r0, r2; 36: br 0; 43: return r1\<close>.
\<close>

definition sum_bytes :: "u8 list" where
  "sum_bytes =
    [0x51, 0, 0, 15, 0, 0, 0, 0, 0, 43, 0, 0, 0, 0, 0,
     0x22, 1, 0, 0, 0, 1, 0,
     0x09, 1, 0, 0, 0, 2, 0,
     0x23, 0, 0, 2, 0, 0, 0,
     0x50, 0, 0, 0, 0, 0, 0,
     0x54, 1, 0, 1, 0]"

definition sum_code :: bytecode where
  "sum_code i = (if 0 \<le> i \<and> i < 48 then Some (sum_bytes ! nat i) else None)"

definition sum_functions :: "iree_vm_FunctionDescriptor list" where
  "sum_functions = [\<lparr>bytecode_offset = 0, bytecode_length = 48, i32_register_count = 3, ref_register_count = 0\<rparr>]"

text \<open>An environment with the two builtin types, no imports and no rodata.\<close>

definition sample_fp :: fp_env where
  "sample_fp = \<lparr>fp_unary = \<lambda>_ x. x, fp_binary = \<lambda>_ x _. x, fp_round_to_int = \<lambda>_ _. None,
    fp_truncate_to_int = \<lambda>_. None, fp_of_int = \<lambda>x. x\<rparr>"

definition sample_env :: vm_env where
  "sample_env = \<lparr>ref_types = sample_types, list_type_id = 2, buffer_type_id = 1,
    module_types = [iree_vm_type_def_make_variant_type], ms_allocator = (\<lambda>_. IREE_STATUS_OK), rodata_refs = [],
    fp_ops = sample_fp, uninitialized = 0\<rparr>"

definition sample_dispatch :: "bytecode \<Rightarrow> iree_vm_FunctionDescriptor list \<Rightarrow> dispatch_env" where
  "sample_dispatch code fdt = \<lparr>d_env = sample_env, d_code = code, d_functions = fdt, d_imports = [],
    d_stack_allocator = None, d_resolver = (\<lambda>m. (IREE_STATUS_OK, m)), d_begin_call = (\<lambda>_ _ _. None)\<rparr>"

lemma sample_env_ok: "env_ok sample_env F"
  by (simp add: env_ok_def sample_env_def sample_types_get buffer_type_desc_def list_type_desc_def)

lemma sample_no_imports: "imports_ok tbl begin_call []"
  by (simp add: imports_ok_def)

definition sum_env :: dispatch_env where
  "sum_env = sample_dispatch sum_code sum_functions"

definition sum_regs :: "u32 \<Rightarrow> u32 \<Rightarrow> u32 \<Rightarrow> iree_vm_registers" where
  "sum_regs n acc c = \<lparr>i32_mask = 3, i32_bank = [n, acc, c, 0], ref_mask = 0, ref_bank = [null_ref]\<rparr>"

definition sum_stack :: "int \<Rightarrow> u32 \<Rightarrow> u32 \<Rightarrow> u32 \<Rightarrow> iree_vm_stack" where
  "sum_stack pc n acc c = sample_entered\<lparr>frames :=
    [sample_frame\<lparr>frame_pc := pc, frame_storage := Some \<lparr>return_registers = None, registers = sum_regs n acc c\<rparr>\<rparr>]\<rparr>"

definition sum_exec :: "int \<Rightarrow> u32 \<Rightarrow> u32 \<Rightarrow> u32 \<Rightarrow> vm_exec" where
  "sum_exec pc n acc c = \<lparr>x_state = \<lparr>s_heap = [], s_stack = sum_stack 0 n acc c, s_rwdata = [], s_globals = []\<rparr>,
    x_base = 0, x_pc = pc, x_results = []\<rparr>"

section \<open>Its instructions\<close>

lemma sum_opcodes:
  "sum_code 0 = Some 0x51" "sum_code 15 = Some 0x22" "sum_code 22 = Some 0x09" "sum_code 29 = Some 0x23"
  "sum_code 36 = Some 0x50" "sum_code 43 = Some 0x54"
  by code_simp+

lemma sum_operands:
  "VM_DecConstI32 sum_code 3 = Some (15, 7)" "VM_DecConstI32 sum_code 9 = Some (43, 13)"
  "VM_DecConstI32 sum_code 23 = Some (1, 27)" "VM_DecConstI32 sum_code 37 = Some (0, 41)"
  "VM_DecBranchOperands sum_code 7 = Some ([], 9)" "VM_DecBranchOperands sum_code 13 = Some ([], 15)"
  "VM_DecBranchOperands sum_code 41 = Some ([], 43)" "VM_DecVariadicOperands sum_code 44 = Some ([1], 48)"
  "VM_DecReg sum_code 1 = Some (0, 3)" "VM_DecReg sum_code 16 = Some (1, 18)" "VM_DecReg sum_code 18 = Some (0, 20)"
  "VM_DecReg sum_code 20 = Some (1, 22)" "VM_DecReg sum_code 27 = Some (2, 29)" "VM_DecReg sum_code 30 = Some (0, 32)"
  "VM_DecReg sum_code 32 = Some (2, 34)" "VM_DecReg sum_code 34 = Some (0, 36)"
  by code_simp+

lemma sum_handlers:
  "map_of core_table 0x22 = Some (core_binary_i32 (\<lambda>a b. Some (vm_add_i32 a b)))"
  "map_of core_table 0x23 = Some (core_binary_i32 (\<lambda>a b. Some (vm_sub_i32 a b)))"
  "map_of core_table 0x09 = Some op_ConstI32"
  by (simp_all add: core_table_def)

lemma sum_registers:
  "i32_index (sum_regs n acc c) 0 = 0" "i32_index (sum_regs n acc c) 1 = 1" "i32_index (sum_regs n acc c) 2 = 2"
  by (simp_all add: i32_index_def sum_regs_def)

lemmas sum_defs = dispatch_step_def Let_def control_table_def dispatch_table_def run_handler_def core_binary_i32_def op_ConstI32_def
  op_CondBranch_def op_Branch_def branch_to_def VM_DecOperandRegI32_def VM_DecResultRegI32_def put_i32_def put_state_def
  local_of_def of_local_def frame_regs_def set_frame_regs_def sum_exec_def sum_stack_def sample_entered_def sum_env_def sample_dispatch_def

lemmas sum_facts = sum_opcodes sum_operands sum_handlers sum_registers load_i32_def store_i32_def

lemma sum_step:
  "dispatch_step sum_env 0 ''i'' (sum_exec 0 n acc c) = Some (Next (sum_exec (if n = 0 then 43 else 15) n acc c))"
  "dispatch_step sum_env 0 ''i'' (sum_exec 15 n acc c) = Some (Next (sum_exec 22 n (acc + n) c))"
  "dispatch_step sum_env 0 ''i'' (sum_exec 22 n acc c) = Some (Next (sum_exec 29 n acc 1))"
  "dispatch_step sum_env 0 ''i'' (sum_exec 29 n acc c) = Some (Next (sum_exec 36 (n - c) acc c))"
  "dispatch_step sum_env 0 ''i'' (sum_exec 36 n acc c) = Some (Next (sum_exec 0 n acc c))"
  by (simp_all add: sum_defs sum_facts; simp add: sum_regs_def vm_add_i32_def vm_sub_i32_def)+

definition sum_done :: "u32 \<Rightarrow> vm_exec" where
  "sum_done acc = \<lparr>x_state = \<lparr>s_heap = [], s_stack = sample_stack, s_rwdata = [], s_globals = []\<rparr>,
    x_base = 0, x_pc = 43, x_results = [AbiI32 acc]\<rparr>"

lemma sum_return: "dispatch_step sum_env 0 ''i'' (sum_exec 43 n acc c) = Some (Done (sum_done acc) (Status IREE_STATUS_OK))"
proof -
  have leave: "iree_vm_stack_function_leave sample_types [] (sum_stack 48 n acc c) = Some ([], IREE_STATUS_OK, sample_stack)"
    by code_simp
  moreover have "frame_regs 0 (sum_stack 48 n acc c) = Some (sum_regs n acc c)"
    "set_frame_regs 0 (sum_regs n acc c) (sum_stack 48 n acc c) = sum_stack 48 n acc c"
    by (simp_all add: sum_defs)
  moreover have "marshal_results sample_types [] (sum_regs n acc c) [1] 0 ''i'' = Some ([], sum_regs n acc c, [AbiI32 acc])"
    by (simp add: cconv_class_def cconv_types sum_facts) (simp add: sum_regs_def)
  ultimately have "iree_vm_bytecode_external_leave sample_types [] (sum_stack 48 n acc c) [1] ''i''
      = Some (IREE_STATUS_OK, [], sample_stack, [AbiI32 acc])"
    by (simp add: iree_vm_bytecode_external_leave_def)
  moreover have "set_frame_pc 48 (sum_stack 0 n acc c) = sum_stack 48 n acc c" "iree_vm_stack_current_frame (sum_stack 0 n acc c)
      = Some (sample_frame\<lparr>frame_pc := 0, frame_storage := Some \<lparr>return_registers = None, registers = sum_regs n acc c\<rparr>\<rparr>)"
    by (simp_all add: sum_stack_def set_frame_pc_def iree_vm_stack_current_frame_def)
  moreover have "frame_depth sample_frame = 0" by (simp add: sample_frame_def)
  ultimately show ?thesis
    by (simp add: dispatch_step_def control_table_def op_Return_def sum_exec_def sum_env_def sample_dispatch_def sample_env_def
        sum_facts put_state_def sum_done_def)
qed

section \<open>The loop\<close>

lemma sum_iteration:
  "n \<noteq> 0 \<Longrightarrow> dispatch_run sum_env 0 ''i'' 5 (sum_exec 0 n acc c) = Some (Next (sum_exec 0 (n - 1) (acc + n) 1))"
  by (simp add: numeral_eq_Suc sum_step)

lemma sum_loop:
  "dispatch_run sum_env 0 ''i'' (5 * unat n + 2) (sum_exec 0 n acc c)
    = Some (Done (sum_done (acc + of_nat (\<Sum>i \<le> unat n. i))) (Status IREE_STATUS_OK))"
proof (induction "unat n" arbitrary: n acc c)
  case 0
  then have "n = 0" by (simp add: unat_eq_0)
  then show ?case by (simp add: numeral_eq_Suc sum_step sum_return)
next
  case (Suc m)
  have "n \<noteq> 0" using Suc.hyps(2) by auto
  then have n: "n \<noteq> 0" "unat (n - 1) = m" "unat n = Suc m" using Suc.hyps(2) unat_minus_one [of n] by simp_all
  have "n = of_nat (Suc m)" by (simp flip: n(3))
  then have acc: "acc + n + of_nat (\<Sum>i \<le> m. i) = acc + of_nat (\<Sum>i \<le> unat n. i)"
    unfolding n(3) by (simp only: sum.atMost_Suc of_nat_add) (simp add: algebra_simps)
  have "5 * unat n + 2 = 5 + (5 * m + 2)" using n(3) by simp
  then show ?case
    using Suc.hyps(1) [of "n - 1" "acc + n" 1] sum_iteration [OF n(1), of acc c] n(2) acc
    by (simp only: dispatch_run_add [of _ _ _ 5] Option.bind.simps step_result.case)
qed

lemma sum_enter:
  "iree_vm_bytecode_external_enter sample_types None (\<lambda>m. (IREE_STATUS_OK, m)) sum_functions [] sample_stack sample_function ''i'' [AbiI32 n]
    = Some (IREE_STATUS_OK, [], sum_stack 0 n 0 0, [AbiI32 n])"
  by code_simp

end
