(* ===== verification/VM_Invoke.thy ===== *)
theory VM_Invoke
  imports VM_CallProperties VM_ObjectProperties VM_Programs
begin

text \<open>
  Invocation of a function by the host (\<^verbatim>\<open>iree/vm/invocation.c\<close>): the inputs are marshaled from a list of variants to the argument buffer
  of the calling convention, the function runs on a new stack, and its result buffer is marshaled to the list of outputs. The function
  called is a parameter, the \<open>begin_call\<close> of its module; it leaves in the argument buffer what it did not take.
\<close>

section \<open>Inputs\<close>

text \<open>
  The loop over the calling convention. What was marshaled before a failure stays in the buffer.
\<close>

definition with_argument :: "abi_value \<Rightarrow> (vm_heap \<times> iree_status \<times> abi_value list) option \<Rightarrow> (vm_heap \<times> iree_status \<times> abi_value list) option" where
  "with_argument v = map_option (\<lambda>(h, st, vs). (h, st, v # vs))"




section \<open>Outputs\<close>



section \<open>Invocation\<close>




section \<open>Accounting of inputs\<close>

lemma with_argument_simps [simp]: "with_argument v (Some (h, st, vs)) = Some (h, st, v # vs)" "with_argument v None = None"
  by (simp_all add: with_argument_def)





lemma abi_refs_Cons [simp]: "abi_refs (v # vs) = abi_ref v @ abi_refs vs" "abi_refs [] = []"
  by (simp_all add: abi_refs_def)

lemma cconv_neq [simp]:
  "cconv_class IREE_VM_CCONV_TYPE_I32 = Some C32" "cconv_class IREE_VM_CCONV_TYPE_F32 = Some C32"
  "cconv_class IREE_VM_CCONV_TYPE_I64 = Some C64" "cconv_class IREE_VM_CCONV_TYPE_F64 = Some C64"
  "cconv_class IREE_VM_CCONV_TYPE_REF = Some CRef"
  by (simp_all add: cconv_class_def cconv_types)











section \<open>Accounting of outputs\<close>










section \<open>Invocations\<close>












section \<open>Values that come back\<close>















section \<open>Properties\<close>














end
