(* ===== verification/VM_Fold.thy ===== *)
theory VM_Fold
  imports VM_Ops
begin

text \<open>
  Folding of integer operations in the compiler (\<^verbatim>\<open>iree/compiler/Dialect/VM/IR/VMOpFolders.cpp\<close>). An operation
  names its operands by the SSA values that hold them. What the MLIR and LLVM libraries answer about a
  program is a parameter: \<open>apint\<close> holds the methods of \<^verbatim>\<open>llvm::APInt\<close>, \<open>ssa\<close> the matchers, the defining operations
  of values and the constant attributes of operands. The templates that the source instantiates for 32
  and for 64 bits take the width as an argument.
\<close>

unbundle bit_operations_syntax

section \<open>Operations of the dialect\<close>

datatype vm_width = I32 | I64

definition bits :: "vm_width \<Rightarrow> nat" where "bits W = (case W of I32 \<Rightarrow> 32 | I64 \<Rightarrow> 64)"

datatype vm_binary = AddOp | SubOp | MulOp | DivSOp | DivUOp | RemSOp | RemUOp | AndOp | OrOp | XorOp
datatype vm_shift = ShlOp | ShrSOp | ShrUOp
datatype vm_compare = CmpEQOp | CmpNEOp | CmpLTSOp | CmpLTUOp | CmpLTESOp | CmpLTEUOp | CmpGTSOp | CmpGTUOp | CmpGTESOp | CmpGTEUOp
datatype vm_convert = TruncI32I8Op | TruncI32I16Op | TruncI64I8Op | TruncI64I16Op | TruncI64I32Op
  | ExtI8I32SOp | ExtI8I32UOp | ExtI16I32SOp | ExtI16I32UOp | ExtI8I64SOp | ExtI8I64UOp | ExtI16I64SOp | ExtI16I64UOp
  | ExtI32I64SOp | ExtI32I64UOp

datatype vm_op =
    Binary vm_binary vm_width nat nat
  | Shift vm_shift vm_width nat u8
  | NotOp vm_width nat
  | Compare vm_compare vm_width nat nat
  | CmpNZOp vm_width nat
  | Convert vm_convert nat
  | Select vm_width nat nat nat
  | Switch vm_width nat nat "nat list"

section \<open>The libraries\<close>

datatype ap_binop = Ap_add | Ap_sub | Ap_mul | Ap_sdiv | Ap_udiv | Ap_srem | Ap_urem | Ap_and | Ap_or | Ap_xor
datatype ap_cmp = Ap_eq | Ap_ne | Ap_slt | Ap_ult | Ap_sle | Ap_ule | Ap_sgt | Ap_ugt | Ap_sge | Ap_uge

record 'i apint =
  ap_width :: "'i \<Rightarrow> nat"
  ap_value :: "'i \<Rightarrow> int"
  ap_make :: "nat \<Rightarrow> int \<Rightarrow> 'i"
  ap_binary :: "ap_binop \<Rightarrow> 'i \<Rightarrow> 'i \<Rightarrow> 'i"
  ap_compare :: "ap_cmp \<Rightarrow> 'i \<Rightarrow> 'i \<Rightarrow> bool"
  ap_flipAllBits :: "'i \<Rightarrow> 'i"
  ap_shl :: "'i \<Rightarrow> nat \<Rightarrow> 'i"
  ap_ashr :: "'i \<Rightarrow> nat \<Rightarrow> 'i"
  ap_lshr :: "'i \<Rightarrow> nat \<Rightarrow> 'i"
  ap_trunc :: "'i \<Rightarrow> nat \<Rightarrow> 'i"
  ap_zext :: "'i \<Rightarrow> nat \<Rightarrow> 'i"
  ap_sext :: "'i \<Rightarrow> nat \<Rightarrow> 'i"
  ap_getBoolValue :: "'i \<Rightarrow> bool"

datatype mlir_type = IntegerType nat | FloatType nat | ShapedType mlir_type nat | RefType

text \<open>Attributes; floating point and other attributes carry nothing that the integer folders read.\<close>

datatype 'i attr =
    IntegerAttr mlir_type 'i
  | SplatElementsAttr mlir_type "'i attr"
  | ElementsAttr mlir_type "'i attr list"
  | OtherAttr mlir_type

record 'i ssa =
  m_Zero :: "nat \<Rightarrow> bool"
  m_NonZero :: "nat \<Rightarrow> bool"
  m_One :: "nat \<Rightarrow> bool"
  m_ConstantInt :: "nat \<Rightarrow> 'i option"
  getDefiningOp :: "nat \<Rightarrow> vm_op option"
  operand_attr :: "nat \<Rightarrow> 'i attr option"
  getZeroAttr :: "mlir_type \<Rightarrow> 'i attr option"

datatype 'i fold_result = NoFold | FoldValue nat | FoldAttr "'i attr"

definition result_of :: "'i attr option \<Rightarrow> 'i fold_result" where
  "result_of a = (case a of None \<Rightarrow> NoFold | Some a \<Rightarrow> FoldAttr a)"

section \<open>Utilities\<close>

definition zeroOfType :: "'i ssa \<Rightarrow> mlir_type \<Rightarrow> 'i attr option" where
  "zeroOfType m type = getZeroAttr m type"

fun oneOfType :: "'i apint \<Rightarrow> mlir_type \<Rightarrow> 'i attr option" where
  "oneOfType ap (FloatType n) = Some (OtherAttr (FloatType n))"
| "oneOfType ap (IntegerType n) = Some (IntegerAttr (IntegerType n) (ap_make ap n 1))"
| "oneOfType ap (ShapedType elt n) = map_option (SplatElementsAttr (ShapedType elt n)) (oneOfType ap elt)"
| "oneOfType ap RefType = None"

text \<open>
  \<open>get\<close> is \<^verbatim>\<open>IntegerAttr::get\<close> for the type that \<open>calculate\<close> returns: an \<open>APInt\<close>, or a \<open>bool\<close> that becomes an integer of the
  width of the attribute's type.
\<close>

fun type_width :: "mlir_type \<Rightarrow> nat" where
  "type_width (IntegerType n) = n"
| "type_width (FloatType n) = n"
| "type_width (ShapedType elt n) = type_width elt"
| "type_width RefType = 0"

definition get_bool :: "'i apint \<Rightarrow> mlir_type \<Rightarrow> bool \<Rightarrow> 'i attr" where
  "get_bool ap type b = IntegerAttr type (ap_make ap (type_width type) (of_bool b))"

fun elements :: "'i attr \<Rightarrow> 'i attr list option" where
  "elements (SplatElementsAttr (ShapedType elt n) a) = Some (replicate n a)"
| "elements (ElementsAttr type as) = Some as"
| "elements _ = None"

fun attr_type :: "'i attr \<Rightarrow> mlir_type" where
  "attr_type (IntegerAttr type c) = type"
| "attr_type (SplatElementsAttr type a) = type"
| "attr_type (ElementsAttr type as) = type"
| "attr_type (OtherAttr type) = type"

text \<open>The element type of an elements attribute is kept by element-wise folding.\<close>

fun constFoldUnaryOp :: "('i \<Rightarrow> 'i) \<Rightarrow> 'i attr option \<Rightarrow> 'i attr option" where
  "constFoldUnaryOp calculate (Some (IntegerAttr type c)) = Some (IntegerAttr type (calculate c))"
| "constFoldUnaryOp calculate (Some (SplatElementsAttr type a)) =
    map_option (SplatElementsAttr type) (constFoldUnaryOp calculate (Some a))"
| "constFoldUnaryOp calculate (Some (ElementsAttr type as)) =
    Some (ElementsAttr type (map (\<lambda>a. case a of IntegerAttr t c \<Rightarrow> IntegerAttr t (calculate c) | _ \<Rightarrow> a) as))"
| "constFoldUnaryOp calculate _ = None"

fun all_some :: "'b option list \<Rightarrow> 'b list option" where
  "all_some [] = Some []"
| "all_some (None # xs) = None"
| "all_some (Some x # xs) = map_option (Cons x) (all_some xs)"

fun fold_scalars :: "(mlir_type \<Rightarrow> 'r \<Rightarrow> 'i attr) \<Rightarrow> ('i \<Rightarrow> 'i \<Rightarrow> 'r) \<Rightarrow> 'i attr \<Rightarrow> 'i attr \<Rightarrow> 'i attr option" where
  "fold_scalars get calculate (IntegerAttr t a) (IntegerAttr t' b) = (if t \<noteq> t' then None else Some (get t (calculate a b)))"
| "fold_scalars get calculate _ _ = None"

fun constFoldBinaryOp :: "(mlir_type \<Rightarrow> 'r \<Rightarrow> 'i attr) \<Rightarrow> ('i \<Rightarrow> 'i \<Rightarrow> 'r) \<Rightarrow> 'i attr option \<Rightarrow> 'i attr option \<Rightarrow> 'i attr option" where
  "constFoldBinaryOp get calculate (Some (IntegerAttr t a)) rhs =
    (case rhs of Some r \<Rightarrow> fold_scalars get calculate (IntegerAttr t a) r | None \<Rightarrow> None)"
| "constFoldBinaryOp get calculate (Some (SplatElementsAttr t a)) rhs =
    (case rhs of
       Some (SplatElementsAttr t' b) \<Rightarrow>
         if t \<noteq> t' then None else map_option (SplatElementsAttr t) (constFoldBinaryOp get calculate (Some a) (Some b))
     | _ \<Rightarrow> None)"
| "constFoldBinaryOp get calculate (Some (ElementsAttr t as)) rhs =
    (case rhs of
       Some r \<Rightarrow>
         (case elements r of
            Some bs \<Rightarrow>
              if t \<noteq> attr_type r then None
              else map_option (ElementsAttr t) (all_some (map2 (fold_scalars get calculate) as bs))
          | None \<Rightarrow> None)
     | None \<Rightarrow> None)"
| "constFoldBinaryOp get calculate _ rhs = None"

section \<open>Selection\<close>

definition foldSelectOp :: "'i ssa \<Rightarrow> nat \<Rightarrow> nat \<Rightarrow> nat \<Rightarrow> 'i fold_result" where
  "foldSelectOp m condition true_value false_value =
    (if m_Zero m condition then FoldValue false_value
     else if m_NonZero m condition then FoldValue true_value
     else if true_value = false_value then FoldValue true_value
     else NoFold)"

definition foldSwitchOp :: "'i apint \<Rightarrow> 'i ssa \<Rightarrow> nat \<Rightarrow> nat \<Rightarrow> nat list \<Rightarrow> 'i fold_result" where
  "foldSwitchOp ap m index default_value values =
    (case m_ConstantInt m index of
       Some c \<Rightarrow>
         let i = signed_take_bit (ap_width ap c - 1) (ap_value ap c)
         in if i < 0 \<or> int (length values) \<le> i then FoldValue default_value else FoldValue (values ! nat i)
     | None \<Rightarrow> if list_all (\<lambda>v. v = default_value) values then FoldValue default_value else NoFold)"

section \<open>Arithmetic\<close>

definition const_fold :: "'i apint \<Rightarrow> 'i ssa \<Rightarrow> ap_binop \<Rightarrow> nat \<Rightarrow> nat \<Rightarrow> 'i fold_result" where
  "const_fold ap m f lhs rhs =
    result_of (constFoldBinaryOp IntegerAttr (ap_binary ap f) (operand_attr m lhs) (operand_attr m rhs))"

text \<open>The operands of the operation that defines a value, when it is of the given kind.\<close>

definition defined_by :: "'i ssa \<Rightarrow> vm_binary \<Rightarrow> vm_width \<Rightarrow> nat \<Rightarrow> (nat \<times> nat) option" where
  "defined_by m kind W v =
    (case getDefiningOp m v of
       Some (Binary kind' W' a b) \<Rightarrow> if kind' = kind \<and> W' = W then Some (a, b) else None
     | _ \<Rightarrow> None)"

definition foldAddOp :: "'i apint \<Rightarrow> 'i ssa \<Rightarrow> vm_width \<Rightarrow> nat \<Rightarrow> nat \<Rightarrow> 'i fold_result" where
  "foldAddOp ap m W lhs rhs =
    (if m_Zero m rhs then FoldValue lhs
     else case defined_by m SubOp W lhs of
       Some (a, b) \<Rightarrow> if a = rhs then FoldValue b else if b = rhs then FoldValue a else const_fold ap m Ap_add lhs rhs
     | None \<Rightarrow>
         (case defined_by m SubOp W rhs of
            Some (a, b) \<Rightarrow> if a = lhs then FoldValue b else if b = lhs then FoldValue a else const_fold ap m Ap_add lhs rhs
          | None \<Rightarrow> const_fold ap m Ap_add lhs rhs))"

definition foldSubOp :: "'i apint \<Rightarrow> 'i ssa \<Rightarrow> vm_width \<Rightarrow> nat \<Rightarrow> nat \<Rightarrow> 'i fold_result" where
  "foldSubOp ap m W lhs rhs =
    (if m_Zero m rhs then FoldValue lhs
     else case defined_by m AddOp W lhs of
       Some (a, b) \<Rightarrow> if a = rhs then FoldValue b else if b = rhs then FoldValue a else const_fold ap m Ap_sub lhs rhs
     | None \<Rightarrow>
         (case defined_by m AddOp W rhs of
            Some (a, b) \<Rightarrow> if a = lhs then FoldValue b else if b = lhs then FoldValue a else const_fold ap m Ap_sub lhs rhs
          | None \<Rightarrow> const_fold ap m Ap_sub lhs rhs))"

definition zero_result :: "'i ssa \<Rightarrow> vm_width \<Rightarrow> 'i fold_result" where
  "zero_result m W = result_of (zeroOfType m (IntegerType (bits W)))"

definition foldMulOp :: "'i apint \<Rightarrow> 'i ssa \<Rightarrow> vm_width \<Rightarrow> nat \<Rightarrow> nat \<Rightarrow> 'i fold_result" where
  "foldMulOp ap m W lhs rhs =
    (if m_Zero m rhs then zero_result m W
     else if m_One m rhs then FoldValue lhs
     else const_fold ap m Ap_mul lhs rhs)"

definition foldDivSOp :: "'i apint \<Rightarrow> 'i ssa \<Rightarrow> vm_width \<Rightarrow> nat \<Rightarrow> nat \<Rightarrow> 'i fold_result" where
  "foldDivSOp ap m W lhs rhs =
    (if m_Zero m rhs then NoFold
     else if m_Zero m lhs then zero_result m W
     else if m_One m rhs then FoldValue lhs
     else const_fold ap m Ap_sdiv lhs rhs)"

definition foldDivUOp :: "'i apint \<Rightarrow> 'i ssa \<Rightarrow> vm_width \<Rightarrow> nat \<Rightarrow> nat \<Rightarrow> 'i fold_result" where
  "foldDivUOp ap m W lhs rhs =
    (if m_Zero m rhs then NoFold
     else if m_Zero m lhs then zero_result m W
     else if m_One m rhs then FoldValue lhs
     else const_fold ap m Ap_udiv lhs rhs)"

definition foldRemSOp :: "'i apint \<Rightarrow> 'i ssa \<Rightarrow> vm_width \<Rightarrow> nat \<Rightarrow> nat \<Rightarrow> 'i fold_result" where
  "foldRemSOp ap m W lhs rhs =
    (if m_Zero m rhs then NoFold
     else if m_Zero m lhs \<or> m_One m rhs then zero_result m W
     else const_fold ap m Ap_srem lhs rhs)"

definition foldRemUOp :: "'i apint \<Rightarrow> 'i ssa \<Rightarrow> vm_width \<Rightarrow> nat \<Rightarrow> nat \<Rightarrow> 'i fold_result" where
  "foldRemUOp ap m W lhs rhs =
    (if m_Zero m rhs then NoFold
     else if m_Zero m lhs \<or> m_One m rhs then zero_result m W
     else const_fold ap m Ap_urem lhs rhs)"

section \<open>Bit manipulation\<close>

definition foldNotOp :: "'i apint \<Rightarrow> 'i ssa \<Rightarrow> nat \<Rightarrow> 'i fold_result" where
  "foldNotOp ap m operand = result_of (constFoldUnaryOp (ap_flipAllBits ap) (operand_attr m operand))"

definition foldAndOp :: "'i apint \<Rightarrow> 'i ssa \<Rightarrow> vm_width \<Rightarrow> nat \<Rightarrow> nat \<Rightarrow> 'i fold_result" where
  "foldAndOp ap m W lhs rhs =
    (if m_Zero m rhs then zero_result m W
     else if lhs = rhs then FoldValue lhs
     else const_fold ap m Ap_and lhs rhs)"

definition foldOrOp :: "'i apint \<Rightarrow> 'i ssa \<Rightarrow> nat \<Rightarrow> nat \<Rightarrow> 'i fold_result" where
  "foldOrOp ap m lhs rhs =
    (if m_Zero m rhs then FoldValue lhs
     else if lhs = rhs then FoldValue lhs
     else const_fold ap m Ap_or lhs rhs)"

definition foldXorOp :: "'i apint \<Rightarrow> 'i ssa \<Rightarrow> vm_width \<Rightarrow> nat \<Rightarrow> nat \<Rightarrow> 'i fold_result" where
  "foldXorOp ap m W lhs rhs =
    (if m_Zero m rhs then FoldValue lhs
     else if lhs = rhs then zero_result m W
     else const_fold ap m Ap_xor lhs rhs)"

definition foldShlOp :: "'i apint \<Rightarrow> 'i ssa \<Rightarrow> vm_width \<Rightarrow> nat \<Rightarrow> u8 \<Rightarrow> 'i fold_result" where
  "foldShlOp ap m W operand amount =
    (if m_Zero m operand then zero_result m W
     else if amount = 0 then FoldValue operand
     else result_of (constFoldUnaryOp (\<lambda>a. ap_shl ap a (unat amount)) (operand_attr m operand)))"

definition foldShrSOp :: "'i apint \<Rightarrow> 'i ssa \<Rightarrow> vm_width \<Rightarrow> nat \<Rightarrow> u8 \<Rightarrow> 'i fold_result" where
  "foldShrSOp ap m W operand amount =
    (if m_Zero m operand then zero_result m W
     else if amount = 0 then FoldValue operand
     else result_of (constFoldUnaryOp (\<lambda>a. ap_ashr ap a (unat amount)) (operand_attr m operand)))"

definition foldShrUOp :: "'i apint \<Rightarrow> 'i ssa \<Rightarrow> vm_width \<Rightarrow> nat \<Rightarrow> u8 \<Rightarrow> 'i fold_result" where
  "foldShrUOp ap m W operand amount =
    (if m_Zero m operand then zero_result m W
     else if amount = 0 then FoldValue operand
     else result_of (constFoldUnaryOp (\<lambda>a. ap_lshr ap a (unat amount)) (operand_attr m operand)))"

section \<open>Conversions\<close>

fun constFoldConversionOp :: "mlir_type \<Rightarrow> ('i \<Rightarrow> 'i) \<Rightarrow> 'i attr option \<Rightarrow> 'i attr option" where
  "constFoldConversionOp resultType calculate (Some (IntegerAttr t c)) = Some (IntegerAttr resultType (calculate c))"
| "constFoldConversionOp resultType calculate _ = None"

text \<open>The result width and the calculation of the fold of each conversion.\<close>

definition conversion :: "'i apint \<Rightarrow> vm_convert \<Rightarrow> nat \<times> ('i \<Rightarrow> 'i)" where
  "conversion ap kind = (case kind of
     TruncI32I8Op \<Rightarrow> (32, \<lambda>a. ap_zext ap (ap_trunc ap a 8) 32)
   | TruncI32I16Op \<Rightarrow> (32, \<lambda>a. ap_zext ap (ap_trunc ap a 16) 32)
   | TruncI64I8Op \<Rightarrow> (32, \<lambda>a. ap_zext ap (ap_trunc ap a 8) 32)
   | TruncI64I16Op \<Rightarrow> (32, \<lambda>a. ap_zext ap (ap_trunc ap a 16) 32)
   | TruncI64I32Op \<Rightarrow> (32, \<lambda>a. ap_trunc ap a 32)
   | ExtI8I32SOp \<Rightarrow> (32, \<lambda>a. ap_sext ap (ap_trunc ap a 8) 32)
   | ExtI8I32UOp \<Rightarrow> (32, \<lambda>a. ap_zext ap (ap_trunc ap a 8) 32)
   | ExtI16I32SOp \<Rightarrow> (32, \<lambda>a. ap_sext ap (ap_trunc ap a 16) 32)
   | ExtI16I32UOp \<Rightarrow> (32, \<lambda>a. ap_zext ap (ap_trunc ap a 16) 32)
   | ExtI8I64SOp \<Rightarrow> (64, \<lambda>a. ap_sext ap (ap_trunc ap a 8) 64)
   | ExtI8I64UOp \<Rightarrow> (64, \<lambda>a. ap_zext ap (ap_trunc ap a 8) 64)
   | ExtI16I64SOp \<Rightarrow> (64, \<lambda>a. ap_sext ap (ap_trunc ap a 16) 64)
   | ExtI16I64UOp \<Rightarrow> (64, \<lambda>a. ap_zext ap (ap_trunc ap a 16) 64)
   | ExtI32I64SOp \<Rightarrow> (64, \<lambda>a. ap_sext ap a 64)
   | ExtI32I64UOp \<Rightarrow> (64, \<lambda>a. ap_zext ap a 64))"

definition foldConvertOp :: "'i apint \<Rightarrow> 'i ssa \<Rightarrow> vm_convert \<Rightarrow> nat \<Rightarrow> 'i fold_result" where
  "foldConvertOp ap m kind operand =
    (let (width, calculate) = conversion ap kind
     in result_of (constFoldConversionOp (IntegerType width) calculate (operand_attr m operand)))"

text \<open>The pseudo conversions and the two operations that replace each.\<close>

definition PseudoIntegerConversionToSplitConversionOp :: "vm_convert \<Rightarrow> (vm_convert \<times> vm_convert) option" where
  "PseudoIntegerConversionToSplitConversionOp kind = (case kind of
     TruncI64I8Op \<Rightarrow> Some (TruncI64I32Op, TruncI32I8Op)
   | TruncI64I16Op \<Rightarrow> Some (TruncI64I32Op, TruncI32I16Op)
   | ExtI8I64SOp \<Rightarrow> Some (ExtI8I32SOp, ExtI32I64SOp)
   | ExtI8I64UOp \<Rightarrow> Some (ExtI8I32UOp, ExtI32I64UOp)
   | ExtI16I64SOp \<Rightarrow> Some (ExtI16I32SOp, ExtI32I64SOp)
   | ExtI16I64UOp \<Rightarrow> Some (ExtI16I32UOp, ExtI32I64UOp)
   | _ \<Rightarrow> None)"

section \<open>Comparisons\<close>

text \<open>The result type of a comparison is a 32-bit integer; constants fold in the type of the operands.\<close>

definition const_compare :: "'i apint \<Rightarrow> 'i ssa \<Rightarrow> ap_cmp \<Rightarrow> nat \<Rightarrow> nat \<Rightarrow> 'i fold_result" where
  "const_compare ap m f lhs rhs =
    result_of (constFoldBinaryOp (get_bool ap) (ap_compare ap f) (operand_attr m lhs) (operand_attr m rhs))"

definition one_result :: "'i apint \<Rightarrow> 'i fold_result" where
  "one_result ap = result_of (oneOfType ap (IntegerType 32))"

definition foldCmpEQOp :: "'i apint \<Rightarrow> 'i ssa \<Rightarrow> nat \<Rightarrow> nat \<Rightarrow> 'i fold_result" where
  "foldCmpEQOp ap m lhs rhs = (if lhs = rhs then one_result ap else const_compare ap m Ap_eq lhs rhs)"

definition foldCmpNEOp :: "'i apint \<Rightarrow> 'i ssa \<Rightarrow> nat \<Rightarrow> nat \<Rightarrow> 'i fold_result" where
  "foldCmpNEOp ap m lhs rhs = (if lhs = rhs then zero_result m I32 else const_compare ap m Ap_ne lhs rhs)"

definition foldCmpLTSOp :: "'i apint \<Rightarrow> 'i ssa \<Rightarrow> nat \<Rightarrow> nat \<Rightarrow> 'i fold_result" where
  "foldCmpLTSOp ap m lhs rhs = (if lhs = rhs then zero_result m I32 else const_compare ap m Ap_slt lhs rhs)"

definition foldCmpLTUOp :: "'i apint \<Rightarrow> 'i ssa \<Rightarrow> nat \<Rightarrow> nat \<Rightarrow> 'i fold_result" where
  "foldCmpLTUOp ap m lhs rhs = (if lhs = rhs then zero_result m I32 else const_compare ap m Ap_ult lhs rhs)"

definition foldCmpLTESOp :: "'i apint \<Rightarrow> 'i ssa \<Rightarrow> nat \<Rightarrow> nat \<Rightarrow> 'i fold_result" where
  "foldCmpLTESOp ap m lhs rhs = (if lhs = rhs then one_result ap else const_compare ap m Ap_sle lhs rhs)"

definition foldCmpLTEUOp :: "'i apint \<Rightarrow> 'i ssa \<Rightarrow> nat \<Rightarrow> nat \<Rightarrow> 'i fold_result" where
  "foldCmpLTEUOp ap m lhs rhs = (if lhs = rhs then one_result ap else const_compare ap m Ap_ule lhs rhs)"

definition foldCmpGTSOp :: "'i apint \<Rightarrow> 'i ssa \<Rightarrow> nat \<Rightarrow> nat \<Rightarrow> 'i fold_result" where
  "foldCmpGTSOp ap m lhs rhs = (if lhs = rhs then zero_result m I32 else const_compare ap m Ap_sgt lhs rhs)"

definition foldCmpGTUOp :: "'i apint \<Rightarrow> 'i ssa \<Rightarrow> nat \<Rightarrow> nat \<Rightarrow> 'i fold_result" where
  "foldCmpGTUOp ap m lhs rhs = (if lhs = rhs then zero_result m I32 else const_compare ap m Ap_ugt lhs rhs)"

definition foldCmpGTESOp :: "'i apint \<Rightarrow> 'i ssa \<Rightarrow> nat \<Rightarrow> nat \<Rightarrow> 'i fold_result" where
  "foldCmpGTESOp ap m lhs rhs = (if lhs = rhs then one_result ap else const_compare ap m Ap_sge lhs rhs)"

definition foldCmpGTEUOp :: "'i apint \<Rightarrow> 'i ssa \<Rightarrow> nat \<Rightarrow> nat \<Rightarrow> 'i fold_result" where
  "foldCmpGTEUOp ap m lhs rhs = (if lhs = rhs then one_result ap else const_compare ap m Ap_uge lhs rhs)"

definition foldCmpNZOp :: "'i apint \<Rightarrow> 'i ssa \<Rightarrow> vm_width \<Rightarrow> nat \<Rightarrow> 'i fold_result" where
  "foldCmpNZOp ap m W operand =
    result_of (constFoldUnaryOp (\<lambda>a. ap_make ap (bits W) (of_bool (ap_getBoolValue ap a))) (operand_attr m operand))"

section \<open>The fold of an operation\<close>

definition vm_fold :: "'i apint \<Rightarrow> 'i ssa \<Rightarrow> vm_op \<Rightarrow> 'i fold_result" where
  "vm_fold ap m op = (case op of
     Binary kind W lhs rhs \<Rightarrow> (case kind of
         AddOp \<Rightarrow> foldAddOp ap m W lhs rhs | SubOp \<Rightarrow> foldSubOp ap m W lhs rhs | MulOp \<Rightarrow> foldMulOp ap m W lhs rhs
       | DivSOp \<Rightarrow> foldDivSOp ap m W lhs rhs | DivUOp \<Rightarrow> foldDivUOp ap m W lhs rhs
       | RemSOp \<Rightarrow> foldRemSOp ap m W lhs rhs | RemUOp \<Rightarrow> foldRemUOp ap m W lhs rhs
       | AndOp \<Rightarrow> foldAndOp ap m W lhs rhs | OrOp \<Rightarrow> foldOrOp ap m lhs rhs | XorOp \<Rightarrow> foldXorOp ap m W lhs rhs)
   | Shift kind W operand amount \<Rightarrow> (case kind of
         ShlOp \<Rightarrow> foldShlOp ap m W operand amount | ShrSOp \<Rightarrow> foldShrSOp ap m W operand amount
       | ShrUOp \<Rightarrow> foldShrUOp ap m W operand amount)
   | NotOp W operand \<Rightarrow> foldNotOp ap m operand
   | Compare kind W lhs rhs \<Rightarrow> (case kind of
         CmpEQOp \<Rightarrow> foldCmpEQOp ap m lhs rhs | CmpNEOp \<Rightarrow> foldCmpNEOp ap m lhs rhs
       | CmpLTSOp \<Rightarrow> foldCmpLTSOp ap m lhs rhs | CmpLTUOp \<Rightarrow> foldCmpLTUOp ap m lhs rhs
       | CmpLTESOp \<Rightarrow> foldCmpLTESOp ap m lhs rhs | CmpLTEUOp \<Rightarrow> foldCmpLTEUOp ap m lhs rhs
       | CmpGTSOp \<Rightarrow> foldCmpGTSOp ap m lhs rhs | CmpGTUOp \<Rightarrow> foldCmpGTUOp ap m lhs rhs
       | CmpGTESOp \<Rightarrow> foldCmpGTESOp ap m lhs rhs | CmpGTEUOp \<Rightarrow> foldCmpGTEUOp ap m lhs rhs)
   | CmpNZOp W operand \<Rightarrow> foldCmpNZOp ap m W operand
   | Convert kind operand \<Rightarrow> foldConvertOp ap m kind operand
   | Select W condition true_value false_value \<Rightarrow> foldSelectOp m condition true_value false_value
   | Switch W index default_value values \<Rightarrow> foldSwitchOp ap m index default_value values)"

section \<open>Rewrites\<close>

text \<open>What a pattern puts in the place of an operation: operations over values and constants.\<close>

datatype vm_expr =
    Val nat
  | ConstI32 u32
  | BinaryE vm_binary vm_width vm_expr vm_expr
  | CompareE vm_compare vm_width vm_expr vm_expr
  | CmpNZE vm_width vm_expr
  | ConvertE vm_convert vm_expr

definition RewritePseudoCmpLTEToLT :: "vm_compare \<Rightarrow> vm_width \<Rightarrow> nat \<Rightarrow> nat \<Rightarrow> vm_expr" where
  "RewritePseudoCmpLTEToLT lt W lhs rhs = BinaryE XorOp I32 (CompareE lt W (Val rhs) (Val lhs)) (ConstI32 1)"

definition RewritePseudoCmpGTToLT :: "vm_compare \<Rightarrow> vm_width \<Rightarrow> nat \<Rightarrow> nat \<Rightarrow> vm_expr" where
  "RewritePseudoCmpGTToLT lt W lhs rhs = CompareE lt W (Val rhs) (Val lhs)"

definition RewritePseudoCmpGTEToLT :: "vm_compare \<Rightarrow> vm_width \<Rightarrow> nat \<Rightarrow> nat \<Rightarrow> vm_expr" where
  "RewritePseudoCmpGTEToLT lt W lhs rhs = BinaryE XorOp I32 (CompareE lt W (Val lhs) (Val rhs)) (ConstI32 1)"

definition CmpNEZeroToCmpNZ :: "'i ssa \<Rightarrow> vm_width \<Rightarrow> nat \<Rightarrow> nat \<Rightarrow> vm_expr option" where
  "CmpNEZeroToCmpNZ m W lhs rhs = (if m_Zero m rhs then Some (CmpNZE W (Val lhs)) else None)"

text \<open>The instructions that replace an operation that the virtual machine does not have.\<close>

definition pseudo_op :: "vm_op \<Rightarrow> vm_expr option" where
  "pseudo_op op = (case op of
     Compare CmpLTESOp W lhs rhs \<Rightarrow> Some (RewritePseudoCmpLTEToLT CmpLTSOp W lhs rhs)
   | Compare CmpLTEUOp W lhs rhs \<Rightarrow> Some (RewritePseudoCmpLTEToLT CmpLTUOp W lhs rhs)
   | Compare CmpGTSOp W lhs rhs \<Rightarrow> Some (RewritePseudoCmpGTToLT CmpLTSOp W lhs rhs)
   | Compare CmpGTUOp W lhs rhs \<Rightarrow> Some (RewritePseudoCmpGTToLT CmpLTUOp W lhs rhs)
   | Compare CmpGTESOp W lhs rhs \<Rightarrow> Some (RewritePseudoCmpGTEToLT CmpLTSOp W lhs rhs)
   | Compare CmpGTEUOp W lhs rhs \<Rightarrow> Some (RewritePseudoCmpGTEToLT CmpLTUOp W lhs rhs)
   | Convert kind operand \<Rightarrow>
       map_option (\<lambda>(a, b). ConvertE b (ConvertE a (Val operand))) (PseudoIntegerConversionToSplitConversionOp kind)
   | _ \<Rightarrow> None)"

text \<open>
  \<open>SwapInvertedCmpOps\<close> is registered for these pairs. The comparison whose one use is the exclusive or with the
  constant 1 and that exclusive or are both replaced by the inverse comparison.
\<close>

definition inverse_compare :: "vm_compare \<Rightarrow> vm_compare option" where
  "inverse_compare kind = (case kind of
     CmpEQOp \<Rightarrow> Some CmpNEOp | CmpNEOp \<Rightarrow> Some CmpEQOp
   | CmpLTESOp \<Rightarrow> Some CmpGTSOp | CmpLTEUOp \<Rightarrow> Some CmpGTUOp
   | CmpGTSOp \<Rightarrow> Some CmpLTESOp | CmpGTUOp \<Rightarrow> Some CmpLTEUOp
   | CmpGTESOp \<Rightarrow> Some CmpLTSOp | CmpGTEUOp \<Rightarrow> Some CmpLTUOp
   | _ \<Rightarrow> None)"

definition is_xor_one :: "'i apint \<Rightarrow> 'i ssa \<Rightarrow> nat \<Rightarrow> nat \<Rightarrow> bool" where
  "is_xor_one ap m result user =
    (case getDefiningOp m user of
       Some (Binary XorOp I32 a b) \<Rightarrow> a = result \<and>
         (case operand_attr m b of
            Some (IntegerAttr t c) \<Rightarrow> signed_take_bit (ap_width ap c - 1) (ap_value ap c) = 1
          | _ \<Rightarrow> False)
     | _ \<Rightarrow> False)"

definition SwapInvertedCmpOps :: "'i apint \<Rightarrow> 'i ssa \<Rightarrow> nat list \<Rightarrow> nat \<Rightarrow> vm_op \<Rightarrow> vm_op option" where
  "SwapInvertedCmpOps ap m users result op =
    (case op of
       Compare kind W lhs rhs \<Rightarrow>
         (case inverse_compare kind of
            Some inverted \<Rightarrow>
              if length users = 1 \<and> is_xor_one ap m result (hd users) then Some (Compare inverted W lhs rhs) else None
          | None \<Rightarrow> None)
     | _ \<Rightarrow> None)"

text \<open>\<open>mul(mul(x, c2), c1)\<close> becomes \<open>mul(x, c1 * c2)\<close>: the kept operand and the constant.\<close>

definition FoldConstantMulOperand :: "'i apint \<Rightarrow> 'i ssa \<Rightarrow> vm_width \<Rightarrow> nat \<Rightarrow> nat \<Rightarrow> (nat \<times> 'i attr option) option" where
  "FoldConstantMulOperand ap m W lhs rhs =
    (case operand_attr m rhs of
       Some (IntegerAttr t c1) \<Rightarrow>
         (case defined_by m MulOp W lhs of
            Some (x, y) \<Rightarrow>
              (case operand_attr m y of
                 Some (IntegerAttr t' c2) \<Rightarrow>
                   Some (x, constFoldBinaryOp IntegerAttr (ap_binary ap Ap_mul) (Some (IntegerAttr t c1)) (Some (IntegerAttr t' c2)))
               | _ \<Rightarrow> None)
          | None \<Rightarrow> None)
     | _ \<Rightarrow> None)"

end
