(* ===== verification/VM_FoldSound.thy ===== *)
theory VM_FoldSound
  imports VM_Fold
begin

text \<open>
  What folding has to agree with: the instructions of the virtual machine. A run gives every SSA value an
  integer; an operation is executed by the functions of \<^verbatim>\<open>iree/vm/ops.h\<close>. The laws say what the MLIR and LLVM
  libraries document of the parameters.
\<close>

unbundle bit_operations_syntax

section \<open>Execution\<close>

definition run_binary_i32 :: "vm_binary \<Rightarrow> u32 \<Rightarrow> u32 \<Rightarrow> u32 option" where
  "run_binary_i32 kind l r = (case kind of
     AddOp \<Rightarrow> Some (vm_add_i32 l r) | SubOp \<Rightarrow> Some (vm_sub_i32 l r) | MulOp \<Rightarrow> Some (vm_mul_i32 l r)
   | DivSOp \<Rightarrow> vm_div_i32s l r | DivUOp \<Rightarrow> vm_div_i32u l r | RemSOp \<Rightarrow> vm_rem_i32s l r | RemUOp \<Rightarrow> vm_rem_i32u l r
   | AndOp \<Rightarrow> Some (vm_and_i32 l r) | OrOp \<Rightarrow> Some (vm_or_i32 l r) | XorOp \<Rightarrow> Some (vm_xor_i32 l r))"

definition run_binary_i64 :: "vm_binary \<Rightarrow> u64 \<Rightarrow> u64 \<Rightarrow> u64 option" where
  "run_binary_i64 kind l r = (case kind of
     AddOp \<Rightarrow> Some (vm_add_i64 l r) | SubOp \<Rightarrow> Some (vm_sub_i64 l r) | MulOp \<Rightarrow> Some (vm_mul_i64 l r)
   | DivSOp \<Rightarrow> vm_div_i64s l r | DivUOp \<Rightarrow> vm_div_i64u l r | RemSOp \<Rightarrow> vm_rem_i64s l r | RemUOp \<Rightarrow> vm_rem_i64u l r
   | AndOp \<Rightarrow> Some (vm_and_i64 l r) | OrOp \<Rightarrow> Some (vm_or_i64 l r) | XorOp \<Rightarrow> Some (vm_xor_i64 l r))"

definition run_binary :: "vm_binary \<Rightarrow> vm_width \<Rightarrow> int \<Rightarrow> int \<Rightarrow> int option" where
  "run_binary kind W l r = (case W of
     I32 \<Rightarrow> map_option uint (run_binary_i32 kind (of_int l) (of_int r))
   | I64 \<Rightarrow> map_option uint (run_binary_i64 kind (of_int l) (of_int r)))"

definition run_shift :: "vm_shift \<Rightarrow> vm_width \<Rightarrow> int \<Rightarrow> u8 \<Rightarrow> int option" where
  "run_shift kind W x amount = (case W of
     I32 \<Rightarrow> map_option uint (case kind of ShlOp \<Rightarrow> vm_shl_i32 (of_int x) amount | ShrSOp \<Rightarrow> vm_shr_i32s (of_int x) amount
       | ShrUOp \<Rightarrow> vm_shr_i32u (of_int x) amount)
   | I64 \<Rightarrow> map_option uint (case kind of ShlOp \<Rightarrow> vm_shl_i64 (of_int x) amount | ShrSOp \<Rightarrow> vm_shr_i64s (of_int x) amount
       | ShrUOp \<Rightarrow> vm_shr_i64u (of_int x) amount))"

definition run_compare :: "vm_compare \<Rightarrow> vm_width \<Rightarrow> int \<Rightarrow> int \<Rightarrow> int option" where
  "run_compare kind W l r = map_option uint (case W of
     I32 \<Rightarrow> (case kind of CmpEQOp \<Rightarrow> Some (vm_cmp_eq_i32 (of_int l) (of_int r)) | CmpNEOp \<Rightarrow> Some (vm_cmp_ne_i32 (of_int l) (of_int r))
       | CmpLTSOp \<Rightarrow> Some (vm_cmp_lt_i32s (of_int l) (of_int r)) | CmpLTUOp \<Rightarrow> Some (vm_cmp_lt_i32u (of_int l) (of_int r)) | _ \<Rightarrow> None)
   | I64 \<Rightarrow> (case kind of CmpEQOp \<Rightarrow> Some (vm_cmp_eq_i64 (of_int l) (of_int r)) | CmpNEOp \<Rightarrow> Some (vm_cmp_ne_i64 (of_int l) (of_int r))
       | CmpLTSOp \<Rightarrow> Some (vm_cmp_lt_i64s (of_int l) (of_int r)) | CmpLTUOp \<Rightarrow> Some (vm_cmp_lt_i64u (of_int l) (of_int r)) | _ \<Rightarrow> None))"

definition run_nz :: "vm_width \<Rightarrow> int \<Rightarrow> int" where
  "run_nz W x = uint (case W of I32 \<Rightarrow> vm_cmp_nz_i32 (of_int x) | I64 \<Rightarrow> vm_cmp_nz_i64 (of_int x))"

definition run_not :: "vm_width \<Rightarrow> int \<Rightarrow> int" where
  "run_not W x = (case W of I32 \<Rightarrow> uint (vm_not_i32 (of_int x)) | I64 \<Rightarrow> uint (vm_not_i64 (of_int x)))"

definition run_convert :: "vm_convert \<Rightarrow> int \<Rightarrow> int option" where
  "run_convert kind x = (case kind of
     TruncI32I8Op \<Rightarrow> Some (uint (vm_trunc_i32i8 (of_int x))) | TruncI32I16Op \<Rightarrow> Some (uint (vm_trunc_i32i16 (of_int x)))
   | TruncI64I32Op \<Rightarrow> Some (uint (vm_trunc_i64i32 (of_int x)))
   | ExtI8I32SOp \<Rightarrow> Some (uint (vm_ext_i8i32s (of_int x))) | ExtI8I32UOp \<Rightarrow> Some (uint (vm_ext_i8i32u (of_int x)))
   | ExtI16I32SOp \<Rightarrow> Some (uint (vm_ext_i16i32s (of_int x))) | ExtI16I32UOp \<Rightarrow> Some (uint (vm_ext_i16i32u (of_int x)))
   | ExtI32I64SOp \<Rightarrow> Some (uint (vm_ext_i32i64s (of_int x))) | ExtI32I64UOp \<Rightarrow> Some (uint (vm_ext_i32i64u (of_int x)))
   | _ \<Rightarrow> None)"

definition run_select :: "vm_width \<Rightarrow> int \<Rightarrow> int \<Rightarrow> int \<Rightarrow> int" where
  "run_select W c t f = (case W of
     I32 \<Rightarrow> uint (vm_select_i32 (of_int c) (of_int t) (of_int f)) | I64 \<Rightarrow> uint (vm_select_i64 (of_int c) (of_int t) (of_int f)))"

text \<open>The switch instructions read the value at an index in range, and else the default.\<close>

definition run_switch :: "int \<Rightarrow> int \<Rightarrow> int list \<Rightarrow> int" where
  "run_switch i d vs = (let i = sint (of_int i :: u32) in if 0 \<le> i \<and> i < int (length vs) then vs ! nat i else d)"

primrec eval :: "(nat \<Rightarrow> int) \<Rightarrow> vm_expr \<Rightarrow> int option" where
  "eval \<rho> (Val v) = Some (\<rho> v)"
| "eval \<rho> (ConstI32 c) = Some (uint c)"
| "eval \<rho> (BinaryE kind W a b) = do { x \<leftarrow> eval \<rho> a; y \<leftarrow> eval \<rho> b; run_binary kind W x y }"
| "eval \<rho> (CompareE kind W a b) = do { x \<leftarrow> eval \<rho> a; y \<leftarrow> eval \<rho> b; run_compare kind W x y }"
| "eval \<rho> (CmpNZE W a) = do { x \<leftarrow> eval \<rho> a; Some (run_nz W x) }"
| "eval \<rho> (ConvertE kind a) = do { x \<leftarrow> eval \<rho> a; run_convert kind x }"

text \<open>A pseudo operation is executed as the instructions that replace it.\<close>

definition run_op :: "(nat \<Rightarrow> int) \<Rightarrow> vm_op \<Rightarrow> int option" where
  "run_op \<rho> op = (case pseudo_op op of
     Some e \<Rightarrow> eval \<rho> e
   | None \<Rightarrow> (case op of
       Binary kind W l r \<Rightarrow> run_binary kind W (\<rho> l) (\<rho> r)
     | Shift kind W x amount \<Rightarrow> run_shift kind W (\<rho> x) amount
     | NotOp W x \<Rightarrow> Some (run_not W (\<rho> x))
     | Compare kind W l r \<Rightarrow> run_compare kind W (\<rho> l) (\<rho> r)
     | CmpNZOp W x \<Rightarrow> Some (run_nz W (\<rho> x))
     | Convert kind x \<Rightarrow> run_convert kind (\<rho> x)
     | Select W c t f \<Rightarrow> Some (run_select W (\<rho> c) (\<rho> t) (\<rho> f))
     | Switch W i d vs \<Rightarrow> Some (run_switch (\<rho> i) (\<rho> d) (map \<rho> vs))))"

section \<open>Laws of the libraries\<close>

definition ap_signed :: "nat \<Rightarrow> int \<Rightarrow> int" where "ap_signed n x = signed_take_bit (n - 1) x"

definition ap_meaning :: "ap_binop \<Rightarrow> nat \<Rightarrow> int \<Rightarrow> int \<Rightarrow> int" where
  "ap_meaning f n x y = (case f of
     Ap_add \<Rightarrow> x + y | Ap_sub \<Rightarrow> x - y | Ap_mul \<Rightarrow> x * y
   | Ap_sdiv \<Rightarrow> c_div (ap_signed n x) (ap_signed n y) | Ap_udiv \<Rightarrow> x div y
   | Ap_srem \<Rightarrow> c_rem (ap_signed n x) (ap_signed n y) | Ap_urem \<Rightarrow> x mod y
   | Ap_and \<Rightarrow> x AND y | Ap_or \<Rightarrow> x OR y | Ap_xor \<Rightarrow> x XOR y)"

definition ap_holds :: "ap_cmp \<Rightarrow> nat \<Rightarrow> int \<Rightarrow> int \<Rightarrow> bool" where
  "ap_holds f n x y = (case f of
     Ap_eq \<Rightarrow> x = y | Ap_ne \<Rightarrow> x \<noteq> y | Ap_ult \<Rightarrow> x < y | Ap_ule \<Rightarrow> x \<le> y | Ap_ugt \<Rightarrow> y < x | Ap_uge \<Rightarrow> y \<le> x
   | Ap_slt \<Rightarrow> ap_signed n x < ap_signed n y | Ap_sle \<Rightarrow> ap_signed n x \<le> ap_signed n y
   | Ap_sgt \<Rightarrow> ap_signed n y < ap_signed n x | Ap_sge \<Rightarrow> ap_signed n y \<le> ap_signed n x)"

text \<open>\<open>represents ap n x c\<close>: the integer \<open>c\<close> has width \<open>n\<close> and the unsigned value \<open>x\<close>.\<close>

definition represents :: "'i apint \<Rightarrow> nat \<Rightarrow> int \<Rightarrow> 'i \<Rightarrow> bool" where
  "represents ap n x c \<longleftrightarrow> ap_width ap c = n \<and> ap_value ap c = x"

definition apint_laws :: "'i apint \<Rightarrow> bool" where
  "apint_laws ap \<longleftrightarrow>
     (\<forall>n x. represents ap n (take_bit n x) (ap_make ap n x))
   \<and> (\<forall>f n x y a b. represents ap n x a \<longrightarrow> represents ap n y b \<longrightarrow> (f \<in> {Ap_sdiv, Ap_udiv, Ap_srem, Ap_urem} \<longrightarrow> y \<noteq> 0) \<longrightarrow>
        represents ap n (take_bit n (ap_meaning f n x y)) (ap_binary ap f a b))
   \<and> (\<forall>f n x y a b. represents ap n x a \<longrightarrow> represents ap n y b \<longrightarrow> ap_compare ap f a b = ap_holds f n x y)
   \<and> (\<forall>n x a. represents ap n x a \<longrightarrow> represents ap n (take_bit n (NOT x)) (ap_flipAllBits ap a))
   \<and> (\<forall>n x a k. represents ap n x a \<longrightarrow> k < n \<longrightarrow> represents ap n (take_bit n (push_bit k x)) (ap_shl ap a k)
        \<and> represents ap n (take_bit n (drop_bit k (ap_signed n x))) (ap_ashr ap a k) \<and> represents ap n (drop_bit k x) (ap_lshr ap a k))
   \<and> (\<forall>n x a k. represents ap n x a \<longrightarrow> k < n \<longrightarrow> represents ap k (take_bit k x) (ap_trunc ap a k))
   \<and> (\<forall>n x a k. represents ap n x a \<longrightarrow> n < k \<longrightarrow> represents ap k x (ap_zext ap a k)
        \<and> represents ap k (take_bit k (ap_signed n x)) (ap_sext ap a k))
   \<and> (\<forall>n x a. represents ap n x a \<longrightarrow> ap_getBoolValue ap a = (x \<noteq> 0))"

text \<open>The types of the operands of an operation.\<close>

definition convert_from :: "vm_convert \<Rightarrow> vm_width" where
  "convert_from kind = (if kind \<in> {TruncI64I8Op, TruncI64I16Op, TruncI64I32Op} then I64 else I32)"

definition op_typed :: "(nat \<Rightarrow> vm_width) \<Rightarrow> vm_op \<Rightarrow> bool" where
  "op_typed ty op = (case op of
     Binary kind W l r \<Rightarrow> ty l = W \<and> ty r = W
   | Shift kind W x amount \<Rightarrow> ty x = W
   | NotOp W x \<Rightarrow> ty x = W
   | Compare kind W l r \<Rightarrow> ty l = W \<and> ty r = W
   | CmpNZOp W x \<Rightarrow> ty x = W
   | Convert kind x \<Rightarrow> ty x = convert_from kind
   | Select W c t f \<Rightarrow> ty c = I32 \<and> ty t = W \<and> ty f = W
   | Switch W i d vs \<Rightarrow> ty i = I32)"

text \<open>
  \<open>ssa_laws ap m ty \<rho>\<close>: in a run that gives the values \<open>\<rho>\<close>, a value that a matcher calls zero, one or not zero is so, a
  constant attribute represents the value, and a value with a defining operation is what its execution
  gives. \<open>ty\<close> is the type of a value.
\<close>

definition ssa_laws :: "'i apint \<Rightarrow> 'i ssa \<Rightarrow> (nat \<Rightarrow> vm_width) \<Rightarrow> (nat \<Rightarrow> int) \<Rightarrow> bool" where
  "ssa_laws ap m ty \<rho> \<longleftrightarrow>
     (\<forall>v. 0 \<le> \<rho> v \<and> \<rho> v < 2 ^ bits (ty v))
   \<and> (\<forall>v. m_Zero m v \<longrightarrow> \<rho> v = 0) \<and> (\<forall>v. m_NonZero m v \<longrightarrow> \<rho> v \<noteq> 0) \<and> (\<forall>v. m_One m v \<longrightarrow> \<rho> v = 1)
   \<and> (\<forall>v c. m_ConstantInt m v = Some c \<longrightarrow> represents ap (bits (ty v)) (\<rho> v) c)
   \<and> (\<forall>v a. operand_attr m v = Some a \<longrightarrow> (\<exists>c. a = IntegerAttr (IntegerType (bits (ty v))) c \<and> represents ap (bits (ty v)) (\<rho> v) c))
   \<and> (\<forall>v op. getDefiningOp m v = Some op \<longrightarrow> op_typed ty op \<and> run_op \<rho> op = Some (\<rho> v))
   \<and> (\<forall>n. \<exists>c. getZeroAttr m (IntegerType n) = Some (IntegerAttr (IntegerType n) c) \<and> represents ap n 0 c)"

text \<open>A fold agrees with the value \<open>x\<close>: it names a value that is \<open>x\<close> or a constant that is \<open>x\<close>.\<close>

definition fold_agrees :: "'i apint \<Rightarrow> (nat \<Rightarrow> int) \<Rightarrow> int \<Rightarrow> 'i fold_result \<Rightarrow> bool" where
  "fold_agrees ap \<rho> x res = (case res of
     NoFold \<Rightarrow> True | FoldValue v \<Rightarrow> \<rho> v = x
   | FoldAttr a \<Rightarrow> (case a of IntegerAttr t c \<Rightarrow> ap_value ap c = x | _ \<Rightarrow> False))"

section \<open>The instructions on integers\<close>

definition ap_of :: "vm_binary \<Rightarrow> ap_binop" where
  "ap_of kind = (case kind of AddOp \<Rightarrow> Ap_add | SubOp \<Rightarrow> Ap_sub | MulOp \<Rightarrow> Ap_mul | DivSOp \<Rightarrow> Ap_sdiv | DivUOp \<Rightarrow> Ap_udiv
   | RemSOp \<Rightarrow> Ap_srem | RemUOp \<Rightarrow> Ap_urem | AndOp \<Rightarrow> Ap_and | OrOp \<Rightarrow> Ap_or | XorOp \<Rightarrow> Ap_xor)"

lemma in_range: "0 \<le> x \<Longrightarrow> x < 2 ^ n \<Longrightarrow> take_bit n x = (x :: int)"
  by (simp add: take_bit_int_eq_self)

lemma of_int_zero_iff:
  assumes "0 \<le> y" "y < 2 ^ LENGTH('a)"
  shows "(of_int y :: 'a::len word) = 0 \<longleftrightarrow> y = 0"
proof -
  have "uint (of_int y :: 'a word) = y" using in_range [OF assms] assms by (simp add: unsigned_of_int)
  then show ?thesis by (metis of_int_0 unsigned_0)
qed

lemma div_in_range:
  fixes x y :: int
  assumes "0 \<le> x" "x < 2 ^ n" "0 \<le> y"
  shows "take_bit n (x div y) = x div y" "take_bit n (x mod y) = x mod y"
proof -
  have "x div y \<le> x" using assms zdiv_mono2 [of x 1 y] by (cases "y = 0") simp_all
  moreover have "0 \<le> x div y" using assms by (cases "y = 0") (simp_all add: pos_imp_zdiv_nonneg_iff)
  ultimately show "take_bit n (x div y) = x div y" using assms by (intro in_range) auto
  have "x mod y \<le> x" "0 \<le> x mod y" using assms by (auto simp: zmod_le_nonneg_dividend) (cases "y = 0"; simp)
  then show "take_bit n (x mod y) = x mod y" using assms by (intro in_range) auto
qed

lemma sint_of_int: "sint (of_int x :: 'a::len word) = ap_signed LENGTH('a) x"
  by (simp add: signed_of_int ap_signed_def)

lemma word_operators:
  fixes x y :: int
  assumes "0 \<le> x" "x < 2 ^ LENGTH('a)" "0 \<le> y" "y < 2 ^ LENGTH('a)"
  shows "uint (of_int x + of_int y :: 'a::len word) = take_bit LENGTH('a) (x + y)"
    "uint (of_int x - of_int y :: 'a word) = take_bit LENGTH('a) (x - y)"
    "uint (of_int x * of_int y :: 'a word) = take_bit LENGTH('a) (x * y)"
    "uint (of_int x AND of_int y :: 'a word) = take_bit LENGTH('a) (x AND y)"
    "uint (of_int x OR of_int y :: 'a word) = take_bit LENGTH('a) (x OR y)"
    "uint (of_int x XOR of_int y :: 'a word) = take_bit LENGTH('a) (x XOR y)"
    "uint (of_int x div of_int y :: 'a word) = take_bit LENGTH('a) (x div y)"
    "uint (of_int x mod of_int y :: 'a word) = take_bit LENGTH('a) (x mod y)"
  using assms
  by (simp_all add: unsigned_of_int in_range div_in_range uint_div uint_mod unsigned_and_eq unsigned_or_eq unsigned_xor_eq
     flip: of_int_add of_int_diff of_int_mult)

text \<open>When an instruction is not defined: division by zero and the overflow of the signed quotient.\<close>

definition division_ok :: "vm_binary \<Rightarrow> vm_width \<Rightarrow> int \<Rightarrow> int \<Rightarrow> bool" where
  "division_ok kind W x y \<longleftrightarrow> (kind \<in> {DivSOp, DivUOp, RemSOp, RemUOp} \<longrightarrow> y \<noteq> 0)
    \<and> (kind \<in> {DivSOp, RemSOp} \<longrightarrow> \<not> (ap_signed (bits W) x = - (2 ^ (bits W - 1)) \<and> ap_signed (bits W) y = - 1))"

lemma bits_simps [simp]: "bits I32 = 32" "bits I64 = 64"
  by (simp_all add: bits_def)

lemma run_binary_eq:
  assumes "0 \<le> x" "x < 2 ^ bits W" "0 \<le> y" "y < 2 ^ bits W"
  shows "run_binary kind W x y = (if division_ok kind W x y then Some (take_bit (bits W) (ap_meaning (ap_of kind) (bits W) x y)) else None)"
proof (cases W)
  case I32
  then have a: "0 \<le> x" "x < 2 ^ LENGTH(32)" "0 \<le> y" "y < 2 ^ LENGTH(32)" using assms by simp_all
  note w = word_operators [where 'a = 32, OF a, simplified]
  have z: "(of_int y :: u32) = 0 \<longleftrightarrow> y = 0" using of_int_zero_iff [where 'a = 32, OF a(3,4)] .
  show ?thesis unfolding I32
    by (cases kind) (simp_all add: run_binary_def run_binary_i32_def ap_of_def ap_meaning_def division_ok_def w z sint_of_int unsigned_of_int
        vm_add_i32_def vm_sub_i32_def vm_mul_i32_def vm_div_i32s_def vm_div_i32u_def vm_rem_i32s_def vm_rem_i32u_def vm_and_i32_def vm_or_i32_def vm_xor_i32_def)
next
  case I64
  then have a: "0 \<le> x" "x < 2 ^ LENGTH(64)" "0 \<le> y" "y < 2 ^ LENGTH(64)" using assms by simp_all
  note w = word_operators [where 'a = 64, OF a, simplified]
  have z: "(of_int y :: u64) = 0 \<longleftrightarrow> y = 0" using of_int_zero_iff [where 'a = 64, OF a(3,4)] .
  show ?thesis unfolding I64
    by (cases kind) (simp_all add: run_binary_def run_binary_i64_def ap_of_def ap_meaning_def division_ok_def w z sint_of_int unsigned_of_int
        vm_add_i64_def vm_sub_i64_def vm_mul_i64_def vm_div_i64s_def vm_div_i64u_def vm_rem_i64s_def vm_rem_i64u_def vm_and_i64_def vm_or_i64_def vm_xor_i64_def)
qed

definition ap_cmp_of :: "vm_compare \<Rightarrow> ap_cmp" where
  "ap_cmp_of kind = (case kind of CmpEQOp \<Rightarrow> Ap_eq | CmpNEOp \<Rightarrow> Ap_ne | CmpLTSOp \<Rightarrow> Ap_slt | CmpLTUOp \<Rightarrow> Ap_ult
   | CmpLTESOp \<Rightarrow> Ap_sle | CmpLTEUOp \<Rightarrow> Ap_ule | CmpGTSOp \<Rightarrow> Ap_sgt | CmpGTUOp \<Rightarrow> Ap_ugt | CmpGTESOp \<Rightarrow> Ap_sge | CmpGTEUOp \<Rightarrow> Ap_uge)"

lemma uint_bool_i32: "uint (bool_i32 b) = of_bool b"
  by (simp add: bool_i32_def)

lemma of_int_eq_iff_range:
  assumes "0 \<le> x" "x < 2 ^ LENGTH('a)" "0 \<le> y" "y < 2 ^ LENGTH('a)"
  shows "(of_int x :: 'a::len word) = of_int y \<longleftrightarrow> x = y" "(of_int x :: 'a word) < of_int y \<longleftrightarrow> x < y"
proof -
  have "uint (of_int x :: 'a word) = x" "uint (of_int y :: 'a word) = y" using assms by (simp_all add: unsigned_of_int in_range)
  then show "(of_int x :: 'a::len word) = of_int y \<longleftrightarrow> x = y" "(of_int x :: 'a word) < of_int y \<longleftrightarrow> x < y"
    by (metis, simp add: word_less_def)
qed

lemma run_compare_eq:
  assumes "0 \<le> x" "x < 2 ^ bits W" "0 \<le> y" "y < 2 ^ bits W" "kind \<in> {CmpEQOp, CmpNEOp, CmpLTSOp, CmpLTUOp}"
  shows "run_compare kind W x y = Some (of_bool (ap_holds (ap_cmp_of kind) (bits W) x y))"
proof (cases W)
  case I32
  then have a: "0 \<le> x" "x < 2 ^ LENGTH(32)" "0 \<le> y" "y < 2 ^ LENGTH(32)" using assms by simp_all
  show ?thesis unfolding I32 using assms(5)
    by (auto simp: run_compare_def ap_holds_def ap_cmp_of_def uint_bool_i32 sint_of_int of_int_eq_iff_range [where 'a = 32, OF a]
        vm_cmp_eq_i32_def vm_cmp_ne_i32_def vm_cmp_lt_i32s_def vm_cmp_lt_i32u_def)
next
  case I64
  then have a: "0 \<le> x" "x < 2 ^ LENGTH(64)" "0 \<le> y" "y < 2 ^ LENGTH(64)" using assms by simp_all
  show ?thesis unfolding I64 using assms(5)
    by (auto simp: run_compare_def ap_holds_def ap_cmp_of_def uint_bool_i32 sint_of_int of_int_eq_iff_range [where 'a = 64, OF a]
        vm_cmp_eq_i64_def vm_cmp_ne_i64_def vm_cmp_lt_i64s_def vm_cmp_lt_i64u_def)
qed

lemma run_xor_one: "run_binary XorOp I32 (of_bool b) (uint (1 :: u32)) = Some (of_bool (\<not> b))"
  by (simp add: run_binary_eq division_ok_def ap_of_def ap_meaning_def)

lemmas pseudo_defs = pseudo_op_def RewritePseudoCmpLTEToLT_def RewritePseudoCmpGTToLT_def RewritePseudoCmpGTEToLT_def
  PseudoIntegerConversionToSplitConversionOp_def

lemma run_compare_op:
  assumes "0 \<le> \<rho> l" "\<rho> l < 2 ^ bits W" "0 \<le> \<rho> r" "\<rho> r < 2 ^ bits W"
  shows "run_op \<rho> (Compare kind W l r) = Some (of_bool (ap_holds (ap_cmp_of kind) (bits W) (\<rho> l) (\<rho> r)))"
proof -
  note c = run_compare_eq [OF assms] run_compare_eq [OF assms(3,4,1,2)]
  show ?thesis
    by (cases kind) (simp_all add: run_op_def pseudo_defs c run_xor_one del: uint_1 unsigned_1,
      simp_all add: ap_holds_def ap_cmp_of_def not_less not_le)
qed

lemma run_nz_eq:
  assumes "0 \<le> x" "x < 2 ^ bits W"
  shows "run_nz W x = of_bool (x \<noteq> 0)"
  using assms of_int_zero_iff [where 'a = 32, of x] of_int_zero_iff [where 'a = 64, of x]
  by (cases W) (simp_all add: run_nz_def vm_cmp_nz_i32_def vm_cmp_nz_i64_def uint_bool_i32)

lemma run_not_eq: "run_not W x = take_bit (bits W) (NOT x)"
  by (cases W) (simp_all add: run_not_def vm_not_i32_def vm_not_i64_def unsigned_not_eq unsigned_of_int take_bit_not_take_bit)

definition shift_meaning :: "vm_shift \<Rightarrow> nat \<Rightarrow> int \<Rightarrow> nat \<Rightarrow> int" where
  "shift_meaning kind n x k = (case kind of
     ShlOp \<Rightarrow> take_bit n (push_bit k x) | ShrSOp \<Rightarrow> take_bit n (drop_bit k (ap_signed n x)) | ShrUOp \<Rightarrow> drop_bit k x)"

lemma word_shifts:
  assumes "0 \<le> x" "x < 2 ^ LENGTH('a)"
  shows "uint (push_bit k (of_int x :: 'a::len word)) = take_bit LENGTH('a) (push_bit k x)"
    "uint (signed_drop_bit k (of_int x :: 'a word)) = take_bit LENGTH('a) (drop_bit k (ap_signed LENGTH('a) x))"
    "uint (drop_bit k (of_int x :: 'a word)) = drop_bit k x"
proof -
  show "uint (push_bit k (of_int x :: 'a word)) = take_bit LENGTH('a) (push_bit k x)"
    using assms by (simp add: unsigned_push_bit_eq unsigned_of_int in_range)
  have "uint (signed_drop_bit k (of_int x :: 'a word)) = take_bit LENGTH('a) (sint (signed_drop_bit k (of_int x :: 'a word)))"
    by (rule uint_sint)
  then show "uint (signed_drop_bit k (of_int x :: 'a word)) = take_bit LENGTH('a) (drop_bit k (ap_signed LENGTH('a) x))"
    by (simp add: sint_signed_drop_bit_eq sint_of_int)
  show "uint (drop_bit k (of_int x :: 'a word)) = drop_bit k x"
    using assms by (simp add: unsigned_drop_bit_eq unsigned_of_int in_range)
qed

lemma nat_sint: "0 \<le> sint (a :: 'a::len word) \<Longrightarrow> nat (sint a) = unat a"
proof -
  assume a: "0 \<le> sint a"
  have "sint a < 2 ^ (LENGTH('a) - 1)" by (rule sint_lt)
  also have "\<dots> \<le> 2 ^ LENGTH('a)" by (rule power_increasing) simp_all
  finally have "uint a = sint a" using in_range [OF a] by (simp add: uint_sint)
  then show ?thesis by (simp add: unat_eq_nat_uint)
qed

lemma run_shift_eq:
  assumes "0 \<le> x" "x < 2 ^ bits W"
  shows "run_shift kind W x amount = (if 0 \<le> sint amount \<and> unat amount < bits W then Some (shift_meaning kind (bits W) x (unat amount)) else None)"
  using assms word_shifts [where 'a = 32, of x] word_shifts [where 'a = 64, of x]
  by (cases W; cases kind) (auto simp: run_shift_def vm_shl_i32_def vm_shr_i32s_def vm_shr_i32u_def vm_shl_i64_def vm_shr_i64s_def
      vm_shr_i64u_def shift_amount_def shift_meaning_def nat_sint)

text \<open>What a conversion does: the bits it keeps, whether it extends the sign, and the width of its result.\<close>

definition convert_meaning :: "vm_convert \<Rightarrow> int \<Rightarrow> int" where
  "convert_meaning kind x = (case kind of
     TruncI32I8Op \<Rightarrow> take_bit 8 x | TruncI32I16Op \<Rightarrow> take_bit 16 x | TruncI64I8Op \<Rightarrow> take_bit 8 x | TruncI64I16Op \<Rightarrow> take_bit 16 x
   | TruncI64I32Op \<Rightarrow> take_bit 32 x
   | ExtI8I32SOp \<Rightarrow> take_bit 32 (signed_take_bit 7 x) | ExtI8I32UOp \<Rightarrow> take_bit 8 x
   | ExtI16I32SOp \<Rightarrow> take_bit 32 (signed_take_bit 15 x) | ExtI16I32UOp \<Rightarrow> take_bit 16 x
   | ExtI8I64SOp \<Rightarrow> take_bit 64 (signed_take_bit 7 x) | ExtI8I64UOp \<Rightarrow> take_bit 8 x
   | ExtI16I64SOp \<Rightarrow> take_bit 64 (signed_take_bit 15 x) | ExtI16I64UOp \<Rightarrow> take_bit 16 x
   | ExtI32I64SOp \<Rightarrow> take_bit 64 (signed_take_bit 31 x) | ExtI32I64UOp \<Rightarrow> take_bit 32 x)"

lemmas convert_defs = vm_trunc_i32i8_def vm_trunc_i32i16_def vm_trunc_i64i32_def vm_ext_i8i32s_def vm_ext_i8i32u_def
  vm_ext_i16i32s_def vm_ext_i16i32u_def vm_ext_i32i64s_def vm_ext_i32i64u_def

lemma uint_scast: "uint (scast w :: 'b::len word) = take_bit LENGTH('b) (sint (w :: 'a::len word))"
  by (simp add: scast_eq unsigned_of_int del: of_int_sint)

lemma run_convert_op: "run_op \<rho> (Convert kind v) = Some (convert_meaning kind (\<rho> v))"
  by (cases kind) (simp_all add: run_op_def pseudo_defs run_convert_def convert_meaning_def convert_defs unsigned_ucast_eq
      uint_scast unsigned_of_int signed_ucast_eq signed_of_int signed_take_bit_take_bit signed_take_bit_signed_take_bit min_def)

section \<open>Folding agrees with execution\<close>

lemma apint_lawsD:
  assumes "apint_laws ap"
  shows "represents ap n (take_bit n x) (ap_make ap n x)"
    "represents ap n x a \<Longrightarrow> represents ap n y b \<Longrightarrow> (f \<in> {Ap_sdiv, Ap_udiv, Ap_srem, Ap_urem} \<longrightarrow> y \<noteq> 0) \<Longrightarrow>
      represents ap n (take_bit n (ap_meaning f n x y)) (ap_binary ap f a b)"
    "represents ap n x a \<Longrightarrow> represents ap n y b \<Longrightarrow> ap_compare ap g a b = ap_holds g n x y"
    "represents ap n x a \<Longrightarrow> represents ap n (take_bit n (NOT x)) (ap_flipAllBits ap a)"
    "represents ap n x a \<Longrightarrow> k < n \<Longrightarrow> represents ap n (take_bit n (push_bit k x)) (ap_shl ap a k)"
    "represents ap n x a \<Longrightarrow> k < n \<Longrightarrow> represents ap n (take_bit n (drop_bit k (ap_signed n x))) (ap_ashr ap a k)"
    "represents ap n x a \<Longrightarrow> k < n \<Longrightarrow> represents ap n (drop_bit k x) (ap_lshr ap a k)"
    "represents ap n x a \<Longrightarrow> k < n \<Longrightarrow> represents ap k (take_bit k x) (ap_trunc ap a k)"
    "represents ap n x a \<Longrightarrow> n < k \<Longrightarrow> represents ap k x (ap_zext ap a k)"
    "represents ap n x a \<Longrightarrow> n < k \<Longrightarrow> represents ap k (take_bit k (ap_signed n x)) (ap_sext ap a k)"
    "represents ap n x a \<Longrightarrow> ap_getBoolValue ap a = (x \<noteq> 0)"
  using assms unfolding apint_laws_def by simp_all

lemma ssa_range: "ssa_laws ap m ty \<rho> \<Longrightarrow> ty v = W \<Longrightarrow> 0 \<le> \<rho> v \<and> \<rho> v < 2 ^ bits W"
  by (auto simp: ssa_laws_def)

lemma ssa_matchers:
  assumes "ssa_laws ap m ty \<rho>"
  shows "m_Zero m v \<Longrightarrow> \<rho> v = 0" "m_NonZero m v \<Longrightarrow> \<rho> v \<noteq> 0" "m_One m v \<Longrightarrow> \<rho> v = 1"
    "m_ConstantInt m v = Some c \<Longrightarrow> represents ap (bits (ty v)) (\<rho> v) c"
    "getDefiningOp m v = Some op \<Longrightarrow> op_typed ty op \<and> run_op \<rho> op = Some (\<rho> v)"
  using assms by (simp_all add: ssa_laws_def)

lemma ssa_attr:
  assumes "ssa_laws ap m ty \<rho>" "operand_attr m v = Some a"
  obtains c where "a = IntegerAttr (IntegerType (bits (ty v))) c" "represents ap (bits (ty v)) (\<rho> v) c"
  using assms unfolding ssa_laws_def by blast

lemma zero_agrees:
  assumes "ssa_laws ap m ty \<rho>"
  shows "fold_agrees ap \<rho> 0 (zero_result m W)"
proof -
  obtain c where "getZeroAttr m (IntegerType (bits W)) = Some (IntegerAttr (IntegerType (bits W)) c)" "represents ap (bits W) 0 c"
    using assms unfolding ssa_laws_def by blast
  then show ?thesis by (simp add: zero_result_def zeroOfType_def result_of_def fold_agrees_def represents_def)
qed

lemma one_agrees: "apint_laws ap \<Longrightarrow> fold_agrees ap \<rho> 1 (one_result ap)"
  by (simp add: one_result_def result_of_def fold_agrees_def apint_laws_def represents_def)

lemma agrees_simps [simp]:
  "fold_agrees ap \<rho> x NoFold" "fold_agrees ap \<rho> x (FoldValue v) \<longleftrightarrow> \<rho> v = x"
  "fold_agrees ap \<rho> x (FoldAttr (IntegerAttr t c)) \<longleftrightarrow> ap_value ap c = x"
  by (simp_all add: fold_agrees_def)

lemma binary_agrees:
  assumes ap: "apint_laws ap" and m: "ssa_laws ap m ty \<rho>" and ty: "ty l = W" "ty r = W"
    and "f \<in> {Ap_sdiv, Ap_udiv, Ap_srem, Ap_urem} \<longrightarrow> \<rho> r \<noteq> 0"
  shows "fold_agrees ap \<rho> (take_bit (bits W) (ap_meaning f (bits W) (\<rho> l) (\<rho> r))) (const_fold ap m f l r)"
proof (cases "operand_attr m l")
  case l: (Some a)
  show ?thesis
  proof (cases "operand_attr m r")
    case r: (Some b)
    obtain c where c: "a = IntegerAttr (IntegerType (bits W)) c" "represents ap (bits W) (\<rho> l) c" by (rule ssa_attr [OF m l, unfolded ty])
    obtain d where d: "b = IntegerAttr (IntegerType (bits W)) d" "represents ap (bits W) (\<rho> r) d" by (rule ssa_attr [OF m r, unfolded ty])
    have "represents ap (bits W) (take_bit (bits W) (ap_meaning f (bits W) (\<rho> l) (\<rho> r))) (ap_binary ap f c d)"
      by (rule apint_lawsD(2) [OF ap c(2) d(2) assms(5)])
    then show ?thesis using l r c(1) d(1) by (simp add: const_fold_def result_of_def represents_def)
  qed (use l in \<open>cases a, simp_all add: const_fold_def result_of_def\<close>)
qed (simp add: const_fold_def result_of_def)

lemma compare_agrees:
  assumes ap: "apint_laws ap" and m: "ssa_laws ap m ty \<rho>" and ty: "ty l = W" "ty r = W"
  shows "fold_agrees ap \<rho> (of_bool (ap_holds f (bits W) (\<rho> l) (\<rho> r))) (const_compare ap m f l r)"
proof (cases "operand_attr m l")
  case l: (Some a)
  show ?thesis
  proof (cases "operand_attr m r")
    case r: (Some b)
    obtain c where c: "a = IntegerAttr (IntegerType (bits W)) c" "represents ap (bits W) (\<rho> l) c" by (rule ssa_attr [OF m l, unfolded ty])
    obtain d where d: "b = IntegerAttr (IntegerType (bits W)) d" "represents ap (bits W) (\<rho> r) d" by (rule ssa_attr [OF m r, unfolded ty])
    have "ap_compare ap f c d = ap_holds f (bits W) (\<rho> l) (\<rho> r)" by (rule apint_lawsD(3) [OF ap c(2) d(2)])
    moreover have "represents ap n (take_bit n x) (ap_make ap n x)" for n x by (rule apint_lawsD(1) [OF ap])
    then have "ap_value ap (ap_make ap (bits W) (of_bool q)) = of_bool q" for q
      by (cases W; cases q) (simp_all add: represents_def)
    ultimately show ?thesis using l r c(1) d(1) by (simp add: const_compare_def result_of_def get_bool_def)
  qed (use l in \<open>cases a, simp_all add: const_compare_def result_of_def\<close>)
qed (simp add: const_compare_def result_of_def)

lemma unary_agrees:
  assumes m: "ssa_laws ap m ty \<rho>" and "ty v = W"
    and "\<And>c. represents ap (bits W) (\<rho> v) c \<Longrightarrow> ap_value ap (f c) = x"
  shows "fold_agrees ap \<rho> x (result_of (constFoldUnaryOp f (operand_attr m v)))"
    "fold_agrees ap \<rho> x (result_of (constFoldConversionOp t f (operand_attr m v)))"
proof -
  show "fold_agrees ap \<rho> x (result_of (constFoldUnaryOp f (operand_attr m v)))"
    using assms by (cases "operand_attr m v") (auto simp: result_of_def elim: ssa_attr)
  show "fold_agrees ap \<rho> x (result_of (constFoldConversionOp t f (operand_attr m v)))"
    using assms by (cases "operand_attr m v") (auto simp: result_of_def elim: ssa_attr)
qed

text \<open>
  The folds of an addition to a difference and of a subtraction of a sum that cancel the wrong operand:
  \<open>(x - y) + x\<close> and \<open>x + (x - y)\<close> become \<open>y\<close>, and \<open>x - (x + y)\<close> and \<open>x - (y + x)\<close> become \<open>y\<close>.
\<close>

definition cancels_wrongly :: "'i ssa \<Rightarrow> vm_op \<Rightarrow> bool" where
  "cancels_wrongly m op = (case op of
     Binary AddOp W l r \<Rightarrow> (case defined_by m SubOp W l of
         Some (a, b) \<Rightarrow> a = r
       | None \<Rightarrow> (case defined_by m SubOp W r of Some (a, b) \<Rightarrow> a = l | None \<Rightarrow> False))
   | Binary SubOp W l r \<Rightarrow> (case defined_by m AddOp W l of
         Some (a, b) \<Rightarrow> False
       | None \<Rightarrow> (case defined_by m AddOp W r of Some (a, b) \<Rightarrow> a = l \<or> b = l | None \<Rightarrow> False))
   | _ \<Rightarrow> False)"

lemma run_binary_op: "run_op \<rho> (Binary kind W l r) = run_binary kind W (\<rho> l) (\<rho> r)"
  by (simp add: run_op_def pseudo_op_def)

lemma defined_by_value:
  assumes m: "ssa_laws ap m ty \<rho>" and d: "defined_by m kind W v = Some (a, b)" and "kind \<in> {AddOp, SubOp, MulOp}"
  shows "\<rho> v = take_bit (bits W) (ap_meaning (ap_of kind) (bits W) (\<rho> a) (\<rho> b))" "ty a = W" "ty b = W"
proof -
  have "getDefiningOp m v = Some (Binary kind W a b)"
  proof (cases "getDefiningOp m v")
    case (Some op)
    then show ?thesis using d by (cases op) (simp_all add: defined_by_def split: if_splits)
  qed (use d in \<open>simp add: defined_by_def\<close>)
  then have v: "op_typed ty (Binary kind W a b)" "run_op \<rho> (Binary kind W a b) = Some (\<rho> v)"
    using ssa_matchers(5) [OF m] by blast+
  then show ty: "ty a = W" "ty b = W" by (simp_all add: op_typed_def)
  have "division_ok kind W (\<rho> a) (\<rho> b)" using assms(3) by (auto simp: division_ok_def)
  then show "\<rho> v = take_bit (bits W) (ap_meaning (ap_of kind) (bits W) (\<rho> a) (\<rho> b))"
    using v(2) run_binary_eq [of "\<rho> a" W "\<rho> b" kind] ssa_range [OF m ty(1)] ssa_range [OF m ty(2)] by (simp add: run_binary_op)
qed

lemma take_bit_cancel:
  fixes x y :: int
  assumes "0 \<le> x" "x < 2 ^ n"
  shows "take_bit n (take_bit n (x - y) + y) = x" "take_bit n (y + take_bit n (x - y)) = x"
    "take_bit n (take_bit n (x + y) - y) = x" "take_bit n (take_bit n (y + x) - y) = x"
proof -
  have x: "x mod 2 ^ n = x" using assms by simp
  show "take_bit n (take_bit n (x - y) + y) = x" unfolding take_bit_eq_mod by (simp only: mod_add_left_eq diff_add_cancel x)
  show "take_bit n (y + take_bit n (x - y)) = x" unfolding take_bit_eq_mod by (simp only: mod_add_right_eq add_diff_eq diff_add_cancel add_diff_cancel_left' x)
  show "take_bit n (take_bit n (x + y) - y) = x" unfolding take_bit_eq_mod by (simp only: mod_diff_left_eq add_diff_cancel_right' x)
  show "take_bit n (take_bit n (y + x) - y) = x" unfolding take_bit_eq_mod by (simp only: mod_diff_left_eq add_diff_cancel_left' x)
qed

lemma const_binary_agrees:
  assumes ap: "apint_laws ap" and m: "ssa_laws ap m ty \<rho>" and ty: "ty l = W" "ty r = W" and run: "run_binary kind W (\<rho> l) (\<rho> r) = Some x"
  shows "fold_agrees ap \<rho> x (const_fold ap m (ap_of kind) l r)" "division_ok kind W (\<rho> l) (\<rho> r)"
    "x = take_bit (bits W) (ap_meaning (ap_of kind) (bits W) (\<rho> l) (\<rho> r))"
proof -
  show d: "division_ok kind W (\<rho> l) (\<rho> r)" and x: "x = take_bit (bits W) (ap_meaning (ap_of kind) (bits W) (\<rho> l) (\<rho> r))"
    using run run_binary_eq [of "\<rho> l" W "\<rho> r" kind] ssa_range [OF m ty(1)] ssa_range [OF m ty(2)] by (auto split: if_splits)
  have "ap_of kind \<in> {Ap_sdiv, Ap_udiv, Ap_srem, Ap_urem} \<longrightarrow> \<rho> r \<noteq> 0"
    using d by (cases kind) (simp_all add: division_ok_def ap_of_def)
  then show "fold_agrees ap \<rho> x (const_fold ap m (ap_of kind) l r)" unfolding x by (rule binary_agrees [OF ap m ty])
qed

lemma add_agrees:
  assumes ap: "apint_laws ap" and m: "ssa_laws ap m ty \<rho>" and ty: "ty l = W" "ty r = W" and run: "run_binary AddOp W (\<rho> l) (\<rho> r) = Some x"
    and "\<not> cancels_wrongly m (Binary AddOp W l r)"
  shows "fold_agrees ap \<rho> x (foldAddOp ap m W l r)"
proof -
  note c = const_binary_agrees [OF ap m ty run]
  have x: "x = take_bit (bits W) (\<rho> l + \<rho> r)" using c(3) by (simp add: ap_of_def ap_meaning_def)
  have const: "fold_agrees ap \<rho> x (const_fold ap m Ap_add l r)" using c(1) by (simp add: ap_of_def)
  have zero: "\<rho> l = x" if "m_Zero m r"
    using ssa_matchers(1) [OF m that] x ssa_range [OF m ty(1)] by (simp add: in_range)
  have left: "\<rho> a = x" if "defined_by m SubOp W l = Some (a, r)" for a
    using defined_by_value [OF m that, simplified] ssa_range [OF m, of a W] x take_bit_cancel(1) [of "\<rho> a" "bits W" "\<rho> r"] by (simp add: ap_of_def ap_meaning_def)
  have right: "\<rho> a = x" if "defined_by m SubOp W r = Some (a, l)" for a
    using defined_by_value [OF m that, simplified] ssa_range [OF m, of a W] x take_bit_cancel(2) [of "\<rho> a" "bits W" "\<rho> l"] by (simp add: ap_of_def ap_meaning_def)
  show ?thesis using assms(6) zero left right const
    by (auto simp: foldAddOp_def cancels_wrongly_def split: option.splits if_splits)
qed

lemma sub_agrees:
  assumes ap: "apint_laws ap" and m: "ssa_laws ap m ty \<rho>" and ty: "ty l = W" "ty r = W" and run: "run_binary SubOp W (\<rho> l) (\<rho> r) = Some x"
    and "\<not> cancels_wrongly m (Binary SubOp W l r)"
  shows "fold_agrees ap \<rho> x (foldSubOp ap m W l r)"
proof -
  note c = const_binary_agrees [OF ap m ty run]
  have x: "x = take_bit (bits W) (\<rho> l - \<rho> r)" using c(3) by (simp add: ap_of_def ap_meaning_def)
  have const: "fold_agrees ap \<rho> x (const_fold ap m Ap_sub l r)" using c(1) by (simp add: ap_of_def)
  have zero: "\<rho> l = x" if "m_Zero m r"
    using ssa_matchers(1) [OF m that] x ssa_range [OF m ty(1)] by (simp add: in_range)
  have left: "\<rho> a = x" if "defined_by m AddOp W l = Some (a, r)" for a
    using defined_by_value [OF m that, simplified] ssa_range [OF m, of a W] x take_bit_cancel(3) [of "\<rho> a" "bits W" "\<rho> r"] by (simp add: ap_of_def ap_meaning_def)
  have right: "\<rho> a = x" if "defined_by m AddOp W l = Some (r, a)" for a
    using defined_by_value [OF m that, simplified] ssa_range [OF m, of a W] x take_bit_cancel(4) [of "\<rho> a" "bits W" "\<rho> r"] by (simp add: ap_of_def ap_meaning_def)
  show ?thesis using assms(6) zero left right const
    by (auto simp: foldSubOp_def cancels_wrongly_def split: option.splits if_splits)
qed

lemma c_div_rem_simps: "c_div 0 y = 0" "c_div x 1 = x" "c_rem 0 y = 0" "c_rem x 1 = 0"
  by (simp_all add: c_div_def c_rem_def mult_sgn_abs)

lemma ap_signed_simps [simp]: "ap_signed n 0 = 0" "ap_signed (bits W) 1 = 1"
  by (cases W; simp add: ap_signed_def)+

lemma take_bit_signed: "take_bit (bits W) (ap_signed (bits W) x) = take_bit (bits W) x"
  by (cases W) (simp_all add: ap_signed_def take_bit_signed_take_bit)

lemma mul_agrees:
  assumes ap: "apint_laws ap" and m: "ssa_laws ap m ty \<rho>" and ty: "ty l = W" "ty r = W" and run: "run_binary kind W (\<rho> l) (\<rho> r) = Some x"
  shows "kind = MulOp \<Longrightarrow> fold_agrees ap \<rho> x (foldMulOp ap m W l r)" "kind = DivSOp \<Longrightarrow> fold_agrees ap \<rho> x (foldDivSOp ap m W l r)"
    "kind = DivUOp \<Longrightarrow> fold_agrees ap \<rho> x (foldDivUOp ap m W l r)" "kind = RemSOp \<Longrightarrow> fold_agrees ap \<rho> x (foldRemSOp ap m W l r)"
    "kind = RemUOp \<Longrightarrow> fold_agrees ap \<rho> x (foldRemUOp ap m W l r)"
proof -
  note c = const_binary_agrees [OF ap m ty run]
  note z = zero_agrees [OF m, of W] and sm = ssa_matchers(1,3) [OF m]
  have l: "take_bit (bits W) (\<rho> l) = \<rho> l" using ssa_range [OF m ty(1)] by (simp add: in_range)
  show "kind = MulOp \<Longrightarrow> fold_agrees ap \<rho> x (foldMulOp ap m W l r)"
    using c(1,3) z sm l by (auto simp: foldMulOp_def ap_of_def ap_meaning_def)
  show "kind = DivSOp \<Longrightarrow> fold_agrees ap \<rho> x (foldDivSOp ap m W l r)"
    using c(1,3) z sm l by (auto simp: foldDivSOp_def ap_of_def ap_meaning_def c_div_rem_simps take_bit_signed)
  show "kind = DivUOp \<Longrightarrow> fold_agrees ap \<rho> x (foldDivUOp ap m W l r)"
    using c(1,3) z sm l by (auto simp: foldDivUOp_def ap_of_def ap_meaning_def)
  show "kind = RemSOp \<Longrightarrow> fold_agrees ap \<rho> x (foldRemSOp ap m W l r)"
    using c(1,3) z sm l by (auto simp: foldRemSOp_def ap_of_def ap_meaning_def c_div_rem_simps)
  show "kind = RemUOp \<Longrightarrow> fold_agrees ap \<rho> x (foldRemUOp ap m W l r)"
    using c(1,3) z sm l by (auto simp: foldRemUOp_def ap_of_def ap_meaning_def)
qed

lemma and_agrees:
  assumes ap: "apint_laws ap" and m: "ssa_laws ap m ty \<rho>" and ty: "ty l = W" "ty r = W" and run: "run_binary kind W (\<rho> l) (\<rho> r) = Some x"
  shows "kind = AndOp \<Longrightarrow> fold_agrees ap \<rho> x (foldAndOp ap m W l r)" "kind = OrOp \<Longrightarrow> fold_agrees ap \<rho> x (foldOrOp ap m l r)"
    "kind = XorOp \<Longrightarrow> fold_agrees ap \<rho> x (foldXorOp ap m W l r)"
proof -
  note c = const_binary_agrees [OF ap m ty run]
  note z = zero_agrees [OF m, of W] and sm = ssa_matchers(1,3) [OF m]
  have l: "take_bit (bits W) (\<rho> l) = \<rho> l" using ssa_range [OF m ty(1)] by (simp add: in_range)
  show "kind = AndOp \<Longrightarrow> fold_agrees ap \<rho> x (foldAndOp ap m W l r)"
    using c(1,3) z sm l by (auto simp: foldAndOp_def ap_of_def ap_meaning_def)
  show "kind = OrOp \<Longrightarrow> fold_agrees ap \<rho> x (foldOrOp ap m l r)"
    using c(1,3) z sm l by (auto simp: foldOrOp_def ap_of_def ap_meaning_def)
  show "kind = XorOp \<Longrightarrow> fold_agrees ap \<rho> x (foldXorOp ap m W l r)"
    using c(1,3) z sm l by (auto simp: foldXorOp_def ap_of_def ap_meaning_def)
qed

lemma binary_op_agrees:
  assumes "apint_laws ap" "ssa_laws ap m ty \<rho>" "ty l = W" "ty r = W" "run_binary kind W (\<rho> l) (\<rho> r) = Some x"
    "\<not> cancels_wrongly m (Binary kind W l r)"
  shows "fold_agrees ap \<rho> x (vm_fold ap m (Binary kind W l r))"
  using mul_agrees [OF assms(1-5)] and_agrees [OF assms(1-5)] add_agrees [OF assms(1-4)] sub_agrees [OF assms(1-4)] assms(5,6)
  by (cases kind) (simp_all add: vm_fold_def)

lemma shift_agrees:
  assumes ap: "apint_laws ap" and m: "ssa_laws ap m ty \<rho>" and ty: "ty v = W" and run: "run_shift kind W (\<rho> v) amount = Some x"
  shows "fold_agrees ap \<rho> x (vm_fold ap m (Shift kind W v amount))"
proof -
  have r: "0 \<le> \<rho> v" "\<rho> v < 2 ^ bits W" using ssa_range [OF m ty] by simp_all
  have k: "unat amount < bits W" and x: "x = shift_meaning kind (bits W) (\<rho> v) (unat amount)"
    using run run_shift_eq [OF r] by (auto split: if_splits)
  have zero: "x = 0" if "m_Zero m v"
    using ssa_matchers(1) [OF m that] x by (cases kind) (simp_all add: shift_meaning_def)
  have same: "x = \<rho> v" if "amount = 0"
    using that x r by (cases kind) (simp_all add: shift_meaning_def take_bit_signed in_range)
  have vals: "ap_value ap (ap_shl ap c (unat amount)) = shift_meaning ShlOp (bits W) (\<rho> v) (unat amount)"
      "ap_value ap (ap_ashr ap c (unat amount)) = shift_meaning ShrSOp (bits W) (\<rho> v) (unat amount)"
      "ap_value ap (ap_lshr ap c (unat amount)) = shift_meaning ShrUOp (bits W) (\<rho> v) (unat amount)"
    if "represents ap (bits W) (\<rho> v) c" for c
    using apint_lawsD(5-7) [OF ap that k] by (simp_all add: represents_def shift_meaning_def)
  show ?thesis
    using zero same zero_agrees [OF m, of W] x
    by (cases kind) (auto simp: vm_fold_def foldShlOp_def foldShrSOp_def foldShrUOp_def vals intro!: unary_agrees(1) [OF m ty])
qed

lemma compare_op_agrees:
  assumes ap: "apint_laws ap" and m: "ssa_laws ap m ty \<rho>" and ty: "ty l = W" "ty r = W"
  shows "fold_agrees ap \<rho> (of_bool (ap_holds (ap_cmp_of kind) (bits W) (\<rho> l) (\<rho> r))) (vm_fold ap m (Compare kind W l r))"
proof -
  note c = compare_agrees [OF ap m ty] and z = zero_agrees [OF m] and o1 = one_agrees [OF ap]
  show ?thesis
  proof (cases "l = r")
    case True
    then show ?thesis using z [of I32] o1 by (cases kind) (simp_all add: vm_fold_def foldCmpEQOp_def foldCmpNEOp_def foldCmpLTSOp_def foldCmpLTUOp_def
      foldCmpLTESOp_def foldCmpLTEUOp_def foldCmpGTSOp_def foldCmpGTUOp_def foldCmpGTESOp_def foldCmpGTEUOp_def ap_cmp_of_def ap_holds_def)
  next
    case False
    then show ?thesis using c by (cases kind) (simp_all add: vm_fold_def foldCmpEQOp_def foldCmpNEOp_def foldCmpLTSOp_def foldCmpLTUOp_def
      foldCmpLTESOp_def foldCmpLTEUOp_def foldCmpGTSOp_def foldCmpGTUOp_def foldCmpGTESOp_def foldCmpGTEUOp_def ap_cmp_of_def)
  qed
qed

lemma conversion_value:
  assumes ap: "apint_laws ap" and c: "represents ap (bits (convert_from kind)) x c"
    and x: "0 \<le> x" "x < 2 ^ bits (convert_from kind)"
  shows "ap_value ap (snd (conversion ap kind) c) = convert_meaning kind x"
proof -
  have t: "represents ap k (take_bit k x) (ap_trunc ap c k)" if "k < bits (convert_from kind)" for k
    by (rule apint_lawsD(8) [OF ap c that])
  have z: "represents ap n (take_bit k x) (ap_zext ap (ap_trunc ap c k) n)"
      "represents ap n (take_bit n (ap_signed k (take_bit k x))) (ap_sext ap (ap_trunc ap c k) n)"
    if "k < bits (convert_from kind)" "k < n" for k n
    using apint_lawsD(9,10) [OF ap t] that by simp_all
  note e = apint_lawsD(9,10) [OF ap c]
  show ?thesis
    using t z e in_range [OF x] by (cases kind) (simp_all add: conversion_def convert_meaning_def convert_from_def represents_def ap_signed_def
      signed_take_bit_take_bit)
qed

lemma select_agrees:
  assumes m: "ssa_laws ap m ty \<rho>" and ty: "ty c = I32" "ty t = W" "ty f = W"
  shows "fold_agrees ap \<rho> (run_select W (\<rho> c) (\<rho> t) (\<rho> f)) (vm_fold ap m (Select W c t f))"
proof -
  have "run_select W (\<rho> c) (\<rho> t) (\<rho> f) = (if \<rho> c \<noteq> 0 then \<rho> t else \<rho> f)"
    using ssa_range [OF m ty(1)] ssa_range [OF m ty(2)] ssa_range [OF m ty(3)] of_int_zero_iff [where 'a = 32, of "\<rho> c"]
    by (cases W) (simp_all add: run_select_def vm_select_i32_def vm_select_i64_def unsigned_of_int in_range)
  then show ?thesis using ssa_matchers(1,2) [OF m, of c] by (simp add: vm_fold_def foldSelectOp_def)
qed

lemma switch_agrees:
  assumes m: "ssa_laws ap m ty \<rho>" and ty: "ty i = I32"
  shows "fold_agrees ap \<rho> (run_switch (\<rho> i) (\<rho> d) (map \<rho> vs)) (vm_fold ap m (Switch W i d vs))"
proof (cases "m_ConstantInt m i")
  case (Some c)
  then have "represents ap 32 (\<rho> i) c" using ssa_matchers(4) [OF m Some] ty by simp
  moreover have "map \<rho> vs ! nat k = \<rho> (vs ! nat k)" if "0 \<le> k" "k < int (length vs)" for k
    using that by (simp add: nat_less_iff)
  ultimately show ?thesis using Some
    by (auto simp del: signed_take_bit_nonnegative_iff signed_take_bit_negative_iff simp: vm_fold_def foldSwitchOp_def run_switch_def represents_def signed_of_int Let_def not_less)
next
  case None
  have "run_switch (\<rho> i) (\<rho> d) (map \<rho> vs) = \<rho> d" if "list_all (\<lambda>v. v = d) vs"
    using that by (auto simp: run_switch_def Let_def list_all_iff)
  then show ?thesis using None by (simp add: vm_fold_def foldSwitchOp_def)
qed

lemma fold_agrees_run:
  assumes "apint_laws ap" "ssa_laws ap m ty \<rho>" "op_typed ty op" "\<not> cancels_wrongly m op" "run_op \<rho> op = Some x"
  shows "fold_agrees ap \<rho> x (vm_fold ap m op)"
proof (cases op)
  case (Binary kind W l r)
  then show ?thesis using assms binary_op_agrees [OF assms(1,2), of l W r kind x] by (simp add: op_typed_def run_binary_op)
next
  case (Shift kind W v amount)
  then show ?thesis using assms shift_agrees [OF assms(1,2), of v W kind amount x] by (simp add: op_typed_def run_op_def pseudo_op_def)
next
  case (NotOp W v)
  then show ?thesis using assms(5) unary_agrees(1) [OF assms(2)] apint_lawsD(4) [OF assms(1)] assms(3)
    by (simp add: op_typed_def run_op_def pseudo_op_def vm_fold_def foldNotOp_def run_not_eq represents_def)
next
  case (Compare kind W l r)
  then show ?thesis using assms(3,5) compare_op_agrees [OF assms(1,2), of l W r kind] run_compare_op [of \<rho> l W r kind] ssa_range [OF assms(2)]
    by (simp add: op_typed_def)
next
  case (CmpNZOp W v)
  have "represents ap (bits W) (of_bool b) (ap_make ap (bits W) (of_bool b))" for b
    using apint_lawsD(1) [OF assms(1), of "bits W" "of_bool b"] by (cases b; cases W) simp_all
  moreover have "x = of_bool (\<rho> v \<noteq> 0)" "ty v = W"
    using CmpNZOp assms(3,5) ssa_range [OF assms(2), of v W] by (simp_all add: op_typed_def run_op_def pseudo_op_def run_nz_eq)
  ultimately show ?thesis using CmpNZOp unary_agrees(1) [OF assms(2)] apint_lawsD(11) [OF assms(1)]
    by (simp add: vm_fold_def foldCmpNZOp_def represents_def)
next
  case (Convert kind v)
  then have v: "ty v = convert_from kind" "x = convert_meaning kind (\<rho> v)" using assms(3,5) by (simp_all add: op_typed_def run_convert_op)
  then show ?thesis using Convert unary_agrees(2) [OF assms(2) v(1)] conversion_value [OF assms(1)] ssa_range [OF assms(2) v(1)]
    by (simp add: vm_fold_def foldConvertOp_def case_prod_beta)
next
  case (Select W c t f)
  then show ?thesis using assms(3,5) select_agrees [OF assms(2)] by (auto simp: op_typed_def run_op_def pseudo_op_def)
next
  case (Switch W i d vs)
  then show ?thesis using assms(3,5) switch_agrees [OF assms(2)] by (auto simp: op_typed_def run_op_def pseudo_op_def)
qed

end
