(* ===== verification/VM_FoldProperties.thy ===== *)
theory VM_FoldProperties
  imports VM_FoldSound
begin

text \<open>
  Properties of folding in the compiler against execution in the virtual machine, with integers of an
  explicit width as the instance of \<^verbatim>\<open>llvm::APInt\<close> at which the witnesses evaluate.
\<close>

unbundle bit_operations_syntax

section \<open>An instance of the libraries\<close>

type_synonym sized = "nat \<times> int"

definition sized_apint :: "sized apint" where
  "sized_apint = \<lparr>ap_width = fst, ap_value = snd, ap_make = (\<lambda>n x. (n, take_bit n x)),
    ap_binary = (\<lambda>f a b. (fst a, take_bit (fst a) (ap_meaning f (fst a) (snd a) (snd b)))),
    ap_compare = (\<lambda>f a b. ap_holds f (fst a) (snd a) (snd b)), ap_flipAllBits = (\<lambda>a. (fst a, take_bit (fst a) (NOT (snd a)))),
    ap_shl = (\<lambda>a k. (fst a, take_bit (fst a) (push_bit k (snd a)))),
    ap_ashr = (\<lambda>a k. (fst a, take_bit (fst a) (drop_bit k (ap_signed (fst a) (snd a))))), ap_lshr = (\<lambda>a k. (fst a, drop_bit k (snd a))),
    ap_trunc = (\<lambda>a k. (k, take_bit k (snd a))), ap_zext = (\<lambda>a k. (k, snd a)),
    ap_sext = (\<lambda>a k. (k, take_bit k (ap_signed (fst a) (snd a)))), ap_getBoolValue = (\<lambda>a. snd a \<noteq> 0)\<rparr>"


text \<open>A program over 32-bit values: some are constants, some have defining operations.\<close>

definition sample_ssa :: "(nat \<Rightarrow> int) \<Rightarrow> nat set \<Rightarrow> (nat \<Rightarrow> vm_op option) \<Rightarrow> sized ssa" where
  "sample_ssa \<rho> consts defs = \<lparr>m_Zero = (\<lambda>u. u \<in> consts \<and> \<rho> u = 0), m_NonZero = (\<lambda>u. u \<in> consts \<and> \<rho> u \<noteq> 0), m_One = (\<lambda>u. u \<in> consts \<and> \<rho> u = 1),
    m_ConstantInt = (\<lambda>u. if u \<in> consts then Some (32, \<rho> u) else None), getDefiningOp = defs,
    operand_attr = (\<lambda>u. if u \<in> consts then Some (IntegerAttr (IntegerType 32) (32, \<rho> u)) else None),
    getZeroAttr = (\<lambda>t. Some (IntegerAttr t (type_width t, 0)))\<rparr>"

lemma sample_laws:
  assumes "\<And>u. 0 \<le> \<rho> u \<and> \<rho> u < 2 ^ 32" "\<And>v op. defs v = Some op \<Longrightarrow> op_typed (\<lambda>_. I32) op \<and> run_op \<rho> op = Some (\<rho> v)"
  shows "ssa_laws sized_apint (sample_ssa \<rho> consts defs) (\<lambda>_. I32) \<rho>"
  using assms unfolding ssa_laws_def by (simp add: sample_ssa_def sized_apint_def represents_def)

definition sample_values :: "nat \<Rightarrow> int" where
  "sample_values u = (if u = 0 then 5 else if u = 1 then 3 else if u = 2 then 2 else 7)"

lemma sample_range: "0 \<le> sample_values u \<and> sample_values u < 2 ^ 32"
  by (simp add: sample_values_def)

lemma sample_difference: "run_op sample_values (Binary SubOp I32 0 1) = Some (sample_values 2)"
  by (simp add: run_binary_op run_binary_eq division_ok_def ap_of_def ap_meaning_def sample_values_def)

lemma sample_difference_laws:
  "ssa_laws sized_apint (sample_ssa sample_values consts [2 \<mapsto> Binary SubOp I32 0 1]) (\<lambda>_. I32) sample_values"
  by (rule sample_laws [OF sample_range]) (use sample_difference in \<open>auto simp: op_typed_def split: if_splits\<close>)

section \<open>Folding\<close>



text \<open>
  C25: the fold of an addition to a difference cancels the wrong operand. \<open>(x - y) + x\<close> is replaced by \<open>y\<close>, while the virtual
  machine computes \<open>2 x - y\<close>.
\<close>

theorem fold_add_difference_wrong:
  assumes "ssa_laws ap m ty \<rho>" "defined_by m SubOp W l = Some (r, y)" "\<not> m_Zero m r"
  shows "vm_fold ap m (Binary AddOp W l r) = FoldValue y
    \<and> run_op \<rho> (Binary AddOp W l r) = Some (take_bit (bits W) (2 * \<rho> r - \<rho> y))"
proof -
  note d = defined_by_value [OF assms(1,2), simplified]
  have l: "0 \<le> \<rho> l" "\<rho> l < 2 ^ bits W" using d(1) by simp_all
  have "run_op \<rho> (Binary AddOp W l r) = Some (take_bit (bits W) (\<rho> l + \<rho> r))"
    using ssa_range [OF assms(1) d(2)] l by (simp add: run_binary_op run_binary_eq division_ok_def ap_of_def ap_meaning_def)
  also have "take_bit (bits W) (\<rho> l + \<rho> r) = take_bit (bits W) (2 * \<rho> r - \<rho> y)"
    using mod_add_left_eq [of "\<rho> r - \<rho> y" "2 ^ bits W" "\<rho> r"] by (simp add: d(1) ap_of_def ap_meaning_def take_bit_eq_mod)
  finally show ?thesis using assms(2,3) by (simp add: vm_fold_def foldAddOp_def)
qed

theorem fold_add_difference_wrong_witness:
  "let m = sample_ssa sample_values {} [2 \<mapsto> Binary SubOp I32 0 1]
   in vm_fold sized_apint m (Binary AddOp I32 2 0) = FoldValue 1 \<and> sample_values 1 = 3
    \<and> run_op sample_values (Binary AddOp I32 2 0) = Some 7"
proof -
  let ?m = "sample_ssa sample_values {} [2 \<mapsto> Binary SubOp I32 0 1]"
  have "defined_by ?m SubOp I32 2 = Some (0, 1)" "\<not> m_Zero ?m 0" by (simp_all add: defined_by_def sample_ssa_def)
  then show ?thesis
    using fold_add_difference_wrong [OF sample_difference_laws] by (simp add: op_typed_def sample_values_def)
qed

text \<open>
  The fold of a subtraction of a sum drops the sign. \<open>x - (x + y)\<close> is replaced by \<open>y\<close>, while the virtual machine computes
  the negation of \<open>y\<close>.
\<close>

theorem fold_sub_sum_wrong:
  assumes "ssa_laws ap m ty \<rho>" "defined_by m AddOp W r = Some (l, y)" "defined_by m AddOp W l = None" "\<not> m_Zero m r"
  shows "vm_fold ap m (Binary SubOp W l r) = FoldValue y
    \<and> run_op \<rho> (Binary SubOp W l r) = Some (take_bit (bits W) (- \<rho> y))"
proof -
  note d = defined_by_value [OF assms(1,2), simplified]
  have r: "0 \<le> \<rho> r" "\<rho> r < 2 ^ bits W" using d(1) by simp_all
  have "run_op \<rho> (Binary SubOp W l r) = Some (take_bit (bits W) (\<rho> l - \<rho> r))"
    using ssa_range [OF assms(1) d(2)] r by (simp add: run_binary_op run_binary_eq division_ok_def ap_of_def ap_meaning_def)
  also have "take_bit (bits W) (\<rho> l - \<rho> r) = take_bit (bits W) (- \<rho> y)"
    unfolding d(1) ap_of_def ap_meaning_def by (simp add: take_bit_eq_mod mod_diff_right_eq)
  finally show ?thesis using assms(2-4) by (simp add: vm_fold_def foldSubOp_def)
qed

definition added_values :: "nat \<Rightarrow> int" where
  "added_values u = (if u = 0 then 5 else if u = 1 then 3 else 8)"

lemma sample_sum: "run_op added_values (Binary AddOp I32 0 1) = Some (added_values 3)"
  by (simp add: run_binary_op run_binary_eq division_ok_def ap_of_def ap_meaning_def added_values_def)

lemma sample_sum_range: "0 \<le> added_values u \<and> added_values u < 2 ^ 32"
  by (simp add: added_values_def)

lemma sample_sum_laws:
  "ssa_laws sized_apint (sample_ssa added_values {} [3 \<mapsto> Binary AddOp I32 0 1]) (\<lambda>_. I32) added_values"
  by (rule sample_laws [OF sample_sum_range]) (use sample_sum in \<open>auto simp: op_typed_def split: if_splits\<close>)

theorem fold_sub_sum_wrong_witness:
  "let \<rho> = added_values; m = sample_ssa \<rho> {} [3 \<mapsto> Binary AddOp I32 0 1]
   in vm_fold sized_apint m (Binary SubOp I32 0 3) = FoldValue 1 \<and> \<rho> 1 = 3
    \<and> run_op \<rho> (Binary SubOp I32 0 3) = Some 4294967293"
proof -
  let ?m = "sample_ssa added_values {} [3 \<mapsto> Binary AddOp I32 0 1]"
  have "defined_by ?m AddOp I32 3 = Some (0, 1)" "defined_by ?m AddOp I32 0 = None" "\<not> m_Zero ?m 3"
    by (simp_all add: defined_by_def sample_ssa_def)
  then show ?thesis
    using fold_sub_sum_wrong [OF sample_sum_laws, where l = 0 and r = 3 and y = 1 and W = I32]
    by (simp add: op_typed_def added_values_def take_bit_eq_mod)
qed

section \<open>Types of folded constants\<close>

definition result_width :: "vm_op \<Rightarrow> vm_width" where
  "result_width op = (case op of
     Binary kind W l r \<Rightarrow> W | Shift kind W x amount \<Rightarrow> W | NotOp W x \<Rightarrow> W | Compare kind W l r \<Rightarrow> I32 | CmpNZOp W x \<Rightarrow> I32
   | Convert kind x \<Rightarrow> (if kind \<in> {ExtI8I64SOp, ExtI8I64UOp, ExtI16I64SOp, ExtI16I64UOp, ExtI32I64SOp, ExtI32I64UOp} then I64 else I32)
   | Select W c t f \<Rightarrow> W | Switch W i d vs \<Rightarrow> W)"

text \<open>The width at which the operation folds to a constant: comparisons of constants fold at the width of the operands.\<close>

definition folded_width :: "vm_op \<Rightarrow> vm_width" where
  "folded_width op = (case op of
     Compare kind W l r \<Rightarrow> if l = r then I32 else W | CmpNZOp W x \<Rightarrow> W | _ \<Rightarrow> result_width op)"

definition typed_result :: "vm_width \<Rightarrow> 'i fold_result \<Rightarrow> bool" where
  "typed_result W res = (case res of FoldAttr a \<Rightarrow> attr_type a = IntegerType (bits W) | _ \<Rightarrow> True)"

lemma typed_simps [simp]: "typed_result W NoFold" "typed_result W (FoldValue v)"
  "typed_result W (FoldAttr a) \<longleftrightarrow> attr_type a = IntegerType (bits W)"
  by (simp_all add: typed_result_def)

lemma typed_zero: "ssa_laws ap m ty \<rho> \<Longrightarrow> typed_result W (zero_result m W)"
proof -
  assume "ssa_laws ap m ty \<rho>"
  then obtain c where "getZeroAttr m (IntegerType (bits W)) = Some (IntegerAttr (IntegerType (bits W)) c)"
    unfolding ssa_laws_def by blast
  then show ?thesis by (simp add: zero_result_def zeroOfType_def result_of_def)
qed

lemma typed_binary:
  assumes m: "ssa_laws ap m ty \<rho>" and "ty l = W"
  shows "typed_result W (const_fold ap m f l r)" "typed_result W (const_compare ap m g l r)"
proof -
  show "typed_result W (const_fold ap m f l r)"
  proof (cases "operand_attr m l")
    case (Some a)
    obtain c where "a = IntegerAttr (IntegerType (bits W)) c" "represents ap (bits W) (\<rho> l) c" by (rule ssa_attr [OF m Some, unfolded assms(2)])
    then show ?thesis using Some by (cases "operand_attr m r" rule: option.exhaust; cases "the (operand_attr m r)") (auto simp: const_fold_def result_of_def)
  qed (simp add: const_fold_def result_of_def)
  show "typed_result W (const_compare ap m g l r)"
  proof (cases "operand_attr m l")
    case (Some a)
    obtain c where "a = IntegerAttr (IntegerType (bits W)) c" "represents ap (bits W) (\<rho> l) c" by (rule ssa_attr [OF m Some, unfolded assms(2)])
    then show ?thesis using Some by (cases "operand_attr m r" rule: option.exhaust; cases "the (operand_attr m r)") (auto simp: const_compare_def result_of_def get_bool_def)
  qed (simp add: const_compare_def result_of_def)
qed

lemma typed_unary:
  assumes m: "ssa_laws ap m ty \<rho>" and "ty v = W"
  shows "typed_result W (result_of (constFoldUnaryOp f (operand_attr m v)))"
    "typed_result W' (result_of (constFoldConversionOp (IntegerType (bits W')) f (operand_attr m v)))"
proof -
  show "typed_result W (result_of (constFoldUnaryOp f (operand_attr m v)))"
    using assms by (cases "operand_attr m v") (auto simp: result_of_def elim: ssa_attr)
  show "typed_result W' (result_of (constFoldConversionOp (IntegerType (bits W')) f (operand_attr m v)))"
    using assms by (cases "operand_attr m v") (auto simp: result_of_def elim: ssa_attr)
qed

lemma typed_one: "typed_result I32 (one_result ap)"
  by (simp add: one_result_def result_of_def)

lemma typed_convert: "fst (conversion ap kind) = bits (result_width (Convert kind v))"
  by (cases kind) (simp_all add: conversion_def result_width_def)

lemma typed_add_sub:
  assumes "\<And>f. typed_result W (const_fold ap m f l r)"
  shows "typed_result W (foldAddOp ap m W l r)" "typed_result W (foldSubOp ap m W l r)"
  using assms by (simp_all add: foldAddOp_def foldSubOp_def split: option.splits)

text \<open>
  C24: the type of a folded constant. A constant that replaces an operation has the type of the result,
  except for comparisons of distinct 64-bit values: their result is 32 bits wide, and the constant is of the
  64-bit type of the operands.
\<close>

theorem fold_constant_type:
  assumes "ssa_laws ap m ty \<rho>" "op_typed ty op" "vm_fold ap m op = FoldAttr a"
  shows "attr_type a = IntegerType (bits (folded_width op))"
proof -
  note z = typed_zero [OF assms(1)] and b = typed_binary [OF assms(1)] and u = typed_unary [OF assms(1)]
  have "typed_result (folded_width op) (vm_fold ap m op)"
  proof (cases op)
    case (Binary kind W l r)
    then show ?thesis using assms(2) z b typed_add_sub [of W ap m l r]
      by (cases kind) (simp_all add: vm_fold_def folded_width_def result_width_def op_typed_def foldMulOp_def foldDivSOp_def foldDivUOp_def
        foldRemSOp_def foldRemUOp_def foldAndOp_def foldOrOp_def foldXorOp_def)
  next
    case (Shift kind W v amount)
    then show ?thesis using assms(2) z u
      by (cases kind) (simp_all add: vm_fold_def folded_width_def result_width_def op_typed_def foldShlOp_def foldShrSOp_def foldShrUOp_def)
  next
    case (Compare kind W l r)
    then show ?thesis using assms(2) z b
      by (cases kind) (simp_all add: typed_one vm_fold_def folded_width_def op_typed_def foldCmpEQOp_def foldCmpNEOp_def foldCmpLTSOp_def foldCmpLTUOp_def
        foldCmpLTESOp_def foldCmpLTEUOp_def foldCmpGTSOp_def foldCmpGTUOp_def foldCmpGTESOp_def foldCmpGTEUOp_def)
  next
    case (Convert kind v)
    then show ?thesis using assms(2) u(2) typed_convert [of ap kind v]
      by (simp add: vm_fold_def folded_width_def op_typed_def foldConvertOp_def case_prod_beta)
  next
    case (NotOp W v)
    then show ?thesis using assms(2) u(1) [of v W] by (simp add: vm_fold_def folded_width_def result_width_def op_typed_def foldNotOp_def)
  next
    case (CmpNZOp W v)
    then show ?thesis using assms(2) u(1) [of v W] by (simp add: vm_fold_def folded_width_def op_typed_def foldCmpNZOp_def)
  next
    case (Select W c t f)
    then show ?thesis by (simp add: vm_fold_def foldSelectOp_def)
  next
    case (Switch W i d vs)
    then show ?thesis by (simp add: vm_fold_def foldSwitchOp_def Let_def split: option.splits)
  qed
  then show ?thesis using assms(3) by simp
qed

theorem fold_constant_type_witness:
  "let m = sample_ssa sample_values {0, 1} [2 \<mapsto> Binary SubOp I32 0 1]
   in \<exists>a. vm_fold sized_apint m (Compare CmpLTSOp I32 1 0) = FoldAttr a \<and> attr_type a = IntegerType 32"
proof -
  let ?m = "sample_ssa sample_values {0, 1} [2 \<mapsto> Binary SubOp I32 0 1]"
  have "vm_fold sized_apint ?m (Compare CmpLTSOp I32 1 0) = FoldAttr (IntegerAttr (IntegerType 32) (32, 1))"
    by (simp add: vm_fold_def foldCmpLTSOp_def const_compare_def sample_ssa_def result_of_def get_bool_def sized_apint_def ap_holds_def
      sample_values_def ap_signed_def)
  then show ?thesis using fold_constant_type [OF sample_difference_laws] by (simp add: op_typed_def folded_width_def)
qed

section \<open>Rewrites\<close>

lemma is_xor_oneD:
  assumes m: "ssa_laws ap m ty \<rho>" and x: "is_xor_one ap m v user"
  shows "\<exists>b. getDefiningOp m user = Some (Binary XorOp I32 v b) \<and> \<rho> b = 1"
proof (cases "getDefiningOp m user")
  case (Some op)
  then obtain kind W a b where op: "op = Binary kind W a b" using x by (cases op) (simp_all add: is_xor_one_def)
  then have k: "kind = XorOp" "W = I32" "a = v" and attr: "operand_attr m b \<noteq> None"
    using x Some by (simp_all add: is_xor_one_def split: vm_binary.splits vm_width.splits option.splits)
  then obtain at where at: "operand_attr m b = Some at" by blast
  have "ty b = I32" using ssa_matchers(5) [OF m Some] op k by (simp add: op_typed_def)
  obtain c where c: "at = IntegerAttr (IntegerType (bits I32)) c" "represents ap (bits I32) (\<rho> b) c"
    by (rule ssa_attr [OF m at, unfolded \<open>ty b = I32\<close>])
  then have "signed_take_bit 31 (\<rho> b) = 1" using x Some op k at by (simp add: is_xor_one_def represents_def)
  then have "take_bit 32 (\<rho> b) = 1" using take_bit_signed [of I32 "\<rho> b"] by (simp add: ap_signed_def)
  then have "\<rho> b = 1" using ssa_range [OF m \<open>ty b = I32\<close>] by (simp add: in_range)
  then show ?thesis using Some op k by simp
qed (use x in \<open>simp add: is_xor_one_def\<close>)

lemma inverse_compare_holds:
  "inverse_compare kind = Some inverted \<Longrightarrow> ap_holds (ap_cmp_of inverted) n x y = (\<not> ap_holds (ap_cmp_of kind) n x y)"
  by (cases kind) (auto simp: inverse_compare_def ap_cmp_of_def ap_holds_def)

text \<open>
  C20: where a comparison has the one use \<open>xor(cmp, 1)\<close>, the inverse comparison that replaces the exclusive or computes
  the same value, for the eight comparisons that have an inverse.
\<close>

theorem swap_inverted_compare_agrees:
  assumes "ssa_laws ap m ty \<rho>" "getDefiningOp m v = Some op" "SwapInvertedCmpOps ap m [user] v op = Some op'"
  shows "run_op \<rho> op' = Some (\<rho> user)"
proof (cases op)
  case (Compare kind W l r)
  then obtain inverted where inv: "inverse_compare kind = Some inverted" and x: "is_xor_one ap m v user" and op': "op' = Compare inverted W l r"
    using assms(3) by (auto simp: SwapInvertedCmpOps_def split: option.splits if_splits)
  obtain b where b: "getDefiningOp m user = Some (Binary XorOp I32 v b)" "\<rho> b = 1" using is_xor_oneD [OF assms(1) x] by blast
  have ty: "ty l = W" "ty r = W" and v: "run_op \<rho> (Compare kind W l r) = Some (\<rho> v)"
    using ssa_matchers(5) [OF assms(1,2)] Compare by (simp_all add: op_typed_def)
  note run = run_compare_op [of \<rho> l W r] and ranges = ssa_range [OF assms(1) ty(1)] ssa_range [OF assms(1) ty(2)]
  have "run_binary XorOp I32 (\<rho> v) (\<rho> b) = Some (\<rho> user)" using ssa_matchers(5) [OF assms(1) b(1)] by (simp add: run_binary_op)
  then have "Some (\<rho> user) = Some (of_bool (\<not> ap_holds (ap_cmp_of kind) (bits W) (\<rho> l) (\<rho> r)))"
    using run_xor_one [of "ap_holds (ap_cmp_of kind) (bits W) (\<rho> l) (\<rho> r)"] run [of kind] v b(2) ranges by simp
  then show ?thesis using run [of inverted] ranges by (simp add: op' inverse_compare_holds [OF inv])
qed (use assms(3) in \<open>simp_all add: SwapInvertedCmpOps_def\<close>)

definition compare_values :: "nat \<Rightarrow> int" where
  "compare_values u = (if u = 0 then 5 else if u = 1 then 3 else if u = 2 then 0 else 1)"

definition compare_defs :: "nat \<Rightarrow> vm_op option" where
  "compare_defs = [2 \<mapsto> Compare CmpEQOp I32 0 1, 3 \<mapsto> Binary XorOp I32 2 4]"

lemma compare_laws: "ssa_laws sized_apint (sample_ssa compare_values {4} compare_defs) (\<lambda>_. I32) compare_values"
proof (rule sample_laws)
  show "0 \<le> compare_values u \<and> compare_values u < 2 ^ 32" for u by (simp add: compare_values_def)
  have "run_op compare_values (Compare CmpEQOp I32 0 1) = Some 0"
    by (simp add: run_compare_op compare_values_def ap_holds_def ap_cmp_of_def)
  moreover have "run_op compare_values (Binary XorOp I32 2 4) = Some 1"
    by (simp add: run_binary_op run_binary_eq division_ok_def ap_of_def ap_meaning_def compare_values_def)
  ultimately show "op_typed (\<lambda>_. I32) op \<and> run_op compare_values op = Some (compare_values v)" if "compare_defs v = Some op" for v op
    using that by (auto simp: compare_defs_def op_typed_def compare_values_def split: if_splits)
qed

theorem swap_inverted_compare_agrees_witness:
  "SwapInvertedCmpOps sized_apint (sample_ssa compare_values {4} compare_defs) [3] 2 (Compare CmpEQOp I32 0 1) = Some (Compare CmpNEOp I32 0 1)
    \<and> run_op compare_values (Compare CmpNEOp I32 0 1) = Some 1"
proof -
  let ?m = "sample_ssa compare_values {4} compare_defs"
  have s: "SwapInvertedCmpOps sized_apint ?m [3] 2 (Compare CmpEQOp I32 0 1) = Some (Compare CmpNEOp I32 0 1)"
    by (simp add: SwapInvertedCmpOps_def is_xor_one_def inverse_compare_def sample_ssa_def compare_defs_def sized_apint_def compare_values_def)
  have d: "getDefiningOp ?m 2 = Some (Compare CmpEQOp I32 0 1)" by (simp add: sample_ssa_def compare_defs_def)
  show ?thesis using s swap_inverted_compare_agrees [OF compare_laws d s] by (simp add: compare_values_def)
qed





end
