(* ===== verification/VM_FoldFloat.thy ===== *)
theory VM_FoldFloat
  imports VM_Fold
begin

text \<open>
  Folding of the floating point comparisons in the compiler (\<^verbatim>\<open>iree/compiler/Dialect/VM/IR/VMOpFolders.cpp\<close>) against the
  comparisons of the virtual machine. \<^verbatim>\<open>llvm::APFloat\<close> is a parameter: its bit pattern and its comparison. The pseudo
  comparisons are rewritten with the patterns of the integer comparisons.
\<close>

unbundle bit_operations_syntax

section \<open>Folds\<close>

datatype cmp_result = CmpLessThan | CmpEqual | CmpGreaterThan | CmpUnordered

record 'f apfloat =
  af_bits :: "'f \<Rightarrow> u32"
  af_compare :: "'f \<Rightarrow> 'f \<Rightarrow> cmp_result"
  af_isNonZero :: "'f \<Rightarrow> bool"
  af_isNaN :: "'f \<Rightarrow> bool"

datatype CmpFOrdering = ORDERED | UNORDERED

text \<open>
  A comparison folds to an integer constant when both operands are one value. Constant operands fold with
  \<^verbatim>\<open>FloatAttr::get\<close>, to a floating point constant 0.0 or 1.0.
\<close>

datatype cmpf_result = NoFoldF | IntConst bool | FloatConst bool

definition const_compare_float :: "('f \<Rightarrow> 'f \<Rightarrow> bool) \<Rightarrow> 'f option \<Rightarrow> 'f option \<Rightarrow> cmpf_result" where
  "const_compare_float calculate lhs rhs =
    (case (lhs, rhs) of (Some a, Some b) \<Rightarrow> FloatConst (calculate a b) | _ \<Rightarrow> NoFoldF)"

definition foldCmpEQFOp :: "'f apfloat \<Rightarrow> (nat \<Rightarrow> 'f option) \<Rightarrow> CmpFOrdering \<Rightarrow> nat \<Rightarrow> nat \<Rightarrow> cmpf_result" where
  "foldCmpEQFOp af attr ordr lhs rhs =
    (if lhs = rhs then IntConst True
     else const_compare_float (\<lambda>a b. let result = af_compare af a b in
       if ordr = ORDERED then result = CmpEqual else result = CmpEqual \<or> result = CmpUnordered) (attr lhs) (attr rhs))"

definition foldCmpNEFOp :: "'f apfloat \<Rightarrow> (nat \<Rightarrow> 'f option) \<Rightarrow> CmpFOrdering \<Rightarrow> nat \<Rightarrow> nat \<Rightarrow> cmpf_result" where
  "foldCmpNEFOp af attr ordr lhs rhs =
    (if lhs = rhs then IntConst False
     else const_compare_float (\<lambda>a b. let result = af_compare af a b in
       if ordr = ORDERED then result \<noteq> CmpEqual else result \<noteq> CmpEqual \<or> result = CmpUnordered) (attr lhs) (attr rhs))"

definition foldCmpLTFOp :: "'f apfloat \<Rightarrow> (nat \<Rightarrow> 'f option) \<Rightarrow> CmpFOrdering \<Rightarrow> nat \<Rightarrow> nat \<Rightarrow> cmpf_result" where
  "foldCmpLTFOp af attr ordr lhs rhs =
    (if lhs = rhs then IntConst False
     else const_compare_float (\<lambda>a b. let result = af_compare af a b in
       if ordr = ORDERED then result = CmpLessThan else result = CmpLessThan \<or> result = CmpUnordered) (attr lhs) (attr rhs))"

definition foldCmpLTEFOp :: "'f apfloat \<Rightarrow> (nat \<Rightarrow> 'f option) \<Rightarrow> CmpFOrdering \<Rightarrow> nat \<Rightarrow> nat \<Rightarrow> cmpf_result" where
  "foldCmpLTEFOp af attr ordr lhs rhs =
    (if lhs = rhs then IntConst True
     else const_compare_float (\<lambda>a b. let result = af_compare af a b in
       if ordr = ORDERED then result = CmpLessThan \<or> result = CmpEqual
       else result = CmpLessThan \<or> result = CmpEqual \<or> result = CmpUnordered) (attr lhs) (attr rhs))"

definition foldCmpGTFOp :: "'f apfloat \<Rightarrow> (nat \<Rightarrow> 'f option) \<Rightarrow> CmpFOrdering \<Rightarrow> nat \<Rightarrow> nat \<Rightarrow> cmpf_result" where
  "foldCmpGTFOp af attr ordr lhs rhs =
    (if lhs = rhs then IntConst False
     else const_compare_float (\<lambda>a b. let result = af_compare af a b in
       if ordr = ORDERED then result = CmpGreaterThan else result = CmpGreaterThan \<or> result = CmpUnordered) (attr lhs) (attr rhs))"

definition foldCmpGTEFOp :: "'f apfloat \<Rightarrow> (nat \<Rightarrow> 'f option) \<Rightarrow> CmpFOrdering \<Rightarrow> nat \<Rightarrow> nat \<Rightarrow> cmpf_result" where
  "foldCmpGTEFOp af attr ordr lhs rhs =
    (if lhs = rhs then IntConst True
     else const_compare_float (\<lambda>a b. let result = af_compare af a b in
       if ordr = ORDERED then result = CmpGreaterThan \<or> result = CmpEqual
       else result = CmpGreaterThan \<or> result = CmpEqual \<or> result = CmpUnordered) (attr lhs) (attr rhs))"

datatype vm_fcompare = CmpEQF | CmpNEF | CmpLTF | CmpLTEF | CmpGTF | CmpGTEF

definition fold_fcompare :: "'f apfloat \<Rightarrow> (nat \<Rightarrow> 'f option) \<Rightarrow> vm_fcompare \<Rightarrow> CmpFOrdering \<Rightarrow> nat \<Rightarrow> nat \<Rightarrow> cmpf_result" where
  "fold_fcompare af attr kind ordr lhs rhs = (case kind of
     CmpEQF \<Rightarrow> foldCmpEQFOp af attr ordr lhs rhs | CmpNEF \<Rightarrow> foldCmpNEFOp af attr ordr lhs rhs
   | CmpLTF \<Rightarrow> foldCmpLTFOp af attr ordr lhs rhs | CmpLTEF \<Rightarrow> foldCmpLTEFOp af attr ordr lhs rhs
   | CmpGTF \<Rightarrow> foldCmpGTFOp af attr ordr lhs rhs | CmpGTEF \<Rightarrow> foldCmpGTEFOp af attr ordr lhs rhs)"

text \<open>The tests of one operand: \<^verbatim>\<open>constFoldCmpOp\<close> makes a 32-bit integer constant.\<close>

definition foldCmpNZFOp :: "'f apfloat \<Rightarrow> (nat \<Rightarrow> 'f option) \<Rightarrow> CmpFOrdering \<Rightarrow> nat \<Rightarrow> cmpf_result" where
  "foldCmpNZFOp af attr ordr operand = (case attr operand of
     Some a \<Rightarrow> IntConst (if ordr = ORDERED then af_isNonZero af a else af_isNonZero af a \<or> af_isNaN af a)
   | None \<Rightarrow> NoFoldF)"

definition foldCmpNaNOp :: "'f apfloat \<Rightarrow> (nat \<Rightarrow> 'f option) \<Rightarrow> nat \<Rightarrow> cmpf_result" where
  "foldCmpNaNOp af attr operand = (case attr operand of Some a \<Rightarrow> IntConst (af_isNaN af a) | None \<Rightarrow> NoFoldF)"

text \<open>
  The inverse comparisons that \<^verbatim>\<open>SwapInvertedCmpOps\<close> is registered with: \<open>xor(cmp, 1)\<close> becomes the inverse.
\<close>

definition inverse_fcompare :: "vm_fcompare \<Rightarrow> vm_fcompare option" where
  "inverse_fcompare kind = (case kind of
     CmpEQF \<Rightarrow> Some CmpNEF | CmpNEF \<Rightarrow> Some CmpEQF | CmpGTF \<Rightarrow> Some CmpLTEF | CmpGTEF \<Rightarrow> Some CmpLTF | _ \<Rightarrow> None)"

section \<open>Execution\<close>

definition run_lt :: "CmpFOrdering \<Rightarrow> u32 \<Rightarrow> u32 \<Rightarrow> u32" where
  "run_lt ordr l r = (case ordr of ORDERED \<Rightarrow> vm_cmp_lt_f32o l r | UNORDERED \<Rightarrow> vm_cmp_lt_f32u l r)"

text \<open>Greater than is less than with the operands swapped; greater or equal is \<open>xor(lhs < rhs, 1)\<close>.\<close>

definition run_fcompare :: "vm_fcompare \<Rightarrow> CmpFOrdering \<Rightarrow> u32 \<Rightarrow> u32 \<Rightarrow> u32" where
  "run_fcompare kind ordr l r = (case kind of
     CmpEQF \<Rightarrow> (case ordr of ORDERED \<Rightarrow> vm_cmp_eq_f32o l r | UNORDERED \<Rightarrow> vm_cmp_eq_f32u l r)
   | CmpNEF \<Rightarrow> (case ordr of ORDERED \<Rightarrow> vm_cmp_ne_f32o l r | UNORDERED \<Rightarrow> vm_cmp_ne_f32u l r)
   | CmpLTF \<Rightarrow> run_lt ordr l r
   | CmpLTEF \<Rightarrow> (case ordr of ORDERED \<Rightarrow> vm_cmp_lte_f32o l r | UNORDERED \<Rightarrow> vm_cmp_lte_f32u l r)
   | CmpGTF \<Rightarrow> run_lt ordr r l
   | CmpGTEF \<Rightarrow> vm_xor_i32 (run_lt ordr l r) 1)"

text \<open>\<open>APFloat::compare\<close> is the comparison of IEEE 754.\<close>

definition apfloat_laws :: "'f apfloat \<Rightarrow> bool" where
  "apfloat_laws af \<longleftrightarrow>
    (\<forall>a. af_isNaN af a = f32_is_nan (af_bits af a)) \<and> (\<forall>a. af_isNonZero af a = (af_bits af a AND 0x7FFFFFFF \<noteq> 0)) \<and>
    (\<forall>a b. af_compare af a b =
    (if f32_unordered (af_bits af a) (af_bits af b) then CmpUnordered
     else if f32_key (af_bits af a) < f32_key (af_bits af b) then CmpLessThan
     else if f32_key (af_bits af a) = f32_key (af_bits af b) then CmpEqual else CmpGreaterThan))"

lemma bool_i32_simps: "bool_i32 b = 0 \<longleftrightarrow> \<not> b" "vm_xor_i32 (bool_i32 b) 1 = bool_i32 (\<not> b)"
  by (simp_all add: bool_i32_def vm_xor_i32_def)

lemma run_lt_eq: "run_lt ordr l r = bool_i32 (f32_less l r \<or> ordr = UNORDERED \<and> f32_unordered l r)"
  by (cases ordr) (simp_all add: run_lt_def vm_cmp_lt_f32o_def vm_cmp_lt_f32u_def disj_commute)

lemmas fcompare_defs = run_fcompare_def fold_fcompare_def run_lt_eq vm_cmp_eq_f32o_def vm_cmp_eq_f32u_def vm_cmp_ne_f32o_def vm_cmp_ne_f32u_def
  vm_cmp_lte_f32o_def vm_cmp_lte_f32u_def foldCmpEQFOp_def foldCmpNEFOp_def foldCmpLTFOp_def foldCmpLTEFOp_def foldCmpGTFOp_def foldCmpGTEFOp_def

section \<open>Tests of one operand\<close>

text \<open>\<^verbatim>\<open>RewritePseudoCmpNZToNE\<close> replaces the test for nonzero by the comparison with the constant 0.0.\<close>

definition run_cmp_nz :: "CmpFOrdering \<Rightarrow> u32 \<Rightarrow> u32" where
  "run_cmp_nz ordr x = run_fcompare CmpNEF ordr x 0"

lemma f32_key_zero: "f32_key x = 0 \<longleftrightarrow> x AND 0x7FFFFFFF = 0"
  by (auto simp: f32_key_def uint_0_iff)

lemma foldCmpNaNOp_run:
  assumes "apfloat_laws af" "attr v = Some a"
  shows "foldCmpNaNOp af attr v = IntConst (vm_cmp_nan_f32 (af_bits af a) \<noteq> 0)"
  using assms by (simp add: foldCmpNaNOp_def apfloat_laws_def vm_cmp_nan_f32_def bool_i32_simps)

lemma foldCmpNZFOp_run:
  assumes "apfloat_laws af" "attr v = Some a"
  shows "foldCmpNZFOp af attr ordr v = IntConst (run_cmp_nz ordr (af_bits af a) \<noteq> 0)"
proof -
  have z: "\<not> f32_is_nan 0" "f32_key 0 = 0" by (simp_all add: f32_is_nan_def f32_key_def)
  have n: "f32_is_nan x \<Longrightarrow> x AND 0x7FFFFFFF \<noteq> 0" for x by (auto simp: f32_is_nan_def)
  show ?thesis using assms
    by (cases ordr) (auto simp: foldCmpNZFOp_def apfloat_laws_def run_cmp_nz_def fcompare_defs bool_i32_simps f32_eq_def f32_unordered_def z f32_key_zero dest: n)
qed

section \<open>Properties\<close>


definition bits_apfloat :: "u32 apfloat" where
  "bits_apfloat = \<lparr>af_bits = id, af_compare = (\<lambda>a b. if f32_unordered a b then CmpUnordered
     else if f32_key a < f32_key b then CmpLessThan else if f32_key a = f32_key b then CmpEqual else CmpGreaterThan),
     af_isNonZero = (\<lambda>a. a AND 0x7FFFFFFF \<noteq> 0), af_isNaN = f32_is_nan\<rparr>"



text \<open>
  C23: a floating point comparison of a value with itself folds to an integer constant that is right for
  every number. For NaN it is right only for five of the twelve comparisons: \<open>x == x\<close> becomes true for the ordered
  comparison, \<open>x != x\<close> false.
\<close>

theorem float_compare_same_fold:
  "\<exists>t. fold_fcompare af attr kind ordr v v = IntConst t
    \<and> (t = (run_fcompare kind ordr x x \<noteq> 0)) = (f32_is_nan x \<longrightarrow>
        (kind, ordr) \<in> {(CmpEQF, UNORDERED), (CmpLTEF, UNORDERED), (CmpLTF, ORDERED), (CmpGTF, ORDERED), (CmpGTEF, ORDERED)})"
  by (cases kind; cases ordr) (auto simp: fcompare_defs bool_i32_simps f32_eq_def f32_less_def f32_lessequal_def f32_unordered_def)

theorem float_compare_same_fold_witness:
  "fold_fcompare bits_apfloat Map.empty CmpEQF ORDERED 0 0 = IntConst True \<and> run_fcompare CmpEQF ORDERED 0x7FC00000 0x7FC00000 = 0"
proof -
  have n: "f32_is_nan 0x7FC00000" by (simp add: f32_is_nan_def)
  have f: "fold_fcompare bits_apfloat Map.empty CmpEQF ORDERED 0 0 = IntConst True" by (simp add: fcompare_defs)
  show ?thesis
    using float_compare_same_fold [of bits_apfloat Map.empty CmpEQF ORDERED 0 "0x7FC00000"] n f by simp
qed

text \<open>
  Replacing \<open>xor(cmp, 1)\<close> by the inverse floating point comparison keeps the value for all operands that are
  ordered. With a NaN operand it is kept only for the equalities of the ordered kind and for greater or equal.
\<close>

theorem inverse_fcompare_value:
  assumes "inverse_fcompare kind = Some inverted"
  shows "run_fcompare inverted ordr l r = vm_xor_i32 (run_fcompare kind ordr l r) 1 \<longleftrightarrow>
    \<not> f32_unordered l r \<or> kind = CmpGTEF \<or> (ordr = ORDERED \<and> kind \<in> {CmpEQF, CmpNEF})"
proof -
  have b: "bool_i32 a = bool_i32 b \<longleftrightarrow> a = b" for a b by (simp add: bool_i32_def)
  have s: "f32_unordered y x = f32_unordered x y" for x y by (auto simp: f32_unordered_def)
  show ?thesis using assms
    by (cases kind; cases ordr) (auto simp: inverse_fcompare_def fcompare_defs bool_i32_simps b f32_eq_def f32_less_def f32_lessequal_def s)
qed

theorem inverse_fcompare_value_witness:
  "run_fcompare CmpLTEF ORDERED 0x7FC00000 0 \<noteq> vm_xor_i32 (run_fcompare CmpGTF ORDERED 0x7FC00000 0) 1"
proof -
  have "f32_unordered 0x7FC00000 0" by (simp add: f32_unordered_def f32_is_nan_def)
  then show ?thesis
    using inverse_fcompare_value [of CmpGTF CmpLTEF ORDERED "0x7FC00000" 0] by (simp add: inverse_fcompare_def)
qed

end
