(* ===== verification/VM_Branch.thy ===== *)
theory VM_Branch
  imports VM_Fold
begin

text \<open>
  The patterns of \<^verbatim>\<open>iree/compiler/Dialect/VM/IR/VMOpFolders.cpp\<close> that rewrite control flow: a branch through a block that only
  branches, a conditional branch with a constant condition or with equal targets, and a conditional failure. A function is a list
  of blocks. The other operations of a block are parameters: the values they read and define and what they compute from the state.
\<close>

section \<open>Blocks\<close>

datatype ('v, 's) cfg_op =
    Compute "nat list" "nat list" "'s \<Rightarrow> 'v list \<Rightarrow> 's \<times> 'v list"
  | CondFailOp nat nat

datatype terminator =
    BranchOp nat "nat list"
  | CondBranchOp nat nat "nat list" nat "nat list"
  | ReturnOp "nat list"
  | FailOp nat

record ('v, 's) block =
  getArguments :: "nat list"
  block_ops :: "('v, 's) cfg_op list"
  getTerminator :: terminator

fun op_operands :: "('v, 's) cfg_op \<Rightarrow> nat list" where
  "op_operands (Compute rs vs f) = vs"
| "op_operands (CondFailOp c s) = [c, s]"

fun op_results :: "('v, 's) cfg_op \<Rightarrow> nat list" where
  "op_results (Compute rs vs f) = rs"
| "op_results (CondFailOp c s) = []"

fun term_operands :: "terminator \<Rightarrow> nat list" where
  "term_operands (BranchOp d vs) = vs"
| "term_operands (CondBranchOp c t tvs f fvs) = c # tvs @ fvs"
| "term_operands (ReturnOp vs) = vs"
| "term_operands (FailOp s) = [s]"

fun successors :: "terminator \<Rightarrow> (nat \<times> nat list) list" where
  "successors (BranchOp d vs) = [(d, vs)]"
| "successors (CondBranchOp c t tvs f fvs) = [(t, tvs), (f, fvs)]"
| "successors _ = []"

definition block_at :: "('v, 's) block list \<Rightarrow> nat \<Rightarrow> ('v, 's) block option" where
  "block_at blocks b = (if b < length blocks then Some (blocks ! b) else None)"

definition set_terminator :: "('v, 's) block list \<Rightarrow> nat \<Rightarrow> terminator \<Rightarrow> ('v, 's) block list" where
  "set_terminator blocks b t = blocks[b := (blocks ! b)\<lparr>getTerminator := t\<rparr>]"

section \<open>Patterns\<close>

definition used_elsewhere :: "('v, 's) block list \<Rightarrow> nat \<Rightarrow> nat \<Rightarrow> bool" where
  "used_elsewhere blocks succ arg =
    list_ex (\<lambda>i. list_ex (\<lambda>op. arg \<in> set (op_operands op)) (block_ops (blocks ! i))
      \<or> i \<noteq> succ \<and> arg \<in> set (term_operands (getTerminator (blocks ! i)))) [0..<length blocks]"

definition remap_operand :: "nat list \<Rightarrow> nat list \<Rightarrow> nat \<Rightarrow> nat" where
  "remap_operand args successorOperands operand =
    (case map_of (zip args successorOperands) operand of Some v \<Rightarrow> v | None \<Rightarrow> operand)"

definition collapseBranch :: "('v, 's) block list \<Rightarrow> nat \<Rightarrow> nat list \<Rightarrow> (nat \<times> nat list) option" where
  "collapseBranch blocks successor successorOperands =
    (case block_at blocks successor of
       None \<Rightarrow> None
     | Some S \<Rightarrow>
         if block_ops S \<noteq> [] then None
         else (case getTerminator S of
             BranchOp successorDest operands \<Rightarrow>
               if list_ex (used_elsewhere blocks successor) (getArguments S) then None
               else if successorDest = successor then None
               else if getArguments S = [] then Some (successorDest, operands)
               else Some (successorDest, map (remap_operand (getArguments S) successorOperands) operands)
           | _ \<Rightarrow> None))"

definition SimplifyPassThroughBr :: "('v, 's) block list \<Rightarrow> nat \<Rightarrow> terminator option" where
  "SimplifyPassThroughBr blocks b =
    (case map_option getTerminator (block_at blocks b) of
       Some (BranchOp dest destOperands) \<Rightarrow>
         if dest = b then None
         else map_option (\<lambda>(d, vs). BranchOp d vs) (collapseBranch blocks dest destOperands)
     | _ \<Rightarrow> None)"

text \<open>\<open>consts\<close> holds the values that are integer constants, what \<^verbatim>\<open>m_NonZero\<close> and \<^verbatim>\<open>m_Zero\<close> match.\<close>

definition SimplifyConstCondBranchPred :: "(nat \<Rightarrow> 'v option) \<Rightarrow> ('v \<Rightarrow> bool) \<Rightarrow> ('v, 's) block list \<Rightarrow> nat \<Rightarrow> terminator option" where
  "SimplifyConstCondBranchPred consts nonzero blocks b =
    (case map_option getTerminator (block_at blocks b) of
       Some (CondBranchOp condition t tvs f fvs) \<Rightarrow>
         (case consts condition of
            Some c \<Rightarrow> Some (if nonzero c then BranchOp t tvs else BranchOp f fvs)
          | None \<Rightarrow> None)
     | _ \<Rightarrow> None)"

definition SimplifySameTargetCondBranchOp :: "('v, 's) block list \<Rightarrow> nat \<Rightarrow> terminator option" where
  "SimplifySameTargetCondBranchOp blocks b =
    (case map_option getTerminator (block_at blocks b) of
       Some (CondBranchOp condition t tvs f fvs) \<Rightarrow>
         if t \<noteq> f then None else if tvs = fvs then Some (BranchOp t tvs) else None
     | _ \<Rightarrow> None)"

text \<open>
  The conditional failure at position \<open>k\<close> of block \<open>b\<close>: the operations after it move to a block of their own and the failure to
  a block with the status as its argument \<open>arg\<close>. The new blocks go to the end of the list; their order has no meaning.
\<close>

definition RewriteCondFailToBranchFail :: "nat \<Rightarrow> ('v, 's) block list \<Rightarrow> nat \<Rightarrow> nat \<Rightarrow> ('v, 's) block list option" where
  "RewriteCondFailToBranchFail arg blocks b k =
    (case block_at blocks b of
       None \<Rightarrow> None
     | Some B \<Rightarrow>
         if k < length (block_ops B) then
           (case block_ops B ! k of
              CondFailOp condition status \<Rightarrow>
                (let failBlock = length blocks; continueBlock = Suc (length blocks) in
                 Some (blocks[b := B\<lparr>block_ops := take k (block_ops B),
                     getTerminator := CondBranchOp condition failBlock [status] continueBlock []\<rparr>] @
                   [\<lparr>getArguments = [arg], block_ops = [], getTerminator = FailOp arg\<rparr>,
                    \<lparr>getArguments = [], block_ops = drop (Suc k) (block_ops B), getTerminator = getTerminator B\<rparr>]))
            | _ \<Rightarrow> None)
         else None)"

section \<open>Execution\<close>

datatype ('v, 's) outcome = Returned "'v list" 's | Failed 'v 's

definition assign :: "(nat \<Rightarrow> 'v) \<Rightarrow> nat list \<Rightarrow> 'v list \<Rightarrow> nat \<Rightarrow> 'v" where
  "assign env xs vs = (\<lambda>x. case map_of (zip xs vs) x of Some v \<Rightarrow> v | None \<Rightarrow> env x)"

fun run_ops :: "('v \<Rightarrow> bool) \<Rightarrow> ('v, 's) cfg_op list \<Rightarrow> (nat \<Rightarrow> 'v) \<Rightarrow> 's \<Rightarrow> ('v, 's) outcome + (nat \<Rightarrow> 'v) \<times> 's" where
  "run_ops nonzero [] env st = Inr (env, st)"
| "run_ops nonzero (Compute rs vs f # ops) env st =
    (case f st (map env vs) of (st', ws) \<Rightarrow> run_ops nonzero ops (assign env rs ws) st')"
| "run_ops nonzero (CondFailOp c s # ops) env st =
    (if nonzero (env c) then Inl (Failed (env s) st) else run_ops nonzero ops env st)"

text \<open>A block ends the function or passes values to another block.\<close>

fun run_terminator :: "('v \<Rightarrow> bool) \<Rightarrow> terminator \<Rightarrow> (nat \<Rightarrow> 'v) \<Rightarrow> 's \<Rightarrow> ('v, 's) outcome + nat \<times> nat list" where
  "run_terminator nonzero (BranchOp d vs) env st = Inr (d, vs)"
| "run_terminator nonzero (CondBranchOp c t tvs f fvs) env st = Inr (if nonzero (env c) then (t, tvs) else (f, fvs))"
| "run_terminator nonzero (ReturnOp vs) env st = Inl (Returned (map env vs) st)"
| "run_terminator nonzero (FailOp s) env st = Inl (Failed (env s) st)"

inductive runs :: "('v \<Rightarrow> bool) \<Rightarrow> ('v, 's) block list \<Rightarrow> nat \<Rightarrow> (nat \<Rightarrow> 'v) \<Rightarrow> 's \<Rightarrow> ('v, 's) outcome \<Rightarrow> bool"
  for nonzero :: "'v \<Rightarrow> bool" and blocks :: "('v, 's) block list" where
  fail: "block_at blocks b = Some B \<Longrightarrow> run_ops nonzero (block_ops B) env st = Inl r \<Longrightarrow> runs nonzero blocks b env st r"
| finish: "block_at blocks b = Some B \<Longrightarrow> run_ops nonzero (block_ops B) env st = Inr (env', st') \<Longrightarrow>
    run_terminator nonzero (getTerminator B) env' st' = Inl r \<Longrightarrow> runs nonzero blocks b env st r"
| jump: "block_at blocks b = Some B \<Longrightarrow> run_ops nonzero (block_ops B) env st = Inr (env', st') \<Longrightarrow>
    run_terminator nonzero (getTerminator B) env' st' = Inr (d, vs) \<Longrightarrow> block_at blocks d = Some D \<Longrightarrow>
    length vs = length (getArguments D) \<Longrightarrow>
    runs nonzero blocks d (assign env' (getArguments D) (map env' vs)) st' r \<Longrightarrow> runs nonzero blocks b env st r"

text \<open>Branches pass as many values as the target has arguments, as the verifier of the dialect checks.\<close>

definition arity_ok :: "('v, 's) block list \<Rightarrow> bool" where
  "arity_ok blocks = list_all (\<lambda>B. list_all (\<lambda>(d, vs). d < length blocks \<and> length vs = length (getArguments (blocks ! d)))
    (successors (getTerminator B))) blocks"

section \<open>Blocks with the same flow\<close>

text \<open>
  Two functions whose blocks differ only in terminators that go the same way in every environment satisfying \<open>I\<close>, which every
  block keeps.
\<close>

definition keeps :: "('v \<Rightarrow> bool) \<Rightarrow> ((nat \<Rightarrow> 'v) \<Rightarrow> bool) \<Rightarrow> ('v, 's) block \<Rightarrow> bool" where
  "keeps nonzero I B \<longleftrightarrow>
    (\<forall>env st env' st'. I env \<longrightarrow> run_ops nonzero (block_ops B) env st = Inr (env', st') \<longrightarrow> I env') \<and>
    (\<forall>env vs. I env \<longrightarrow> I (assign env (getArguments B) vs))"

definition same_block :: "('v \<Rightarrow> bool) \<Rightarrow> ((nat \<Rightarrow> 'v) \<Rightarrow> bool) \<Rightarrow> ('v, 's) block \<Rightarrow> ('v, 's) block \<Rightarrow> bool" where
  "same_block nonzero I B C \<longleftrightarrow> keeps nonzero I B \<and> getArguments B = getArguments C \<and> block_ops B = block_ops C \<and>
    (\<forall>env (st :: 's). I env \<longrightarrow> run_terminator nonzero (getTerminator B) env st = run_terminator nonzero (getTerminator C) env st)"

lemma keepsD:
  "keeps nonzero I B \<Longrightarrow> I env \<Longrightarrow> run_ops nonzero (block_ops B) env st = Inr (env', st') \<Longrightarrow> I env'"
  "keeps nonzero I B \<Longrightarrow> I env \<Longrightarrow> I (assign env (getArguments B) vs)"
  unfolding keeps_def by blast+

lemma same_blockD:
  assumes "same_block nonzero I (B :: ('v, 's) block) C"
  shows "keeps nonzero I B" "getArguments B = getArguments C" "block_ops B = block_ops C"
    "\<And>env (st :: 's). I env \<Longrightarrow> run_terminator nonzero (getTerminator C) env st = run_terminator nonzero (getTerminator B) env st"
  using assms unfolding same_block_def by auto

lemma same_block_sym: "same_block nonzero I B C \<Longrightarrow> same_block nonzero I C B"
  unfolding same_block_def keeps_def by metis

lemma list_all2_block_at:
  "list_all2 P A B \<Longrightarrow> block_at A b = Some X \<Longrightarrow> \<exists>Y. block_at B b = Some Y \<and> P X Y"
  by (auto simp: block_at_def list_all2_conv_all_nth split: if_splits)

lemma runs_same_flow:
  assumes "runs nonzero A b env st r" "I env" "list_all2 (same_block nonzero I) A B"
  shows "runs nonzero B b env st r"
  using assms
proof (induction rule: runs.induct)
  case (fail b X env st r)
  then obtain Y where "block_at B b = Some Y" "same_block nonzero I X Y" by (blast dest: list_all2_block_at)
  then show ?case using fail(2) by (intro runs.fail) (auto simp: same_blockD)
next
  case (finish b X env st env' st' r)
  then obtain Y where y: "block_at B b = Some Y" "same_block nonzero I X Y" by (blast dest: list_all2_block_at)
  note d = same_blockD [OF y(2)]
  have "I env'" by (rule keepsD(1) [OF d(1) finish(4) finish(2)])
  then show ?case using finish(2,3) d by (intro runs.finish [OF y(1)]) auto
next
  case (jump b X env st env' st' d vs D r)
  then obtain Y where y: "block_at B b = Some Y" "same_block nonzero I X Y" by (blast dest: list_all2_block_at)
  obtain E where e: "block_at B d = Some E" "same_block nonzero I D E" using jump by (blast dest: list_all2_block_at)
  have i: "I env'" by (rule keepsD(1) [OF same_blockD(1) [OF y(2)] jump.prems(1) jump(2)])
  have "I (assign env' (getArguments D) (map env' vs))" by (rule keepsD(2) [OF same_blockD(1) [OF e(2)] i])
  then have n: "runs nonzero B d (assign env' (getArguments E) (map env' vs)) st' r"
    using jump.IH jump.prems(2) same_blockD(2) [OF e(2)] by simp
  show ?case
    using jump(2,3,5) n i same_blockD(2-4) [OF y(2)] same_blockD(2) [OF e(2)] by (intro runs.jump [OF y(1) _ _ e(1)]) auto
qed

lemma runs_same_flow_iff:
  assumes "list_all2 (same_block nonzero I) A B" "I env"
  shows "runs nonzero A b env st r \<longleftrightarrow> runs nonzero B b env st r"
proof -
  have "list_all2 (same_block nonzero I) B A"
    using assms(1) by (auto simp: list_all2_conv_all_nth intro: same_block_sym)
  then show ?thesis using assms runs_same_flow by metis
qed

lemma same_block_set_terminator:
  assumes "\<And>B. B \<in> set blocks \<Longrightarrow> keeps nonzero I B" "block_at blocks b = Some B"
    and "\<And>env (st :: 's). I env \<Longrightarrow> run_terminator nonzero (getTerminator B) env st = run_terminator nonzero t env st"
  shows "list_all2 (same_block nonzero I) (blocks :: ('v, 's) block list) (set_terminator blocks b t)"
  using assms
  by (auto simp: list_all2_conv_all_nth set_terminator_def same_block_def nth_list_update block_at_def split: if_splits)

section \<open>Values that nothing else reads\<close>

definition agree :: "nat set \<Rightarrow> (nat \<Rightarrow> 'v) \<Rightarrow> (nat \<Rightarrow> 'v) \<Rightarrow> bool" where
  "agree X env env' \<longleftrightarrow> (\<forall>x \<in> X. env x = env' x)"

lemma agree_map: "agree X env env' \<Longrightarrow> set vs \<subseteq> X \<Longrightarrow> map env vs = map env' vs"
  by (auto simp: agree_def)

lemma agree_assign: "agree X env env' \<Longrightarrow> agree X (assign env xs vs) (assign env' xs vs)"
  by (auto simp: agree_def assign_def split: option.splits)

lemma agree_assign_all:
  assumes "agree (- set xs) env env'" "length vs = length xs"
  shows "agree UNIV (assign env xs vs) (assign env' xs vs)"
proof -
  have "map_of (zip xs vs) x \<noteq> None" if "x \<in> set xs" for x
    using that assms(2) by (simp add: map_of_zip_is_None)
  then show ?thesis using assms(1) by (fastforce simp: agree_def assign_def split: option.splits)
qed

lemma run_ops_agree:
  assumes "agree X env env'" "\<forall>op \<in> set ops. set (op_operands op) \<subseteq> X"
  shows "case run_ops nonzero ops env st of
      Inl r \<Rightarrow> run_ops nonzero ops env' st = Inl r
    | Inr (env1, st1) \<Rightarrow> \<exists>env2. run_ops nonzero ops env' st = Inr (env2, st1) \<and> agree X env1 env2"
  using assms
proof (induction nonzero ops env st arbitrary: env' rule: run_ops.induct)
  case (1 nonzero env st)
  then show ?case by simp
next
  case (2 nonzero rs vs f ops env st)
  obtain st1 ws where f: "f st (map env vs) = (st1, ws)" by fastforce
  have m: "map env' vs = map env vs" using agree_map [OF 2(2), of vs] 2(3) by simp
  have r: "run_ops nonzero (Compute rs vs f # ops) env' st = run_ops nonzero ops (assign env' rs ws) st1"
    "run_ops nonzero (Compute rs vs f # ops) env st = run_ops nonzero ops (assign env rs ws) st1" by (simp_all add: m f)
  have "agree X (assign env rs ws) (assign env' rs ws)" using 2(2) by (rule agree_assign)
  from 2(1) [OF f [symmetric] this] 2(3) show ?case unfolding r by simp
next
  case (3 nonzero c s ops env st)
  have c: "env c = env' c" "env s = env' s" using 3(2,3) by (auto simp: agree_def)
  show ?case
  proof (cases "nonzero (env c)")
    case True
    then show ?thesis using c by simp
  next
    case False
    then have r: "run_ops nonzero (CondFailOp c s # ops) env' st = run_ops nonzero ops env' st"
      "run_ops nonzero (CondFailOp c s # ops) env st = run_ops nonzero ops env st" using c by simp_all
    from 3(1) [OF False 3(2)] 3(3) show ?thesis unfolding r by simp
  qed
qed

lemma run_terminator_agree:
  assumes "agree X env env'" "set (term_operands t) \<subseteq> X"
  shows "run_terminator nonzero t env st = run_terminator nonzero t env' st"
    "run_terminator nonzero t env st = Inr (d, vs) \<Longrightarrow> map env' vs = map env vs"
  using assms by (cases t; auto simp: agree_def split: if_splits)+

text \<open>The values a block may read when \<open>args\<close> belong to block \<open>succ\<close>.\<close>

definition readable :: "nat list \<Rightarrow> nat \<Rightarrow> nat \<Rightarrow> nat set" where
  "readable args succ b = (if b = succ then UNIV else - set args)"

definition private_args :: "('v, 's) block list \<Rightarrow> nat \<Rightarrow> nat list \<Rightarrow> bool" where
  "private_args blocks succ args \<longleftrightarrow> succ < length blocks \<and> getArguments (blocks ! succ) = args \<and>
    (\<forall>i < length blocks. (\<forall>op \<in> set (block_ops (blocks ! i)). set (op_operands op) \<subseteq> readable args succ i) \<and>
      set (term_operands (getTerminator (blocks ! i))) \<subseteq> readable args succ i)"

lemma private_argsD:
  assumes "private_args blocks succ args" "block_at blocks b = Some B"
  shows "\<forall>op \<in> set (block_ops B). set (op_operands op) \<subseteq> readable args succ b"
    "set (term_operands (getTerminator B)) \<subseteq> readable args succ b" "b = succ \<Longrightarrow> getArguments B = args"
  using assms unfolding private_args_def block_at_def by (auto split: if_splits)

lemma agree_enter:
  assumes "private_args blocks succ args" "block_at blocks d = Some D" "agree (- set args) env env'" "length vs = length (getArguments D)"
  shows "agree (readable args succ d) (assign env (getArguments D) vs) (assign env' (getArguments D) vs)"
proof (cases "d = succ")
  case True
  then show ?thesis using private_argsD(3) [OF assms(1,2)] agree_assign_all assms(3,4) by (auto simp: readable_def)
next
  case False
  then show ?thesis using agree_assign [OF assms(3)] by (simp add: readable_def)
qed

lemma runs_agree:
  assumes "runs nonzero blocks b env st r" "agree (readable args succ b) env env'" "private_args blocks succ args"
  shows "runs nonzero blocks b env' st r"
  using assms
proof (induction arbitrary: env' rule: runs.induct)
  case (fail b B env st r)
  show ?case
    using run_ops_agree [OF fail(3) private_argsD(1) [OF fail(4,1)], where nonzero = nonzero and st = st] fail(2) by (auto intro: runs.fail [OF fail(1)])
next
  case (finish b B env st env1 st1 r)
  obtain env2 where e: "run_ops nonzero (block_ops B) env' st = Inr (env2, st1)" "agree (readable args succ b) env1 env2"
    using run_ops_agree [OF finish(4) private_argsD(1) [OF finish(5,1)], where nonzero = nonzero and st = st] finish(2) by auto
  show ?case
    using run_terminator_agree(1) [OF e(2) private_argsD(2) [OF finish(5,1)], where nonzero = nonzero and st = st1] finish(3)
    by (intro runs.finish [OF finish(1) e(1)]) simp
next
  case (jump b B env st env1 st1 d vs D r)
  note p = jump.prems(2)
  obtain env2 where e: "run_ops nonzero (block_ops B) env' st = Inr (env2, st1)" "agree (readable args succ b) env1 env2"
    using run_ops_agree [OF jump.prems(1) private_argsD(1) [OF p jump(1)], where nonzero = nonzero and st = st] jump(2) by auto
  note t = run_terminator_agree [OF e(2) private_argsD(2) [OF p jump(1)]]
  have "agree (- set args) env1 env2" using e(2) by (auto simp: agree_def readable_def split: if_splits)
  then have "runs nonzero blocks d (assign env2 (getArguments D) (map env1 vs)) st1 r"
    by (intro jump.IH [OF agree_enter [OF p jump(4)] p]) (simp_all add: jump(5))
  then have "runs nonzero blocks d (assign env2 (getArguments D) (map env2 vs)) st1 r" using t(2) [OF jump(3)] by (simp only:)
  then show ?case
    using t(1) [where nonzero = nonzero and st = st1] jump(3) by (intro runs.jump [OF jump(1) e(1) _ jump(4,5)]) simp_all
qed

section \<open>A branch through a block\<close>

lemma block_at_set_terminator:
  "block_at (set_terminator blocks p t) b = map_option (\<lambda>B. if b = p then B\<lparr>getTerminator := t\<rparr> else B) (block_at blocks b)"
  by (auto simp: block_at_def set_terminator_def nth_list_update)

text \<open>Block \<open>p\<close> branches with \<open>ops\<close> to block \<open>succ\<close>, which only branches with \<open>sops\<close> to block \<open>dest\<close>.\<close>

definition pass_through :: "('v, 's) block list \<Rightarrow> nat \<Rightarrow> nat \<Rightarrow> nat list \<Rightarrow> nat list \<Rightarrow> nat \<Rightarrow> nat list \<Rightarrow> bool" where
  "pass_through blocks p succ args ops dest sops \<longleftrightarrow>
    private_args blocks succ args \<and> succ \<noteq> p \<and> dest \<noteq> succ \<and> length ops = length args \<and>
    (\<exists>P. block_at blocks p = Some P \<and> getTerminator P = BranchOp succ ops) \<and>
    (\<exists>S. block_at blocks succ = Some S \<and> getArguments S = args \<and> block_ops S = [] \<and> getTerminator S = BranchOp dest sops)"

lemma used_elsewhere_private:
  assumes "\<not> list_ex (used_elsewhere blocks succ) args" "succ < length blocks" "getArguments (blocks ! succ) = args"
  shows "private_args blocks succ args"
  using assms by (fastforce simp: private_args_def readable_def used_elsewhere_def list_ex_iff)

lemma SimplifyPassThroughBr_cases:
  assumes "SimplifyPassThroughBr blocks p = Some t" "arity_ok blocks"
  obtains succ args ops dest sops where "pass_through blocks p succ args ops dest sops"
    "t = BranchOp dest (map (remap_operand args ops) sops)"
proof -
  obtain P succ ops where p: "block_at blocks p = Some P" "getTerminator P = BranchOp succ ops" "succ \<noteq> p"
    "map_option (\<lambda>(d, vs). BranchOp d vs) (collapseBranch blocks succ ops) = Some t"
    using assms(1) by (auto simp: SimplifyPassThroughBr_def split: option.splits terminator.splits if_splits)
  then obtain d vs where c: "collapseBranch blocks succ ops = Some (d, vs)" "t = BranchOp d vs" by auto
  then obtain S sops where s: "block_at blocks succ = Some S" "block_ops S = []" "getTerminator S = BranchOp d sops"
    "\<not> list_ex (used_elsewhere blocks succ) (getArguments S)" "d \<noteq> succ"
    "vs = (if getArguments S = [] then sops else map (remap_operand (getArguments S) ops) sops)"
    by (auto simp: collapseBranch_def split: option.splits terminator.splits if_splits)
  have "P \<in> set blocks" "S = blocks ! succ" "succ < length blocks" using p(1) s(1) by (auto simp: block_at_def split: if_splits)
  then have l: "length ops = length (getArguments S)" "private_args blocks succ (getArguments S)"
    using assms(2) p(2) s(4) by (auto simp: arity_ok_def list_all_iff intro: used_elsewhere_private)
  have "remap_operand [] ops = (\<lambda>x. x)" by (simp add: remap_operand_def fun_eq_iff)
  then have "vs = map (remap_operand (getArguments S) ops) sops" using s(6) by auto
  then show thesis using that [of succ "getArguments S" ops d sops] p s l c by (auto simp: pass_through_def)
qed

lemma remap_operand_value: "assign env args (map env ops) x = env (remap_operand args ops x)"
proof -
  have "map_of (zip args (map env ops)) x = map_option env (map_of (zip args ops) x)"
    by (simp add: zip_map2 map_of_map)
  then show ?thesis by (simp add: assign_def remap_operand_def split: option.splits)
qed

lemma remap_operand_readable:
  assumes "length ops = length args" "set ops \<subseteq> - set args"
  shows "remap_operand args ops x \<notin> set args"
proof (cases "map_of (zip args ops) x")
  case None
  then have "x \<notin> set args" using assms by (simp add: map_of_zip_is_None)
  then show ?thesis by (simp add: remap_operand_def None)
next
  case (Some v)
  then have "v \<in> set ops" by (auto dest: map_of_SomeD set_zip_rightD)
  then show ?thesis using assms Some by (auto simp: remap_operand_def)
qed

lemma pass_through_private:
  assumes "pass_through blocks p succ args ops dest sops"
  shows "private_args (set_terminator blocks p (BranchOp dest (map (remap_operand args ops) sops))) succ args"
proof -
  have a: "private_args blocks succ args" "succ \<noteq> p" "length ops = length args" using assms by (simp_all add: pass_through_def)
  obtain P where P: "block_at blocks p = Some P" "getTerminator P = BranchOp succ ops" using assms by (auto simp: pass_through_def)
  then have "p < length blocks" by (simp add: block_at_def split: if_splits)
  moreover have "set ops \<subseteq> - set args" using private_argsD(2) [OF a(1) P(1)] P(2) a(2) by (fastforce simp: readable_def)
  then have "set (map (remap_operand args ops) sops) \<subseteq> - set args" using remap_operand_readable [OF a(3)] by auto
  ultimately show ?thesis using a(1,2)
    by (fastforce simp: private_args_def set_terminator_def nth_list_update readable_def split: if_splits)
qed

inductive_cases runs_cases: "runs nonzero blocks b env st r"

lemma runs_branch:
  assumes "block_at blocks b = Some B" "block_ops B = []" "getTerminator B = BranchOp d vs"
  shows "runs nonzero blocks b env st r \<longleftrightarrow> (\<exists>D. block_at blocks d = Some D \<and> length vs = length (getArguments D) \<and>
    runs nonzero blocks d (assign env (getArguments D) (map env vs)) st r)"
  using assms by (subst runs.simps) auto

text \<open>Going through the block and going past it arrive with environments that differ only in its arguments.\<close>

lemma pass_through_arrives:
  assumes "pass_through blocks p succ args ops dest sops" "block_at blocks succ = Some S" "private_args C succ args"
    and "block_at C succ = Some S"
  shows "runs nonzero C succ (assign env args (map env ops)) st r \<longleftrightarrow>
    (\<exists>D. block_at C dest = Some D \<and> length sops = length (getArguments D) \<and>
      runs nonzero C dest (assign env (getArguments D) (map env (map (remap_operand args ops) sops))) st r)"
proof -
  let ?env1 = "assign env args (map env ops)"
  have s: "block_ops S = []" "getTerminator S = BranchOp dest sops" "dest \<noteq> succ" "length ops = length args"
    using assms(1,2) by (auto simp: pass_through_def)
  have m: "map ?env1 sops = map env (map (remap_operand args ops) sops)" by (simp add: remap_operand_value)
  have a: "agree (- set args) env ?env1"
    by (auto simp: agree_def assign_def split: option.splits dest: map_of_SomeD set_zip_leftD)
  have e: "runs nonzero C dest (assign ?env1 xs ws) st r \<longleftrightarrow> runs nonzero C dest (assign env xs ws) st r" for xs ws
  proof -
    have g: "agree (readable args succ dest) (assign env xs ws) (assign ?env1 xs ws)"
      using agree_assign [OF a] s(3) by (simp add: readable_def)
    then have "agree (readable args succ dest) (assign ?env1 xs ws) (assign env xs ws)" by (simp add: agree_def)
    with g show ?thesis using runs_agree [OF _ _ assms(3)] by blast
  qed
  show ?thesis unfolding runs_branch [OF assms(4) s(1,2)] m e ..
qed

lemma pass_through_forward:
  assumes "runs nonzero blocks b env st r" "pass_through blocks p succ args ops dest sops"
    and "blocks' = set_terminator blocks p (BranchOp dest (map (remap_operand args ops) sops))"
  shows "runs nonzero blocks' b env st r"
  using assms
proof (induction rule: runs.induct)
  case (fail b B env st r)
  then show ?case by (intro runs.fail [of _ _ "if b = p then B\<lparr>getTerminator := BranchOp dest (map (remap_operand args ops) sops)\<rparr> else B"])
      (simp_all add: block_at_set_terminator)
next
  case (finish b B env st env' st' r)
  then have "b \<noteq> p" by (auto simp: pass_through_def)
  then show ?case using finish by (intro runs.finish [of _ _ B]) (simp_all add: block_at_set_terminator)
next
  case (jump b B env st env' st' d vs D r)
  note at = block_at_set_terminator [of blocks p "BranchOp dest (map (remap_operand args ops) sops)", folded jump.prems(2)]
  obtain D' where d': "block_at blocks' d = Some D'" "getArguments D' = getArguments D" using jump(4) by (simp add: at)
  have n: "runs nonzero blocks' d (assign env' (getArguments D) (map env' vs)) st' r" using jump.IH jump.prems by simp
  show ?case
  proof (cases "b = p")
    case False
    then show ?thesis using jump(1-3,5) n d' by (intro runs.jump [of _ b B _ _ _ _ _ d vs D']) (simp_all add: at)
  next
    case True
    then have v: "d = succ" "vs = ops" "getArguments D = args" "succ \<noteq> p"
      using jump(1,3,4) jump.prems(1) by (auto simp: pass_through_def)
    have p': "private_args blocks' succ args" using pass_through_private [OF jump.prems(1)] jump.prems(2) by simp
    have "block_at blocks' succ = Some D" using jump(4) v by (simp add: at)
    then obtain E where e: "block_at blocks' dest = Some E" "length sops = length (getArguments E)"
      "runs nonzero blocks' dest (assign env' (getArguments E) (map env' (map (remap_operand args ops) sops))) st' r"
      using pass_through_arrives [OF jump.prems(1) _ p'] n jump(4) v by auto
    have "block_at blocks' p = Some (B\<lparr>getTerminator := BranchOp dest (map (remap_operand args ops) sops)\<rparr>)"
      using jump(1) True by (simp add: at)
    then show ?thesis using jump(2) True e(2) by (auto intro!: runs.jump [OF _ _ _ e(1) _ e(3)])
  qed
qed

lemma pass_through_backward:
  assumes "runs nonzero blocks' b env st r" "pass_through blocks p succ args ops dest sops"
    and "blocks' = set_terminator blocks p (BranchOp dest (map (remap_operand args ops) sops))"
  shows "runs nonzero blocks b env st r"
  using assms
proof (induction rule: runs.induct)
  case (fail b B env st r)
  then obtain C where "block_at blocks b = Some C" "block_ops C = block_ops B" by (auto simp: block_at_set_terminator split: if_splits)
  then show ?case using fail(2) by (auto intro: runs.fail)
next
  case (finish b B env st env' st' r)
  then have "b \<noteq> p" by (auto simp: block_at_set_terminator)
  then show ?case using finish by (intro runs.finish [of _ _ B]) (auto simp: block_at_set_terminator split: if_splits)
next
  case (jump b B env st env' st' d vs D r)
  note at = block_at_set_terminator [of blocks p "BranchOp dest (map (remap_operand args ops) sops)", folded jump.prems(2)]
  obtain D' where d': "block_at blocks d = Some D'" "getArguments D' = getArguments D" using jump(4) by (auto simp: at split: if_splits)
  have n: "runs nonzero blocks d (assign env' (getArguments D) (map env' vs)) st' r" using jump.IH jump.prems by simp
  show ?case
  proof (cases "b = p")
    case False
    then show ?thesis using jump(1-3,5) n d' by (intro runs.jump [of _ b B _ _ _ _ _ d vs D']) (auto simp: at split: if_splits)
  next
    case True
    obtain P S where s: "block_at blocks p = Some P" "getTerminator P = BranchOp succ ops" "block_at blocks succ = Some S"
      "getArguments S = args" "private_args blocks succ args" "length ops = length args" using jump.prems(1) by (auto simp: pass_through_def)
    have v: "d = dest" "vs = map (remap_operand args ops) sops" "block_ops P = block_ops B" using True jump(1,3) s(1) by (auto simp: at)
    have "runs nonzero blocks succ (assign env' args (map env' ops)) st' r"
      unfolding pass_through_arrives [OF jump.prems(1) s(3,5,3)] using n d' jump(5) v by (intro exI [of _ D']) auto
    then show ?thesis using jump(2) True s v by (intro runs.jump [where b = b and d = succ and D = S and B = P]) auto
  qed
qed

section \<open>Constant conditions\<close>

text \<open>The constants have their values, and nothing defines them again.\<close>

definition holds_consts :: "(nat \<Rightarrow> 'v option) \<Rightarrow> (nat \<Rightarrow> 'v) \<Rightarrow> bool" where
  "holds_consts consts env \<longleftrightarrow> (\<forall>x c. consts x = Some c \<longrightarrow> env x = c)"

definition defines_no_const :: "(nat \<Rightarrow> 'v option) \<Rightarrow> ('v, 's) block list \<Rightarrow> bool" where
  "defines_no_const consts blocks = list_all (\<lambda>B. list_all (\<lambda>x. consts x = None) (getArguments B) \<and>
    list_all (\<lambda>op. list_all (\<lambda>x. consts x = None) (op_results op)) (block_ops B)) blocks"

lemma holds_consts_assign:
  assumes "holds_consts consts env" "list_all (\<lambda>x. consts x = None) xs"
  shows "holds_consts consts (assign env xs vs)"
proof -
  have "map_of (zip xs vs) x = None" if "consts x = Some c" for x c
  proof (rule ccontr)
    assume "map_of (zip xs vs) x \<noteq> None"
    then have "x \<in> set xs" by (auto dest!: map_of_SomeD set_zip_leftD)
    then show False using assms(2) that by (auto simp: list_all_iff)
  qed
  then show ?thesis using assms(1) by (simp add: holds_consts_def assign_def)
qed

lemma holds_consts_run_ops:
  assumes "run_ops nonzero ops env st = Inr (env', st')" "holds_consts consts env"
    and "list_all (\<lambda>op. list_all (\<lambda>x. consts x = None) (op_results op)) ops"
  shows "holds_consts consts env'"
  using assms
proof (induction nonzero ops env st arbitrary: env' st' rule: run_ops.induct)
  case (2 nonzero rs vs f ops env st)
  then show ?case by (auto split: prod.splits intro: holds_consts_assign)
qed (auto split: if_splits)

lemma defines_no_const_keeps:
  assumes "defines_no_const consts blocks" "B \<in> set blocks"
  shows "keeps nonzero (holds_consts consts) B"
proof -
  have b: "list_all (\<lambda>x. consts x = None) (getArguments B)"
    "list_all (\<lambda>op. list_all (\<lambda>x. consts x = None) (op_results op)) (block_ops B)"
    using assms unfolding defines_no_const_def list_all_iff [of _ blocks] by simp_all
  show ?thesis
    unfolding keeps_def
  proof (intro conjI allI impI)
    fix env st env' st'
    assume "holds_consts consts env" "run_ops nonzero (block_ops B) env st = Inr (env', st')"
    then show "holds_consts consts env'" using b(2) by (auto intro: holds_consts_run_ops)
  qed (rule holds_consts_assign [OF _ b(1)])
qed

section \<open>A conditional failure\<close>

lemma run_ops_append:
  "run_ops nonzero (xs @ ys) env st =
    (case run_ops nonzero xs env st of Inl r \<Rightarrow> Inl r | Inr (env', st') \<Rightarrow> run_ops nonzero ys env' st')"
  by (induction nonzero xs env st rule: run_ops.induct) (auto split: prod.splits)

lemma RewriteCondFail_cases:
  assumes "RewriteCondFailToBranchFail arg blocks b k = Some blocks'"
  obtains B c s where "block_at blocks b = Some B" "k < length (block_ops B)" "block_ops B ! k = CondFailOp c s"
    "blocks' = blocks[b := B\<lparr>block_ops := take k (block_ops B),
        getTerminator := CondBranchOp c (length blocks) [s] (Suc (length blocks)) []\<rparr>] @
      [\<lparr>getArguments = [arg], block_ops = [], getTerminator = FailOp arg\<rparr>,
       \<lparr>getArguments = [], block_ops = drop (Suc k) (block_ops B), getTerminator = getTerminator B\<rparr>]"
  using assms by (auto simp: RewriteCondFailToBranchFail_def Let_def split: option.splits if_splits cfg_op.splits)

text \<open>Block \<open>b\<close> is split at the failure with condition \<open>c\<close> and status \<open>s\<close> into \<open>pre\<close> and \<open>post\<close>.\<close>

definition split_at :: "nat \<Rightarrow> ('v, 's) block list \<Rightarrow> ('v, 's) block list \<Rightarrow> nat \<Rightarrow> ('v, 's) block \<Rightarrow> ('v, 's) cfg_op list \<Rightarrow> nat \<Rightarrow> nat \<Rightarrow>
    ('v, 's) cfg_op list \<Rightarrow> bool" where
  "split_at arg blocks blocks' b B pre c s post \<longleftrightarrow>
    block_at blocks b = Some B \<and> block_ops B = pre @ CondFailOp c s # post \<and>
    blocks' = blocks[b := B\<lparr>block_ops := pre, getTerminator := CondBranchOp c (length blocks) [s] (Suc (length blocks)) []\<rparr>] @
      [\<lparr>getArguments = [arg], block_ops = [], getTerminator = FailOp arg\<rparr>,
       \<lparr>getArguments = [], block_ops = post, getTerminator = getTerminator B\<rparr>]"

lemma RewriteCondFail_split:
  assumes "RewriteCondFailToBranchFail arg blocks b k = Some blocks'"
  obtains B pre c s post where "split_at arg blocks blocks' b B pre c s post"
proof (rule RewriteCondFail_cases [OF assms])
  fix B c s
  assume a: "block_at blocks b = Some B" "k < length (block_ops B)" "block_ops B ! k = CondFailOp c s"
    "blocks' = blocks[b := B\<lparr>block_ops := take k (block_ops B),
        getTerminator := CondBranchOp c (length blocks) [s] (Suc (length blocks)) []\<rparr>] @
      [\<lparr>getArguments = [arg], block_ops = [], getTerminator = FailOp arg\<rparr>,
       \<lparr>getArguments = [], block_ops = drop (Suc k) (block_ops B), getTerminator = getTerminator B\<rparr>]"
  have "block_ops B = take k (block_ops B) @ CondFailOp c s # drop (Suc k) (block_ops B)"
    using id_take_nth_drop [OF a(2)] a(3) by simp
  then show thesis using a by (intro that [of B "take k (block_ops B)" c s "drop (Suc k) (block_ops B)"]) (simp add: split_at_def)
qed

lemma split_at_blocks:
  assumes "split_at arg blocks blocks' b B pre c s post"
  shows "block_at blocks' b = Some (B\<lparr>block_ops := pre, getTerminator := CondBranchOp c (length blocks) [s] (Suc (length blocks)) []\<rparr>)"
    "block_at blocks' (length blocks) = Some \<lparr>getArguments = [arg], block_ops = [], getTerminator = FailOp arg\<rparr>"
    "block_at blocks' (Suc (length blocks)) = Some \<lparr>getArguments = [], block_ops = post, getTerminator = getTerminator B\<rparr>"
    "\<And>x. x < length blocks \<Longrightarrow> x \<noteq> b \<Longrightarrow> block_at blocks' x = block_at blocks x"
    "block_at blocks b = Some B" "b < length blocks"
  using assms by (auto simp: split_at_def block_at_def nth_append nth_list_update split: if_splits)

lemma block_at_lt: "block_at blocks b = Some B \<Longrightarrow> b < length blocks"
  by (simp add: block_at_def split: if_splits)

lemma split_at_arguments:
  assumes "split_at arg blocks blocks' b B pre c s post" "block_at blocks d = Some D"
  shows "\<exists>E. block_at blocks' d = Some E \<and> getArguments E = getArguments D"
  using assms split_at_blocks [OF assms(1)] block_at_lt [OF assms(2)] by (cases "d = b") auto

lemma assign_nil [simp]: "assign env [] vs = env"
  by (simp add: assign_def)

lemma split_at_fail: "split_at arg blocks blocks' b B pre c s post \<Longrightarrow>
    runs nonzero blocks' (length blocks) env st r \<longleftrightarrow> r = Failed (env arg) st"
  by (subst runs.simps) (auto simp: split_at_blocks)

text \<open>The block after the rewrite: what its first part does, the failure, and the rest in its block.\<close>

lemma split_at_runs:
  assumes "split_at arg blocks blocks' b B pre c s post"
  shows "runs nonzero blocks' b env st r \<longleftrightarrow> (case run_ops nonzero pre env st of
      Inl r' \<Rightarrow> r = r'
    | Inr (env', st') \<Rightarrow> if nonzero (env' c) then r = Failed (env' s) st' else runs nonzero blocks' (Suc (length blocks)) env' st' r)"
  by (subst runs.simps)
    (auto simp: split_at_blocks [OF assms] split_at_fail [OF assms] assign_def split: sum.splits)

lemma split_at_run_ops:
  assumes "split_at arg blocks blocks' b B pre c s post"
  shows "run_ops nonzero (block_ops B) env st = (case run_ops nonzero pre env st of
      Inl r' \<Rightarrow> Inl r'
    | Inr (env', st') \<Rightarrow> if nonzero (env' c) then Inl (Failed (env' s) st') else run_ops nonzero post env' st')"
proof -
  have "block_ops B = pre @ CondFailOp c s # post" using assms by (simp add: split_at_def)
  then show ?thesis by (simp add: run_ops_append split: sum.splits)
qed

lemma split_at_forward:
  assumes "runs nonzero blocks x env st r" "split_at arg blocks blocks' b B pre c s post"
  shows "runs nonzero blocks' x env st r"
  using assms
proof (induction rule: runs.induct)
  case (fail x X env st r)
  note a = split_at_blocks [OF fail(3)]
  show ?case
  proof (cases "x = b")
    case True
    then have "X = B" using fail(1) a(5) by simp
    then have "run_ops nonzero (block_ops B) env st = Inl r" using fail(2) by simp
    then show ?thesis
      unfolding True split_at_runs [OF fail(3)] split_at_run_ops [OF fail(3)]
      by (auto split: sum.splits if_splits intro: runs.fail [OF a(3)])
  next
    case False
    then show ?thesis using fail(1,2) a(4) block_at_lt [OF fail(1)] by (auto intro: runs.fail)
  qed
next
  case (finish x X env st env' st' r)
  note a = split_at_blocks [OF finish(4)]
  show ?case
  proof (cases "x = b")
    case True
    then have x: "X = B" using finish(1) a(5) by simp
    then have "run_ops nonzero (block_ops B) env st = Inr (env', st')" using finish(2) by simp
    then show ?thesis using finish(3)
      unfolding True split_at_runs [OF finish(4)] split_at_run_ops [OF finish(4)] x
      by (auto split: sum.splits if_splits intro: runs.finish [OF a(3)])
  next
    case False
    then show ?thesis using finish(1-3) a(4) block_at_lt [OF finish(1)] by (auto intro: runs.finish)
  qed
next
  case (jump x X env st env' st' d vs D r)
  note sp = jump.prems(1)
  note a = split_at_blocks [OF sp]
  obtain E where e: "block_at blocks' d = Some E" "getArguments E = getArguments D" using split_at_arguments [OF sp jump(4)] by blast
  have l: "length vs = length (getArguments E)" using jump(5) e(2) by simp
  have n: "runs nonzero blocks' d (assign env' (getArguments E) (map env' vs)) st' r" using jump.IH [OF sp] e by simp
  show ?case
  proof (cases "x = b")
    case True
    then have x: "X = B" using jump(1) a(5) by simp
    then have "run_ops nonzero (block_ops B) env st = Inr (env', st')" using jump(2) by simp
    then show ?thesis using jump(3)
      unfolding True split_at_runs [OF sp] split_at_run_ops [OF sp] x
      by (auto split: sum.splits if_splits intro: runs.jump [OF a(3) _ _ e(1) l n])
  next
    case False
    then have "block_at blocks' x = Some X" using jump(1) a(4) block_at_lt [OF jump(1)] by simp
    then show ?thesis using jump(2,3) by (auto intro: runs.jump [OF _ _ _ e(1) l n])
  qed
qed

lemma arity_ok_target:
  assumes "arity_ok blocks" "block_at blocks x = Some X" "run_terminator nonzero (getTerminator X) env st = Inr (d, vs)"
  shows "d < length blocks"
proof -
  have "X \<in> set blocks" using assms(2) by (auto simp: block_at_def split: if_splits)
  moreover have "(d, vs) \<in> set (successors (getTerminator X))" using assms(3) by (cases "getTerminator X") (auto split: if_splits)
  ultimately show ?thesis using assms(1) by (auto simp: arity_ok_def list_all_iff)
qed

lemma split_at_backward:
  assumes "runs nonzero blocks' x env st r" "split_at arg blocks blocks' b B pre c s post" "arity_ok blocks"
  shows "(x < length blocks \<longrightarrow> runs nonzero blocks x env st r) \<and>
    (x = Suc (length blocks) \<longrightarrow> (\<forall>env0 st0. run_ops nonzero pre env0 st0 = Inr (env, st) \<longrightarrow> \<not> nonzero (env c) \<longrightarrow> runs nonzero blocks b env0 st0 r))"
  using assms
proof (induction rule: runs.induct)
  case (fail x X env st r)
  note a = split_at_blocks [OF fail(3)]
  have "runs nonzero blocks x env st r" if "x < length blocks"
  proof (cases "x = b")
    case True
    then have "run_ops nonzero (block_ops B) env st = Inl r" using fail(1,2) a(1) by (auto simp: split_at_run_ops [OF fail(3)])
    then show ?thesis using True by (auto intro: runs.fail [OF a(5)])
  next
    case False
    then show ?thesis using fail(1,2) a(4) that by (auto intro: runs.fail)
  qed
  moreover have "runs nonzero blocks b env0 st0 r"
    if "x = Suc (length blocks)" "run_ops nonzero pre env0 st0 = Inr (env, st)" "\<not> nonzero (env c)" for env0 st0
  proof -
    have "run_ops nonzero (block_ops B) env0 st0 = Inl r" using fail(1,2) a(3) that by (auto simp: split_at_run_ops [OF fail(3)])
    then show ?thesis by (rule runs.fail [OF a(5)])
  qed
  ultimately show ?case by blast
next
  case (finish x X env st env' st' r)
  note a = split_at_blocks [OF finish(4)]
  have "runs nonzero blocks x env st r" if "x < length blocks"
  proof -
    have "x \<noteq> b" using finish(1,3) a(1) by auto
    then show ?thesis using finish(1-3) a(4) that by (auto intro: runs.finish)
  qed
  moreover have "runs nonzero blocks b env0 st0 r"
    if "x = Suc (length blocks)" "run_ops nonzero pre env0 st0 = Inr (env, st)" "\<not> nonzero (env c)" for env0 st0
  proof -
    have "run_ops nonzero (block_ops B) env0 st0 = Inr (env', st')" using finish(1,2) a(3) that by (auto simp: split_at_run_ops [OF finish(4)])
    then show ?thesis using finish(1,3) a(3) that by (auto intro: runs.finish [OF a(5)])
  qed
  ultimately show ?case by blast
next
  case (jump x X env st env' st' d vs D r)
  note sp = jump.prems(1)
  note a = split_at_blocks [OF sp]
  have n: "\<exists>E. block_at blocks d = Some E \<and> length vs = length (getArguments E) \<and>
      runs nonzero blocks d (assign env' (getArguments E) (map env' vs)) st' r" if "d < length blocks"
  proof (cases "d = b")
    case True
    then show ?thesis using a(1,5) jump(4,5) jump.IH [OF jump.prems] that by auto
  next
    case False
    then show ?thesis using a(4) jump(4,5) jump.IH [OF jump.prems] that by auto
  qed
  have "runs nonzero blocks x env st r" if x: "x < length blocks"
  proof (cases "x = b")
    case False
    then have X: "block_at blocks x = Some X" using jump(1) a(4) x by simp
    have "d < length blocks" by (rule arity_ok_target [OF jump.prems(2) X jump(3)])
    then show ?thesis using n by (auto intro: runs.jump [OF X jump(2,3)])
  next
    case True
    then have o: "run_ops nonzero pre env st = Inr (env', st')" "getTerminator X = CondBranchOp c (length blocks) [s] (Suc (length blocks)) []"
      using jump(1,2) a(1) by auto
    show ?thesis
    proof (cases "nonzero (env' c)")
      case False
      then have "d = Suc (length blocks)" "getArguments D = []" using o jump(3,4) a(3) by auto
      then show ?thesis using jump.IH [OF jump.prems] o(1) False True by auto
    next
      case t: True
      then have d: "d = length blocks" "getArguments D = [arg]" "vs = [s]" using o jump(3,4) a(2) by auto
      then have "r = Failed (env' s) st'" using jump(6) split_at_fail [OF sp] by (simp add: assign_def)
      then have "run_ops nonzero (block_ops B) env st = Inl r" using o t by (simp add: split_at_run_ops [OF sp])
      then show ?thesis using True by (auto intro: runs.fail [OF a(5)])
    qed
  qed
  moreover have "runs nonzero blocks b env0 st0 r"
    if k: "x = Suc (length blocks)" "run_ops nonzero pre env0 st0 = Inr (env, st)" "\<not> nonzero (env c)" for env0 st0
  proof -
    have o: "run_ops nonzero (block_ops B) env0 st0 = Inr (env', st')" "getTerminator X = getTerminator B"
      using jump(1,2) a(3) k by (auto simp: split_at_run_ops [OF sp])
    have "d < length blocks" using arity_ok_target [OF jump.prems(2) a(5)] jump(3) o(2) by simp
    then show ?thesis using n jump(3) o by (auto intro: runs.jump [OF a(5)])
  qed
  ultimately show ?case by blast
qed

section \<open>Properties\<close>

text \<open>
  C6: a branch that goes past a block holding only a branch runs to the same outcome, from every block and every environment, and
  it runs to an outcome exactly when the original does. The arguments of the block that is passed are no longer defined on the
  way; nothing but its own branch reads them.
\<close>

theorem pass_through_branch_equivalent:
  assumes "arity_ok blocks" "SimplifyPassThroughBr blocks p = Some t"
  shows "runs nonzero (set_terminator blocks p t) b env st r \<longleftrightarrow> runs nonzero blocks b env st r"
proof -
  obtain succ args ops dest sops where a: "pass_through blocks p succ args ops dest sops"
    "t = BranchOp dest (map (remap_operand args ops) sops)" using SimplifyPassThroughBr_cases [OF assms(2,1)] .
  show ?thesis unfolding a(2) using pass_through_forward [OF _ a(1) refl] pass_through_backward [OF _ a(1) refl] by blast
qed

definition sample_blocks :: "(int, unit) block list" where
  "sample_blocks = [\<lparr>getArguments = [0], block_ops = [], getTerminator = BranchOp 1 [0, 5]\<rparr>,
    \<lparr>getArguments = [1, 2], block_ops = [], getTerminator = BranchOp 2 [2, 1]\<rparr>,
    \<lparr>getArguments = [3, 4], block_ops = [], getTerminator = ReturnOp [3, 4]\<rparr>]"

lemma sample_collapse: "SimplifyPassThroughBr sample_blocks 0 = Some (BranchOp 2 [5, 0])"
  by (simp add: SimplifyPassThroughBr_def collapseBranch_def block_at_def sample_blocks_def used_elsewhere_def remap_operand_def upt_rec)

theorem pass_through_branch_equivalent_witness:
  "runs (\<lambda>v. v \<noteq> 0) (set_terminator sample_blocks 0 (BranchOp 2 [5, 0])) 0 int () (Returned [5, 0] ())"
proof -
  have "arity_ok sample_blocks" by (simp add: arity_ok_def sample_blocks_def)
  moreover have "runs (\<lambda>v. v \<noteq> 0) sample_blocks 0 int () (Returned [5, 0] ())"
    by (subst runs.simps, simp add: sample_blocks_def block_at_def, subst runs.simps, simp add: block_at_def,
      subst runs.simps, simp add: block_at_def assign_def)
  ultimately show ?thesis using pass_through_branch_equivalent [OF _ sample_collapse] by blast
qed

text \<open>
  A conditional branch on a constant, or with equal targets and operands, runs as the unconditional branch that replaces it.
\<close>

theorem cond_branch_simplified_equivalent:
  assumes "SimplifyConstCondBranchPred consts nonzero blocks p = Some t \<or> SimplifySameTargetCondBranchOp blocks p = Some t"
    and "defines_no_const consts blocks" "holds_consts consts env"
  shows "runs nonzero (set_terminator blocks p t) b env st r \<longleftrightarrow> runs nonzero blocks b env st r"
proof -
  obtain B where B: "block_at blocks p = Some B"
    using assms(1) by (auto simp: SimplifyConstCondBranchPred_def SimplifySameTargetCondBranchOp_def split: option.splits)
  have "run_terminator nonzero (getTerminator B) env st = run_terminator nonzero t env st" if "holds_consts consts env" for env st
    using assms(1) B that
    by (auto simp: SimplifyConstCondBranchPred_def SimplifySameTargetCondBranchOp_def holds_consts_def
        split: option.splits terminator.splits if_splits)
  then have "list_all2 (same_block nonzero (holds_consts consts)) blocks (set_terminator blocks p t)"
    using defines_no_const_keeps [OF assms(2)] B by (intro same_block_set_terminator)
  then show ?thesis using runs_same_flow_iff assms(3) by metis
qed

definition sample_cond_blocks :: "(int, unit) block list" where
  "sample_cond_blocks = [\<lparr>getArguments = [], block_ops = [], getTerminator = CondBranchOp 7 1 [7] 2 []\<rparr>,
    \<lparr>getArguments = [3], block_ops = [], getTerminator = ReturnOp [3]\<rparr>,
    \<lparr>getArguments = [], block_ops = [], getTerminator = ReturnOp []\<rparr>]"

theorem cond_branch_simplified_equivalent_witness:
  "runs (\<lambda>v. v \<noteq> 0) (set_terminator sample_cond_blocks 0 (BranchOp 1 [7])) 0 int () (Returned [7] ())"
proof -
  have c: "SimplifyConstCondBranchPred [7 \<mapsto> 7] (\<lambda>v. v \<noteq> 0) sample_cond_blocks 0 = Some (BranchOp 1 [7])"
    by (simp add: SimplifyConstCondBranchPred_def block_at_def sample_cond_blocks_def)
  have "defines_no_const [7 \<mapsto> 7] sample_cond_blocks" "holds_consts [7 \<mapsto> 7] int"
    by (simp_all add: defines_no_const_def sample_cond_blocks_def holds_consts_def)
  moreover have "runs (\<lambda>v. v \<noteq> 0) sample_cond_blocks 0 int () (Returned [7] ())"
    by (subst runs.simps, simp add: sample_cond_blocks_def block_at_def, subst runs.simps, simp add: block_at_def assign_def)
  ultimately show ?thesis using cond_branch_simplified_equivalent [OF disjI1 [OF c]] by blast
qed

text \<open>
  C19: splitting a block at a conditional failure, with a branch to a block that fails, keeps every outcome of the function.
\<close>

theorem cond_fail_rewrite_equivalent:
  assumes "arity_ok blocks" "RewriteCondFailToBranchFail arg blocks p k = Some blocks'" "b < length blocks"
  shows "runs nonzero blocks' b env st r \<longleftrightarrow> runs nonzero blocks b env st r"
proof -
  obtain B pre c s post where sp: "split_at arg blocks blocks' p B pre c s post" using RewriteCondFail_split [OF assms(2)] .
  show ?thesis using split_at_forward [OF _ sp] split_at_backward [OF _ sp assms(1)] assms(3) by blast
qed

definition sample_fail_blocks :: "(int, unit) block list" where
  "sample_fail_blocks = [\<lparr>getArguments = [], block_ops = [CondFailOp 1 9, CondFailOp 0 8], getTerminator = ReturnOp []\<rparr>]"

definition sample_fail_rewritten :: "(int, unit) block list" where
  "sample_fail_rewritten = [\<lparr>getArguments = [], block_ops = [], getTerminator = CondBranchOp 1 1 [9] 2 []\<rparr>,
    \<lparr>getArguments = [4], block_ops = [], getTerminator = FailOp 4\<rparr>,
    \<lparr>getArguments = [], block_ops = [CondFailOp 0 8], getTerminator = ReturnOp []\<rparr>]"

theorem cond_fail_rewrite_equivalent_witness:
  "RewriteCondFailToBranchFail 4 sample_fail_blocks 0 0 = Some sample_fail_rewritten \<and>
    runs (\<lambda>v. v \<noteq> 0) sample_fail_rewritten 0 int () (Failed 9 ())"
proof -
  have c: "RewriteCondFailToBranchFail 4 sample_fail_blocks 0 0 = Some sample_fail_rewritten"
    by (simp add: RewriteCondFailToBranchFail_def block_at_def sample_fail_blocks_def sample_fail_rewritten_def Let_def)
  have "arity_ok sample_fail_blocks" "0 < length sample_fail_blocks" by (simp_all add: arity_ok_def sample_fail_blocks_def)
  moreover have "runs (\<lambda>v. v \<noteq> 0) sample_fail_blocks 0 int () (Failed 9 ())"
    by (subst runs.simps) (simp add: sample_fail_blocks_def block_at_def)
  ultimately show ?thesis using cond_fail_rewrite_equivalent [OF _ c] c by blast
qed

end
